(* ===== verification/Prelude.thy ===== *)
theory Prelude
  imports Complex_Main "HOL-Library.Word"
begin

section \<open>Prelude: Go values, strings and generic machines\<close>

text \<open>
  What every component theory shares: the results of fallible Go functions, the
  64-bit signed integers with their wrap-around written out, instants and durations,
  the byte-string functions of Go's \<open>strings\<close> and \<open>strconv\<close> packages the program
  calls, and two locales for components that are driven by a sequence of operations:
  \<open>machine\<close> (an invariant every operation keeps) and \<open>simulation\<close> (a machine that
  implements an abstract one).
\<close>

named_theorems time_simps "constants of the time package"

text \<open>The conversion of a float64 to an integer truncates; floats are rationals here.\<close>

definition truncate_rat :: "rat \<Rightarrow> int" where
  "truncate_rat x = (if 0 \<le> x then \<lfloor>x\<rfloor> else \<lceil>x\<rceil>)"

subsection \<open>Results\<close>

text \<open>
  A Go function with result type \<open>(T, error)\<close> either returns a value, returns an error
  or panics.
\<close>

datatype ('e, 'a) res = Ok 'a | Err 'e | Panic string

fun is_Ok :: "('e, 'a) res \<Rightarrow> bool" where
  "is_Ok (Ok _) = True"
| "is_Ok _ = False"

fun res_bind :: "('e, 'a) res \<Rightarrow> ('a \<Rightarrow> ('e, 'b) res) \<Rightarrow> ('e, 'b) res" where
  "res_bind (Ok a) f = f a"
| "res_bind (Err e) f = Err e"
| "res_bind (Panic m) f = Panic m"

lemma res_bind_Ok_iff: "res_bind r f = Ok b \<longleftrightarrow> (\<exists>a. r = Ok a \<and> f a = Ok b)"
  by (cases r) auto

subsection \<open>Signed 64-bit integers\<close>

text \<open>
  Go's \<open>int\<close>, \<open>int64\<close> and \<open>time.Duration\<close> are two's complement words of 64 bits. They
  are modelled by \<open>int\<close>, and every addition or subtraction that the code performs goes
  through \<^term>\<open>wrap64\<close>.
\<close>

type_synonym i64 = int

abbreviation max64 :: i64 where "max64 \<equiv> 9223372036854775807"
abbreviation min64 :: i64 where "min64 \<equiv> - 9223372036854775808"

definition in64 :: "int \<Rightarrow> bool" where
  "in64 x \<longleftrightarrow> min64 \<le> x \<and> x \<le> max64"

definition wrap64 :: "int \<Rightarrow> i64" where
  "wrap64 x = (x + 9223372036854775808) mod 18446744073709551616 - 9223372036854775808"

definition add64 :: "i64 \<Rightarrow> i64 \<Rightarrow> i64" where
  "add64 a b = wrap64 (a + b)"

definition sub64 :: "i64 \<Rightarrow> i64 \<Rightarrow> i64" where
  "sub64 a b = wrap64 (a - b)"

definition mul64 :: "i64 \<Rightarrow> i64 \<Rightarrow> i64" where
  "mul64 a b = wrap64 (a * b)"

text \<open>Go's integer division truncates towards zero; the caller excludes a zero divisor.\<close>

definition quot64 :: "i64 \<Rightarrow> i64 \<Rightarrow> i64" where
  "quot64 a b = wrap64 (sgn a * sgn b * (\<bar>a\<bar> div \<bar>b\<bar>))"

text \<open>Clamping, as \<open>Time.Sub\<close> does when a difference does not fit a Duration.\<close>

definition sat64 :: "int \<Rightarrow> i64" where
  "sat64 x = max min64 (min max64 x)"

lemma wrap64_id [simp]: "in64 x \<Longrightarrow> wrap64 x = x"
  by (simp add: in64_def wrap64_def)

lemma in64_wrap64 [simp]: "in64 (wrap64 x)"
proof -
  have "0 \<le> (x + 9223372036854775808) mod 18446744073709551616"
    and "(x + 9223372036854775808) mod 18446744073709551616 < 18446744073709551616"
    by simp_all
  then show ?thesis unfolding in64_def wrap64_def by linarith
qed

lemma wrap64_wrap64_add [simp]: "wrap64 (wrap64 x + y) = wrap64 (x + y)"
proof -
  have "wrap64 x + y + 9223372036854775808
      = (x + 9223372036854775808) mod 18446744073709551616 + y"
    by (simp add: wrap64_def)
  then have "(wrap64 x + y + 9223372036854775808) mod 18446744073709551616
      = (x + 9223372036854775808 + y) mod 18446744073709551616"
    by (simp only: mod_add_left_eq)
  then show ?thesis
    unfolding wrap64_def [of "wrap64 x + y"] wrap64_def [of "x + y"] by (simp add: ac_simps)
qed

lemma add64_exact: "in64 (a + b) \<Longrightarrow> add64 a b = a + b"
  by (simp add: add64_def)

lemma sub64_exact: "in64 (a - b) \<Longrightarrow> sub64 a b = a - b"
  by (simp add: sub64_def)

lemma mul64_exact: "in64 (a * b) \<Longrightarrow> mul64 a b = a * b"
  by (simp add: mul64_def)

lemma in64_add64 [simp]: "in64 (add64 a b)"
  by (simp add: add64_def)

lemma in64_sub64 [simp]: "in64 (sub64 a b)"
  by (simp add: sub64_def)

lemma sat64_id [simp]: "in64 x \<Longrightarrow> sat64 x = x"
  by (auto simp: in64_def sat64_def)

lemma in64_sat64 [simp]: "in64 (sat64 x)"
  by (auto simp: in64_def sat64_def)

lemma sat64_less_iff: "min64 < d \<Longrightarrow> d \<le> max64 \<Longrightarrow> sat64 x < d \<longleftrightarrow> x < d"
  by (auto simp: sat64_def max_def min_def)

lemma sat64_ge_iff: "min64 < d \<Longrightarrow> d \<le> max64 \<Longrightarrow> d \<le> sat64 x \<longleftrightarrow> d \<le> x"
  by (auto simp: sat64_def max_def min_def)

lemma quot64_pos: "0 \<le> a \<Longrightarrow> 0 < b \<Longrightarrow> in64 a \<Longrightarrow> quot64 a b = a div b"
proof -
  assume a: "0 \<le> a" and b: "0 < b" and i: "in64 a"
  have "a div b \<le> a" using a b by (metis div_by_1 zdiv_mono2 int_one_le_iff_zero_less zero_less_one)
  moreover have "0 \<le> a div b" using a b by (simp add: pos_imp_zdiv_nonneg_iff)
  ultimately have "in64 (a div b)" using i by (auto simp: in64_def)
  moreover have "sgn a * sgn b * (\<bar>a\<bar> div \<bar>b\<bar>) = a div b"
    using a b by (cases "a = 0") auto
  ultimately show ?thesis by (simp add: quot64_def)
qed

subsection \<open>Instants and durations\<close>

text \<open>
  An instant is the number of nanoseconds since the Unix epoch, a duration a signed
  64-bit number of nanoseconds. A Go \<open>time.Time\<close> that was never assigned is the first
  of January of the year 1. Operations take the reading of \<open>time.Now()\<close> as an argument.
\<close>

type_synonym time = int
type_synonym duration = i64

definition millisecond :: duration where "millisecond = 1000000"
definition second :: duration where "second = 1000000000"
definition minute :: duration where "minute = 60000000000"
definition hour :: duration where "hour = 3600000000000"
definition time_zero :: time where "time_zero = - 62135596800000000000"

lemmas [time_simps] = millisecond_def second_def minute_def hour_def time_zero_def

text \<open>\<open>t.Sub(u)\<close>, and \<open>time.Since(u)\<close> at the reading \<open>t\<close>.\<close>

definition time_sub :: "time \<Rightarrow> time \<Rightarrow> duration" where
  "time_sub t u = sat64 (t - u)"

definition time_after :: "time \<Rightarrow> time \<Rightarrow> bool" where
  "time_after t u \<longleftrightarrow> u < t"

lemma time_sub_less_iff:
  "min64 < d \<Longrightarrow> d \<le> max64 \<Longrightarrow> time_sub t u < d \<longleftrightarrow> t < u + d"
  by (auto simp: time_sub_def sat64_less_iff)

lemma time_sub_ge_iff:
  "min64 < d \<Longrightarrow> d \<le> max64 \<Longrightarrow> d \<le> time_sub t u \<longleftrightarrow> u + d \<le> t"
  by (auto simp: time_sub_def sat64_ge_iff)

lemma in64_minute [simp]: "in64 minute" "in64 (5 * minute)"
  by (simp_all add: in64_def minute_def)

subsection \<open>Byte strings\<close>

text \<open>
  A Go string is a sequence of bytes, as is an Isabelle \<^typ>\<open>string\<close>. The case and
  space functions treat ASCII, which is all the program's own keywords use.
\<close>

definition has_prefix :: "string \<Rightarrow> string \<Rightarrow> bool" where
  "has_prefix s p \<longleftrightarrow> take (length p) s = p"

definition has_suffix :: "string \<Rightarrow> string \<Rightarrow> bool" where
  "has_suffix s p \<longleftrightarrow> length p \<le> length s \<and> drop (length s - length p) s = p"

definition trim_prefix :: "string \<Rightarrow> string \<Rightarrow> string" where
  "trim_prefix s p = (if has_prefix s p then drop (length p) s else s)"

definition trim_suffix :: "string \<Rightarrow> string \<Rightarrow> string" where
  "trim_suffix s p = (if has_suffix s p then take (length s - length p) s else s)"

fun str_index :: "string \<Rightarrow> string \<Rightarrow> nat option" where
  "str_index [] p = (if p = [] then Some 0 else None)"
| "str_index (c # cs) p =
     (if has_prefix (c # cs) p then Some 0 else map_option Suc (str_index cs p))"

definition str_contains :: "string \<Rightarrow> string \<Rightarrow> bool" where
  "str_contains s p \<longleftrightarrow> str_index s p \<noteq> None"

definition byte_lower :: "char \<Rightarrow> char" where
  "byte_lower c = (let n = of_char c :: nat in
     if 65 \<le> n \<and> n \<le> 90 then char_of (n + 32) else c)"

definition byte_upper :: "char \<Rightarrow> char" where
  "byte_upper c = (let n = of_char c :: nat in
     if 97 \<le> n \<and> n \<le> 122 then char_of (n - 32) else c)"

definition to_lower :: "string \<Rightarrow> string" where "to_lower = map byte_lower"
definition to_upper :: "string \<Rightarrow> string" where "to_upper = map byte_upper"

definition is_space :: "char \<Rightarrow> bool" where
  "is_space c \<longleftrightarrow> (let n = of_char c :: nat in (9 \<le> n \<and> n \<le> 13) \<or> n = 32)"

definition trim_space :: "string \<Rightarrow> string" where
  "trim_space s = rev (dropWhile is_space (rev (dropWhile is_space s)))"

text \<open>\<open>strings.SplitN(s, sep, 2)\<close>: the text before and after the first separator.\<close>

definition split2 :: "string \<Rightarrow> string \<Rightarrow> string list" where
  "split2 s sep = (case str_index s sep of
       None \<Rightarrow> [s]
     | Some i \<Rightarrow> [take i s, drop (i + length sep) s])"

text \<open>\<open>strings.Split(s, sep)\<close> for a separator of one byte.\<close>

fun split_on :: "char \<Rightarrow> string \<Rightarrow> string list" where
  "split_on d [] = [[]]"
| "split_on d (c # cs) = (if c = d then [] # split_on d cs
     else case split_on d cs of (w # ws) \<Rightarrow> (c # w) # ws | [] \<Rightarrow> [[c]])"

lemma has_prefix_append [simp]: "has_prefix (p @ s) p"
  by (simp add: has_prefix_def)

lemma has_prefix_Nil [simp]: "has_prefix s []"
  by (simp add: has_prefix_def)

lemma has_prefix_Cons [simp]:
  "has_prefix [] (d # p) = False" "has_prefix (c # s) (d # p) \<longleftrightarrow> c = d \<and> has_prefix s p"
  by (auto simp: has_prefix_def)

lemma has_prefix_iff: "has_prefix s p \<longleftrightarrow> (\<exists>t. s = p @ t)"
  by (metis append_take_drop_id has_prefix_append has_prefix_def)

lemma trim_prefix_append [simp]: "trim_prefix (p @ s) p = s"
  by (simp add: trim_prefix_def)

lemma has_suffix_append [simp]: "has_suffix (s @ p) p"
  by (simp add: has_suffix_def)

lemma trim_suffix_append [simp]: "trim_suffix (s @ p) p = s"
  by (simp add: trim_suffix_def)

lemma length_to_upper [simp]: "length (to_upper s) = length s"
  by (simp add: to_upper_def)

lemma length_to_lower [simp]: "length (to_lower s) = length s"
  by (simp add: to_lower_def)

lemma byte_lower_byte_lower [simp]: "byte_lower (byte_lower c) = byte_lower c"
  by (auto simp: byte_lower_def Let_def)

lemma to_lower_to_lower [simp]: "to_lower (to_lower s) = to_lower s"
  by (simp add: to_lower_def)

lemma trim_space_trim_space [simp]: "trim_space (trim_space s) = trim_space s"
proof -
  let ?d = "dropWhile is_space s" and ?t = "trim_space s"
  have t: "?t = rev (dropWhile is_space (rev ?d))" by (simp add: trim_space_def)
  have "?d = ?t @ rev (takeWhile is_space (rev ?d))"
    unfolding t by (metis rev_append rev_rev_ident takeWhile_dropWhile_id)
  then have "?t \<noteq> [] \<Longrightarrow> \<not> is_space (hd ?t)" by (metis append_is_Nil_conv hd_append2 hd_dropWhile)
  then have "dropWhile is_space ?t = ?t" by (cases "?t") simp_all
  then show ?thesis by (simp add: trim_space_def dropWhile_idem)
qed

subsection \<open>Runes\<close>

text \<open>
  \<open>utf8.RuneCountInString\<close>, by which \<open>fmt\<close> measures a string that it pads: a well-formed
  encoding of two to four bytes is one rune, any other byte is a rune of its own. The
  second byte of an encoding has a range of its own after some first bytes.
\<close>

definition byte_in :: "nat \<Rightarrow> nat \<Rightarrow> char \<Rightarrow> bool" where
  "byte_in lo hi c \<longleftrightarrow> lo \<le> of_char c \<and> of_char c \<le> hi"

definition rune_need :: "char \<Rightarrow> nat" where
  "rune_need c = (if byte_in 0xC2 0xDF c then 1 else if byte_in 0xE0 0xEF c then 2
     else if byte_in 0xF0 0xF4 c then 3 else 0)"

definition second_byte :: "char \<Rightarrow> char \<Rightarrow> bool" where
  "second_byte c = (let n = of_char c :: nat in
     if n = 0xE0 then byte_in 0xA0 0xBF else if n = 0xED then byte_in 0x80 0x9F
     else if n = 0xF0 then byte_in 0x90 0xBF else if n = 0xF4 then byte_in 0x80 0x8F
     else byte_in 0x80 0xBF)"

text \<open>How many bytes after the first one belong to the rune.\<close>

definition rune_tail :: "char \<Rightarrow> string \<Rightarrow> nat" where
  "rune_tail c s = (let k = rune_need c in
     if 0 < k \<and> k \<le> length s \<and> second_byte c (s ! 0) \<and> list_all (byte_in 0x80 0xBF) (take k s)
     then k else 0)"

fun rune_count :: "string \<Rightarrow> nat" where
  "rune_count [] = 0"
| "rune_count (c # s) = Suc (rune_count (drop (rune_tail c s) s))"

abbreviation ascii :: "char \<Rightarrow> bool" where "ascii c \<equiv> (of_char c :: nat) < 128"

lemma rune_tail_ascii [simp]: "ascii c \<Longrightarrow> rune_tail c s = 0"
  by (simp add: rune_tail_def rune_need_def byte_in_def)

lemma rune_count_ascii: "list_all ascii s \<Longrightarrow> rune_count s = length s"
  by (induction s) auto

lemma rune_count_le: "rune_count s \<le> length s"
  by (induction s rule: rune_count.induct) auto

text \<open>An ASCII byte is never a part of the rune before it.\<close>

lemma rune_tail_append:
  assumes "ascii d"
  shows "rune_tail c (s @ d # t) = rune_tail c s \<and> rune_tail c s \<le> length s"
proof (cases "rune_need c \<le> length s")
  case True
  then have "take (rune_need c) (s @ d # t) = take (rune_need c) s" by simp
  moreover have "0 < rune_need c \<Longrightarrow> (s @ d # t) ! 0 = s ! 0" using True by (cases s) simp_all
  ultimately show ?thesis using True by (auto simp: rune_tail_def Let_def simp del: take_append)
next
  case False
  then have "d \<in> set (take (rune_need c) (s @ d # t))"
    by (cases "rune_need c - length s") simp_all
  moreover have "\<not> byte_in 0x80 0xBF d" using assms by (simp add: byte_in_def)
  ultimately have "\<not> list_all (byte_in 0x80 0xBF) (take (rune_need c) (s @ d # t))"
    by (auto simp: list_all_iff)
  with False show ?thesis by (auto simp: rune_tail_def Let_def)
qed

lemma rune_count_append:
  "ascii d \<Longrightarrow> rune_count (s @ d # t) = rune_count s + rune_count (d # t)"
proof (induction s rule: rune_count.induct)
  case (2 c s)
  with rune_tail_append [OF 2(2), of c s t] show ?case by simp
qed simp

text \<open>\<open>%-*s\<close>: padding on the right up to a number of runes.\<close>

definition pad_right :: "nat \<Rightarrow> string \<Rightarrow> string" where
  "pad_right n s = s @ replicate (n - rune_count s) CHR '' ''"

lemma rune_count_spaces: "rune_count (replicate n CHR '' '') = n"
  using rune_count_ascii [of "replicate n CHR '' ''"] by (simp add: list_all_iff)

lemma rune_count_padded: "rune_count s \<le> n \<Longrightarrow> rune_count (pad_right n s) = n"
proof (cases "n - rune_count s")
  case (Suc k)
  moreover assume "rune_count s \<le> n"
  ultimately show ?thesis
    using rune_count_append [of "CHR '' ''" s "replicate k CHR '' ''"] rune_count_spaces [of "Suc k"]
    by (simp add: pad_right_def)
qed (simp add: pad_right_def)

subsection \<open>Decimal numbers\<close>

text \<open>
  \<open>strconv.Itoa\<close> and \<open>strconv.Atoi\<close>: an optional sign and at least one digit, with an
  error (\<^const>\<open>None\<close>) on anything else and on values that do not fit 64 bits.
\<close>

definition digit_char :: "nat \<Rightarrow> char" where
  "digit_char d = char_of (48 + d)"

fun dec_digits :: "nat \<Rightarrow> string" where
  "dec_digits n = (if n < 10 then [digit_char n] else dec_digits (n div 10) @ [digit_char (n mod 10)])"

declare dec_digits.simps [simp del]

definition itoa :: "i64 \<Rightarrow> string" where
  "itoa i = (if i < 0 then CHR ''-'' # dec_digits (nat (- i)) else dec_digits (nat i))"

definition is_digit :: "char \<Rightarrow> bool" where
  "is_digit c \<longleftrightarrow> (let n = of_char c :: nat in 48 \<le> n \<and> n \<le> 57)"

definition digit_val :: "char \<Rightarrow> nat" where
  "digit_val c = (of_char c :: nat) - 48"

definition parse_dec :: "string \<Rightarrow> nat option" where
  "parse_dec s = (if s \<noteq> [] \<and> list_all is_digit s
     then Some (foldl (\<lambda>n c. 10 * n + digit_val c) 0 s) else None)"

definition fit64 :: "int \<Rightarrow> i64 option" where
  "fit64 x = (if in64 x then Some x else None)"

definition atoi :: "string \<Rightarrow> i64 option" where
  "atoi s = (case s of
       [] \<Rightarrow> None
     | c # cs \<Rightarrow>
         if c = CHR ''-'' then Option.bind (parse_dec cs) (\<lambda>n. fit64 (- int n))
         else if c = CHR ''+'' then Option.bind (parse_dec cs) (\<lambda>n. fit64 (int n))
         else Option.bind (parse_dec s) (\<lambda>n. fit64 (int n)))"

lemma of_char_digit_char: "d < 10 \<Longrightarrow> (of_char (digit_char d) :: nat) = 48 + d"
  by (simp add: digit_char_def)

lemma digit_char_props [simp]:
  "d < 10 \<Longrightarrow> is_digit (digit_char d)" "d < 10 \<Longrightarrow> digit_val (digit_char d) = d"
  by (simp_all add: is_digit_def digit_val_def of_char_digit_char)

lemma dec_digits_digits: "dec_digits n \<noteq> [] \<and> list_all is_digit (dec_digits n)"
proof (induction n rule: dec_digits.induct)
  case (1 n)
  then show ?case by (cases "n < 10") (auto simp: dec_digits.simps [of n])
qed

lemma dec_digits_value: "foldl (\<lambda>n c. 10 * n + digit_val c) 0 (dec_digits n) = n"
proof (induction n rule: dec_digits.induct)
  case (1 n)
  then show ?case by (cases "n < 10") (auto simp: dec_digits.simps [of n])
qed

lemma parse_dec_digits [simp]: "parse_dec (dec_digits n) = Some n"
  by (simp add: parse_dec_def dec_digits_digits dec_digits_value)

lemma is_digit_not_sign: "is_digit c \<Longrightarrow> c \<noteq> CHR ''-'' \<and> c \<noteq> CHR ''+''"
  by (auto simp: is_digit_def)

text \<open>Printing a number and parsing it back is the identity on 64-bit integers.\<close>

lemma atoi_itoa [simp]: "in64 i \<Longrightarrow> atoi (itoa i) = Some i"
proof (cases "i < 0")
  case True
  moreover assume "in64 i"
  ultimately show ?thesis by (simp add: itoa_def atoi_def fit64_def)
next
  case False
  assume i: "in64 i"
  obtain c cs where d: "dec_digits (nat i) = c # cs" and c: "is_digit c"
    using dec_digits_digits [of "nat i"] by (cases "dec_digits (nat i)") auto
  have "parse_dec (c # cs) = Some (nat i)" using parse_dec_digits [of "nat i"] d by simp
  with False i d is_digit_not_sign [OF c] show ?thesis
    by (simp add: itoa_def atoi_def fit64_def)
qed

lemma atoi_in64: "atoi s = Some i \<Longrightarrow> in64 i"
  by (auto simp: atoi_def fit64_def split: list.splits if_splits bind_splits)

subsection \<open>Components driven by operations\<close>

text \<open>
  A component is a state and a step function over its operations. The first contract is
  an invariant that every operation keeps; its client lemma lifts it to any run.
\<close>

locale machine =
  fixes step :: "'s \<Rightarrow> 'e \<Rightarrow> 's"
    and inv :: "'s \<Rightarrow> bool"
  assumes step_inv: "inv s \<Longrightarrow> inv (step s e)"
begin

lemma run_inv: "inv s \<Longrightarrow> inv (foldl step s es)"
  by (induction es arbitrary: s) (auto intro: step_inv)

end

text \<open>
  The second contract adds an abstract machine and says that the concrete one implements
  it, operation by operation; its client lemma is the simulation of whole runs.
\<close>

locale simulation = machine step inv
  for step :: "'s \<Rightarrow> 'e \<Rightarrow> 's" and inv :: "'s \<Rightarrow> bool" +
  fixes abs :: "'s \<Rightarrow> 'a"
    and astep :: "'a \<Rightarrow> 'e \<Rightarrow> 'a"
  assumes simulates: "inv s \<Longrightarrow> abs (step s e) = astep (abs s) e"
begin

lemma run_simulates: "inv s \<Longrightarrow> abs (foldl step s es) = foldl astep (abs s) es"
  by (induction es arbitrary: s) (simp_all add: simulates step_inv)

end

end
