(* ===== verification/Circuit.thy ===== *)
theory Circuit
  imports Prelude
begin

section \<open>Circuit breakers (internal/circuit/circuit.go)\<close>

text \<open>
  The breaker of one server and the manager that keeps one breaker per server name. Each
  operation of the code runs under the breaker's mutex and is one function here, with the
  reading of the clock as its first argument. The abstract machine \<open>spec_step\<close> keeps only
  what the protocol needs: the length of the current run of failures, the instant until
  which requests are refused, and the number of successful trial requests.
\<close>

subsection \<open>The breaker\<close>

datatype cb_state = StateClosed | StateOpen | StateHalfOpen

fun state_string :: "cb_state \<Rightarrow> string" where
  "state_string StateClosed = ''CLOSED''"
| "state_string StateOpen = ''OPEN''"
| "state_string StateHalfOpen = ''HALF_OPEN''"

record breaker =
  br_name :: string
  br_state :: cb_state
  br_failures :: i64
  br_successes :: i64
  br_threshold :: i64
  br_success_threshold :: i64
  br_timeout :: duration
  br_last_failure :: time
  br_last_state_change :: time

definition new_breaker :: "time \<Rightarrow> string \<Rightarrow> i64 \<Rightarrow> i64 \<Rightarrow> duration \<Rightarrow> breaker" where
  "new_breaker now name threshold success_threshold timeout =
     \<lparr>br_name = name, br_state = StateClosed, br_failures = 0, br_successes = 0,
      br_threshold = threshold, br_success_threshold = success_threshold,
      br_timeout = timeout, br_last_failure = time_zero, br_last_state_change = now\<rparr>"

definition breaker_allow :: "time \<Rightarrow> breaker \<Rightarrow> bool \<times> breaker" where
  "breaker_allow now b = (case br_state b of
       StateClosed \<Rightarrow> (True, b)
     | StateOpen \<Rightarrow>
         if br_timeout b \<le> time_sub now (br_last_failure b)
         then (True, b\<lparr>br_state := StateHalfOpen, br_last_state_change := now, br_successes := 0\<rparr>)
         else (False, b)
     | StateHalfOpen \<Rightarrow> (True, b))"

definition record_success :: "time \<Rightarrow> breaker \<Rightarrow> breaker" where
  "record_success now b = (case br_state b of
       StateClosed \<Rightarrow> b\<lparr>br_failures := 0\<rparr>
     | StateOpen \<Rightarrow> b
     | StateHalfOpen \<Rightarrow>
         let b = b\<lparr>br_successes := add64 (br_successes b) 1\<rparr> in
         if br_success_threshold b \<le> br_successes b
         then b\<lparr>br_state := StateClosed, br_last_state_change := now,
                br_failures := 0, br_successes := 0\<rparr>
         else b)"

definition record_failure :: "time \<Rightarrow> breaker \<Rightarrow> breaker" where
  "record_failure now b =
     (let b = b\<lparr>br_failures := add64 (br_failures b) 1, br_last_failure := now\<rparr> in
      case br_state b of
        StateClosed \<Rightarrow>
          if br_threshold b \<le> br_failures b
          then b\<lparr>br_state := StateOpen, br_last_state_change := now\<rparr> else b
      | StateOpen \<Rightarrow> b
      | StateHalfOpen \<Rightarrow> b\<lparr>br_state := StateOpen, br_last_state_change := now\<rparr>)"

definition breaker_reset :: "time \<Rightarrow> breaker \<Rightarrow> breaker" where
  "breaker_reset now b =
     b\<lparr>br_state := StateClosed, br_failures := 0, br_successes := 0, br_last_state_change := now\<rparr>"

record breaker_stats =
  bs_name :: string
  bs_state :: string
  bs_failures :: i64
  bs_successes :: i64
  bs_last_failure :: time
  bs_last_state_change :: time

definition breaker_stats_of :: "breaker \<Rightarrow> breaker_stats" where
  "breaker_stats_of b =
     \<lparr>bs_name = br_name b, bs_state = state_string (br_state b), bs_failures = br_failures b,
      bs_successes = br_successes b, bs_last_failure = br_last_failure b,
      bs_last_state_change = br_last_state_change b\<rparr>"

subsection \<open>The breaker as a machine, and its abstract specification\<close>

datatype br_event = EvAllow time | EvSuccess time | EvFailure time | EvReset time

fun breaker_step :: "breaker \<Rightarrow> br_event \<Rightarrow> breaker" where
  "breaker_step b (EvAllow t) = snd (breaker_allow t b)"
| "breaker_step b (EvSuccess t) = record_success t b"
| "breaker_step b (EvFailure t) = record_failure t b"
| "breaker_step b (EvReset t) = breaker_reset t b"

datatype cb_spec = Closed_run nat | Open_until time | Trial nat

fun spec_step :: "i64 \<Rightarrow> i64 \<Rightarrow> duration \<Rightarrow> cb_spec \<Rightarrow> br_event \<Rightarrow> cb_spec" where
  "spec_step th sth to (Open_until u) (EvAllow t) = (if u \<le> t then Trial 0 else Open_until u)"
| "spec_step th sth to s (EvAllow t) = s"
| "spec_step th sth to (Closed_run n) (EvSuccess t) = Closed_run 0"
| "spec_step th sth to (Open_until u) (EvSuccess t) = Open_until u"
| "spec_step th sth to (Trial n) (EvSuccess t) =
     (if sth \<le> int n + 1 then Closed_run 0 else Trial (Suc n))"
| "spec_step th sth to (Closed_run n) (EvFailure t) =
     (if th \<le> int n + 1 then Open_until (t + to) else Closed_run (Suc n))"
| "spec_step th sth to (Open_until u) (EvFailure t) = Open_until (t + to)"
| "spec_step th sth to (Trial n) (EvFailure t) = Open_until (t + to)"
| "spec_step th sth to s (EvReset t) = Closed_run 0"

definition breaker_abs :: "breaker \<Rightarrow> cb_spec" where
  "breaker_abs b = (case br_state b of
       StateClosed \<Rightarrow> Closed_run (nat (br_failures b))
     | StateOpen \<Rightarrow> Open_until (br_last_failure b + br_timeout b)
     | StateHalfOpen \<Rightarrow> Trial (nat (br_successes b)))"

definition breaker_inv :: "i64 \<Rightarrow> i64 \<Rightarrow> duration \<Rightarrow> breaker \<Rightarrow> bool" where
  "breaker_inv th sth to b \<longleftrightarrow>
     br_threshold b = th \<and> br_success_threshold b = sth \<and> br_timeout b = to \<and>
     in64 th \<and> in64 sth \<and> min64 < to \<and> to \<le> max64 \<and>
     (br_state b = StateClosed \<longrightarrow> 0 \<le> br_failures b \<and> br_failures b < max 1 th) \<and>
     (br_state b = StateHalfOpen \<longrightarrow> 0 \<le> br_successes b \<and> br_successes b < max 1 sth)"

lemmas breaker_ops = breaker_allow_def record_success_def record_failure_def breaker_reset_def

lemma counter_add64: "0 \<le> x \<Longrightarrow> x < max 1 th \<Longrightarrow> in64 th \<Longrightarrow> add64 x 1 = x + 1"
  by (rule add64_exact) (auto simp: in64_def max_def split: if_splits)

lemma breaker_inv_new:
  "in64 th \<Longrightarrow> in64 sth \<Longrightarrow> min64 < to \<Longrightarrow> to \<le> max64 \<Longrightarrow>
   breaker_inv th sth to (new_breaker now name th sth to)"
  by (simp add: breaker_inv_def new_breaker_def)

lemma breaker_step_inv: "breaker_inv th sth to b \<Longrightarrow> breaker_inv th sth to (breaker_step b e)"
proof (cases e)
  case (EvAllow t)
  assume "breaker_inv th sth to b"
  with EvAllow show ?thesis
    by (auto simp: breaker_inv_def breaker_allow_def split: cb_state.splits)
next
  case (EvSuccess t)
  assume inv: "breaker_inv th sth to b"
  show ?thesis
  proof (cases "br_state b")
    case StateHalfOpen
    with inv have "add64 (br_successes b) 1 = br_successes b + 1"
      by (intro counter_add64 [of _ sth]) (auto simp: breaker_inv_def)
    with inv EvSuccess StateHalfOpen show ?thesis
      by (auto simp: breaker_inv_def record_success_def Let_def)
  qed (use inv EvSuccess in \<open>auto simp: breaker_inv_def record_success_def\<close>)
next
  case (EvFailure t)
  assume inv: "breaker_inv th sth to b"
  show ?thesis
  proof (cases "br_state b")
    case StateClosed
    with inv have "add64 (br_failures b) 1 = br_failures b + 1"
      by (intro counter_add64 [of _ th]) (auto simp: breaker_inv_def)
    with inv EvFailure StateClosed show ?thesis
      by (auto simp: breaker_inv_def record_failure_def Let_def)
  qed (use inv EvFailure in \<open>auto simp: breaker_inv_def record_failure_def Let_def\<close>)
next
  case (EvReset t)
  assume "breaker_inv th sth to b"
  with EvReset show ?thesis by (auto simp: breaker_inv_def breaker_reset_def)
qed

lemma breaker_simulates:
  assumes inv: "breaker_inv th sth to b"
  shows "breaker_abs (breaker_step b e) = spec_step th sth to (breaker_abs b) e"
proof (cases e)
  case (EvAllow t)
  have "br_timeout b \<le> time_sub t (br_last_failure b) \<longleftrightarrow> br_last_failure b + br_timeout b \<le> t"
    using inv by (intro time_sub_ge_iff) (auto simp: breaker_inv_def)
  with EvAllow show ?thesis
    by (cases "br_state b") (auto simp: breaker_abs_def breaker_allow_def)
next
  case (EvSuccess t)
  show ?thesis
  proof (cases "br_state b")
    case StateHalfOpen
    with inv have "add64 (br_successes b) 1 = br_successes b + 1"
      by (intro counter_add64 [of _ sth]) (auto simp: breaker_inv_def)
    with inv EvSuccess StateHalfOpen show ?thesis
      by (auto simp: breaker_inv_def breaker_abs_def record_success_def Let_def nat_add_distrib)
  qed (use EvSuccess in \<open>auto simp: breaker_abs_def record_success_def\<close>)
next
  case (EvFailure t)
  show ?thesis
  proof (cases "br_state b")
    case StateClosed
    with inv have "add64 (br_failures b) 1 = br_failures b + 1"
      by (intro counter_add64 [of _ th]) (auto simp: breaker_inv_def)
    with inv EvFailure StateClosed show ?thesis
      by (auto simp: breaker_inv_def breaker_abs_def record_failure_def Let_def nat_add_distrib)
  qed (use inv EvFailure in \<open>auto simp: breaker_inv_def breaker_abs_def record_failure_def Let_def\<close>)
next
  case (EvReset t)
  then show ?thesis by (cases "breaker_abs b") (auto simp: breaker_abs_def breaker_reset_def)
qed

interpretation cb: simulation breaker_step "breaker_inv th sth to" breaker_abs "spec_step th sth to"
  for th sth to
  by unfold_locales (auto intro: breaker_step_inv breaker_simulates)

text \<open>
  What the callers are told: the answers of the Allow calls of a sequence of events, given
  by the breaker and by the specification (which refuses exactly before the instant
  \<open>Open_until\<close> carries).
\<close>

fun breaker_answers :: "breaker \<Rightarrow> br_event list \<Rightarrow> bool list" where
  "breaker_answers b [] = []"
| "breaker_answers b (e # es) =
     (case e of EvAllow t \<Rightarrow> [fst (breaker_allow t b)] | _ \<Rightarrow> []) @ breaker_answers (breaker_step b e) es"

fun spec_allows :: "cb_spec \<Rightarrow> time \<Rightarrow> bool" where
  "spec_allows (Closed_run n) t = True"
| "spec_allows (Open_until u) t = (u \<le> t)"
| "spec_allows (Trial n) t = True"

fun spec_answers :: "i64 \<Rightarrow> i64 \<Rightarrow> duration \<Rightarrow> cb_spec \<Rightarrow> br_event list \<Rightarrow> bool list" where
  "spec_answers th sth to s [] = []"
| "spec_answers th sth to s (e # es) =
     (case e of EvAllow t \<Rightarrow> [spec_allows s t] | _ \<Rightarrow> [])
       @ spec_answers th sth to (spec_step th sth to s e) es"

lemma breaker_allow_spec:
  "breaker_inv th sth to b \<Longrightarrow> fst (breaker_allow t b) = spec_allows (breaker_abs b) t"
  using time_sub_ge_iff [of to t "br_last_failure b"]
  by (auto simp: breaker_inv_def breaker_abs_def breaker_allow_def split: cb_state.splits)

lemma breaker_answers_spec:
  "breaker_inv th sth to b \<Longrightarrow> breaker_answers b es = spec_answers th sth to (breaker_abs b) es"
proof (induction es arbitrary: b)
  case (Cons e es)
  have "breaker_answers (breaker_step b e) es
      = spec_answers th sth to (spec_step th sth to (breaker_abs b) e) es"
    using Cons.IH [OF breaker_step_inv [OF Cons.prems]] breaker_simulates [OF Cons.prems] by simp
  with breaker_allow_spec [OF Cons.prems] show ?case by (simp split: br_event.split)
qed simp

subsection \<open>Properties of one breaker\<close>

text \<open>
  C1: A breaker driven by any sequence of Allow, RecordSuccess, RecordFailure and Reset
  calls behaves as the three-state specification, in its state and in every answer it gives:
  it counts consecutive failures and opens at the threshold; while it is open each Allow
  answers false until the timeout has passed since the last failure, and the first one from
  then on answers true and starts the trial; it counts successful trial requests and closes
  at the success threshold, and a failed trial opens it again.\<close>

theorem breaker_refines_spec:
  assumes "in64 th" and "in64 sth" and "min64 < to" and "to \<le> max64"
  shows "breaker_abs (foldl breaker_step (new_breaker now name th sth to) es)
       = foldl (spec_step th sth to) (Closed_run 0) es
     \<and> breaker_answers (new_breaker now name th sth to) es
       = spec_answers th sth to (Closed_run 0) es"
proof -
  let ?b = "new_breaker now name th sth to"
  have inv: "breaker_inv th sth to ?b" using assms by (rule breaker_inv_new)
  have new: "breaker_abs ?b = Closed_run 0" by (simp add: breaker_abs_def new_breaker_def)
  show ?thesis using cb.run_simulates [OF inv, of es] breaker_answers_spec [OF inv, of es]
    by (simp add: new)
qed

theorem breaker_refines_spec_witness:
  "breaker_abs (foldl breaker_step (new_breaker 0 ''s'' 2 1 100)
      [EvFailure 5, EvFailure 7, EvAllow 50]) = Open_until 107
   \<and> breaker_answers (new_breaker 0 ''s'' 2 1 100)
      [EvFailure 5, EvAllow 6, EvFailure 7, EvAllow 50, EvAllow 107, EvSuccess 108, EvAllow 109]
      = [True, False, True, True]"
proof -
  have h: "in64 2" "in64 1" "min64 < 100" "(100 :: int) \<le> max64" by (simp_all add: in64_def)
  show ?thesis
    using breaker_refines_spec [OF h, of 0 "''s''" "[EvFailure 5, EvFailure 7, EvAllow 50]"]
      breaker_refines_spec [OF h, of 0 "''s''"
        "[EvFailure 5, EvAllow 6, EvFailure 7, EvAllow 50, EvAllow 107, EvSuccess 108, EvAllow 109]"]
    by simp
qed

fun ev_time :: "br_event \<Rightarrow> time" where
  "ev_time (EvAllow t) = t"
| "ev_time (EvSuccess t) = t"
| "ev_time (EvFailure t) = t"
| "ev_time (EvReset t) = t"

fun is_reset :: "br_event \<Rightarrow> bool" where
  "is_reset (EvReset t) = True"
| "is_reset _ = False"

lemma spec_open_step:
  "\<not> is_reset e \<Longrightarrow> u - to \<le> ev_time e \<Longrightarrow> ev_time e < u \<Longrightarrow>
   \<exists>u'. spec_step th sth to (Open_until u) e = Open_until u' \<and> u \<le> u'"
  by (cases e) auto

lemma spec_open_run:
  assumes "\<forall>e \<in> set es. \<not> is_reset e \<and> u - to \<le> ev_time e \<and> ev_time e < u"
  shows "u \<le> v \<Longrightarrow> \<exists>u'. foldl (spec_step th sth to) (Open_until v) es = Open_until u' \<and> u \<le> u'"
  using assms
proof (induction es arbitrary: v)
  case (Cons e es)
  have "\<exists>v'. spec_step th sth to (Open_until v) e = Open_until v' \<and> u \<le> v'"
    using Cons.prems by (cases e) auto
  then obtain v' where "spec_step th sth to (Open_until v) e = Open_until v'" and "u \<le> v'"
    by blast
  with Cons.IH [of v'] Cons.prems show ?case by simp
qed simp

lemma breaker_abs_open_iff:
  "breaker_abs b = Open_until u \<longleftrightarrow> br_state b = StateOpen \<and> u = br_last_failure b + br_timeout b"
  by (auto simp: breaker_abs_def split: cb_state.splits)

text \<open>
  An open breaker lets no request through before its timeout has passed since the
  failure that opened it: whatever Allow, RecordSuccess and RecordFailure calls happen in
  that window, the breaker stays open and Allow answers false.\<close>

theorem open_breaker_refuses:
  assumes inv: "breaker_inv th sth to b" and op: "br_state b = StateOpen"
    and window: "\<forall>e \<in> set es. \<not> is_reset e \<and> br_last_failure b \<le> ev_time e
                   \<and> ev_time e < br_last_failure b + to"
    and t: "t < br_last_failure b + to"
  shows "br_state (foldl breaker_step b es) = StateOpen
       \<and> fst (breaker_allow t (foldl breaker_step b es)) = False"
proof -
  let ?b = "foldl breaker_step b es" and ?u = "br_last_failure b + to"
  have inv': "breaker_inv th sth to ?b" using inv by (rule cb.run_inv)
  have to: "br_timeout b = to" and to': "br_timeout ?b = to"
    using inv inv' by (auto simp: breaker_inv_def)
  have "\<exists>u'. foldl (spec_step th sth to) (Open_until ?u) es = Open_until u' \<and> ?u \<le> u'"
    using window by (intro spec_open_run) auto
  then obtain u' where "foldl (spec_step th sth to) (breaker_abs b) es = Open_until u'"
    and u': "?u \<le> u'" using op to by (auto simp: breaker_abs_def)
  then have "breaker_abs ?b = Open_until u'" using cb.run_simulates [OF inv] by simp
  then have st: "br_state ?b = StateOpen" and "u' = br_last_failure ?b + to"
    by (auto simp: breaker_abs_open_iff to')
  with u' t have "t < br_last_failure ?b + to" by simp
  then have "time_sub t (br_last_failure ?b) < to"
    using inv' by (subst time_sub_less_iff) (auto simp: breaker_inv_def)
  with st to' show ?thesis by (simp add: breaker_allow_def)
qed

theorem open_breaker_refuses_witness:
  "fst (breaker_allow 104 (foldl breaker_step
      (record_failure 5 (new_breaker 0 ''s'' 1 1 100)) [EvSuccess 7, EvAllow 90])) = False"
proof -
  let ?b = "record_failure 5 (new_breaker 0 ''s'' 1 1 100)"
  have b: "breaker_inv 1 1 100 ?b" "br_state ?b = StateOpen" "br_last_failure ?b = 5"
    by (simp_all add: record_failure_def new_breaker_def breaker_inv_def in64_def add64_def)
  then show ?thesis
    using open_breaker_refuses [of 1 1 100 ?b "[EvSuccess 7, EvAllow 90]" 104] by simp
qed

lemma spec_failures:
  "foldl (spec_step th sth to) (Closed_run n) (map EvFailure ts)
     = (if ts = [] \<or> int n + int (length ts) < th then Closed_run (n + length ts)
        else Open_until (last ts + to))"
proof -
  have open_run: "foldl (spec_step th sth to) (Open_until u) (map EvFailure ts)
      = Open_until (if ts = [] then u else last ts + to)" for u ts
    by (induction ts arbitrary: u) auto
  show ?thesis by (induction ts arbitrary: n) (auto simp: open_run)
qed

text \<open>
  A new breaker opens exactly at its threshold: after a run of consecutive failures it
  is still closed while the run is shorter than the threshold and open from then on (a
  threshold below one opens at the first failure).\<close>

theorem breaker_opens_at_threshold:
  assumes "in64 th" and "in64 sth" and "min64 < to" and "to \<le> max64"
  shows "br_state (foldl breaker_step (new_breaker now name th sth to) (map EvFailure ts))
       = (if int (length ts) < max 1 th then StateClosed else StateOpen)"
proof -
  let ?b = "foldl breaker_step (new_breaker now name th sth to) (map EvFailure ts)"
  have "breaker_inv th sth to (new_breaker now name th sth to)"
    using assms by (rule breaker_inv_new)
  then have "breaker_abs ?b = foldl (spec_step th sth to) (Closed_run 0) (map EvFailure ts)"
    by (subst cb.run_simulates) (auto simp: breaker_abs_def new_breaker_def)
  then show ?thesis
    by (cases "ts = []")
       (auto simp: spec_failures breaker_abs_def max_def not_less Suc_le_eq
             split: if_splits cb_state.splits)
qed

theorem breaker_opens_at_threshold_witness:
  "br_state (foldl breaker_step (new_breaker 0 ''s'' 3 2 30000) (map EvFailure [1, 2])) = StateClosed
   \<and> br_state (foldl breaker_step (new_breaker 0 ''s'' 3 2 30000) (map EvFailure [1, 2, 3])) = StateOpen"
proof -
  have h: "in64 3" "in64 2" "min64 < 30000" "(30000 :: int) \<le> max64" by (simp_all add: in64_def)
  show ?thesis
    using breaker_opens_at_threshold [OF h, of 0 "''s''" "[1, 2]"]
      breaker_opens_at_threshold [OF h, of 0 "''s''" "[1, 2, 3]"] by simp
qed

lemma spec_successes:
  "foldl (spec_step th sth to) (Trial n) (map EvSuccess ts)
     = (if ts = [] \<or> int n + int (length ts) < sth then Trial (n + length ts) else Closed_run 0)"
proof -
  have closed_run: "foldl (spec_step th sth to) (Closed_run 0) (map EvSuccess ts) = Closed_run 0" for ts
    by (induction ts) auto
  show ?thesis by (induction ts arbitrary: n) (auto simp: closed_run)
qed

text \<open>
  A breaker recovers: once the timeout has passed, Allow lets a trial request through,
  and the breaker closes again exactly when the configured number of consecutive successes
  has been recorded; a single failure among the trials opens it again.\<close>

theorem breaker_recovers:
  assumes inv: "breaker_inv th sth to b" and op: "br_state b = StateOpen"
    and t: "br_last_failure b + to \<le> t"
  shows "fst (breaker_allow t b) = True
     \<and> br_state (foldl breaker_step b (EvAllow t # map EvSuccess ts))
         = (if int (length ts) < max 1 sth then StateHalfOpen else StateClosed)
     \<and> (int (length ts) < max 1 sth \<longrightarrow>
         br_state (foldl breaker_step b (EvAllow t # map EvSuccess ts @ [EvFailure u])) = StateOpen)"
proof -
  let ?es = "EvAllow t # map EvSuccess ts"
  have to: "br_timeout b = to" using inv by (simp add: breaker_inv_def)
  have "to \<le> time_sub t (br_last_failure b)"
    using inv t by (subst time_sub_ge_iff) (auto simp: breaker_inv_def)
  with op to have al: "fst (breaker_allow t b) = True" by (simp add: breaker_allow_def)
  have "breaker_abs (foldl breaker_step b ?es) = foldl (spec_step th sth to) (Trial 0) (map EvSuccess ts)"
    using op to t by (subst cb.run_simulates [OF inv]) (simp add: breaker_abs_def)
  then have st: "br_state (foldl breaker_step b ?es)
      = (if int (length ts) < max 1 sth then StateHalfOpen else StateClosed)"
    by (cases "ts = []")
       (auto simp: spec_successes breaker_abs_def max_def not_less Suc_le_eq
             split: if_splits cb_state.splits)
  then have "int (length ts) < max 1 sth \<longrightarrow>
      br_state (foldl breaker_step b (EvAllow t # map EvSuccess ts @ [EvFailure u])) = StateOpen"
    by (simp add: record_failure_def Let_def)
  with al st show ?thesis by blast
qed

theorem breaker_recovers_witness:
  "br_state (foldl breaker_step (record_failure 5 (new_breaker 0 ''s'' 1 2 100))
      [EvAllow 105, EvSuccess 106, EvSuccess 107]) = StateClosed"
proof -
  let ?b = "record_failure 5 (new_breaker 0 ''s'' 1 2 100)"
  have "breaker_inv 1 2 100 ?b" "br_state ?b = StateOpen" "br_last_failure ?b = 5"
    by (simp_all add: record_failure_def new_breaker_def breaker_inv_def in64_def add64_def)
  then show ?thesis using breaker_recovers [of 1 2 100 ?b 105 "[106, 107]" 0] by simp
qed

subsection \<open>The manager\<close>

record manager =
  mg_breakers :: "string \<Rightarrow> breaker option"
  mg_threshold :: i64
  mg_success_threshold :: i64
  mg_timeout :: duration

definition new_manager :: "i64 \<Rightarrow> i64 \<Rightarrow> duration \<Rightarrow> manager" where
  "new_manager threshold success_threshold timeout =
     \<lparr>mg_breakers = (\<lambda>_. None), mg_threshold = threshold,
      mg_success_threshold = success_threshold, mg_timeout = timeout\<rparr>"

text \<open>\<open>Get\<close> returns the breaker of a name and creates it on first use.\<close>

definition mgr_get :: "time \<Rightarrow> string \<Rightarrow> manager \<Rightarrow> breaker \<times> manager" where
  "mgr_get now name m = (case mg_breakers m name of
       Some b \<Rightarrow> (b, m)
     | None \<Rightarrow>
         let b = new_breaker now name (mg_threshold m) (mg_success_threshold m) (mg_timeout m)
         in (b, m\<lparr>mg_breakers := (mg_breakers m)(name := Some b)\<rparr>))"

text \<open>
  The callers fetch a breaker by name and call one method on it; the map holds pointers,
  so the update is visible under that name.
\<close>

definition mgr_allow :: "time \<Rightarrow> string \<Rightarrow> manager \<Rightarrow> bool \<times> manager" where
  "mgr_allow now name m =
     (let (b, m) = mgr_get now name m; (ok, b') = breaker_allow now b
      in (ok, m\<lparr>mg_breakers := (mg_breakers m)(name := Some b')\<rparr>))"

definition mgr_success :: "time \<Rightarrow> string \<Rightarrow> manager \<Rightarrow> manager" where
  "mgr_success now name m =
     (let (b, m) = mgr_get now name m
      in m\<lparr>mg_breakers := (mg_breakers m)(name := Some (record_success now b))\<rparr>)"

definition mgr_failure :: "time \<Rightarrow> string \<Rightarrow> manager \<Rightarrow> manager" where
  "mgr_failure now name m =
     (let (b, m) = mgr_get now name m
      in m\<lparr>mg_breakers := (mg_breakers m)(name := Some (record_failure now b))\<rparr>)"

text \<open>\<open>AllStats\<close> ranges over the map in some order \<open>names\<close> of its keys.\<close>

definition mgr_all_stats :: "string list \<Rightarrow> manager \<Rightarrow> breaker_stats list" where
  "mgr_all_stats names m =
     List.map_filter (\<lambda>n. map_option breaker_stats_of (mg_breakers m n)) names"

definition mgr_reset :: "time \<Rightarrow> manager \<Rightarrow> manager" where
  "mgr_reset now m =
     m\<lparr>mg_breakers := (\<lambda>n. map_option (breaker_reset now) (mg_breakers m n))\<rparr>"

definition mgr_remove :: "string \<Rightarrow> manager \<Rightarrow> manager" where
  "mgr_remove name m = m\<lparr>mg_breakers := (mg_breakers m)(name := None)\<rparr>"

text \<open>The breaker that \<open>Get\<close> returns, whether or not it exists already.\<close>

definition mgr_view :: "time \<Rightarrow> manager \<Rightarrow> string \<Rightarrow> breaker" where
  "mgr_view now m name = fst (mgr_get now name m)"

lemma mgr_view_alt: "mgr_view now m name = (case mg_breakers m name of Some b \<Rightarrow> b
   | None \<Rightarrow> new_breaker now name (mg_threshold m) (mg_success_threshold m) (mg_timeout m))"
  by (simp add: mgr_view_def mgr_get_def Let_def split: option.splits)

lemma fst_mgr_allow: "fst (mgr_allow t n m) = fst (breaker_allow t (mgr_view t m n))"
  by (simp add: mgr_allow_def mgr_view_def Let_def split: prod.splits)

lemma mgr_view_allow:
  "mgr_view t (snd (mgr_allow u n m)) n' =
     (if n' = n then snd (breaker_allow u (mgr_view u m n)) else mgr_view t m n')"
  by (auto simp: mgr_view_alt mgr_allow_def mgr_get_def Let_def split: option.splits prod.splits)

lemma mgr_view_success:
  "mgr_view t (mgr_success u n m) n' =
     (if n' = n then record_success u (mgr_view u m n) else mgr_view t m n')"
  by (auto simp: mgr_view_alt mgr_success_def mgr_get_def Let_def split: option.splits)

lemma mgr_view_failure:
  "mgr_view t (mgr_failure u n m) n' =
     (if n' = n then record_failure u (mgr_view u m n) else mgr_view t m n')"
  by (auto simp: mgr_view_alt mgr_failure_def mgr_get_def Let_def split: option.splits)

lemmas mgr_views = mgr_view_allow mgr_view_success mgr_view_failure

lemma breaker_allow_again: "fst (breaker_allow t (snd (breaker_allow t b))) = fst (breaker_allow t b)"
  by (auto simp: breaker_allow_def split: cb_state.splits)

subsection \<open>The interface the balancer uses\<close>

text \<open>
  What the balancer relies on when it asks the breakers of several servers in turn: asking
  again at the same instant gives the same answer, and asking for one server does not
  change the answer for another.
\<close>

locale gate =
  fixes allow :: "time \<Rightarrow> string \<Rightarrow> 'm \<Rightarrow> bool \<times> 'm"
  assumes allow_again: "fst (allow t n (snd (allow t n m))) = fst (allow t n m)"
    and allow_frame: "n \<noteq> n' \<Longrightarrow> fst (allow t n' (snd (allow t n m))) = fst (allow t n' m)"
begin

lemma allow_stable: "fst (allow t n' (snd (allow t n m))) = fst (allow t n' m)"
  using allow_again allow_frame by (cases "n = n'") auto

end

interpretation mg: gate mgr_allow
  by unfold_locales (simp_all add: fst_mgr_allow mgr_view_allow breaker_allow_again)

end
