(* ===== verification/Crypto.thy ===== *)
theory Crypto
  imports Prelude
begin

section \<open>API key encryption (internal/crypto/crypto.go)\<close>

text \<open>
  The encryptor that protects API keys at rest: standard base64 with its padding, the
  framing of a ciphertext (prefix, nonce, sealed bytes), the acceptance of legacy
  plaintext, key rotation and masking. SHA-256 and AES-GCM are arguments of the
  definitions (\<open>sha\<close>, \<open>seal\<close>, \<open>unseal\<close>); what the code relies on is \<open>aead_laws\<close>. The
  bytes read from the system's random source are an argument as well, \<^const>\<open>None\<close> when
  reading fails.
\<close>

subsection \<open>Base64\<close>

definition b64_char :: "nat \<Rightarrow> char" where
  "b64_char n = char_of (if n < 26 then n + 65 else if n < 52 then n + 71
     else if n < 62 then n - 4 else if n = 62 then 43 else (47 :: nat))"

definition b64_index :: "char \<Rightarrow> nat option" where
  "b64_index c = (let n = of_char c :: nat in
     if 65 \<le> n \<and> n \<le> 90 then Some (n - 65)
     else if 97 \<le> n \<and> n \<le> 122 then Some (n - 71)
     else if 48 \<le> n \<and> n \<le> 57 then Some (n + 4)
     else if n = 43 then Some 62 else if n = 47 then Some 63 else None)"

fun b64_encode :: "string \<Rightarrow> string" where
  "b64_encode [] = []"
| "b64_encode [a] = (let x = of_char a :: nat in
     [b64_char (x div 4), b64_char (x mod 4 * 16), CHR ''='', CHR ''=''])"
| "b64_encode [a, b] = (let x = of_char a :: nat; y = of_char b :: nat in
     [b64_char (x div 4), b64_char (x mod 4 * 16 + y div 16), b64_char (y mod 16 * 4), CHR ''=''])"
| "b64_encode (a # b # c # s) =
     (let x = of_char a :: nat; y = of_char b :: nat; z = of_char c :: nat in
     b64_char (x div 4) # b64_char (x mod 4 * 16 + y div 16) #
     b64_char (y mod 16 * 4 + z div 64) # b64_char (z mod 64) # b64_encode s)"

fun b64_groups :: "string \<Rightarrow> string option" where
  "b64_groups [] = Some []"
| "b64_groups (a # b # c # d # s) =
     (if s = [] \<and> c = CHR ''='' \<and> d = CHR ''='' then
        (case (b64_index a, b64_index b) of
           (Some w, Some x) \<Rightarrow> Some [char_of (w * 4 + x div 16)]
         | _ \<Rightarrow> None)
      else if s = [] \<and> d = CHR ''='' then
        (case (b64_index a, b64_index b, b64_index c) of
           (Some w, Some x, Some y) \<Rightarrow>
             Some [char_of (w * 4 + x div 16), char_of (x mod 16 * 16 + y div 4)]
         | _ \<Rightarrow> None)
      else
        (case (b64_index a, b64_index b, b64_index c, b64_index d) of
           (Some w, Some x, Some y, Some z) \<Rightarrow>
             map_option (\<lambda>t. char_of (w * 4 + x div 16) # char_of (x mod 16 * 16 + y div 4)
               # char_of (y mod 4 * 64 + z) # t) (b64_groups s)
         | _ \<Rightarrow> None))"
| "b64_groups _ = None"

text \<open>The decoder skips line breaks, as \<open>base64.StdEncoding\<close> does.\<close>

definition b64_decode :: "string \<Rightarrow> string option" where
  "b64_decode s = b64_groups (filter (\<lambda>c. of_char c \<notin> {10, 13 :: nat}) s)"

lemma of_char_less [simp]: "(of_char c :: nat) < 256"
  by (metis of_char_mod_256 mod_less_divisor zero_less_numeral)

lemma b64_index_char [simp]: "n < 64 \<Longrightarrow> b64_index (b64_char n) = Some n"
  by (auto simp: b64_index_def b64_char_def Let_def)

lemma b64_char_plain [simp]:
  "n < 64 \<Longrightarrow> b64_char n \<noteq> CHR ''=''" "n < 64 \<Longrightarrow> of_char (b64_char n) \<noteq> (10 :: nat)"
  "n < 64 \<Longrightarrow> of_char (b64_char n) \<noteq> (13 :: nat)"
proof -
  assume n: "n < 64"
  have "of_char (b64_char n) \<in> {43, 47} \<union> {48..57} \<union> {65..90} \<union> {97..122 :: nat}"
    using n by (auto simp: b64_char_def)
  then show "b64_char n \<noteq> CHR ''=''" "of_char (b64_char n) \<noteq> (10 :: nat)"
    "of_char (b64_char n) \<noteq> (13 :: nat)" by auto
qed

lemma sextet_bounds [simp]:
  fixes x y z :: nat
  shows "x < 256 \<Longrightarrow> x div 4 < 64" "x mod 4 * 16 < 64" "y mod 16 * 4 < 64" "z mod 64 < 64"
    "y < 256 \<Longrightarrow> x mod 4 * 16 + y div 16 < 64" "z < 256 \<Longrightarrow> y mod 16 * 4 + z div 64 < 64"
proof -
  have *: "x mod 4 < 4" "y mod 16 < 16" by simp_all
  show "x < 256 \<Longrightarrow> x div 4 < 64" "x mod 4 * 16 < 64" "y mod 16 * 4 < 64" "z mod 64 < 64"
    "y < 256 \<Longrightarrow> x mod 4 * 16 + y div 16 < 64" "z < 256 \<Longrightarrow> y mod 16 * 4 + z div 64 < 64"
    using * by auto
qed

lemma byte_quotients [simp]:
  "(of_char c :: nat) div 16 div 16 = 0" "(of_char c :: nat) div 16 mod 16 = of_char c div 16"
  "(of_char c :: nat) div 64 div 4 = 0" "(of_char c :: nat) div 64 mod 4 = of_char c div 64"
proof -
  have "(of_char c :: nat) div 16 < 16" "(of_char c :: nat) div 64 < 4"
    using of_char_less [of c] by (linarith, linarith)
  then show "(of_char c :: nat) div 16 div 16 = 0" "(of_char c :: nat) div 16 mod 16 = of_char c div 16"
    "(of_char c :: nat) div 64 div 4 = 0" "(of_char c :: nat) div 64 mod 4 = of_char c div 64"
    by (simp_all only: div_less mod_less)
qed

lemma b64_encode_filter:
  "filter (\<lambda>c. of_char c \<notin> {10, 13 :: nat}) (b64_encode s) = b64_encode s"
  by (induction s rule: b64_encode.induct) (simp_all add: Let_def)

lemma b64_encode_Nil_iff [simp]: "b64_encode s = [] \<longleftrightarrow> s = []"
  by (cases s rule: b64_encode.cases) (simp_all add: Let_def)

text \<open>Decoding an encoded byte string gives it back.\<close>

lemma b64_decode_encode [simp]: "b64_decode (b64_encode s) = Some s"
proof -
  have "b64_groups (b64_encode s) = Some s"
    by (induction s rule: b64_encode.induct) (simp_all add: Let_def)
  then show ?thesis by (simp add: b64_decode_def b64_encode_filter del: insert_iff)
qed

subsection \<open>The encryptor\<close>

datatype crypto_error =
    ErrInvalidKey | ErrInvalidCiphertext | ErrEncryptionDisabled
  | ErrCipher | ErrNonce | ErrDecode | ErrOpen

record encryptor =
  en_key :: string
  en_enabled :: bool

abbreviation disabled_encryptor :: encryptor where
  "disabled_encryptor \<equiv> \<lparr>en_key = [], en_enabled = False\<rparr>"

definition new_encryptor :: "(string \<Rightarrow> string) \<Rightarrow> string \<Rightarrow> (crypto_error, encryptor) res" where
  "new_encryptor sha key =
     (if key = [] then Ok disabled_encryptor
      else if length key < 16 then Err ErrInvalidKey
      else Ok \<lparr>en_key = sha key, en_enabled = True\<rparr>)"

text \<open>\<open>aes.NewCipher\<close> accepts keys of 16, 24 or 32 bytes; the GCM nonce has 12 bytes.\<close>

definition aes_key_ok :: "string \<Rightarrow> bool" where
  "aes_key_ok k \<longleftrightarrow> length k \<in> {16, 24, 32}"

definition nonce_size :: nat where "nonce_size = 12"

definition encrypt :: "(string \<Rightarrow> string \<Rightarrow> string \<Rightarrow> string) \<Rightarrow> string option \<Rightarrow> encryptor \<Rightarrow> string
    \<Rightarrow> (crypto_error, string) res" where
  "encrypt seal rnd e plaintext =
     (if \<not> en_enabled e then Ok plaintext
      else if plaintext = [] then Ok []
      else if \<not> aes_key_ok (en_key e) then Err ErrCipher
      else case rnd of
          None \<Rightarrow> Err ErrNonce
        | Some nonce \<Rightarrow> Ok (''enc:'' @ b64_encode (nonce @ seal (en_key e) nonce plaintext)))"

definition decrypt :: "(string \<Rightarrow> string \<Rightarrow> string \<Rightarrow> string option) \<Rightarrow> encryptor \<Rightarrow> string
    \<Rightarrow> (crypto_error, string) res" where
  "decrypt unseal e ciphertext =
     (if ciphertext = [] then Ok []
      else if \<not> has_prefix ciphertext ''enc:'' then Ok ciphertext
      else if \<not> en_enabled e then Err ErrEncryptionDisabled
      else case b64_decode (trim_prefix ciphertext ''enc:'') of
          None \<Rightarrow> Err ErrDecode
        | Some data \<Rightarrow>
            if \<not> aes_key_ok (en_key e) then Err ErrCipher
            else if length data < nonce_size then Err ErrInvalidCiphertext
            else (case unseal (en_key e) (take nonce_size data) (drop nonce_size data) of
                None \<Rightarrow> Err ErrOpen
              | Some plaintext \<Rightarrow> Ok plaintext))"

definition rotate_key :: "(string \<Rightarrow> string) \<Rightarrow> (string \<Rightarrow> string \<Rightarrow> string \<Rightarrow> string)
    \<Rightarrow> (string \<Rightarrow> string \<Rightarrow> string \<Rightarrow> string option) \<Rightarrow> string option \<Rightarrow> encryptor \<Rightarrow> string \<Rightarrow> string
    \<Rightarrow> (crypto_error, string) res" where
  "rotate_key sha seal unseal rnd e current new_key =
     res_bind (decrypt unseal e current) (\<lambda>plaintext.
     res_bind (new_encryptor sha new_key) (\<lambda>e'. encrypt seal rnd e' plaintext))"

definition mask_api_key :: "string \<Rightarrow> string" where
  "mask_api_key key =
     (if key = [] then []
      else if has_prefix key ''enc:'' then ''[encrypted]''
      else if length key \<le> 12 then ''****''
      else take 8 key @ ''...'' @ drop (length key - 4) key)"

definition generate_key :: "string option \<Rightarrow> (crypto_error, string) res" where
  "generate_key rnd = (case rnd of None \<Rightarrow> Err ErrNonce | Some bytes \<Rightarrow> Ok (b64_encode bytes))"

definition validate_key :: "string \<Rightarrow> (crypto_error, unit) res" where
  "validate_key key = (if length key < 16 then Err ErrInvalidKey else Ok ())"

text \<open>
  The global encryptor: \<open>InitGlobalEncryptor\<close> stores what \<open>NewEncryptor\<close> returned (nothing
  on an error), and \<open>GlobalEncryptor\<close> installs a disabled one when nothing is stored.
\<close>

definition init_global_encryptor :: "(string \<Rightarrow> string) \<Rightarrow> string
    \<Rightarrow> (crypto_error, unit) res \<times> encryptor option" where
  "init_global_encryptor sha key = (case new_encryptor sha key of
       Ok e \<Rightarrow> (Ok (), Some e) | Err x \<Rightarrow> (Err x, None) | Panic m \<Rightarrow> (Panic m, None))"

definition global_encryptor :: "encryptor option \<Rightarrow> encryptor \<times> encryptor option" where
  "global_encryptor g = (case g of
       None \<Rightarrow> (disabled_encryptor, Some disabled_encryptor) | Some e \<Rightarrow> (e, g))"

subsection \<open>Properties\<close>

text \<open>What the code relies on: opening what was sealed under the same key and nonce.\<close>

definition aead_laws :: "(string \<Rightarrow> string \<Rightarrow> string \<Rightarrow> string)
    \<Rightarrow> (string \<Rightarrow> string \<Rightarrow> string \<Rightarrow> string option) \<Rightarrow> bool" where
  "aead_laws seal unseal \<longleftrightarrow> (\<forall>k n p. unseal k n (seal k n p) = Some p)"

definition toy_seal :: "string \<Rightarrow> string \<Rightarrow> string \<Rightarrow> string" where
  "toy_seal k n p = rev p @ k"

definition toy_unseal :: "string \<Rightarrow> string \<Rightarrow> string \<Rightarrow> string option" where
  "toy_unseal k n c = (if has_suffix c k then Some (rev (take (length c - length k) c)) else None)"

lemma toy_aead: "aead_laws toy_seal toy_unseal"
  by (simp add: aead_laws_def toy_seal_def toy_unseal_def)

lemma new_encryptor_Ok:
  "new_encryptor sha key = Ok e \<Longrightarrow>
     e = (if key = [] then disabled_encryptor else \<lparr>en_key = sha key, en_enabled = True\<rparr>)"
  by (auto simp: new_encryptor_def split: if_splits)

lemma encrypt_decrypt_enabled:
  assumes "aead_laws seal unseal" and "en_enabled e"
    and "\<And>n. rnd = Some n \<Longrightarrow> length n = nonce_size" and "encrypt seal rnd e p = Ok c"
  shows "decrypt unseal e c = Ok p"
  using assms by (auto simp: encrypt_def decrypt_def aead_laws_def trim_prefix_def split: if_splits option.splits)

text \<open>
  Decrypting what an encryptor produced gives the plaintext back, for every plaintext
  when encryption is enabled, and for every plaintext that does not itself start with the
  marker "enc:" when it is disabled.\<close>

theorem decrypt_encrypt:
  assumes "aead_laws seal unseal" and "rnd = Some n \<and> length n = nonce_size"
    and "en_enabled e \<or> \<not> has_prefix p ''enc:''"
    and "encrypt seal rnd e p = Ok c"
  shows "decrypt unseal e c = Ok p"
proof (cases "en_enabled e")
  case True
  with assms show ?thesis by (intro encrypt_decrypt_enabled) auto
next
  case False
  with assms show ?thesis by (auto simp: encrypt_def decrypt_def)
qed

theorem decrypt_encrypt_witness:
  "decrypt toy_unseal \<lparr>en_key = replicate 32 CHR ''k'', en_enabled = True\<rparr>
     (''enc:'' @ b64_encode (replicate 12 CHR ''n'' @ toy_seal (replicate 32 CHR ''k'')
        (replicate 12 CHR ''n'') ''sk-1'')) = Ok ''sk-1''"
  by (rule decrypt_encrypt [OF toy_aead, where rnd = "Some (replicate 12 CHR ''n'')"
        and n = "replicate 12 CHR ''n''"])
     (simp_all add: encrypt_def aes_key_ok_def nonce_size_def)

text \<open>
  Rotating a stored key re-encrypts it: what the current encryptor decrypts to is what
  an encryptor for the new key decrypts the rotated value to.\<close>

theorem rotate_key_preserves:
  assumes "aead_laws seal unseal" and "rnd = Some n \<and> length n = nonce_size"
    and "rotate_key sha seal unseal rnd e cur new_key = Ok c"
    and "new_encryptor sha new_key = Ok e'" and "new_key \<noteq> []"
  shows "decrypt unseal e' c = decrypt unseal e cur"
proof -
  from assms(3,4) obtain p where p: "decrypt unseal e cur = Ok p" and c: "encrypt seal rnd e' p = Ok c"
    by (auto simp: rotate_key_def res_bind_Ok_iff)
  have "en_enabled e'" using new_encryptor_Ok [OF assms(4)] assms(5) by simp
  with assms(1,2) c have "decrypt unseal e' c = Ok p" by (intro encrypt_decrypt_enabled) auto
  with p show ?thesis by simp
qed

theorem rotate_key_preserves_witness:
  "decrypt toy_unseal \<lparr>en_key = replicate 32 CHR ''s'', en_enabled = True\<rparr>
     (''enc:'' @ b64_encode (replicate 12 CHR ''n'' @ toy_seal (replicate 32 CHR ''s'')
        (replicate 12 CHR ''n'') ''sk-1'')) = decrypt toy_unseal disabled_encryptor ''sk-1''"
  by (rule rotate_key_preserves [OF toy_aead, where rnd = "Some (replicate 12 CHR ''n'')"
        and n = "replicate 12 CHR ''n''" and sha = "\<lambda>_. replicate 32 CHR ''s''" and new_key = "''0123456789abcdef''"])
     (simp_all add: rotate_key_def new_encryptor_def encrypt_def decrypt_def aes_key_ok_def
        nonce_size_def has_prefix_def)

text \<open>
  A masked key reveals nothing beyond the first eight and the last four characters of
  a key longer than twelve: two such unencrypted keys that agree there have the same mask,
  and every shorter key has the mask of all the others.\<close>

theorem mask_reveals_only_ends:
  assumes "k \<noteq> []" and "k' \<noteq> []"
    and "\<not> has_prefix k ''enc:''" and "\<not> has_prefix k' ''enc:''"
    and "length k > 12 \<longleftrightarrow> length k' > 12"
    and "length k > 12 \<Longrightarrow> take 8 k = take 8 k' \<and> drop (length k - 4) k = drop (length k' - 4) k'"
  shows "mask_api_key k = mask_api_key k' \<and> length (mask_api_key k) \<le> 15"
  using assms by (auto simp: mask_api_key_def)

theorem mask_reveals_only_ends_witness:
  "mask_api_key ''sk-12345SECRETwxyz'' = mask_api_key ''sk-12345wxyzwxyz'' \<and>
   length (mask_api_key ''sk-12345SECRETwxyz'') \<le> 15"
  by (rule mask_reveals_only_ends) (simp_all add: has_prefix_def)

text \<open>
  With encryption disabled, a key that starts with "enc:" is stored as it is and can
  never be read back: decryption answers with an error.\<close>

theorem disabled_encryptor_loses_marked_keys:
  assumes "\<not> en_enabled e" and "has_prefix p ''enc:''"
  shows "encrypt seal rnd e p = Ok p \<and> decrypt unseal e p = Err ErrEncryptionDisabled"
  using assms by (auto simp: encrypt_def decrypt_def has_prefix_iff)

theorem disabled_encryptor_loses_marked_keys_witness:
  "decrypt toy_unseal disabled_encryptor ''enc:key'' = Err ErrEncryptionDisabled"
  using disabled_encryptor_loses_marked_keys [of disabled_encryptor "''enc:key''"]
  by (simp add: has_prefix_def)

end
