(* ===== verification/Storage.thy ===== *)
theory Storage
  imports Crypto "HOL-Library.List_Lexorder" "HOL-Library.Char_ord" "HOL-Library.Product_Lexorder"
begin

section \<open>Persistent tables (internal/storage/storage.go)\<close>

text \<open>
  The SQLite tables as lists of rows in insertion order, and one function per storage
  operation with the meaning of its SQL statement: UNIQUE columns, AUTOINCREMENT row ids,
  WHERE, ORDER BY and upserts. \<open>st_down\<close> says that the database driver answers every call
  with an error, so that the error branches of the callers are branches here. API keys
  pass through the encryptor on insert and update and are decrypted by the two
  \<open>...DecryptedKey\<close> reads.
\<close>

subsection \<open>Rows\<close>

type_synonym server_status = string

abbreviation status_online :: server_status where "status_online \<equiv> ''ONLINE''"
abbreviation status_offline :: server_status where "status_offline \<equiv> ''OFFLINE''"
abbreviation status_shunned :: server_status where "status_shunned \<equiv> ''SHUNNED''"

record server =
  sv_id :: i64
  sv_name :: string
  sv_provider_type :: string
  sv_endpoint :: string
  sv_api_key :: string
  sv_hostgroup :: i64
  sv_weight :: i64
  sv_max_connections :: i64
  sv_status :: server_status
  sv_comment :: string
  sv_created_at :: time
  sv_updated_at :: time

record user =
  us_id :: i64
  us_username :: string
  us_password_hash :: string
  us_active :: bool
  us_default_hostgroup :: i64
  us_max_requests_per_minute :: i64
  us_max_tokens_per_minute :: i64
  us_comment :: string
  us_created_at :: time
  us_updated_at :: time

record routing_rule =
  rr_id :: i64
  rr_rule_id :: i64
  rr_active :: bool
  rr_match_model :: string
  rr_match_pattern :: string
  rr_match_user :: string
  rr_destination_hostgroup :: i64
  rr_mirror_hostgroup :: "i64 option"
  rr_priority :: i64
  rr_comment :: string
  rr_created_at :: time
  rr_updated_at :: time

record hostgroup =
  hg_id :: i64
  hg_group_id :: i64
  hg_name :: string
  hg_comment :: string

record request_log =
  rl_id :: i64
  rl_request_id :: string
  rl_username :: string
  rl_server_name :: string
  rl_model :: string
  rl_endpoint :: string
  rl_prompt_tokens :: i64
  rl_output_tokens :: i64
  rl_total_tokens :: i64
  rl_latency_ms :: i64
  rl_first_byte_ms :: i64
  rl_status_code :: i64
  rl_error_message :: string
  rl_streaming :: bool
  rl_timestamp :: time

record storage =
  st_down :: bool
  st_encryptor :: encryptor
  st_servers :: "server list"
  st_users :: "user list"
  st_rules :: "routing_rule list"
  st_hostgroups :: "hostgroup list"
  st_logs :: "request_log list"
  st_variables :: "(string \<times> string) list"
  st_server_seq :: i64
  st_user_seq :: i64
  st_rule_seq :: i64
  st_hostgroup_seq :: i64
  st_log_seq :: i64

datatype db_error = DbFailed | UniqueViolation | CryptoFailed crypto_error

text \<open>
  The sort key of \<open>ORDER BY hostgroup, weight DESC, name\<close>, as a linear order on a type of
  its own.
\<close>

datatype server_key = ServerKey (key_hostgroup: i64) (key_weight: i64) (key_name: string)

definition key_tuple :: "server_key \<Rightarrow> i64 \<times> i64 \<times> string" where
  "key_tuple k = (key_hostgroup k, - key_weight k, key_name k)"

lemma key_tuple_inject: "key_tuple a = key_tuple b \<Longrightarrow> a = b"
  by (cases a; cases b) (simp add: key_tuple_def)

instantiation server_key :: linorder
begin

definition less_eq_server_key :: "server_key \<Rightarrow> server_key \<Rightarrow> bool" where
  "less_eq_server_key a b \<longleftrightarrow> key_tuple a \<le> key_tuple b"

definition less_server_key :: "server_key \<Rightarrow> server_key \<Rightarrow> bool" where
  "less_server_key a b \<longleftrightarrow> key_tuple a < key_tuple b"

instance
  by standard (auto simp: less_eq_server_key_def less_server_key_def intro: key_tuple_inject)

end

definition server_key_of :: "server \<Rightarrow> server_key" where
  "server_key_of s = ServerKey (sv_hostgroup s) (sv_weight s) (sv_name s)"

subsection \<open>Opening the database\<close>

text \<open>
  A new file has empty tables; \<open>migrate\<close> keeps the tables of an existing one and inserts
  the default hostgroup unless there is one with its id.
\<close>

definition empty_tables :: "encryptor \<Rightarrow> storage" where
  "empty_tables e = \<lparr>st_down = False, st_encryptor = e, st_servers = [], st_users = [],
     st_rules = [], st_hostgroups = [], st_logs = [], st_variables = [],
     st_server_seq = 0, st_user_seq = 0, st_rule_seq = 0, st_hostgroup_seq = 0, st_log_seq = 0\<rparr>"

definition migrate :: "storage \<Rightarrow> (db_error, storage) res" where
  "migrate st =
     (if st_down st then Err DbFailed
      else if \<exists>h \<in> set (st_hostgroups st). hg_group_id h = 0 then Ok st
      else Ok (st\<lparr>st_hostgroup_seq := st_hostgroup_seq st + 1,
        st_hostgroups := st_hostgroups st @ [\<lparr>hg_id = st_hostgroup_seq st + 1, hg_group_id = 0,
          hg_name = ''default'', hg_comment = ''Default hostgroup''\<rparr>]\<rparr>))"

definition new_with_encryption :: "(string \<Rightarrow> string) \<Rightarrow> storage \<Rightarrow> string \<Rightarrow> (db_error, storage) res" where
  "new_with_encryption sha file encryption_key =
     (case new_encryptor sha encryption_key of
        Ok e \<Rightarrow> migrate (file\<lparr>st_encryptor := e\<rparr>)
      | Err x \<Rightarrow> Err (CryptoFailed x)
      | Panic m \<Rightarrow> Panic m)"

subsection \<open>Servers\<close>

definition get_servers :: "i64 option \<Rightarrow> storage \<Rightarrow> (db_error, server list) res" where
  "get_servers hostgroup st =
     (if st_down st then Err DbFailed
      else Ok (sort_key server_key_of
        (case hostgroup of None \<Rightarrow> st_servers st
         | Some h \<Rightarrow> filter (\<lambda>s. sv_hostgroup s = h) (st_servers st))))"

definition find_server :: "string \<Rightarrow> storage \<Rightarrow> server option" where
  "find_server name st = find (\<lambda>s. sv_name s = name) (st_servers st)"

definition get_server_by_name :: "string \<Rightarrow> storage \<Rightarrow> (db_error, server option) res" where
  "get_server_by_name name st = (if st_down st then Err DbFailed else Ok (find_server name st))"

text \<open>Encryption of the key a caller supplies: nothing for an empty key.\<close>

definition encrypt_for_store :: "(string \<Rightarrow> string \<Rightarrow> string \<Rightarrow> string) \<Rightarrow> string option \<Rightarrow> storage
    \<Rightarrow> string \<Rightarrow> (db_error, string) res" where
  "encrypt_for_store seal rnd st api_key =
     (if api_key = [] then Ok []
      else case encrypt seal rnd (st_encryptor st) api_key of
          Ok c \<Rightarrow> Ok c | Err x \<Rightarrow> Err (CryptoFailed x) | Panic m \<Rightarrow> Panic m)"

definition insert_server :: "(string \<Rightarrow> string \<Rightarrow> string \<Rightarrow> string) \<Rightarrow> string option \<Rightarrow> time \<Rightarrow> server
    \<Rightarrow> storage \<Rightarrow> (db_error, server) res \<times> storage" where
  "insert_server seal rnd now srv st =
     (case encrypt_for_store seal rnd st (sv_api_key srv) of
        Err x \<Rightarrow> (Err x, st)
      | Panic m \<Rightarrow> (Panic m, st)
      | Ok api_key \<Rightarrow>
          if st_down st then (Err DbFailed, st)
          else if find_server (sv_name srv) st \<noteq> None then (Err UniqueViolation, st)
          else let srv' = srv\<lparr>sv_id := st_server_seq st + 1\<rparr> in
            (Ok srv', st\<lparr>st_server_seq := st_server_seq st + 1,
               st_servers := st_servers st @
                 [srv'\<lparr>sv_api_key := api_key, sv_created_at := now, sv_updated_at := now\<rparr>]\<rparr>))"

definition update_server :: "(string \<Rightarrow> string \<Rightarrow> string \<Rightarrow> string) \<Rightarrow> string option \<Rightarrow> time \<Rightarrow> server
    \<Rightarrow> storage \<Rightarrow> (db_error, unit) res \<times> storage" where
  "update_server seal rnd now srv st =
     (case encrypt_for_store seal rnd st (sv_api_key srv) of
        Err x \<Rightarrow> (Err x, st)
      | Panic m \<Rightarrow> (Panic m, st)
      | Ok api_key \<Rightarrow>
          if st_down st then (Err DbFailed, st)
          else (Ok (), st\<lparr>st_servers := map (\<lambda>r. if sv_name r = sv_name srv
            then r\<lparr>sv_provider_type := sv_provider_type srv, sv_endpoint := sv_endpoint srv,
                   sv_api_key := api_key, sv_hostgroup := sv_hostgroup srv,
                   sv_weight := sv_weight srv, sv_max_connections := sv_max_connections srv,
                   sv_status := sv_status srv, sv_comment := sv_comment srv,
                   sv_updated_at := now\<rparr>
            else r) (st_servers st)\<rparr>))"

definition delete_server :: "string \<Rightarrow> storage \<Rightarrow> (db_error, unit) res \<times> storage" where
  "delete_server name st =
     (if st_down st then (Err DbFailed, st)
      else (Ok (), st\<lparr>st_servers := filter (\<lambda>r. sv_name r \<noteq> name) (st_servers st)\<rparr>))"

definition decrypt_api_key :: "(string \<Rightarrow> string \<Rightarrow> string \<Rightarrow> string option) \<Rightarrow> storage \<Rightarrow> string
    \<Rightarrow> (crypto_error, string) res" where
  "decrypt_api_key unseal st encrypted_key =
     (if encrypted_key = [] then Ok [] else decrypt unseal (st_encryptor st) encrypted_key)"

definition encrypt_api_key :: "(string \<Rightarrow> string \<Rightarrow> string \<Rightarrow> string) \<Rightarrow> string option \<Rightarrow> storage \<Rightarrow> string
    \<Rightarrow> (crypto_error, string) res" where
  "encrypt_api_key seal rnd st plain_key =
     (if plain_key = [] then Ok [] else encrypt seal rnd (st_encryptor st) plain_key)"

definition get_server_with_decrypted_key :: "(string \<Rightarrow> string \<Rightarrow> string \<Rightarrow> string option) \<Rightarrow> string
    \<Rightarrow> storage \<Rightarrow> (db_error, server option) res" where
  "get_server_with_decrypted_key unseal name st =
     (case get_server_by_name name st of
        Ok (Some srv) \<Rightarrow>
          if sv_api_key srv = [] then Ok (Some srv)
          else (case decrypt unseal (st_encryptor st) (sv_api_key srv) of
              Ok k \<Rightarrow> Ok (Some (srv\<lparr>sv_api_key := k\<rparr>))
            | Err x \<Rightarrow> Err (CryptoFailed x) | Panic m \<Rightarrow> Panic m)
      | r \<Rightarrow> r)"

fun decrypt_servers :: "(string \<Rightarrow> string \<Rightarrow> string \<Rightarrow> string option) \<Rightarrow> encryptor \<Rightarrow> server list
    \<Rightarrow> (db_error, server list) res" where
  "decrypt_servers unseal e [] = Ok []"
| "decrypt_servers unseal e (s # ss) =
     (if sv_api_key s = [] then res_bind (decrypt_servers unseal e ss) (\<lambda>r. Ok (s # r))
      else case decrypt unseal e (sv_api_key s) of
          Ok k \<Rightarrow> res_bind (decrypt_servers unseal e ss) (\<lambda>r. Ok (s\<lparr>sv_api_key := k\<rparr> # r))
        | Err x \<Rightarrow> Err (CryptoFailed x) | Panic m \<Rightarrow> Panic m)"

definition get_servers_with_decrypted_keys :: "(string \<Rightarrow> string \<Rightarrow> string \<Rightarrow> string option)
    \<Rightarrow> i64 option \<Rightarrow> storage \<Rightarrow> (db_error, server list) res" where
  "get_servers_with_decrypted_keys unseal hostgroup st =
     res_bind (get_servers hostgroup st) (decrypt_servers unseal (st_encryptor st))"

definition is_encryption_enabled :: "storage \<Rightarrow> bool" where
  "is_encryption_enabled st = en_enabled (st_encryptor st)"

subsection \<open>Users\<close>

definition get_users :: "storage \<Rightarrow> (db_error, user list) res" where
  "get_users st = (if st_down st then Err DbFailed else Ok (sort_key us_username (st_users st)))"

definition find_user :: "string \<Rightarrow> storage \<Rightarrow> user option" where
  "find_user name st = find (\<lambda>u. us_username u = name) (st_users st)"

definition get_user_by_username :: "string \<Rightarrow> storage \<Rightarrow> (db_error, user option) res" where
  "get_user_by_username name st = (if st_down st then Err DbFailed else Ok (find_user name st))"

definition insert_user :: "time \<Rightarrow> user \<Rightarrow> storage \<Rightarrow> (db_error, user) res \<times> storage" where
  "insert_user now u st =
     (if st_down st then (Err DbFailed, st)
      else if find_user (us_username u) st \<noteq> None then (Err UniqueViolation, st)
      else let u' = u\<lparr>us_id := st_user_seq st + 1\<rparr> in
        (Ok u', st\<lparr>st_user_seq := st_user_seq st + 1,
           st_users := st_users st @ [u'\<lparr>us_created_at := now, us_updated_at := now\<rparr>]\<rparr>))"

definition update_user :: "time \<Rightarrow> user \<Rightarrow> storage \<Rightarrow> (db_error, unit) res \<times> storage" where
  "update_user now u st =
     (if st_down st then (Err DbFailed, st)
      else (Ok (), st\<lparr>st_users := map (\<lambda>r. if us_username r = us_username u
        then r\<lparr>us_password_hash := us_password_hash u, us_active := us_active u,
               us_default_hostgroup := us_default_hostgroup u,
               us_max_requests_per_minute := us_max_requests_per_minute u,
               us_max_tokens_per_minute := us_max_tokens_per_minute u,
               us_comment := us_comment u, us_updated_at := now\<rparr>
        else r) (st_users st)\<rparr>))"

definition delete_user :: "string \<Rightarrow> storage \<Rightarrow> (db_error, unit) res \<times> storage" where
  "delete_user name st =
     (if st_down st then (Err DbFailed, st)
      else (Ok (), st\<lparr>st_users := filter (\<lambda>r. us_username r \<noteq> name) (st_users st)\<rparr>))"

subsection \<open>Routing rules, hostgroups, logs and variables\<close>

definition get_routing_rules :: "storage \<Rightarrow> (db_error, routing_rule list) res" where
  "get_routing_rules st = (if st_down st then Err DbFailed
     else Ok (sort_key (\<lambda>r. (rr_priority r, rr_rule_id r)) (st_rules st)))"

definition find_rule :: "i64 \<Rightarrow> storage \<Rightarrow> routing_rule option" where
  "find_rule rule_id st = find (\<lambda>r. rr_rule_id r = rule_id) (st_rules st)"

definition insert_routing_rule :: "time \<Rightarrow> routing_rule \<Rightarrow> storage
    \<Rightarrow> (db_error, routing_rule) res \<times> storage" where
  "insert_routing_rule now r st =
     (if st_down st then (Err DbFailed, st)
      else if find_rule (rr_rule_id r) st \<noteq> None then (Err UniqueViolation, st)
      else let r' = r\<lparr>rr_id := st_rule_seq st + 1\<rparr> in
        (Ok r', st\<lparr>st_rule_seq := st_rule_seq st + 1,
           st_rules := st_rules st @ [r'\<lparr>rr_created_at := now, rr_updated_at := now\<rparr>]\<rparr>))"

definition delete_routing_rule :: "i64 \<Rightarrow> storage \<Rightarrow> (db_error, unit) res \<times> storage" where
  "delete_routing_rule rule_id st =
     (if st_down st then (Err DbFailed, st)
      else (Ok (), st\<lparr>st_rules := filter (\<lambda>r. rr_rule_id r \<noteq> rule_id) (st_rules st)\<rparr>))"

definition get_hostgroups :: "storage \<Rightarrow> (db_error, hostgroup list) res" where
  "get_hostgroups st = (if st_down st then Err DbFailed
     else Ok (sort_key hg_group_id (st_hostgroups st)))"

definition find_hostgroup :: "i64 \<Rightarrow> storage \<Rightarrow> hostgroup option" where
  "find_hostgroup group_id st = find (\<lambda>h. hg_group_id h = group_id) (st_hostgroups st)"

definition insert_hostgroup :: "hostgroup \<Rightarrow> storage \<Rightarrow> (db_error, hostgroup) res \<times> storage" where
  "insert_hostgroup hg st =
     (if st_down st then (Err DbFailed, st)
      else if find_hostgroup (hg_group_id hg) st \<noteq> None then (Err UniqueViolation, st)
      else let hg' = hg\<lparr>hg_id := st_hostgroup_seq st + 1\<rparr> in
        (Ok hg', st\<lparr>st_hostgroup_seq := st_hostgroup_seq st + 1, st_hostgroups := st_hostgroups st @ [hg']\<rparr>))"

definition insert_request_log :: "request_log \<Rightarrow> storage \<Rightarrow> (db_error, unit) res \<times> storage" where
  "insert_request_log l st =
     (if st_down st then (Err DbFailed, st)
      else (Ok (), st\<lparr>st_log_seq := st_log_seq st + 1,
        st_logs := st_logs st @ [l\<lparr>rl_id := st_log_seq st + 1\<rparr>]\<rparr>))"

text \<open>A negative LIMIT is no limit in SQLite.\<close>

definition get_recent_logs :: "i64 \<Rightarrow> storage \<Rightarrow> (db_error, request_log list) res" where
  "get_recent_logs limit st = (if st_down st then Err DbFailed
     else let ls = sort_key (\<lambda>l. - rl_timestamp l) (st_logs st)
       in Ok (if limit < 0 then ls else take (nat limit) ls))"

definition get_variable :: "string \<Rightarrow> storage \<Rightarrow> (db_error, string) res" where
  "get_variable name st = (if st_down st then Err DbFailed
     else Ok (case map_of (st_variables st) name of None \<Rightarrow> [] | Some v \<Rightarrow> v))"

definition set_variable :: "string \<Rightarrow> string \<Rightarrow> storage \<Rightarrow> (db_error, unit) res \<times> storage" where
  "set_variable name val st =
     (if st_down st then (Err DbFailed, st)
      else (Ok (), st\<lparr>st_variables :=
        (if map_of (st_variables st) name = None then st_variables st @ [(name, val)]
         else map (\<lambda>(n, v). if n = name then (n, val) else (n, v)) (st_variables st))\<rparr>))"

definition get_all_variables :: "storage \<Rightarrow> (db_error, string \<Rightarrow> string option) res" where
  "get_all_variables st = (if st_down st then Err DbFailed else Ok (map_of (st_variables st)))"

text \<open>
  The statistics per server over the recent log rows. \<open>recent\<close> stands for SQLite's text
  comparison \<open>timestamp > datetime('now', '-1 hour')\<close>; the groups come sorted by name.
\<close>

record server_stat =
  sx_server_name :: string
  sx_total_requests :: nat
  sx_success_count :: nat
  sx_error_count :: nat
  sx_avg_latency_ms :: rat
  sx_total_tokens :: i64
  sx_last_request :: time

definition server_stat_of :: "string \<Rightarrow> request_log list \<Rightarrow> server_stat" where
  "server_stat_of name ls =
     \<lparr>sx_server_name = name, sx_total_requests = length ls,
      sx_success_count = length (filter (\<lambda>l. 200 \<le> rl_status_code l \<and> rl_status_code l < 300) ls),
      sx_error_count = length (filter (\<lambda>l. 400 \<le> rl_status_code l) ls),
      sx_avg_latency_ms = of_int (sum_list (map rl_latency_ms ls)) / of_nat (length ls),
      sx_total_tokens = sum_list (map rl_total_tokens ls),
      sx_last_request = foldr max (map rl_timestamp ls) (rl_timestamp (hd ls))\<rparr>"

definition get_server_stats :: "(time \<Rightarrow> bool) \<Rightarrow> storage \<Rightarrow> (db_error, server_stat list) res" where
  "get_server_stats recent st = (if st_down st then Err DbFailed
     else let ls = filter (\<lambda>l. recent (rl_timestamp l)) (st_logs st) in
       Ok (map (\<lambda>n. server_stat_of n (filter (\<lambda>l. rl_server_name l = n) ls))
         (remdups (sort (map rl_server_name ls)))))"

subsection \<open>The contract of a keyed table\<close>

text \<open>
  What the admin interface, the balancer and the limiter rely on when they add, look up
  and remove rows by their unique key.
\<close>

datatype ('v, 'k) table_op = Add 'v | Remove 'k

fun table_step :: "('v \<Rightarrow> 's \<Rightarrow> 'r \<times> 's) \<Rightarrow> ('k \<Rightarrow> 's \<Rightarrow> 'q \<times> 's) \<Rightarrow> 's \<Rightarrow> ('v, 'k) table_op \<Rightarrow> 's" where
  "table_step add rem s (Add v) = snd (add v s)"
| "table_step add rem s (Remove k) = snd (rem k s)"

fun table_op_key :: "('v \<Rightarrow> 'k) \<Rightarrow> ('v, 'k) table_op \<Rightarrow> 'k" where
  "table_op_key key (Add v) = key v"
| "table_op_key key (Remove k) = k"

locale keyed_store =
  fixes lookup :: "'k \<Rightarrow> 's \<Rightarrow> 'v option"
    and key :: "'v \<Rightarrow> 'k"
    and add :: "'v \<Rightarrow> 's \<Rightarrow> ('e, 'v) res \<times> 's"
    and rem :: "'k \<Rightarrow> 's \<Rightarrow> ('e, unit) res \<times> 's"
  assumes lookup_key: "lookup k s = Some v \<Longrightarrow> key v = k"
    and add_Ok: "is_Ok (fst (add v s)) \<Longrightarrow> \<exists>w. lookup (key v) (snd (add v s)) = Some w"
    and add_frame: "k \<noteq> key v \<Longrightarrow> lookup k (snd (add v s)) = lookup k s"
    and add_dup: "lookup (key v) s \<noteq> None \<Longrightarrow> \<not> is_Ok (fst (add v s))"
    and add_fail: "\<not> is_Ok (fst (add v s)) \<Longrightarrow> snd (add v s) = s"
    and rem_Ok: "is_Ok (fst (rem k s)) \<Longrightarrow> lookup k (snd (rem k s)) = None"
    and rem_frame: "k \<noteq> k' \<Longrightarrow> lookup k' (snd (rem k s)) = lookup k' s"
    and rem_fail: "\<not> is_Ok (fst (rem k s)) \<Longrightarrow> snd (rem k s) = s"
begin

lemma add_twice: "is_Ok (fst (add v s)) \<Longrightarrow> key w = key v \<Longrightarrow> \<not> is_Ok (fst (add w (snd (add v s))))"
  using add_Ok [of v s] add_dup [of w "snd (add v s)"] by auto

lemma rem_after_add:
  assumes "is_Ok (fst (add v s))" and "is_Ok (fst (rem (key v) (snd (add v s))))"
  shows "lookup k (snd (rem (key v) (snd (add v s)))) = lookup k s"
proof (cases "k = key v")
  case True
  have "lookup (key v) s = None" using assms(1) add_dup [of v s] by blast
  with True assms(2) show ?thesis by (simp add: rem_Ok)
next
  case False
  then show ?thesis using rem_frame [of "key v" k] add_frame [of k v] by simp
qed

lemma run_frame:
  "\<forall>e \<in> set es. table_op_key key e \<noteq> k \<Longrightarrow> lookup k (foldl (table_step add rem) s es) = lookup k s"
proof (induction es arbitrary: s)
  case (Cons e es)
  have "lookup k (table_step add rem s e) = lookup k s"
    using Cons.prems by (cases e) (auto simp: add_frame rem_frame)
  with Cons show ?case by simp
qed simp

end

lemma find_filter_neq: "k \<noteq> k' \<Longrightarrow> find (\<lambda>r. f r = k) (filter (\<lambda>r. f r \<noteq> k') xs) = find (\<lambda>r. f r = k) xs"
  by (induction xs) auto

lemma find_filter_eq: "find (\<lambda>r. f r = k) (filter (\<lambda>r. f r \<noteq> k) xs) = None"
  by (induction xs) auto

lemma find_append: "find p (xs @ ys) = (case find p xs of None \<Rightarrow> find p ys | Some x \<Rightarrow> Some x)"
  by (induction xs) auto

lemma find_Some_prop: "find p xs = Some x \<Longrightarrow> p x \<and> x \<in> set xs"
  by (induction xs) (auto split: if_splits)

lemmas find_table = find_filter_neq find_filter_eq find_append

interpretation servers: keyed_store find_server sv_name "insert_server seal rnd now" delete_server
  for seal rnd now
  by unfold_locales
     (auto simp: find_server_def insert_server_def delete_server_def find_table Let_def
        dest: find_Some_prop split: res.splits option.splits if_splits)

interpretation users: keyed_store find_user us_username "insert_user now" delete_user
  for now
  by unfold_locales
     (auto simp: find_user_def insert_user_def delete_user_def find_table Let_def
        dest: find_Some_prop split: option.splits if_splits)

interpretation rules: keyed_store find_rule rr_rule_id "insert_routing_rule now" delete_routing_rule
  for now
  by unfold_locales
     (auto simp: find_rule_def insert_routing_rule_def delete_routing_rule_def find_table Let_def
        dest: find_Some_prop split: option.splits if_splits)

subsection \<open>The invariant of the tables\<close>

datatype st_op =
    OpInsServer "string option" time server | OpUpdServer "string option" time server | OpDelServer string
  | OpInsUser time user | OpUpdUser time user | OpDelUser string
  | OpInsRule time routing_rule | OpDelRule i64 | OpInsHostgroup hostgroup
  | OpInsLog request_log | OpSetVariable string string

fun st_step :: "(string \<Rightarrow> string \<Rightarrow> string \<Rightarrow> string) \<Rightarrow> storage \<Rightarrow> st_op \<Rightarrow> storage" where
  "st_step seal st (OpInsServer rnd now s) = snd (insert_server seal rnd now s st)"
| "st_step seal st (OpUpdServer rnd now s) = snd (update_server seal rnd now s st)"
| "st_step seal st (OpDelServer n) = snd (delete_server n st)"
| "st_step seal st (OpInsUser now u) = snd (insert_user now u st)"
| "st_step seal st (OpUpdUser now u) = snd (update_user now u st)"
| "st_step seal st (OpDelUser n) = snd (delete_user n st)"
| "st_step seal st (OpInsRule now r) = snd (insert_routing_rule now r st)"
| "st_step seal st (OpDelRule i) = snd (delete_routing_rule i st)"
| "st_step seal st (OpInsHostgroup h) = snd (insert_hostgroup h st)"
| "st_step seal st (OpInsLog l) = snd (insert_request_log l st)"
| "st_step seal st (OpSetVariable n v) = snd (set_variable n v st)"

definition st_inv :: "storage \<Rightarrow> bool" where
  "st_inv st \<longleftrightarrow> distinct (map sv_name (st_servers st)) \<and> distinct (map us_username (st_users st)) \<and>
     distinct (map rr_rule_id (st_rules st)) \<and> distinct (map hg_group_id (st_hostgroups st)) \<and>
     distinct (map fst (st_variables st))"

lemma distinct_map_filter_key [simp]: "distinct (map f xs) \<Longrightarrow> distinct (map f (filter p xs))"
  by (induction xs) auto

lemma distinct_map_update [simp]:
  "(\<And>r. f (g r) = f r) \<Longrightarrow> distinct (map (f \<circ> g) xs) = distinct (map f xs)"
  by (simp add: comp_def)

lemma find_None_notin: "find (\<lambda>r. f r = k) xs = None \<Longrightarrow> k \<notin> f ` set xs"
  by (induction xs) (auto split: if_splits)

lemma map_of_None_notin: "map_of xs k = None \<Longrightarrow> k \<notin> fst ` set xs"
  by (simp add: map_of_eq_None_iff)

lemma st_inv_servers:
  "st_inv st \<Longrightarrow> st_inv (snd (insert_server seal rnd now s st))"
  "st_inv st \<Longrightarrow> st_inv (snd (update_server seal rnd now s st))"
  "st_inv st \<Longrightarrow> st_inv (snd (delete_server n st))"
  by (auto simp: st_inv_def insert_server_def update_server_def delete_server_def find_server_def
        Let_def dest: find_None_notin split: res.split)

lemma st_inv_users:
  "st_inv st \<Longrightarrow> st_inv (snd (insert_user now u st))"
  "st_inv st \<Longrightarrow> st_inv (snd (update_user now u st))"
  "st_inv st \<Longrightarrow> st_inv (snd (delete_user n st))"
  by (auto simp: st_inv_def insert_user_def update_user_def delete_user_def find_user_def
        Let_def dest: find_None_notin)

lemma st_inv_others:
  "st_inv st \<Longrightarrow> st_inv (snd (insert_routing_rule now r st))"
  "st_inv st \<Longrightarrow> st_inv (snd (delete_routing_rule i st))"
  "st_inv st \<Longrightarrow> st_inv (snd (insert_hostgroup h st))"
  "st_inv st \<Longrightarrow> st_inv (snd (insert_request_log l st))"
  by (auto simp: st_inv_def insert_routing_rule_def delete_routing_rule_def find_rule_def
        insert_hostgroup_def find_hostgroup_def insert_request_log_def Let_def dest: find_None_notin)

lemma st_inv_set_variable: "st_inv st \<Longrightarrow> st_inv (snd (set_variable n v st))"
  by (auto simp: st_inv_def set_variable_def dest: map_of_None_notin split: prod.split)

lemma st_step_inv: "st_inv st \<Longrightarrow> st_inv (st_step seal st e)"
  by (cases e) (simp_all add: st_inv_servers st_inv_users st_inv_others st_inv_set_variable)

interpretation tables: machine "st_step seal" st_inv for seal
  by unfold_locales (rule st_step_inv)

lemma st_inv_empty: "st_inv (empty_tables e)"
  by (simp add: st_inv_def empty_tables_def)

lemma migrate_inv: "migrate st = Ok st' \<Longrightarrow> st_inv st \<Longrightarrow> st_inv st'"
  by (auto simp: migrate_def st_inv_def split: if_splits)

text \<open>
  The unique columns stay unique: from a new or consistent database file, no sequence
  of storage operations ever leaves two servers with one name, two users with one
  username, two rules with one rule id, two hostgroups with one group id or two values of
  one variable.\<close>

theorem unique_columns:
  assumes "st_inv file" and "new_with_encryption sha file key = Ok st"
  shows "st_inv (foldl (st_step seal) st es)"
proof -
  from assms(2) obtain e where "migrate (file\<lparr>st_encryptor := e\<rparr>) = Ok st"
    by (auto simp: new_with_encryption_def split: res.splits)
  moreover have "st_inv (file\<lparr>st_encryptor := e\<rparr>)" using assms(1) by (simp add: st_inv_def)
  ultimately have "st_inv st" by (rule migrate_inv)
  then show ?thesis by (rule tables.run_inv)
qed

theorem unique_columns_witness:
  "st_inv (foldl (st_step toy_seal)
     (case migrate (empty_tables disabled_encryptor) of Ok st \<Rightarrow> st) [OpSetVariable ''a'' ''b''])"
proof -
  have "new_with_encryption (\<lambda>k. k) (empty_tables disabled_encryptor) []
      = Ok (case migrate (empty_tables disabled_encryptor) of Ok st \<Rightarrow> st)"
    by (simp add: new_with_encryption_def new_encryptor_def migrate_def empty_tables_def)
  then show ?thesis by (rule unique_columns [OF st_inv_empty])
qed

subsection \<open>API keys through the tables\<close>

lemma encrypt_for_store_Ok:
  "encrypt_for_store seal rnd st k = Ok c \<longleftrightarrow>
     (if k = [] then c = [] else encrypt seal rnd (st_encryptor st) k = Ok c)"
  by (auto simp: encrypt_for_store_def split: res.splits)

lemma encrypt_nonempty:
  "encrypt seal rnd e p = Ok c \<Longrightarrow> p \<noteq> [] \<Longrightarrow> c \<noteq> []"
  by (auto simp: encrypt_def split: if_splits option.splits)

text \<open>A row as the listing with decrypted keys shows it.\<close>

definition decrypted_row :: "(string \<Rightarrow> string \<Rightarrow> string \<Rightarrow> string option) \<Rightarrow> encryptor \<Rightarrow> server \<Rightarrow> server option" where
  "decrypted_row unseal e s = (if sv_api_key s = [] then Some s
     else case decrypt unseal e (sv_api_key s) of Ok k \<Rightarrow> Some (s\<lparr>sv_api_key := k\<rparr>) | _ \<Rightarrow> None)"

lemma decrypt_servers_Cons:
  "decrypt_servers unseal e (s # ss) = Ok ts \<longleftrightarrow>
     (\<exists>t us. decrypted_row unseal e s = Some t \<and> decrypt_servers unseal e ss = Ok us \<and> ts = t # us)"
  by (cases "decrypt unseal e (sv_api_key s)") (auto simp: decrypted_row_def res_bind_Ok_iff)

lemma decrypt_servers_Ok:
  "(\<forall>s \<in> set ss. decrypted_row unseal e s \<noteq> None) \<Longrightarrow> \<exists>ts. decrypt_servers unseal e ss = Ok ts"
  by (induction ss) (auto simp: decrypt_servers_Cons simp del: decrypt_servers.simps(2))

lemma decrypt_servers_rows_shown:
  "decrypt_servers unseal e ss = Ok ts \<Longrightarrow>
   (\<forall>s \<in> set ss. decrypted_row unseal e s \<noteq> None)
     \<and> (\<forall>t. t \<in> set ts \<longleftrightarrow> (\<exists>s \<in> set ss. decrypted_row unseal e s = Some t))"
  by (induction ss arbitrary: ts) (auto simp: decrypt_servers_Cons simp del: decrypt_servers.simps(2))

lemma decrypted_row_name: "decrypted_row unseal e s = Some t \<Longrightarrow> sv_name t = sv_name s"
  by (auto simp: decrypted_row_def split: if_splits res.splits)

text \<open>
  C30: A stored API key is recovered as it was entered, when encryption is enabled or the key
  does not itself start with \<open>enc:\<close>. After inserting a server, reading it with its key decrypted
  returns the inserted fields and the original key. And so does the listing of all servers
  with decrypted keys, from which the balancer, the health checks, the referee and the list
  of models take their keys: if it could be read before the insertion it can be read after
  it, and under that name it has the inserted row and no other.\<close>

theorem inserted_key_is_recovered:
  assumes "aead_laws seal unseal" and "rnd = Some n \<and> length n = nonce_size"
    and "is_encryption_enabled st \<or> \<not> has_prefix (sv_api_key srv) ''enc:''"
    and ins: "insert_server seal rnd now srv st = (Ok srv', st')"
    and row: "row = srv\<lparr>sv_id := st_server_seq st + 1, sv_created_at := now, sv_updated_at := now\<rparr>"
  shows "get_server_with_decrypted_key unseal (sv_name srv) st' = Ok (Some row)
     \<and> (is_Ok (get_servers_with_decrypted_keys unseal None st) \<longrightarrow>
          (\<exists>ss. get_servers_with_decrypted_keys unseal None st' = Ok ss
             \<and> (\<forall>s. s \<in> set ss \<and> sv_name s = sv_name srv \<longleftrightarrow> s = row)))"
proof -
  from ins obtain c where c: "encrypt_for_store seal rnd st (sv_api_key srv) = Ok c"
    and up: "\<not> st_down st" and new: "find_server (sv_name srv) st = None"
    and st': "st' = st\<lparr>st_server_seq := st_server_seq st + 1, st_servers := st_servers st @ [row\<lparr>sv_api_key := c\<rparr>]\<rparr>"
    by (auto simp: insert_server_def row Let_def split: res.splits if_splits)
  have shown: "decrypted_row unseal (st_encryptor st) (row\<lparr>sv_api_key := c\<rparr>) = Some row"
  proof (cases "sv_api_key srv = []")
    case True
    with c have "c = []" by (simp add: encrypt_for_store_Ok)
    with True show ?thesis by (simp add: decrypted_row_def row)
  next
    case False
    with c have enc: "encrypt seal rnd (st_encryptor st) (sv_api_key srv) = Ok c"
      by (simp add: encrypt_for_store_Ok)
    have "decrypt unseal (st_encryptor st) c = Ok (sv_api_key srv)"
    proof (cases "en_enabled (st_encryptor st)")
      case True
      with assms(1,2) enc show ?thesis by (intro encrypt_decrypt_enabled) auto
    next
      case False
      with assms(3) enc show ?thesis
        by (auto simp: is_encryption_enabled_def encrypt_def decrypt_def)
    qed
    with encrypt_nonempty [OF enc False] show ?thesis by (simp add: decrypted_row_def row)
  qed
  have "get_server_by_name (sv_name srv) st' = Ok (Some (row\<lparr>sv_api_key := c\<rparr>))"
    using up new st' by (simp add: get_server_by_name_def find_server_def find_append row)
  with shown st' have one: "get_server_with_decrypted_key unseal (sv_name srv) st' = Ok (Some row)"
    by (auto simp: get_server_with_decrypted_key_def decrypted_row_def split: if_splits res.splits)
  have listing: "get_servers_with_decrypted_keys unseal None s
      = decrypt_servers unseal (st_encryptor st) (sort_key server_key_of (st_servers s))"
    if "s = st \<or> s = st'" for s
    using that up st' by (auto simp: get_servers_with_decrypted_keys_def get_servers_def)
  have "\<exists>ss. get_servers_with_decrypted_keys unseal None st' = Ok ss
      \<and> (\<forall>s. s \<in> set ss \<and> sv_name s = sv_name srv \<longleftrightarrow> s = row)"
    if old: "is_Ok (get_servers_with_decrypted_keys unseal None st)"
  proof -
    obtain us where "decrypt_servers unseal (st_encryptor st) (sort_key server_key_of (st_servers st)) = Ok us"
      using old listing [of st] by (metis is_Ok.elims(2))
    from decrypt_servers_rows_shown [OF this] shown
    have "\<forall>s \<in> set (sort_key server_key_of (st_servers st')). decrypted_row unseal (st_encryptor st) s \<noteq> None"
      by (simp add: st')
    from decrypt_servers_Ok [OF this] obtain ss
      where ss: "decrypt_servers unseal (st_encryptor st) (sort_key server_key_of (st_servers st')) = Ok ss" by blast
    have rows: "s \<in> set ss \<longleftrightarrow> (\<exists>r \<in> set (st_servers st'). decrypted_row unseal (st_encryptor st) r = Some s)" for s
      using decrypt_servers_rows_shown [OF ss] by simp
    have other: "sv_name r \<noteq> sv_name srv" if "r \<in> set (st_servers st)" for r
      using new that by (simp add: find_server_def find_None_iff)
    have "s \<in> set ss \<and> sv_name s = sv_name srv \<longleftrightarrow> s = row" for s
    proof
      assume s: "s \<in> set ss \<and> sv_name s = sv_name srv"
      then obtain r where r: "r \<in> set (st_servers st')" "decrypted_row unseal (st_encryptor st) r = Some s"
        using rows by blast
      with s other decrypted_row_name [OF r(2)] have "r = row\<lparr>sv_api_key := c\<rparr>" by (auto simp: st')
      with r(2) shown show "s = row" by simp
    next
      assume "s = row"
      with shown show "s \<in> set ss \<and> sv_name s = sv_name srv" by (auto simp: rows st') (simp add: row)
    qed
    with ss listing [of st'] show ?thesis by simp
  qed
  with one show ?thesis by blast
qed

definition demo_server :: server where
  "demo_server = \<lparr>sv_id = 0, sv_name = ''a'', sv_provider_type = ''openai'', sv_endpoint = ''http://a'',
     sv_api_key = ''sk-1'', sv_hostgroup = 0, sv_weight = 1, sv_max_connections = 100,
     sv_status = status_online, sv_comment = [], sv_created_at = 0, sv_updated_at = 0\<rparr>"

definition demo_tables :: storage where
  "demo_tables = empty_tables \<lparr>en_key = replicate 32 CHR ''k'', en_enabled = True\<rparr>"

lemmas demo_defs = demo_server_def demo_tables_def empty_tables_def

theorem inserted_key_is_recovered_witness:
  "let st = snd (insert_server toy_seal (Some (replicate 12 CHR ''n'')) 7 demo_server demo_tables);
       row = demo_server\<lparr>sv_id := 1, sv_created_at := 7, sv_updated_at := 7\<rparr>
   in get_server_with_decrypted_key toy_unseal ''a'' st = Ok (Some row)
     \<and> (\<exists>ss. get_servers_with_decrypted_keys toy_unseal None st = Ok ss \<and> row \<in> set ss)"
proof -
  obtain s' st' where ins:
    "insert_server toy_seal (Some (replicate 12 CHR ''n'')) 7 demo_server demo_tables = (Ok s', st')"
    by (simp add: insert_server_def encrypt_for_store_def encrypt_def demo_defs
        aes_key_ok_def find_server_def Let_def)
  have "is_Ok (get_servers_with_decrypted_keys toy_unseal None demo_tables)"
    by (simp add: get_servers_with_decrypted_keys_def get_servers_def demo_defs)
  then show ?thesis
    using inserted_key_is_recovered [OF toy_aead _ _ ins refl, of "replicate 12 CHR ''n''"] ins
    by (auto simp: nonce_size_def is_encryption_enabled_def demo_defs)
qed

text \<open>
  Writing back a record that was read breaks its key: when encryption is enabled, an
  update with the row that \<open>GetServerByName\<close> returned encrypts the stored ciphertext
  once more, and from then on the key handed to the providers is the old ciphertext
  instead of the key.\<close>

theorem update_with_fetched_record_breaks_key:
  assumes "aead_laws seal unseal" and "rnd = Some n \<and> length n = nonce_size"
    and "is_encryption_enabled st" and "sv_api_key r \<noteq> []"
    and "get_server_by_name name st = Ok (Some r)"
    and upd: "update_server seal rnd now r st = (Ok (), st')"
  shows "\<exists>r'. get_server_with_decrypted_key unseal name st' = Ok (Some r')
           \<and> sv_api_key r' = sv_api_key r"
proof -
  from assms(5) have name: "sv_name r = name" and fnd: "find_server name st = Some r" and up: "\<not> st_down st"
    by (auto simp: get_server_by_name_def find_server_def dest: find_Some_prop split: if_splits)
  from upd assms(4) up obtain c where enc: "encrypt seal rnd (st_encryptor st) (sv_api_key r) = Ok c"
    and st': "st_servers st' = map (\<lambda>s. if sv_name s = name
          then s\<lparr>sv_provider_type := sv_provider_type r, sv_endpoint := sv_endpoint r,
                 sv_api_key := c, sv_hostgroup := sv_hostgroup r, sv_weight := sv_weight r,
                 sv_max_connections := sv_max_connections r, sv_status := sv_status r,
                 sv_comment := sv_comment r, sv_updated_at := now\<rparr> else s) (st_servers st)"
    and same: "st_encryptor st' = st_encryptor st" "st_down st' = st_down st"
    using name by (auto simp: update_server_def encrypt_for_store_Ok split: res.splits)
  have dec: "decrypt unseal (st_encryptor st) c = Ok (sv_api_key r)"
    using assms(1-3) enc by (intro encrypt_decrypt_enabled) (auto simp: is_encryption_enabled_def)
  have upd_find: "find (\<lambda>s. sv_name s = name) (map f xs) = map_option f (find (\<lambda>s. sv_name s = name) xs)"
    if "\<And>s. sv_name (f s) = sv_name s" for f :: "server \<Rightarrow> server" and xs
    using that by (induction xs) auto
  have "find_server name st' = Some (r\<lparr>sv_api_key := c, sv_updated_at := now\<rparr>)"
    using fnd name by (simp add: find_server_def st' upd_find)
  with up same dec encrypt_nonempty [OF enc assms(4)] show ?thesis
    by (simp add: get_server_with_decrypted_key_def get_server_by_name_def)
qed

theorem update_with_fetched_record_breaks_key_witness:
  "\<exists>r'. get_server_with_decrypted_key toy_unseal ''a''
     (snd (update_server toy_seal (Some (replicate 12 CHR ''n'')) 9
        (demo_server\<lparr>sv_api_key := ''enc:AAAA''\<rparr>)
        (demo_tables\<lparr>st_servers := [demo_server\<lparr>sv_api_key := ''enc:AAAA''\<rparr>]\<rparr>))) = Ok (Some r')
     \<and> sv_api_key r' = ''enc:AAAA''"
proof -
  let ?r = "demo_server\<lparr>sv_api_key := ''enc:AAAA''\<rparr>"
  let ?st = "demo_tables\<lparr>st_servers := [?r]\<rparr>"
  let ?u = "update_server toy_seal (Some (replicate 12 CHR ''n'')) 9 ?r ?st"
  have u: "?u = (Ok (), snd ?u)"
    by (simp add: update_server_def encrypt_for_store_def encrypt_def demo_defs aes_key_ok_def)
  show ?thesis
    using update_with_fetched_record_breaks_key [OF toy_aead _ _ _ _ u, of "replicate 12 CHR ''n''" "''a''"]
    by (simp add: nonce_size_def is_encryption_enabled_def get_server_by_name_def find_server_def demo_defs)
qed

text \<open>
  Tables behave as maps: inserting a server and deleting it again leaves every lookup
  as it was, a second insert under the same name is refused, and operations on other
  names do not change what a lookup returns.\<close>

theorem server_table_contract:
  assumes "is_Ok (fst (insert_server seal rnd now s st))"
    and "is_Ok (fst (delete_server (sv_name s) (snd (insert_server seal rnd now s st))))"
    and "sv_name s' = sv_name s"
    and "\<forall>e \<in> set es. table_op_key sv_name e \<noteq> k"
  shows "find_server k (snd (delete_server (sv_name s) (snd (insert_server seal rnd now s st)))) = find_server k st
     \<and> \<not> is_Ok (fst (insert_server seal rnd now s' (snd (insert_server seal rnd now s st))))
     \<and> find_server k (foldl (table_step (insert_server seal rnd now) delete_server) st es) = find_server k st"
  using servers.rem_after_add [OF assms(1,2)] servers.add_twice [OF assms(1,3)] servers.run_frame [OF assms(4)]
  by simp

theorem server_table_contract_witness:
  "\<not> is_Ok (fst (insert_server toy_seal (Some (replicate 12 CHR ''n'')) 7 demo_server
      (snd (insert_server toy_seal (Some (replicate 12 CHR ''n'')) 7 demo_server demo_tables))))"
  using server_table_contract [of toy_seal "Some (replicate 12 CHR ''n'')" 7 demo_server demo_tables demo_server "[]"]
  by (simp add: insert_server_def encrypt_for_store_def encrypt_def demo_defs aes_key_ok_def
      find_server_def Let_def delete_server_def)

end
