(* ===== verification/Health.thy ===== *)
theory Health
  imports Storage
begin

section \<open>Health checks (internal/health/health.go)\<close>

text \<open>
  The probes of the four provider families, the bookkeeping after a probe, manual marking
  and the queries. The network is the argument \<open>client\<close>: it answers a request with a
  response, with a transport error, or says that the URL does not parse. The goroutines
  of one round write disjoint entries of the status map, so a round is a fold over the
  servers in some order.
\<close>

record http_request =
  rq_method :: string
  rq_url :: string
  rq_headers :: "(string \<times> string) list"

datatype http_result = BadUrl string | NetError string | Response i64 string

type_synonym http_client = "http_request \<Rightarrow> http_result"

record status =
  hs_healthy :: bool
  hs_last_check :: time
  hs_last_success :: time
  hs_last_error :: string
  hs_latency :: duration
  hs_consec_fails :: i64
  hs_consec_success :: i64

text \<open>The zero value \<open>Status{}\<close>.\<close>

definition zero_status :: status where
  "zero_status = \<lparr>hs_healthy = False, hs_last_check = time_zero, hs_last_success = time_zero,
     hs_last_error = [], hs_latency = 0, hs_consec_fails = 0, hs_consec_success = 0\<rparr>"

record checker =
  hc_interval :: duration
  hc_timeout :: duration
  hc_status :: "string \<Rightarrow> status option"
  hc_has_callback :: bool

definition new_checker :: "duration \<Rightarrow> duration \<Rightarrow> checker" where
  "new_checker interval timeout =
     \<lparr>hc_interval = interval, hc_timeout = timeout, hc_status = (\<lambda>_. None), hc_has_callback = False\<rparr>"

definition set_update_callback :: "checker \<Rightarrow> checker" where
  "set_update_callback c = c\<lparr>hc_has_callback := True\<rparr>"

subsection \<open>Probes\<close>

definition bearer_headers :: "server \<Rightarrow> (string \<times> string) list" where
  "bearer_headers srv = (if sv_api_key srv \<noteq> [] then [(''Authorization'', ''Bearer '' @ sv_api_key srv)] else [])"

definition status_message :: "i64 \<Rightarrow> string \<Rightarrow> string" where
  "status_message code body = ''status '' @ itoa code @ '': '' @ take 1024 body"

definition check_openai :: "http_client \<Rightarrow> server \<Rightarrow> bool \<times> string" where
  "check_openai client srv =
     (case client \<lparr>rq_method = ''GET'', rq_url = sv_endpoint srv @ ''/v1/models'',
                   rq_headers = bearer_headers srv\<rparr> of
        BadUrl m \<Rightarrow> (False, m)
      | NetError m \<Rightarrow> (False, m)
      | Response code body \<Rightarrow>
          if code = 200 then (True, []) else (False, status_message code body))"

definition check_anthropic :: "http_client \<Rightarrow> server \<Rightarrow> bool \<times> string" where
  "check_anthropic client srv =
     (case client \<lparr>rq_method = ''GET'', rq_url = sv_endpoint srv, rq_headers = []\<rparr> of
        BadUrl m \<Rightarrow> (False, m)
      | NetError m \<Rightarrow> (False, m)
      | Response code body \<Rightarrow> (code < 500, []))"

definition check_ollama :: "http_client \<Rightarrow> server \<Rightarrow> bool \<times> string" where
  "check_ollama client srv =
     (case client \<lparr>rq_method = ''GET'', rq_url = sv_endpoint srv @ ''/api/tags'', rq_headers = []\<rparr> of
        BadUrl m \<Rightarrow> (False, m)
      | NetError m \<Rightarrow> (False, m)
      | Response code body \<Rightarrow>
          if code = 200 then (True, []) else (False, status_message code body))"

text \<open>
  The generic probe tries the bare endpoint after a transport error; there it ignores the
  error of building the request and would call the client with a nil request.
\<close>

definition check_generic :: "http_client \<Rightarrow> server \<Rightarrow> (unit, bool \<times> string) res" where
  "check_generic client srv =
     (case client \<lparr>rq_method = ''GET'', rq_url = sv_endpoint srv @ ''/v1/models'',
                   rq_headers = bearer_headers srv\<rparr> of
        BadUrl m \<Rightarrow> Ok (False, m)
      | NetError _ \<Rightarrow>
          (case client \<lparr>rq_method = ''GET'', rq_url = sv_endpoint srv, rq_headers = []\<rparr> of
             BadUrl _ \<Rightarrow> Panic ''nil request''
           | NetError m \<Rightarrow> Ok (False, m)
           | Response code body \<Rightarrow> Ok (code < 500, []))
      | Response code body \<Rightarrow> Ok (code < 500, []))"

definition probe :: "http_client \<Rightarrow> server \<Rightarrow> (unit, bool \<times> string) res" where
  "probe client srv =
     (let p = sv_provider_type srv in
      if p = ''openai'' \<or> p = ''azure'' then Ok (check_openai client srv)
      else if p = ''anthropic'' then Ok (check_anthropic client srv)
      else if p = ''ollama'' then Ok (check_ollama client srv)
      else check_generic client srv)"

subsection \<open>Bookkeeping\<close>

text \<open>
  The locked section after a probe; the result holds the notification sent to the
  registered callback, if any.
\<close>

definition record_check :: "time \<Rightarrow> time \<Rightarrow> string \<Rightarrow> bool \<Rightarrow> string \<Rightarrow> checker
    \<Rightarrow> (string \<times> bool) list \<times> checker" where
  "record_check start now name healthy err_msg c =
     (let status = (case hc_status c name of None \<Rightarrow> zero_status | Some s \<Rightarrow> s);
          prev_healthy = hs_healthy status;
          status = status\<lparr>hs_healthy := healthy, hs_last_check := now, hs_latency := time_sub now start\<rparr>;
          status = (if healthy
            then status\<lparr>hs_last_success := now, hs_last_error := [], hs_consec_fails := 0,
                        hs_consec_success := add64 (hs_consec_success status) 1\<rparr>
            else status\<lparr>hs_last_error := err_msg,
                        hs_consec_fails := add64 (hs_consec_fails status) 1, hs_consec_success := 0\<rparr>)
      in (if hc_has_callback c \<and> prev_healthy \<noteq> healthy then [(name, healthy)] else [],
          c\<lparr>hc_status := (hc_status c)(name := Some status)\<rparr>))"

definition check_server :: "http_client \<Rightarrow> time \<Rightarrow> time \<Rightarrow> server \<Rightarrow> checker
    \<Rightarrow> (unit, (string \<times> bool) list \<times> checker) res" where
  "check_server client start now srv c =
     res_bind (probe client srv) (\<lambda>(healthy, err_msg).
       Ok (record_check start now (sv_name srv) healthy err_msg c))"

fun check_each :: "http_client \<Rightarrow> time \<Rightarrow> time \<Rightarrow> server list \<Rightarrow> checker
    \<Rightarrow> (unit, (string \<times> bool) list \<times> checker) res" where
  "check_each client start now [] c = Ok ([], c)"
| "check_each client start now (s # ss) c =
     (if sv_status s = status_offline then check_each client start now ss c
      else res_bind (check_server client start now s c) (\<lambda>(ns, c').
        res_bind (check_each client start now ss c') (\<lambda>(ns', c''). Ok (ns @ ns', c''))))"

definition check_all :: "(string \<Rightarrow> string \<Rightarrow> string \<Rightarrow> string option) \<Rightarrow> http_client \<Rightarrow> time \<Rightarrow> time
    \<Rightarrow> storage \<Rightarrow> checker \<Rightarrow> (unit, (string \<times> bool) list \<times> checker) res" where
  "check_all unseal client start now st c =
     (case get_servers_with_decrypted_keys unseal None st of
        Ok servers \<Rightarrow> check_each client start now servers c
      | _ \<Rightarrow> Ok ([], c))"

definition get_status :: "string \<Rightarrow> checker \<Rightarrow> status option" where
  "get_status name c = hc_status c name"

definition get_all_status :: "checker \<Rightarrow> string \<Rightarrow> status option" where
  "get_all_status c = hc_status c"

definition is_healthy :: "string \<Rightarrow> checker \<Rightarrow> bool" where
  "is_healthy name c = (case hc_status c name of Some s \<Rightarrow> hs_healthy s | None \<Rightarrow> True)"

definition mark_unhealthy :: "time \<Rightarrow> string \<Rightarrow> string \<Rightarrow> checker \<Rightarrow> checker" where
  "mark_unhealthy now name reason c =
     c\<lparr>hc_status := (hc_status c)(name := Some (case hc_status c name of
         Some s \<Rightarrow> s\<lparr>hs_healthy := False, hs_last_error := reason,
                     hs_consec_fails := add64 (hs_consec_fails s) 1, hs_consec_success := 0\<rparr>
       | None \<Rightarrow> zero_status\<lparr>hs_last_check := now, hs_last_error := reason, hs_consec_fails := 1\<rparr>))\<rparr>"

definition mark_healthy :: "time \<Rightarrow> string \<Rightarrow> checker \<Rightarrow> checker" where
  "mark_healthy now name c =
     c\<lparr>hc_status := (hc_status c)(name := Some (case hc_status c name of
         Some s \<Rightarrow> s\<lparr>hs_healthy := True, hs_last_success := now, hs_last_error := [],
                     hs_consec_fails := 0, hs_consec_success := add64 (hs_consec_success s) 1\<rparr>
       | None \<Rightarrow> zero_status\<lparr>hs_healthy := True, hs_last_check := now, hs_last_success := now,
                             hs_consec_success := 1\<rparr>))\<rparr>"

subsection \<open>Properties\<close>

datatype hc_op = HcCheck time time string bool string | HcUnhealthy time string string | HcHealthy time string

fun hc_step :: "checker \<Rightarrow> hc_op \<Rightarrow> checker" where
  "hc_step c (HcCheck start now n h m) = snd (record_check start now n h m c)"
| "hc_step c (HcUnhealthy now n r) = mark_unhealthy now n r c"
| "hc_step c (HcHealthy now n) = mark_healthy now n c"

fun hc_op_name :: "hc_op \<Rightarrow> string" where
  "hc_op_name (HcCheck _ _ n _ _) = n"
| "hc_op_name (HcUnhealthy _ n _) = n"
| "hc_op_name (HcHealthy _ n) = n"

fun hc_op_verdict :: "hc_op \<Rightarrow> bool" where
  "hc_op_verdict (HcCheck _ _ _ h _) = h"
| "hc_op_verdict (HcUnhealthy _ _ _) = False"
| "hc_op_verdict (HcHealthy _ _) = True"

definition status_ok :: "status \<Rightarrow> bool" where
  "status_ok s \<longleftrightarrow> (if hs_healthy s then hs_consec_fails s = 0 \<and> hs_last_error s = []
                   else hs_consec_success s = 0)"

definition hc_inv :: "checker \<Rightarrow> bool" where
  "hc_inv c \<longleftrightarrow> (\<forall>n s. hc_status c n = Some s \<longrightarrow> status_ok s)"

lemmas hc_ops = record_check_def mark_unhealthy_def mark_healthy_def

lemma hc_step_other: "n \<noteq> hc_op_name e \<Longrightarrow> hc_status (hc_step c e) n = hc_status c n"
  by (cases e) (auto simp: hc_ops Let_def)

lemma hc_step_self:
  "\<exists>s. hc_status (hc_step c e) (hc_op_name e) = Some s \<and> status_ok s \<and> hs_healthy s = hc_op_verdict e"
  by (cases e) (auto simp: hc_ops Let_def status_ok_def zero_status_def split: option.splits)

lemma hc_step_inv: "hc_inv c \<Longrightarrow> hc_inv (hc_step c e)"
  unfolding hc_inv_def
proof (intro allI impI)
  fix n s
  assume inv: "\<forall>n s. hc_status c n = Some s \<longrightarrow> status_ok s" and s: "hc_status (hc_step c e) n = Some s"
  show "status_ok s"
  proof (cases "n = hc_op_name e")
    case True
    with s show ?thesis using hc_step_self [of c e] by auto
  next
    case False
    with inv s show ?thesis by (simp add: hc_step_other)
  qed
qed

interpretation hc: machine hc_step hc_inv
  by unfold_locales (rule hc_step_inv)

text \<open>
  The health records are consistent and current: after any sequence of probe results
  and manual marks, a server that was mentioned is reported as its last verdict says, a
  server never mentioned counts as healthy, and a healthy record has no failures and no
  error while an unhealthy one has no successes.\<close>

theorem health_reports_last_verdict:
  "is_healthy n (foldl hc_step (new_checker i t) es)
     = (case filter (\<lambda>e. hc_op_name e = n) (rev es) of [] \<Rightarrow> True | e # _ \<Rightarrow> hc_op_verdict e)
   \<and> hc_inv (foldl hc_step (new_checker i t) es)"
proof -
  have "is_healthy n (foldl hc_step (new_checker i t) es)
     = (case filter (\<lambda>e. hc_op_name e = n) (rev es) of [] \<Rightarrow> True | e # _ \<Rightarrow> hc_op_verdict e)"
  proof (induction es rule: rev_induct)
    case Nil
    then show ?case by (simp add: is_healthy_def new_checker_def)
  next
    case (snoc e es)
    let ?c = "foldl hc_step (new_checker i t) es"
    obtain s where "hc_status (hc_step ?c e) (hc_op_name e) = Some s" and "hs_healthy s = hc_op_verdict e"
      using hc_step_self [of ?c e] by blast
    with snoc show ?case by (cases "hc_op_name e = n") (auto simp: is_healthy_def hc_step_other)
  qed
  moreover have "hc_inv (new_checker i t)" by (simp add: hc_inv_def new_checker_def)
  ultimately show ?thesis by (simp add: hc.run_inv)
qed

fun trailing :: "bool \<Rightarrow> bool list \<Rightarrow> nat" where
  "trailing b vs = length (takeWhile (\<lambda>v. v = b) (rev vs))"

text \<open>
  The consecutive counters count: after a sequence of probes of one server, starting
  from no record, \<open>ConsecFails\<close> is the length of the run of failures the sequence ends
  with and \<open>ConsecSuccess\<close> the length of the run of successes.\<close>

theorem consecutive_counters:
  assumes "vs \<noteq> []" and "int (length vs) \<le> max64"
    and "hc_status c n = None"
  shows "\<exists>s. hc_status (foldl (\<lambda>c (v, m). snd (record_check t0 t1 n v m c)) c vs) n = Some s
     \<and> hs_consec_fails s = int (trailing False (map fst vs))
     \<and> hs_consec_success s = int (trailing True (map fst vs))"
  using assms(1,2)
proof (induction vs rule: rev_induct)
  case (snoc x xs)
  obtain v m where x: "x = (v, m)" by (cases x)
  have len: "trailing b (map fst xs) \<le> length xs" for b
    using length_takeWhile_le [of "\<lambda>v. v = b" "rev (map fst xs)"] by simp
  have inc: "add64 (int k) 1 = int k + 1" if "k \<le> length xs" for k
    using snoc.prems that by (intro add64_exact) (auto simp: in64_def)
  show ?case
  proof (cases "xs = []")
    case True
    with x assms(3) show ?thesis
      by (auto simp: record_check_def Let_def zero_status_def add64_def in64_def)
  next
    case False
    with snoc obtain s where "hc_status (foldl (\<lambda>c (v, m). snd (record_check t0 t1 n v m c)) c xs) n = Some s"
      and "hs_consec_fails s = int (trailing False (map fst xs))"
      and "hs_consec_success s = int (trailing True (map fst xs))" by auto
    with x inc [OF len] show ?thesis
      by (auto simp: record_check_def Let_def simp del: trailing.simps) (simp_all add: trailing.simps)
  qed
qed simp

theorem consecutive_counters_witness:
  "\<exists>s. hc_status (foldl (\<lambda>c (v, m). snd (record_check 0 5 ''a'' v m c)) (new_checker 10 5)
      [(True, []), (False, ''e''), (False, ''e'')]) ''a'' = Some s
     \<and> hs_consec_fails s = 2 \<and> hs_consec_success s = 0"
  using consecutive_counters [of "[(True, []), (False, ''e''), (False, ''e'')]" "new_checker 10 5" "''a''" 0 5]
  by (simp add: new_checker_def)

text \<open>
  A change is announced exactly when the stored flag changes: a probe notifies the
  callback iff one is registered and the verdict differs from the recorded one, where a
  server without a record counts as unhealthy. So the first successful probe of a server
  announces it as healthy although \<open>IsHealthy\<close> already said so.\<close>

theorem notifies_on_change:
  "fst (record_check t0 t1 n v m c)
     = (if hc_has_callback c \<and> v \<noteq> (case hc_status c n of None \<Rightarrow> False | Some s \<Rightarrow> hs_healthy s)
        then [(n, v)] else [])
   \<and> is_healthy n (snd (record_check t0 t1 n v m c)) = v"
  by (auto simp: record_check_def Let_def is_healthy_def zero_status_def split: option.splits)

text \<open>
  A response of an Anthropic endpoint counts as healthy exactly below status 500, and
  an unhealthy verdict on a response carries no error text.\<close>

theorem anthropic_probe_threshold:
  assumes "client \<lparr>rq_method = ''GET'', rq_url = sv_endpoint srv, rq_headers = []\<rparr> = Response code body"
    and "sv_provider_type srv = ''anthropic''"
  shows "probe client srv = Ok (code < 500, [])"
  using assms by (simp add: probe_def check_anthropic_def)

theorem anthropic_probe_threshold_witness:
  "probe (\<lambda>_. Response 503 ''down'') (demo_server\<lparr>sv_provider_type := ''anthropic''\<rparr>) = Ok (False, [])"
  using anthropic_probe_threshold [of "\<lambda>_. Response 503 ''down''"
      "demo_server\<lparr>sv_provider_type := ''anthropic''\<rparr>" 503 "''down''"] by simp

end
