(* ===== verification/Balancer.thy ===== *)
theory Balancer
  imports Circuit Health
begin

section \<open>Load balancing (internal/balancer/balancer.go)\<close>

text \<open>
  The balancer's runtime copy of the servers, the four selection algorithms, selection
  with its filters (health, circuit breaker, status) and release. The code shares
  \<open>*ServerState\<close> pointers between the map by name and the lists by hostgroup; here a
  pointer is an index into \<open>bl_heap\<close>, which \<open>LoadServers\<close> builds anew. The round-robin
  counters are 64-bit words, and a hostgroup without a counter is the nil pointer of the
  code. The moving average of the latency, a float64 expression in the code, is computed
  exactly and truncated.
\<close>

subsection \<open>State\<close>

record server_state =
  ss_server :: server
  ss_connections :: i64
  ss_total_reqs :: i64
  ss_errors :: i64
  ss_avg_latency :: duration
  ss_last_used :: time

definition new_state :: "server \<Rightarrow> server_state" where
  "new_state srv = \<lparr>ss_server = srv, ss_connections = 0, ss_total_reqs = 0, ss_errors = 0,
     ss_avg_latency = 0, ss_last_used = time_zero\<rparr>"

datatype bal_error = ErrNoServersAvailable | ErrServerNotFound

type_synonym algorithm = string

abbreviation alg_weighted_round_robin :: algorithm where
  "alg_weighted_round_robin \<equiv> ''weighted_round_robin''"
abbreviation alg_least_connections :: algorithm where
  "alg_least_connections \<equiv> ''least_connections''"
abbreviation alg_random :: algorithm where "alg_random \<equiv> ''random''"
abbreviation alg_latency_based :: algorithm where "alg_latency_based \<equiv> ''latency_based''"

record balancer =
  bl_health :: "checker option"
  bl_circuits :: "manager option"
  bl_algorithm :: algorithm
  bl_heap :: "server_state list"
  bl_servers :: "string \<Rightarrow> nat option"
  bl_hostgroups :: "i64 \<Rightarrow> nat list"
  bl_counters :: "i64 \<Rightarrow> 64 word option"

definition new_balancer :: "checker option \<Rightarrow> manager option \<Rightarrow> balancer" where
  "new_balancer health circuits =
     \<lparr>bl_health = map_option set_update_callback health, bl_circuits = circuits,
      bl_algorithm = alg_weighted_round_robin, bl_heap = [], bl_servers = (\<lambda>_. None),
      bl_hostgroups = (\<lambda>_. []), bl_counters = (\<lambda>_. None)\<rparr>"

text \<open>\<open>onHealthChange\<close>, the registered callback, does nothing.\<close>

definition on_health_change :: "string \<Rightarrow> bool \<Rightarrow> balancer \<Rightarrow> balancer" where
  "on_health_change name healthy b = b"

fun load_loop :: "server list \<Rightarrow> balancer \<Rightarrow> balancer" where
  "load_loop [] b = b"
| "load_loop (srv # rest) b =
     (if sv_status srv = status_offline then load_loop rest b
      else load_loop rest
        (let p = length (bl_heap b); hg = sv_hostgroup srv in
         b\<lparr>bl_heap := bl_heap b @ [new_state srv],
           bl_servers := (bl_servers b)(sv_name srv := Some p),
           bl_hostgroups := (bl_hostgroups b)(hg := bl_hostgroups b hg @ [p]),
           bl_counters := (if bl_counters b hg = None then (bl_counters b)(hg := Some 0)
                           else bl_counters b)\<rparr>))"

definition load_servers :: "(string \<Rightarrow> string \<Rightarrow> string \<Rightarrow> string option) \<Rightarrow> storage \<Rightarrow> balancer
    \<Rightarrow> (db_error, unit) res \<times> balancer" where
  "load_servers unseal st b =
     (case get_servers_with_decrypted_keys unseal None st of
        Err e \<Rightarrow> (Err e, b)
      | Panic m \<Rightarrow> (Panic m, b)
      | Ok servers \<Rightarrow> (Ok (), load_loop servers
          (b\<lparr>bl_heap := [], bl_servers := (\<lambda>_. None), bl_hostgroups := (\<lambda>_. [])\<rparr>)))"

definition set_algorithm :: "algorithm \<Rightarrow> balancer \<Rightarrow> balancer" where
  "set_algorithm alg b = b\<lparr>bl_algorithm := alg\<rparr>"

subsection \<open>The selection algorithms\<close>

definition weight_at :: "server_state list \<Rightarrow> nat \<Rightarrow> i64" where
  "weight_at h p = sv_weight (ss_server (h ! p))"

definition total_weight :: "server_state list \<Rightarrow> nat list \<Rightarrow> i64" where
  "total_weight h ps = foldl (\<lambda>t p. add64 t (weight_at h p)) 0 ps"

text \<open>The loop that finds the server whose weight interval holds \<open>pos\<close>.\<close>

fun cumulative_pick :: "server_state list \<Rightarrow> i64 \<Rightarrow> i64 \<Rightarrow> nat list \<Rightarrow> nat option" where
  "cumulative_pick h pos acc [] = None"
| "cumulative_pick h pos acc (p # ps) =
     (let acc = add64 acc (weight_at h p)
      in if pos < acc then Some p else cumulative_pick h pos acc ps)"

definition select_weighted_round_robin :: "server_state list \<Rightarrow> nat list \<Rightarrow> i64
    \<Rightarrow> (i64 \<Rightarrow> 64 word option) \<Rightarrow> (unit, nat option) res \<times> (i64 \<Rightarrow> 64 word option)" where
  "select_weighted_round_robin h ps hg counters =
     (if ps = [] then (Ok None, counters)
      else case counters hg of
          None \<Rightarrow> (Panic ''nil counter'', counters)
        | Some c \<Rightarrow>
            let c' = c + 1; counters = counters(hg := Some c'); total = total_weight h ps in
            if total = 0 then
              (Ok (Some (ps ! unat (c' mod of_nat (length ps)))), counters)
            else
              let pos = sint (c' mod word_of_int total) in
              (Ok (Some (case cumulative_pick h pos 0 ps of Some p \<Rightarrow> p | None \<Rightarrow> hd ps)), counters))"

fun minimum_pick :: "(nat \<Rightarrow> i64) \<Rightarrow> i64 \<Rightarrow> nat option \<Rightarrow> nat list \<Rightarrow> nat option" where
  "minimum_pick f best sel [] = sel"
| "minimum_pick f best sel (p # ps) =
     (if f p < best then minimum_pick f (f p) (Some p) ps else minimum_pick f best sel ps)"

definition adjusted_connections :: "server_state list \<Rightarrow> nat \<Rightarrow> i64" where
  "adjusted_connections h p =
     (let conns = ss_connections (h ! p)
      in if 0 < weight_at h p then quot64 conns (weight_at h p) else conns)"

definition select_least_connections :: "server_state list \<Rightarrow> nat list \<Rightarrow> nat option" where
  "select_least_connections h ps = minimum_pick (adjusted_connections h) max64 None ps"

definition adjusted_latency :: "server_state list \<Rightarrow> nat \<Rightarrow> duration" where
  "adjusted_latency h p =
     (let latency = (if ss_avg_latency (h ! p) = 0 then 100 * millisecond else ss_avg_latency (h ! p))
      in if 0 < weight_at h p then quot64 latency (weight_at h p) else latency)"

definition select_latency_based :: "server_state list \<Rightarrow> nat list \<Rightarrow> nat option" where
  "select_latency_based h ps = minimum_pick (adjusted_latency h) max64 None ps"

text \<open>
  \<open>rand.Intn(n)\<close> is the argument \<open>intn\<close>; it panics on \<open>n \<le> 0\<close>.
\<close>

definition select_random :: "(i64 \<Rightarrow> i64) \<Rightarrow> server_state list \<Rightarrow> nat list \<Rightarrow> (unit, nat option) res" where
  "select_random intn h ps =
     (if ps = [] then Ok None
      else let total = total_weight h ps in
        if total = 0 then Ok (Some (ps ! nat (intn (int (length ps)))))
        else if total < 0 then Panic ''invalid argument to Intn''
        else Ok (Some (case cumulative_pick h (intn total) 0 ps of Some p \<Rightarrow> p | None \<Rightarrow> hd ps)))"

definition select_by_algorithm :: "(i64 \<Rightarrow> i64) \<Rightarrow> algorithm \<Rightarrow> server_state list \<Rightarrow> nat list \<Rightarrow> i64
    \<Rightarrow> (i64 \<Rightarrow> 64 word option) \<Rightarrow> (unit, nat option) res \<times> (i64 \<Rightarrow> 64 word option)" where
  "select_by_algorithm intn alg h ps hg counters =
     (if alg = alg_weighted_round_robin then select_weighted_round_robin h ps hg counters
      else if alg = alg_least_connections then (Ok (select_least_connections h ps), counters)
      else if alg = alg_random then (select_random intn h ps, counters)
      else if alg = alg_latency_based then (Ok (select_latency_based h ps), counters)
      else select_weighted_round_robin h ps hg counters)"

subsection \<open>Selection and release\<close>

definition healthy_in :: "checker option \<Rightarrow> string \<Rightarrow> bool" where
  "healthy_in h name = (case h of None \<Rightarrow> True | Some c \<Rightarrow> is_healthy name c)"

definition circuits_allow :: "time \<Rightarrow> string \<Rightarrow> manager option \<Rightarrow> bool \<times> manager option" where
  "circuits_allow now name mo = (case mo of
       None \<Rightarrow> (True, None)
     | Some m \<Rightarrow> (let (ok, m') = mgr_allow now name m in (ok, Some m')))"

text \<open>
  The filter loop: an unhealthy server is skipped before its breaker is asked, a refused
  one before its status is looked at.
\<close>

fun gate_filter :: "(string \<Rightarrow> 'm \<Rightarrow> bool \<times> 'm) \<Rightarrow> ('s \<Rightarrow> string) \<Rightarrow> ('s \<Rightarrow> bool) \<Rightarrow> ('s \<Rightarrow> bool)
    \<Rightarrow> 's list \<Rightarrow> 'm \<Rightarrow> 's list \<times> 'm" where
  "gate_filter allow nm healthy online [] m = ([], m)"
| "gate_filter allow nm healthy online (s # ss) m =
     (if \<not> healthy s then gate_filter allow nm healthy online ss m
      else let (ok, m) = allow (nm s) m in
        if \<not> ok then gate_filter allow nm healthy online ss m
        else if \<not> online s then gate_filter allow nm healthy online ss m
        else let (rest, m) = gate_filter allow nm healthy online ss m in (s # rest, m))"

definition name_at :: "balancer \<Rightarrow> nat \<Rightarrow> string" where
  "name_at b p = sv_name (ss_server (bl_heap b ! p))"

definition online_at :: "balancer \<Rightarrow> nat \<Rightarrow> bool" where
  "online_at b p \<longleftrightarrow> sv_status (ss_server (bl_heap b ! p)) = status_online"

definition candidates :: "i64 \<Rightarrow> balancer \<Rightarrow> nat list" where
  "candidates hg b = (if bl_hostgroups b hg = [] then bl_hostgroups b 0 else bl_hostgroups b hg)"

definition available :: "time \<Rightarrow> i64 \<Rightarrow> balancer \<Rightarrow> nat list \<times> manager option" where
  "available now hg b =
     gate_filter (circuits_allow now) (name_at b) (\<lambda>p. healthy_in (bl_health b) (name_at b p))
       (online_at b) (candidates hg b) (bl_circuits b)"

definition count_selection :: "server_state \<Rightarrow> server_state" where
  "count_selection s = s\<lparr>ss_connections := add64 (ss_connections s) 1,
     ss_total_reqs := add64 (ss_total_reqs s) 1\<rparr>"

definition select_server :: "(i64 \<Rightarrow> i64) \<Rightarrow> time \<Rightarrow> i64 \<Rightarrow> balancer \<Rightarrow> (bal_error, server) res \<times> balancer" where
  "select_server intn now hg b =
     (if candidates hg b = [] then (Err ErrNoServersAvailable, b)
      else let (avail, circuits) = available now hg b; b = b\<lparr>bl_circuits := circuits\<rparr> in
        if avail = [] then (Err ErrNoServersAvailable, b)
        else let (r, counters) = select_by_algorithm intn (bl_algorithm b) (bl_heap b) avail hg (bl_counters b);
                 b = b\<lparr>bl_counters := counters\<rparr> in
          (case r of
             Panic m \<Rightarrow> (Panic m, b)
           | Err _ \<Rightarrow> (Err ErrNoServersAvailable, b)
           | Ok None \<Rightarrow> (Err ErrNoServersAvailable, b)
           | Ok (Some p) \<Rightarrow> (Ok (ss_server (bl_heap b ! p)),
               b\<lparr>bl_heap := (bl_heap b)[p := count_selection (bl_heap b ! p)]\<rparr>)))"

text \<open>The moving average \<open>0.7 * old + 0.3 * new\<close>, truncated to whole nanoseconds.\<close>

definition ema_latency :: "duration \<Rightarrow> duration \<Rightarrow> duration" where
  "ema_latency old new = (let x = 7 * old + 3 * new in sgn x * (\<bar>x\<bar> div 10))"

definition count_release :: "time \<Rightarrow> duration \<Rightarrow> bool \<Rightarrow> server_state \<Rightarrow> server_state" where
  "count_release now latency success s =
     s\<lparr>ss_connections := sub64 (ss_connections s) 1,
       ss_errors := (if success then ss_errors s else add64 (ss_errors s) 1),
       ss_avg_latency := (if ss_avg_latency s = 0 then latency else ema_latency (ss_avg_latency s) latency),
       ss_last_used := now\<rparr>"

definition release_server :: "time \<Rightarrow> string \<Rightarrow> duration \<Rightarrow> bool \<Rightarrow> balancer \<Rightarrow> balancer" where
  "release_server now name latency success b =
     (case bl_servers b name of
        None \<Rightarrow> b
      | Some p \<Rightarrow> b\<lparr>bl_circuits := map_option
                 (\<lambda>m. if success then mgr_success now name m else mgr_failure now name m) (bl_circuits b),
               bl_heap := (bl_heap b)[p := count_release now latency success (bl_heap b ! p)]\<rparr>)"

definition get_server :: "string \<Rightarrow> balancer \<Rightarrow> (bal_error, server) res" where
  "get_server name b = (case bl_servers b name of
     Some p \<Rightarrow> Ok (ss_server (bl_heap b ! p)) | None \<Rightarrow> Err ErrServerNotFound)"

definition get_server_state :: "string \<Rightarrow> balancer \<Rightarrow> (bal_error, server_state) res" where
  "get_server_state name b = (case bl_servers b name of
     Some p \<Rightarrow> Ok (bl_heap b ! p) | None \<Rightarrow> Err ErrServerNotFound)"

text \<open>Iteration over the map by name happens in some order \<open>names\<close> of its keys.\<close>

definition get_all_server_states :: "string list \<Rightarrow> balancer \<Rightarrow> server_state list" where
  "get_all_server_states names b =
     List.map_filter (\<lambda>n. map_option (\<lambda>p. bl_heap b ! p) (bl_servers b n)) names"

definition get_hostgroup_servers :: "i64 \<Rightarrow> balancer \<Rightarrow> server list" where
  "get_hostgroup_servers hg b = map (\<lambda>p. ss_server (bl_heap b ! p)) (bl_hostgroups b hg)"

record server_stats =
  sst_name :: string
  sst_hostgroup :: i64
  sst_weight :: i64
  sst_connections :: i64
  sst_total_reqs :: i64
  sst_errors :: i64
  sst_avg_latency :: duration

record balancer_stats =
  bst_algorithm :: string
  bst_total_servers :: nat
  bst_healthy_servers :: nat
  bst_server_stats :: "server_stats list"
  bst_hostgroup_sizes :: "i64 \<Rightarrow> nat option"

definition server_stats_of :: "server_state \<Rightarrow> server_stats" where
  "server_stats_of s = \<lparr>sst_name = sv_name (ss_server s), sst_hostgroup = sv_hostgroup (ss_server s),
     sst_weight = sv_weight (ss_server s), sst_connections = ss_connections s,
     sst_total_reqs = ss_total_reqs s, sst_errors = ss_errors s, sst_avg_latency = ss_avg_latency s\<rparr>"

definition balancer_stats_of :: "string list \<Rightarrow> balancer \<Rightarrow> balancer_stats" where
  "balancer_stats_of names b =
     (let states = get_all_server_states names b in
      \<lparr>bst_algorithm = bl_algorithm b, bst_total_servers = length states,
       bst_healthy_servers = length (filter (\<lambda>s. healthy_in (bl_health b) (sv_name (ss_server s))) states),
       bst_server_stats = map server_stats_of states,
       bst_hostgroup_sizes = (\<lambda>hg. if bl_hostgroups b hg = [] then None
                                   else Some (length (bl_hostgroups b hg)))\<rparr>)"

subsection \<open>The weighted round robin is fair\<close>

text \<open>
  The weight intervals laid out one after the other: the server at offset \<open>i\<close> is the one
  the cumulative loop finds for position \<open>i\<close>.
\<close>

definition spread :: "(nat \<Rightarrow> i64) \<Rightarrow> nat list \<Rightarrow> nat list" where
  "spread w ps = concat (map (\<lambda>p. replicate (nat (w p)) p) ps)"

definition weights_fit :: "(nat \<Rightarrow> i64) \<Rightarrow> nat list \<Rightarrow> bool" where
  "weights_fit w ps \<longleftrightarrow> list_all (\<lambda>p. 0 \<le> w p) ps \<and> sum_list (map w ps) \<le> max64"

lemma sum_weights_nonneg: "list_all (\<lambda>p. 0 \<le> w p) ps \<Longrightarrow> 0 \<le> sum_list (map w ps)" for w :: "nat \<Rightarrow> int"
  by (induction ps) auto

lemma weights_fit_filter: "weights_fit w ps \<Longrightarrow> weights_fit w (filter P ps)"
proof -
  have "list_all (\<lambda>p. 0 \<le> w p) ps \<Longrightarrow> sum_list (map w (filter P ps)) \<le> sum_list (map w ps)"
    by (induction ps) auto
  moreover have "list_all (\<lambda>p. 0 \<le> w p) ps \<Longrightarrow> list_all (\<lambda>p. 0 \<le> w p) (filter P ps)"
    by (auto simp: list_all_iff)
  ultimately show "weights_fit w ps \<Longrightarrow> weights_fit w (filter P ps)" by (auto simp: weights_fit_def)
qed

lemma length_spread: "weights_fit w ps \<Longrightarrow> int (length (spread w ps)) = sum_list (map w ps)"
  by (induction ps) (auto simp: weights_fit_def spread_def dest: sum_weights_nonneg)

lemma total_weight_exact_from:
  "weights_fit (weight_at h) ps \<Longrightarrow> 0 \<le> a \<Longrightarrow> a + sum_list (map (weight_at h) ps) \<le> max64 \<Longrightarrow>
   foldl (\<lambda>t p. add64 t (weight_at h p)) a ps = a + sum_list (map (weight_at h) ps)"
proof (induction ps arbitrary: a)
  case (Cons p ps)
  have w: "0 \<le> weight_at h p" and n: "0 \<le> sum_list (map (weight_at h) ps)" and fit: "weights_fit (weight_at h) ps"
    using Cons.prems(1) sum_weights_nonneg [of "weight_at h" ps] by (auto simp: weights_fit_def)
  then have "add64 a (weight_at h p) = a + weight_at h p"
    using Cons.prems by (intro add64_exact) (simp add: in64_def)
  then show ?case using Cons.IH [OF fit, of "a + weight_at h p"] Cons.prems w n by simp
qed simp

lemma total_weight_exact:
  "weights_fit (weight_at h) ps \<Longrightarrow> total_weight h ps = sum_list (map (weight_at h) ps)"
  unfolding total_weight_def by (subst total_weight_exact_from) (simp_all add: weights_fit_def)

lemma cumulative_pick_spread:
  "weights_fit (weight_at h) ps \<Longrightarrow> 0 \<le> a \<Longrightarrow> a + sum_list (map (weight_at h) ps) \<le> max64 \<Longrightarrow>
   a \<le> pos \<Longrightarrow> pos < a + sum_list (map (weight_at h) ps) \<Longrightarrow>
   cumulative_pick h pos a ps = Some (spread (weight_at h) ps ! nat (pos - a))"
proof (induction ps arbitrary: a)
  case (Cons p ps)
  let ?w = "weight_at h p"
  have w: "0 \<le> ?w" and n: "0 \<le> sum_list (map (weight_at h) ps)" and fit: "weights_fit (weight_at h) ps"
    using Cons.prems(1) sum_weights_nonneg [of "weight_at h" ps] by (auto simp: weights_fit_def)
  then have acc: "add64 a ?w = a + ?w"
    using Cons.prems by (intro add64_exact) (simp add: in64_def)
  show ?case
  proof (cases "pos < a + ?w")
    case True
    with acc w Cons.prems show ?thesis
      by (simp add: spread_def nth_append)
  next
    case False
    have "nat (pos - a) - nat ?w = nat (pos - (a + ?w))" using False w by simp
    with False acc w Cons.prems Cons.IH [OF fit, of "a + ?w"] show ?thesis
      by (simp add: spread_def nth_append)
  qed
qed simp

lemma word_mod_total:
  assumes "0 < t" and "t \<le> max64"
  shows "sint ((c :: 64 word) mod word_of_int t) = int (unat c) mod t"
proof -
  have u: "uint (word_of_int t :: 64 word) = t"
    using assms by (simp add: uint_word_of_int)
  have m: "uint (c mod word_of_int t) = uint c mod t"
    by (simp add: uint_mod u)
  have "uint c mod t < t" using assms(1) by (rule pos_mod_bound)
  then have "uint c mod t < 9223372036854775808" using assms by linarith
  moreover have "0 \<le> uint c mod t" using assms(1) by (rule pos_mod_sign)
  ultimately have "sint (c mod word_of_int t) = uint (c mod word_of_int t)"
    by (simp add: sint_uint signed_take_bit_int_eq_self m)
  then show ?thesis by (simp add: m)
qed

text \<open>\<open>n\<close> selections in a row from the same list of available servers.\<close>

fun wrr_run :: "nat \<Rightarrow> server_state list \<Rightarrow> nat list \<Rightarrow> i64 \<Rightarrow> (i64 \<Rightarrow> 64 word option)
    \<Rightarrow> (unit, nat option) res list" where
  "wrr_run 0 h ps hg counters = []"
| "wrr_run (Suc n) h ps hg counters =
     (let (r, counters) = select_weighted_round_robin h ps hg counters
      in r # wrr_run n h ps hg counters)"

lemma wrr_run_spread:
  assumes fit: "weights_fit (weight_at h) ps" and pos: "0 < sum_list (map (weight_at h) ps)"
  shows "counters hg = Some c \<Longrightarrow> unat c + n < 2 ^ 64 \<Longrightarrow>
    wrr_run n h ps hg counters
      = map (\<lambda>i. Ok (Some (spread (weight_at h) ps ! ((unat c + 1 + i) mod length (spread (weight_at h) ps))))) [0..<n]"
proof (induction n arbitrary: counters c)
  case (Suc n)
  let ?t = "sum_list (map (weight_at h) ps)" and ?sp = "spread (weight_at h) ps"
  have t: "total_weight h ps = ?t" "0 < ?t" "?t \<le> max64" "int (length ?sp) = ?t"
    using fit pos by (auto simp: total_weight_exact length_spread weights_fit_def)
  have ne: "ps \<noteq> []" using pos by auto
  have c1: "unat (c + 1) = unat c + 1"
    using Suc.prems(2) by (simp add: unat_word_ariths)
  have pos': "sint ((c + 1) mod word_of_int ?t) = int ((unat c + 1) mod length ?sp)"
    using word_mod_total [OF t(2,3), of "c + 1"] unfolding c1 t(4) [symmetric] by (simp only: zmod_int)
  have "(unat c + 1) mod length ?sp < length ?sp" using t(2,4) by (intro mod_less_divisor) linarith
  then have lt: "int ((unat c + 1) mod length ?sp) < ?t" using t(4) by linarith
  have "cumulative_pick h (sint ((c + 1) mod word_of_int ?t)) 0 ps
      = Some (?sp ! ((unat c + 1) mod length ?sp))"
    using fit t(2,3) lt unfolding pos'
    by (subst cumulative_pick_spread) simp_all
  then have r: "select_weighted_round_robin h ps hg counters
      = (Ok (Some (?sp ! ((unat c + 1) mod length ?sp))), counters(hg \<mapsto> c + 1))"
    using ne t Suc.prems(1) by (simp add: select_weighted_round_robin_def Let_def)
  have "wrr_run n h ps hg (counters(hg \<mapsto> c + 1))
      = map (\<lambda>i. Ok (Some (?sp ! ((unat c + 1 + Suc i) mod length ?sp)))) [0..<n]"
    by (subst Suc.IH [of _ "c + 1"]) (use Suc.prems(2) in \<open>simp_all add: c1\<close>)
  then show ?case by (simp add: r map_upt_Suc del: upt_Suc)
qed simp

lemma count_spread:
  "distinct ps \<Longrightarrow> count_list (spread w ps) p = (if p \<in> set ps then nat (w p) else 0)"
proof (induction ps)
  case (Cons q ps)
  have "count_list (replicate k q) p = (if p = q then k else 0)" for k by (induction k) auto
  with Cons show ?case by (auto simp: spread_def)
qed (simp add: spread_def)

lemma map_shift_rotate: "map (\<lambda>i. xs ! ((k + i) mod length xs)) [0..<length xs] = rotate k xs"
  by (rule nth_equalityI) (simp_all add: nth_rotate add.commute)

lemma count_list_rotate: "count_list (rotate k xs) x = count_list xs x"
  by (metis rotate_drop_take count_list_append append_take_drop_id add.commute)

text \<open>
  C2: The weighted round robin is exactly fair: whatever the counter stands at, any block
  of as many consecutive selections as the weights sum to returns each available server
  exactly as often as its weight says, and no selection of the block fails.\<close>

theorem wrr_exactly_fair:
  assumes "distinct ps" and "weights_fit (weight_at h) ps" and "0 < sum_list (map (weight_at h) ps)"
    and "counters hg = Some c" and "unat c + nat (sum_list (map (weight_at h) ps)) < 2 ^ 64"
    and "p \<in> set ps"
  shows "count_list (wrr_run (nat (sum_list (map (weight_at h) ps))) h ps hg counters) (Ok (Some p))
       = nat (weight_at h p)
     \<and> set (wrr_run (nat (sum_list (map (weight_at h) ps))) h ps hg counters) \<subseteq> Ok ` Some ` set ps"
proof -
  let ?sp = "spread (weight_at h) ps"
  have len: "nat (sum_list (map (weight_at h) ps)) = length ?sp"
    using length_spread [OF assms(2)] by simp
  have run: "wrr_run (length ?sp) h ps hg counters = map (\<lambda>p. Ok (Some p)) (rotate (unat c + 1) ?sp)"
    using wrr_run_spread [OF assms(2,3), of counters hg c "length ?sp"] assms(4,5) len
    by (simp flip: map_shift_rotate add: comp_def)
  have inj: "count_list (map (\<lambda>p. Ok (Some p)) xs) (Ok (Some p)) = count_list xs p" for xs :: "nat list"
    by (induction xs) auto
  have "count_list (map (\<lambda>p. Ok (Some p)) (rotate (unat c + 1) ?sp)) (Ok (Some p)) = nat (weight_at h p)"
    using assms(1,6) by (simp only: inj count_list_rotate count_spread if_True)
  moreover have "set ?sp \<subseteq> set ps" by (auto simp: spread_def)
  ultimately show ?thesis unfolding len run by auto
qed


theorem wrr_exactly_fair_witness:
  "count_list (wrr_run 4 [new_state (demo_server\<lparr>sv_weight := 3\<rparr>), new_state (demo_server\<lparr>sv_weight := 1\<rparr>)]
      [0, 1] 7 (\<lambda>_. Some 41)) (Ok (Some 0)) = 3"
  using wrr_exactly_fair [of "[0, 1]"
      "[new_state (demo_server\<lparr>sv_weight := 3\<rparr>), new_state (demo_server\<lparr>sv_weight := 1\<rparr>)]"
      "\<lambda>_. Some 41" 7 41 0]
  by (simp add: weights_fit_def weight_at_def new_state_def)

subsection \<open>The structural invariant\<close>

definition bal_inv :: "balancer \<Rightarrow> bool" where
  "bal_inv b \<longleftrightarrow>
     (\<forall>n p. bl_servers b n = Some p \<longrightarrow> p < length (bl_heap b) \<and> name_at b p = n) \<and>
     (\<forall>hg. distinct (bl_hostgroups b hg) \<and> (bl_hostgroups b hg \<noteq> [] \<longrightarrow> bl_counters b hg \<noteq> None)) \<and>
     (\<forall>hg. \<forall>p \<in> set (bl_hostgroups b hg). p < length (bl_heap b) \<and> bl_servers b (name_at b p) = Some p
        \<and> sv_hostgroup (ss_server (bl_heap b ! p)) = hg \<and> sv_status (ss_server (bl_heap b ! p)) \<noteq> status_offline)"

lemma bal_inv_empty:
  "bl_servers b = (\<lambda>_. None) \<Longrightarrow> bl_hostgroups b = (\<lambda>_. []) \<Longrightarrow> bal_inv b"
  by (simp add: bal_inv_def)

lemma bal_inv_load_loop:
  "bal_inv b \<Longrightarrow> distinct (map sv_name srvs) \<Longrightarrow> (\<forall>s \<in> set srvs. bl_servers b (sv_name s) = None) \<Longrightarrow>
   bal_inv (load_loop srvs b)"
proof (induction srvs arbitrary: b)
  case (Cons s rest)
  let ?p = "length (bl_heap b)" and ?hg = "sv_hostgroup s"
  let ?b = "b\<lparr>bl_heap := bl_heap b @ [new_state s],
      bl_servers := (bl_servers b)(sv_name s := Some ?p),
      bl_hostgroups := (bl_hostgroups b)(?hg := bl_hostgroups b ?hg @ [?p]),
      bl_counters := (if bl_counters b ?hg = None then (bl_counters b)(?hg := Some 0) else bl_counters b)\<rparr>"
  have old: "name_at ?b p = name_at b p" if "p < ?p" for p
    using that by (simp add: name_at_def nth_append)
  have new: "name_at ?b ?p = sv_name s" by (simp add: name_at_def new_state_def)
  have inv: "bal_inv ?b" if "sv_status s \<noteq> status_offline"
    unfolding bal_inv_def
  proof (intro conjI allI)
    fix n q
    show "bl_servers ?b n = Some q \<longrightarrow> q < length (bl_heap ?b) \<and> name_at ?b q = n"
      using Cons.prems(1) old new unfolding bal_inv_def by (auto simp: less_Suc_eq)
  next
    fix hg
    show "distinct (bl_hostgroups ?b hg)"
      using Cons.prems(1) unfolding bal_inv_def by (auto dest: bspec)
    show "bl_hostgroups ?b hg \<noteq> [] \<longrightarrow> bl_counters ?b hg \<noteq> None"
      using Cons.prems(1) unfolding bal_inv_def by auto
    show "\<forall>p \<in> set (bl_hostgroups ?b hg). p < length (bl_heap ?b) \<and> bl_servers ?b (name_at ?b p) = Some p
        \<and> sv_hostgroup (ss_server (bl_heap ?b ! p)) = hg \<and> sv_status (ss_server (bl_heap ?b ! p)) \<noteq> status_offline"
    proof
      fix q assume q: "q \<in> set (bl_hostgroups ?b hg)"
      show "q < length (bl_heap ?b) \<and> bl_servers ?b (name_at ?b q) = Some q
        \<and> sv_hostgroup (ss_server (bl_heap ?b ! q)) = hg \<and> sv_status (ss_server (bl_heap ?b ! q)) \<noteq> status_offline"
      proof (cases "q = ?p")
        case True
        with q Cons.prems(1) that new show ?thesis
          unfolding bal_inv_def by (fastforce simp: new_state_def split: if_splits)
      next
        case False
        with q have "q \<in> set (bl_hostgroups b hg)" by (auto split: if_splits)
        with Cons.prems(1) have o: "q < ?p" "bl_servers b (name_at b q) = Some q"
          "sv_hostgroup (ss_server (bl_heap b ! q)) = hg" "sv_status (ss_server (bl_heap b ! q)) \<noteq> status_offline"
          unfolding bal_inv_def by auto
        moreover have "name_at b q \<noteq> sv_name s" using o(2) Cons.prems(3) by auto
        ultimately show ?thesis using old by (simp add: nth_append)
      qed
    qed
  qed
  have fresh: "\<forall>x \<in> set rest. bl_servers ?b (sv_name x) = None" using Cons.prems(2,3) by (auto simp: image_iff)
  show ?case
    using Cons.IH [OF Cons.prems(1)] Cons.IH [OF inv _ fresh] Cons.prems(2,3)
    by (auto simp: Let_def)
qed simp


text \<open>\<open>LoadServers\<close> establishes the invariant when the server names are distinct.\<close>

lemma bal_inv_load:
  assumes "get_servers_with_decrypted_keys unseal None st = Ok servers" and "distinct (map sv_name servers)"
  shows "bal_inv (snd (load_servers unseal st b))"
  using assms by (auto simp: load_servers_def intro!: bal_inv_load_loop [OF bal_inv_empty])

context gate
begin

text \<open>
  Asking the gates one after the other and skipping by the other two conditions is the
  same as filtering by the answers they gave at the start.
\<close>

lemma gate_filter_alt:
  "fst (gate_filter (allow t) nm healthy online ss m)
     = filter (\<lambda>s. healthy s \<and> fst (allow t (nm s) m) \<and> online s) ss"
proof (induction ss arbitrary: m)
  case (Cons s ss)
  have "fst (gate_filter (allow t) nm healthy online ss (snd (allow t (nm s) m)))
      = filter (\<lambda>s. healthy s \<and> fst (allow t (nm s) m) \<and> online s) ss"
    by (subst Cons.IH) (simp add: allow_stable)
  then show ?case using Cons.IH [of m] by (auto simp: Let_def split: prod.splits)
qed simp

end

interpretation cs: gate circuits_allow
  by unfold_locales
    (simp_all add: circuits_allow_def fst_mgr_allow mgr_view_allow breaker_allow_again
       split: option.splits prod.splits, (metis fst_conv snd_conv mg.allow_again mg.allow_frame)+)

definition eligible :: "time \<Rightarrow> balancer \<Rightarrow> nat \<Rightarrow> bool" where
  "eligible now b p \<longleftrightarrow> healthy_in (bl_health b) (name_at b p)
     \<and> fst (circuits_allow now (name_at b p) (bl_circuits b)) \<and> online_at b p"

lemma available_filter: "fst (available now hg b) = filter (eligible now b) (candidates hg b)"
  by (simp add: available_def cs.gate_filter_alt eligible_def [abs_def])

lemma gate_filter_asks:
  "snd (gate_filter allow nm healthy online ss m) = fold (\<lambda>s m. snd (allow (nm s) m)) (filter healthy ss) m"
proof (induction ss arbitrary: m)
  case (Cons s ss)
  then show ?case by (cases "allow (nm s) m") (simp add: Let_def case_prod_beta)
qed simp

text \<open>
  The selection in separate passes: the eligible candidates by the state at the start, then
  every healthy candidate's breaker asked in turn, then the algorithm.
\<close>

definition select_in_passes :: "(i64 \<Rightarrow> i64) \<Rightarrow> time \<Rightarrow> i64 \<Rightarrow> balancer \<Rightarrow> (bal_error, server) res \<times> balancer" where
  "select_in_passes intn now hg b =
     (let ps = filter (eligible now b) (candidates hg b);
          asked = fold (\<lambda>p m. snd (circuits_allow now (name_at b p) m))
            (filter (\<lambda>p. healthy_in (bl_health b) (name_at b p)) (candidates hg b)) (bl_circuits b);
          (r, counters) = (if ps = [] then (Ok None, bl_counters b)
            else select_by_algorithm intn (bl_algorithm b) (bl_heap b) ps hg (bl_counters b));
          b = b\<lparr>bl_circuits := asked, bl_counters := counters\<rparr>
      in case r of
           Panic m \<Rightarrow> (Panic m, b)
         | Ok (Some p) \<Rightarrow> (Ok (ss_server (bl_heap b ! p)), b\<lparr>bl_heap := (bl_heap b)[p := count_selection (bl_heap b ! p)]\<rparr>)
         | _ \<Rightarrow> (Err ErrNoServersAvailable, b))"

lemma available_passes:
  "available now hg b = (filter (eligible now b) (candidates hg b),
     fold (\<lambda>p m. snd (circuits_allow now (name_at b p) m))
       (filter (\<lambda>p. healthy_in (bl_health b) (name_at b p)) (candidates hg b)) (bl_circuits b))"
  using available_filter [of now hg b] by (simp add: prod_eq_iff) (simp add: available_def gate_filter_asks)

text \<open>
  C34: Selecting while asking is selecting by the state at the start: the loop that skips
  unhealthy servers, asks the breakers of the others and thereby changes them, and looks at
  the status last, selects the server, moves the counters and leaves the breakers exactly as
  filtering the candidates once by the answers at the start and then asking the breaker of
  every healthy candidate, refused, offline or not, would.\<close>

theorem selection_in_passes:
  "select_server intn now hg b = select_in_passes intn now hg b"
  by (auto simp: select_server_def select_in_passes_def available_passes Let_def
      split: prod.split res.split option.split)

lemma no_candidates: "candidates hg b = [] \<Longrightarrow> fst (available now hg b) = []"
  by (simp add: available_filter)

lemma cumulative_pick_in: "cumulative_pick h pos acc ps = Some p \<Longrightarrow> p \<in> set ps"
  by (induction ps arbitrary: acc) (auto simp: Let_def split: if_splits)

lemma minimum_pick_from:
  "minimum_pick f best sel ps = Some p \<Longrightarrow>
   (sel = Some p \<and> (\<forall>q \<in> set ps. best \<le> f q))
   \<or> (p \<in> set ps \<and> f p < best \<and> (\<forall>q \<in> set ps. f p \<le> f q))"
  by (induction ps arbitrary: best sel) (fastforce split: if_splits)+

lemma minimum_pick_Some: "minimum_pick f best (Some p) ps \<noteq> None"
  by (induction ps arbitrary: best p) auto

lemma minimum_pick_None: "minimum_pick f best None ps = None \<longleftrightarrow> (\<forall>q \<in> set ps. best \<le> f q)"
  by (induction ps) (auto simp: minimum_pick_Some)

lemma wrr_in:
  assumes "select_weighted_round_robin h ps hg cs = (Ok (Some p), cs')" and "length ps < 2 ^ 64"
  shows "p \<in> set ps"
proof -
  have "unat ((c :: 64 word) mod of_nat (length ps)) < length ps" if "ps \<noteq> []" for c
    using that assms(2) by (simp add: unat_mod unat_of_nat)
  with assms(1) show ?thesis
    by (auto simp: select_weighted_round_robin_def Let_def dest: cumulative_pick_in
        split: if_splits option.splits)
qed

text \<open>The law of \<open>rand.Intn\<close>: a value below its positive bound.\<close>

definition intn_law :: "(i64 \<Rightarrow> i64) \<Rightarrow> bool" where
  "intn_law intn \<longleftrightarrow> (\<forall>n. 0 < n \<longrightarrow> 0 \<le> intn n \<and> intn n < n)"

lemma select_random_in:
  assumes "select_random intn h ps = Ok (Some p)" and "intn_law intn"
  shows "p \<in> set ps"
proof -
  have "nat (intn (int (length ps))) < length ps" if "ps \<noteq> []"
    using assms(2) that by (simp add: intn_law_def nat_less_iff)
  with assms(1) show ?thesis
    by (auto simp: select_random_def Let_def dest: cumulative_pick_in split: if_splits option.splits)
qed

lemma select_by_algorithm_in:
  assumes "select_by_algorithm intn alg h ps hg cs = (Ok (Some p), cs')"
    and "intn_law intn" and "length ps < 2 ^ 64"
  shows "p \<in> set ps"
  using assms wrr_in [of h ps hg cs p cs'] select_random_in [of intn h ps p]
  by (auto simp: select_by_algorithm_def select_least_connections_def select_latency_based_def
      dest: minimum_pick_from split: if_splits)

lemma select_server_Ok:
  assumes "select_server intn now hg b = (Ok srv, b')"
  shows "\<exists>p cs. select_by_algorithm intn (bl_algorithm b) (bl_heap b) (fst (available now hg b)) hg (bl_counters b)
       = (Ok (Some p), cs) \<and> srv = ss_server (bl_heap b ! p)
     \<and> b' = b\<lparr>bl_circuits := snd (available now hg b), bl_counters := cs,
            bl_heap := (bl_heap b)[p := count_selection (bl_heap b ! p)]\<rparr>"
  using assms by (auto simp: select_server_def Let_def split: if_splits prod.splits res.splits option.splits)

lemma selected_pointer:
  assumes inv: "bal_inv b" and law: "intn_law intn" and len: "length (bl_heap b) < 2 ^ 64"
    and sel: "select_server intn now hg b = (Ok srv, b')"
  shows "\<exists>p \<in> set (fst (available now hg b)). p < length (bl_heap b) \<and> srv = ss_server (bl_heap b ! p)
     \<and> bl_heap b' = (bl_heap b)[p := count_selection (bl_heap b ! p)]"
proof -
  let ?av = "fst (available now hg b)"
  obtain p cs where pick: "select_by_algorithm intn (bl_algorithm b) (bl_heap b) ?av hg (bl_counters b) = (Ok (Some p), cs)"
    and srv: "srv = ss_server (bl_heap b ! p)"
    and b': "bl_heap b' = (bl_heap b)[p := count_selection (bl_heap b ! p)]"
    using select_server_Ok [OF sel] by auto
  have sub: "set (candidates hg b) \<subseteq> {..<length (bl_heap b)}" and "distinct (candidates hg b)"
    using inv by (auto simp: bal_inv_def candidates_def)
  then have "length (candidates hg b) \<le> length (bl_heap b)"
    by (metis card_lessThan card_mono distinct_card finite_lessThan)
  moreover have "length ?av \<le> length (candidates hg b)" by (simp add: available_filter)
  ultimately have "length ?av < 2 ^ 64" using len by linarith
  with pick law have "p \<in> set ?av" by (rule select_by_algorithm_in)
  with sub srv b' show ?thesis by (auto simp: available_filter)
qed

lemma candidate_facts:
  "bal_inv b \<Longrightarrow> p \<in> set (candidates hg b) \<Longrightarrow> bl_servers b (name_at b p) = Some p
     \<and> sv_hostgroup (ss_server (bl_heap b ! p)) = (if bl_hostgroups b hg = [] then 0 else hg)"
  by (auto simp: bal_inv_def candidates_def split: if_splits)

text \<open>
  C3: A selected server is a right one: it belongs to the requested hostgroup, or to
  hostgroup 0 when the requested one has no servers; it is online, reported healthy, and
  its circuit breaker lets the request through; exactly its own connection and request
  counters go up by one and every other server's state is untouched.\<close>

theorem selection_is_safe:
  assumes inv: "bal_inv b" and law: "intn_law intn" and len: "length (bl_heap b) < 2 ^ 64"
    and sel: "select_server intn now hg b = (Ok srv, b')"
  shows "\<exists>p. bl_servers b (sv_name srv) = Some p \<and> p < length (bl_heap b) \<and> srv = ss_server (bl_heap b ! p)
     \<and> sv_hostgroup srv = (if bl_hostgroups b hg = [] then 0 else hg)
     \<and> sv_status srv = status_online
     \<and> healthy_in (bl_health b) (sv_name srv)
     \<and> fst (circuits_allow now (sv_name srv) (bl_circuits b))
     \<and> bl_heap b' = (bl_heap b)[p := count_selection (bl_heap b ! p)]"
  using selected_pointer [OF assms] candidate_facts [OF inv, of _ hg]
  by (fastforce simp: available_filter eligible_def online_at_def name_at_def)

definition demo_balancer :: balancer where
  "demo_balancer = load_loop
     [demo_server\<lparr>sv_name := ''a'', sv_hostgroup := 0, sv_weight := 1\<rparr>,
      demo_server\<lparr>sv_name := ''b'', sv_hostgroup := 0, sv_weight := 2\<rparr>] (new_balancer None None)"

lemmas demo_balancer_simps =
  demo_balancer_def new_balancer_def demo_defs new_state_def Let_def

lemma demo_balancer_inv: "bal_inv demo_balancer"
  unfolding demo_balancer_def
  by (rule bal_inv_load_loop [OF bal_inv_empty]) (simp_all add: new_balancer_def)

lemma demo_select:
  "select_server (\<lambda>_. 0) 5 0 (set_algorithm alg_least_connections demo_balancer)
     = (Ok (ss_server (bl_heap demo_balancer ! 0)),
        (set_algorithm alg_least_connections demo_balancer)
          \<lparr>bl_heap := (bl_heap demo_balancer)[0 := count_selection (bl_heap demo_balancer ! 0)]\<rparr>)"
  by (simp add: select_server_def available_def candidates_def demo_balancer_simps set_algorithm_def
      healthy_in_def circuits_allow_def online_at_def name_at_def select_by_algorithm_def
      select_least_connections_def adjusted_connections_def weight_at_def quot64_def in64_def)

theorem selection_is_safe_witness:
  "\<exists>p. bl_servers demo_balancer ''a'' = Some p"
  using selection_is_safe [of "set_algorithm alg_least_connections demo_balancer" "\<lambda>_. 0" 5 0, OF _ _ _ demo_select]
    demo_balancer_inv
  by (simp add: intn_law_def demo_balancer_simps set_algorithm_def bal_inv_def name_at_def)

text \<open>
  The minimising algorithms minimise: under \<open>least_connections\<close> no eligible server has
  fewer connections per weight than the selected one, under \<open>latency_based\<close> none has a
  lower average latency per weight (an unknown latency counting as 100 ms), at the moment
  of the selection.\<close>

theorem minimising_selection:
  assumes alg: "bl_algorithm b = alg_least_connections \<or> bl_algorithm b = alg_latency_based"
    and sel: "select_server intn now hg b = (Ok srv, b')"
  shows "\<exists>p \<in> set (candidates hg b). srv = ss_server (bl_heap b ! p) \<and> eligible now b p
     \<and> (\<forall>q \<in> set (candidates hg b). eligible now b q \<longrightarrow>
          (if bl_algorithm b = alg_least_connections
           then adjusted_connections (bl_heap b) p \<le> adjusted_connections (bl_heap b) q
           else adjusted_latency (bl_heap b) p \<le> adjusted_latency (bl_heap b) q))"
proof -
  let ?f = "if bl_algorithm b = alg_least_connections then adjusted_connections (bl_heap b)
            else adjusted_latency (bl_heap b)"
  obtain p where srv: "srv = ss_server (bl_heap b ! p)"
    and pick: "minimum_pick ?f max64 None (fst (available now hg b)) = Some p"
    using select_server_Ok [OF sel] alg
    by (auto simp: select_by_algorithm_def select_least_connections_def select_latency_based_def)
  then show ?thesis
    using minimum_pick_from [OF pick] by (auto simp: available_filter split: if_splits)
qed

theorem minimising_selection_witness:
  "adjusted_connections (bl_heap demo_balancer) 0 \<le> adjusted_connections (bl_heap demo_balancer) 1"
proof -
  have "sv_name (ss_server (bl_heap demo_balancer ! 0)) = ''a''" by (simp add: demo_balancer_simps)
  then show ?thesis
    using minimising_selection [OF _ demo_select]
    by (auto simp: candidates_def eligible_def set_algorithm_def healthy_in_def
        circuits_allow_def online_at_def name_at_def demo_balancer_simps)
qed

subsection \<open>Selection can panic\<close>

text \<open>
  Selection panics in exactly one situation: with a round robin algorithm, when the
  requested hostgroup has no servers and never had a counter, and hostgroup 0 has an
  eligible server to fall back to. The code then dereferences the nil counter of the
  requested hostgroup.\<close>

theorem selection_panics_exactly:
  assumes inv: "bal_inv b" and fit: "weights_fit (weight_at (bl_heap b)) (candidates hg b)"
  shows "(\<exists>m. fst (select_server intn now hg b) = Panic m) \<longleftrightarrow>
     bl_algorithm b \<notin> {alg_least_connections, alg_random, alg_latency_based}
     \<and> bl_hostgroups b hg = [] \<and> bl_counters b hg = None
     \<and> (\<exists>p \<in> set (bl_hostgroups b 0). eligible now b p)"
proof -
  let ?av = "fst (available now hg b)"
  have nonneg: "0 \<le> total_weight (bl_heap b) ?av"
    using weights_fit_filter [OF fit] unfolding available_filter
    by (subst total_weight_exact) (auto simp: weights_fit_def intro!: sum_weights_nonneg)
  have panic: "(\<exists>m. fst (select_server intn now hg b) = Panic m) \<longleftrightarrow>
      ?av \<noteq> [] \<and> (\<exists>m. fst (select_by_algorithm intn (bl_algorithm b) (bl_heap b) ?av hg (bl_counters b)) = Panic m)"
    by (cases "candidates hg b = []")
      (auto simp: select_server_def no_candidates Let_def split: prod.splits res.splits option.splits)
  have wrr: "(\<exists>m. fst (select_weighted_round_robin (bl_heap b) ?av hg (bl_counters b)) = Panic m)
      \<longleftrightarrow> ?av \<noteq> [] \<and> bl_counters b hg = None"
    by (auto simp: select_weighted_round_robin_def Let_def split: option.splits)
  have rnd: "(\<exists>m. select_random intn (bl_heap b) ?av = Panic m) = False"
    using nonneg by (auto simp: select_random_def Let_def)
  have "?av \<noteq> [] \<and> bl_counters b hg = None \<longleftrightarrow>
      bl_hostgroups b hg = [] \<and> bl_counters b hg = None \<and> (\<exists>p \<in> set (bl_hostgroups b 0). eligible now b p)"
    using inv by (auto simp: available_filter candidates_def bal_inv_def filter_empty_conv)
  with panic wrr rnd show ?thesis by (auto simp: select_by_algorithm_def)
qed

theorem selection_panics_exactly_witness:
  "\<exists>m. fst (select_server (\<lambda>_. 0) 5 1 demo_balancer) = Panic m"
proof -
  have "weights_fit (weight_at (bl_heap demo_balancer)) (candidates 1 demo_balancer)"
    by (simp add: weights_fit_def weight_at_def candidates_def demo_balancer_simps)
  moreover have "eligible 5 demo_balancer 0"
    by (simp add: eligible_def healthy_in_def circuits_allow_def online_at_def demo_balancer_simps)
  ultimately show ?thesis
    by (subst selection_panics_exactly [OF demo_balancer_inv]) (auto simp: demo_balancer_simps)
qed


subsection \<open>Connection accounting\<close>

text \<open>
  The operations between two reloads; the checker may be replaced by any other, for the
  probes run concurrently.
\<close>

datatype bal_op =
    BalSelect time i64
  | BalRelease time string duration bool
  | BalAlgorithm algorithm
  | BalHealth "checker option"

fun bal_step :: "(i64 \<Rightarrow> i64) \<Rightarrow> balancer \<Rightarrow> bal_op \<Rightarrow> balancer" where
  "bal_step intn b (BalSelect now hg) = snd (select_server intn now hg b)"
| "bal_step intn b (BalRelease now n latency ok) = release_server now n latency ok b"
| "bal_step intn b (BalAlgorithm alg) = set_algorithm alg b"
| "bal_step intn b (BalHealth h) = b\<lparr>bl_health := h\<rparr>"

text \<open>How many connections of the server \<open>n\<close> an operation opens net.\<close>

fun bal_effect :: "(i64 \<Rightarrow> i64) \<Rightarrow> string \<Rightarrow> balancer \<Rightarrow> bal_op \<Rightarrow> int" where
  "bal_effect intn n b (BalSelect now hg) =
     (case fst (select_server intn now hg b) of Ok srv \<Rightarrow> if sv_name srv = n then 1 else 0 | _ \<Rightarrow> 0)"
| "bal_effect intn n b (BalRelease now m latency ok) = (if m = n then - 1 else 0)"
| "bal_effect intn n b _ = 0"

lemma bal_inv_cong:
  assumes inv: "bal_inv b"
    and same: "length (bl_heap b') = length (bl_heap b)" "bl_servers b' = bl_servers b"
      "bl_hostgroups b' = bl_hostgroups b" "\<And>p. ss_server (bl_heap b' ! p) = ss_server (bl_heap b ! p)"
    and cs: "\<And>hg. bl_counters b hg \<noteq> None \<Longrightarrow> bl_counters b' hg \<noteq> None"
  shows "bal_inv b'"
proof -
  have nm: "name_at b' p = name_at b p" for p by (simp add: name_at_def same)
  show ?thesis
    using inv cs unfolding bal_inv_def nm same by blast
qed

lemma counters_kept:
  "select_by_algorithm intn alg h ps hg cs = (r, cs') \<Longrightarrow> cs hg' \<noteq> None \<Longrightarrow> cs' hg' \<noteq> None"
  by (auto simp: select_by_algorithm_def select_weighted_round_robin_def Let_def
      split: if_splits option.splits)

lemma heap_update_server [simp]:
  "ss_server ((h[p := count_selection (h ! p)]) ! q) = ss_server (h ! q)"
  "ss_server ((h[p := count_release now l ok (h ! p)]) ! q) = ss_server (h ! q)"
  by (cases "p < length h"; cases "p = q"; simp add: count_selection_def count_release_def list_update_beyond)+

lemma bal_step_frame:
  "length (bl_heap (bal_step intn b e)) = length (bl_heap b) \<and> bl_servers (bal_step intn b e) = bl_servers b
   \<and> bl_hostgroups (bal_step intn b e) = bl_hostgroups b
   \<and> ss_server (bl_heap (bal_step intn b e) ! q) = ss_server (bl_heap b ! q)
   \<and> (bl_counters b hg \<noteq> None \<longrightarrow> bl_counters (bal_step intn b e) hg \<noteq> None)"
  by (cases e)
    (auto simp: select_server_def release_server_def set_algorithm_def Let_def
      dest: counters_kept split: prod.splits res.splits option.splits)

lemma bal_step_inv: "bal_inv b \<Longrightarrow> bal_inv (bal_step intn b e)"
  by (erule bal_inv_cong) (simp_all add: bal_step_frame)

interpretation bal: machine "bal_step intn" bal_inv for intn
  by unfold_locales (rule bal_step_inv)

lemma bal_step_connections:
  assumes inv: "bal_inv b" and law: "intn_law intn" and len: "length (bl_heap b) < 2 ^ 64"
    and p: "bl_servers b n = Some p" and i: "in64 (ss_connections (bl_heap b ! p))"
  shows "ss_connections (bl_heap (bal_step intn b e) ! p)
       = wrap64 (ss_connections (bl_heap b ! p) + bal_effect intn n b e)"
proof (cases e)
  case (BalSelect now hg)
  show ?thesis
  proof (cases "fst (select_server intn now hg b)")
    case (Ok srv)
    then obtain b' where sel: "select_server intn now hg b = (Ok srv, b')" by (cases "select_server intn now hg b") auto
    obtain q where q: "bl_servers b (sv_name srv) = Some q" "q < length (bl_heap b)"
      "bl_heap b' = (bl_heap b)[q := count_selection (bl_heap b ! q)]"
      using selected_pointer [OF inv law len sel] candidate_facts [OF inv, of _ hg]
      by (auto simp: available_filter name_at_def)
    have "sv_name srv = n \<longleftrightarrow> q = p" using q p inv unfolding bal_inv_def by (metis option.inject)
    with q BalSelect sel i show ?thesis
      by (auto simp: count_selection_def add64_def)
  next
    case (Err err)
    with BalSelect i show ?thesis
      by (auto simp: select_server_def Let_def split: prod.splits res.splits option.splits if_splits)
  next
    case (Panic m)
    with BalSelect i show ?thesis
      by (auto simp: select_server_def Let_def split: prod.splits res.splits option.splits if_splits)
  qed
next
  case (BalRelease now m latency ok)
  have "p < length (bl_heap b)" and "\<And>q. bl_servers b m = Some q \<Longrightarrow> q = p \<longleftrightarrow> m = n"
    using p inv unfolding bal_inv_def by (blast, metis option.inject)
  with BalRelease i p show ?thesis
    by (auto simp: release_server_def count_release_def sub64_def nth_list_update split: option.splits)
qed (use i in \<open>simp_all add: set_algorithm_def\<close>)

lemma load_loop_fresh:
  "(\<And>n p. bl_servers b n = Some p \<Longrightarrow> p < length (bl_heap b) \<and> ss_connections (bl_heap b ! p) = 0) \<Longrightarrow>
   bl_servers (load_loop srvs b) n = Some p \<Longrightarrow>
   p < length (bl_heap (load_loop srvs b)) \<and> ss_connections (bl_heap (load_loop srvs b) ! p) = 0"
proof (induction srvs arbitrary: b)
  case (Cons s rest)
  show ?case
  proof (cases "sv_status s = status_offline")
    case True
    with Cons show ?thesis by simp
  next
    case False
    show ?thesis
      unfolding load_loop.simps Let_def if_not_P [OF False]
      by (rule Cons.IH)
        (use Cons.prems False in \<open>auto simp: Let_def nth_append new_state_def less_Suc_eq split: if_splits\<close>)
  qed
qed simp

text \<open>
  A reload forgets what is in flight: \<open>LoadServers\<close> starts every counter at zero, so the
  release of a request that was selected before the reload leaves the server with one
  connection fewer than none.\<close>

theorem reload_drives_connections_negative:
  assumes load: "fst (load_servers unseal st b) = Ok ()"
    and p: "bl_servers (snd (load_servers unseal st b)) n = Some p"
  shows "ss_connections (bl_heap (release_server now n latency ok (snd (load_servers unseal st b))) ! p) = - 1"
proof -
  have "p < length (bl_heap (snd (load_servers unseal st b)))
      \<and> ss_connections (bl_heap (snd (load_servers unseal st b)) ! p) = 0"
    using load p unfolding load_servers_def
    by (cases "get_servers_with_decrypted_keys unseal None st")
      (simp_all, rule load_loop_fresh, simp_all)
  with p show ?thesis
    by (simp add: release_server_def count_release_def sub64_def in64_def)
qed

theorem reload_drives_connections_negative_witness:
  "ss_connections (bl_heap (release_server 9 ''a'' 1 True
      (snd (load_servers toy_unseal (demo_tables\<lparr>st_servers := [demo_server]\<rparr>) (new_balancer None None)))) ! 0) = - 1"
proof -
  let ?l = "load_servers toy_unseal (demo_tables\<lparr>st_servers := [demo_server]\<rparr>) (new_balancer None None)"
  have "fst ?l = Ok ()" "bl_servers (snd ?l) ''a'' = Some 0"
    by (simp_all add: load_servers_def get_servers_with_decrypted_keys_def get_servers_def
        sort_key_def decrypt_def demo_balancer_simps)
  then show ?thesis by (rule reload_drives_connections_negative)
qed

end
