(* ===== verification/Cache.thy ===== *)
theory Cache
  imports Prelude
begin

section \<open>The response cache (internal/cache/cache.go)\<close>

text \<open>
  The sharded LRU cache. A shard of the code is a hash map from keys to list elements and
  a doubly linked list of the same elements; here elements are indices into \<open>sh_heap\<close>, the
  list holds them from most to least recently used, and the hash map holds them by key, so
  that the two can disagree and the invariant says they do not. The abstract shard is the
  list of entries alone. gzip is a pair of functions, SHA-256 and the JSON encoder are
  functions, and FNV-1a is computed.
\<close>

subsection \<open>Configuration\<close>

record cache_config =
  cc_enabled :: bool
  cc_max_size :: i64
  cc_max_memory_mb :: i64
  cc_ttl :: duration
  cc_max_item_size :: i64
  cc_num_shards :: i64
  cc_compression_enabled :: bool
  cc_compression_min_size :: i64
  cc_cleanup_interval :: duration
  cc_model_ttls :: "(string \<times> duration) list"
  cc_embeddings_ttl :: duration

text \<open>The iteration order of the map \<open>ModelTTLs\<close> is the order of the list.\<close>

definition default_cache_config :: cache_config where
  "default_cache_config = \<lparr>cc_enabled = True, cc_max_size = 1000, cc_max_memory_mb = 512,
     cc_ttl = 5 * minute, cc_max_item_size = 2 * 1024 * 1024, cc_num_shards = 16,
     cc_compression_enabled = True, cc_compression_min_size = 1024, cc_cleanup_interval = minute,
     cc_model_ttls = [(''text-embedding'', 24 * hour), (''embedding'', 24 * hour)],
     cc_embeddings_ttl = 24 * hour\<rparr>"

definition get_ttl :: "cache_config \<Rightarrow> string \<Rightarrow> string \<Rightarrow> duration" where
  "get_ttl cfg model endpoint =
     (if endpoint = ''/v1/embeddings'' \<and> 0 < cc_embeddings_ttl cfg then cc_embeddings_ttl cfg
      else case find (\<lambda>(p, _). length p \<le> length model \<and> take (length p) model = p) (cc_model_ttls cfg) of
          Some (_, ttl) \<Rightarrow> ttl
        | None \<Rightarrow> cc_ttl cfg)"

subsection \<open>Keys\<close>

definition hex_digit :: "nat \<Rightarrow> char" where
  "hex_digit d = (if d < 10 then char_of (48 + d) else char_of (87 + d))"

definition hex_encode :: "string \<Rightarrow> string" where
  "hex_encode s = concat (map (\<lambda>c. let n = of_char c :: nat in [hex_digit (n div 16), hex_digit (n mod 16)]) s)"

definition nul :: string where "nul = [char_of (0 :: nat)]"

text \<open>\<open>byte(x >> k)\<close>.\<close>

definition byte_at :: "nat \<Rightarrow> int \<Rightarrow> char" where
  "byte_at k x = char_of (nat (x div 2 ^ k mod 256))"

definition generate_key :: "(string \<Rightarrow> string) \<Rightarrow> string \<Rightarrow> string \<Rightarrow> string option \<Rightarrow> string" where
  "generate_key sha endpoint model body =
     hex_encode (sha (endpoint @ nul @ model @ nul @ (case body of None \<Rightarrow> [] | Some b \<Rightarrow> b)))"

definition generate_chat_key :: "(string \<Rightarrow> string) \<Rightarrow> string \<Rightarrow> string option \<Rightarrow> rat option \<Rightarrow> i64 option
    \<Rightarrow> string \<Rightarrow> string" where
  "generate_chat_key sha model messages temperature max_tokens fingerprint =
     hex_encode (sha (model @ nul @ (case messages of None \<Rightarrow> [] | Some m \<Rightarrow> m) @ nul
       @ (case temperature of None \<Rightarrow> []
          | Some t \<Rightarrow> let i = truncate_rat (t * 1000) in map (\<lambda>k. byte_at k i) [24, 16, 8, 0])
       @ nul
       @ (case max_tokens of None \<Rightarrow> [] | Some n \<Rightarrow> map (\<lambda>k. byte_at k n) [24, 16, 8, 0])
       @ (if fingerprint \<noteq> [] then nul @ fingerprint else [])))"

definition generate_embedding_key :: "(string \<Rightarrow> string) \<Rightarrow> string \<Rightarrow> string \<Rightarrow> i64 option \<Rightarrow> string" where
  "generate_embedding_key sha model input dimensions =
     hex_encode (sha (''embedding'' @ nul @ model @ nul @ input
       @ (case dimensions of None \<Rightarrow> [] | Some d \<Rightarrow> nul @ map (\<lambda>k. byte_at k d) [8, 0])))"

subsection \<open>Shards\<close>

record entry =
  ce_key :: string
  ce_value :: string
  ce_model :: string
  ce_endpoint :: string
  ce_created_at :: time
  ce_expires_at :: time
  ce_last_access :: time
  ce_hit_count :: i64
  ce_size :: i64
  ce_stored_size :: i64
  ce_compressed :: bool

definition is_expired :: "time \<Rightarrow> entry \<Rightarrow> bool" where
  "is_expired now e = time_after now (ce_expires_at e)"

record shard =
  sh_items :: "string \<Rightarrow> nat option"
  sh_lru :: "nat list"
  sh_heap :: "entry list"
  sh_size :: i64

definition empty_shard :: shard where
  "empty_shard = \<lparr>sh_items = (\<lambda>_. None), sh_lru = [], sh_heap = [], sh_size = 0\<rparr>"

definition remove_from_shard :: "nat \<Rightarrow> shard \<Rightarrow> shard" where
  "remove_from_shard i sh =
     (let e = sh_heap sh ! i in
      sh\<lparr>sh_items := (sh_items sh)(ce_key e := None), sh_lru := remove1 i (sh_lru sh),
         sh_size := sub64 (sh_size sh) (ce_stored_size e)\<rparr>)"

text \<open>The element evicted next is the last one; the number counts the evictions.\<close>

definition evict_oldest :: "shard \<Rightarrow> nat \<times> shard" where
  "evict_oldest sh = (if sh_lru sh = [] then (0, sh) else (1, remove_from_shard (last (sh_lru sh)) sh))"

lemma evict_oldest_shorter: "sh_lru sh \<noteq> [] \<Longrightarrow> length (sh_lru (snd (evict_oldest sh))) < length (sh_lru sh)"
  by (simp add: evict_oldest_def remove_from_shard_def length_remove1 Let_def)

function evict_while :: "(shard \<Rightarrow> bool) \<Rightarrow> shard \<Rightarrow> nat \<times> shard" where
  "evict_while full sh =
     (if full sh \<and> sh_lru sh \<noteq> []
      then let (n, sh) = evict_oldest sh; (m, sh) = evict_while full sh in (n + m, sh)
      else (0, sh))"
  by pat_completeness auto

termination
  by (relation "measure (\<lambda>(f, sh). length (sh_lru sh))") (auto, metis evict_oldest_shorter snd_conv)

declare evict_while.simps [simp del]

definition max_memory :: "cache_config \<Rightarrow> i64" where
  "max_memory cfg = quot64 (mul64 (mul64 (cc_max_memory_mb cfg) 1024) 1024) (cc_num_shards cfg)"

definition evict_if_needed :: "cache_config \<Rightarrow> i64 \<Rightarrow> shard \<Rightarrow> nat \<times> shard" where
  "evict_if_needed cfg new_size sh =
     (if cc_max_memory_mb cfg \<le> 0 then (0, sh)
      else evict_while (\<lambda>sh. max_memory cfg < add64 (sh_size sh) new_size) sh)"

definition max_per_shard :: "cache_config \<Rightarrow> i64" where
  "max_per_shard cfg = (let m = quot64 (cc_max_size cfg) (cc_num_shards cfg) in if m < 10 then 10 else m)"

text \<open>\<open>MoveToFront\<close>, and a write through the pointer to an entry.\<close>

definition move_to_front :: "nat \<Rightarrow> shard \<Rightarrow> shard" where
  "move_to_front i sh = sh\<lparr>sh_lru := i # remove1 i (sh_lru sh)\<rparr>"

definition write_entry :: "nat \<Rightarrow> (entry \<Rightarrow> entry) \<Rightarrow> shard \<Rightarrow> shard" where
  "write_entry i f sh = sh\<lparr>sh_heap := (sh_heap sh)[i := f (sh_heap sh ! i)]\<rparr>"

definition touch_entry :: "time \<Rightarrow> entry \<Rightarrow> entry" where
  "touch_entry now e = e\<lparr>ce_hit_count := add64 (ce_hit_count e) 1, ce_last_access := now\<rparr>"

datatype lookup_outcome = Miss | Hit string | Corrupt

text \<open>The locked part of \<open>Get\<close>; a value that does not decompress counts as a hit.\<close>

definition shard_get :: "(string \<Rightarrow> string option) \<Rightarrow> time \<Rightarrow> string \<Rightarrow> shard \<Rightarrow> lookup_outcome \<times> shard" where
  "shard_get gunzip now key sh =
     (case sh_items sh key of
        None \<Rightarrow> (Miss, sh)
      | Some i \<Rightarrow>
          if is_expired now (sh_heap sh ! i) then (Miss, remove_from_shard i sh)
          else let sh = write_entry i (touch_entry now) (move_to_front i sh); e = sh_heap sh ! i in
            if ce_compressed e
            then (case gunzip (ce_value e) of
                    None \<Rightarrow> (Corrupt, remove_from_shard i sh)
                  | Some v \<Rightarrow> (Hit v, sh))
            else (Hit (ce_value e), sh))"

text \<open>The locked part of \<open>SetWithTTL\<close>, for a value that is ready to be stored.\<close>

record stored_value =
  sd_value :: string
  sd_original_size :: i64
  sd_stored_size :: i64
  sd_compressed :: bool

definition update_entry :: "time \<Rightarrow> duration \<Rightarrow> stored_value \<Rightarrow> entry \<Rightarrow> entry" where
  "update_entry now ttl v e = e\<lparr>ce_value := sd_value v, ce_size := sd_original_size v,
     ce_stored_size := sd_stored_size v, ce_compressed := sd_compressed v,
     ce_expires_at := now + ttl, ce_last_access := now\<rparr>"

definition new_entry :: "time \<Rightarrow> duration \<Rightarrow> string \<Rightarrow> stored_value \<Rightarrow> string \<Rightarrow> string \<Rightarrow> entry" where
  "new_entry now ttl key v model endpoint = \<lparr>ce_key = key, ce_value = sd_value v, ce_model = model,
     ce_endpoint = endpoint, ce_created_at = now, ce_expires_at = now + ttl, ce_last_access = now,
     ce_hit_count = 0, ce_size = sd_original_size v, ce_stored_size = sd_stored_size v,
     ce_compressed = sd_compressed v\<rparr>"

definition push_front :: "entry \<Rightarrow> shard \<Rightarrow> shard" where
  "push_front e sh = (let i = length (sh_heap sh) in
     sh\<lparr>sh_heap := sh_heap sh @ [e], sh_lru := i # sh_lru sh,
        sh_items := (sh_items sh)(ce_key e := Some i), sh_size := add64 (sh_size sh) (ce_stored_size e)\<rparr>)"

definition shard_set :: "cache_config \<Rightarrow> time \<Rightarrow> duration \<Rightarrow> string \<Rightarrow> stored_value \<Rightarrow> string \<Rightarrow> string
    \<Rightarrow> shard \<Rightarrow> nat \<times> shard" where
  "shard_set cfg now ttl key v model endpoint sh =
     (case sh_items sh key of
        Some i \<Rightarrow>
          let sh = move_to_front i sh; old = ce_stored_size (sh_heap sh ! i);
              sh = write_entry i (update_entry now ttl v) sh
          in (0, sh\<lparr>sh_size := add64 (sub64 (sh_size sh) old) (sd_stored_size v)\<rparr>)
      | None \<Rightarrow>
          let (n, sh) = evict_if_needed cfg (sd_stored_size v) sh;
              (m, sh) = evict_while (\<lambda>sh. max_per_shard cfg \<le> int (length (sh_lru sh))) sh
          in (n + m, push_front (new_entry now ttl key v model endpoint) sh))"

definition shard_delete :: "string \<Rightarrow> shard \<Rightarrow> shard" where
  "shard_delete key sh = (case sh_items sh key of Some i \<Rightarrow> remove_from_shard i sh | None \<Rightarrow> sh)"

definition cleanup_shard :: "time \<Rightarrow> shard \<Rightarrow> nat \<times> shard" where
  "cleanup_shard now sh =
     (let dead = filter (\<lambda>i. is_expired now (sh_heap sh ! i)) (rev (sh_lru sh))
      in (length dead, fold remove_from_shard dead sh))"

subsection \<open>The cache\<close>

record cache_stats =
  ct_hits :: i64
  ct_misses :: i64
  ct_evictions :: i64
  ct_deduplicated :: i64
  ct_compression_saved :: i64

record cache =
  ca_cfg :: cache_config
  ca_shards :: "shard list"
  ca_stats :: cache_stats

definition new_cache :: "cache_config \<Rightarrow> cache" where
  "new_cache cfg =
     (let cfg = (if cc_num_shards cfg \<le> 0 then cfg\<lparr>cc_num_shards := 16\<rparr> else cfg)
      in \<lparr>ca_cfg = cfg, ca_shards = replicate (nat (cc_num_shards cfg)) empty_shard,
          ca_stats = \<lparr>ct_hits = 0, ct_misses = 0, ct_evictions = 0, ct_deduplicated = 0, ct_compression_saved = 0\<rparr>\<rparr>)"

text \<open>The 32-bit FNV-1a hash of the key picks the shard.\<close>

definition fnv32a :: "string \<Rightarrow> 32 word" where
  "fnv32a key = foldl (\<lambda>h c. (xor h (of_nat (of_char c))) * 16777619) 2166136261 key"

definition shard_index :: "cache \<Rightarrow> string \<Rightarrow> nat" where
  "shard_index c key = unat (fnv32a key mod of_nat (length (ca_shards c)))"

definition put_shard :: "nat \<Rightarrow> shard \<Rightarrow> cache \<Rightarrow> cache" where
  "put_shard i sh c = c\<lparr>ca_shards := (ca_shards c)[i := sh]\<rparr>"

definition add_hits :: "i64 \<Rightarrow> cache \<Rightarrow> cache" where
  "add_hits n c = c\<lparr>ca_stats := (ca_stats c)\<lparr>ct_hits := add64 (ct_hits (ca_stats c)) n\<rparr>\<rparr>"

definition add_misses :: "i64 \<Rightarrow> cache \<Rightarrow> cache" where
  "add_misses n c = c\<lparr>ca_stats := (ca_stats c)\<lparr>ct_misses := add64 (ct_misses (ca_stats c)) n\<rparr>\<rparr>"

definition add_evictions :: "i64 \<Rightarrow> cache \<Rightarrow> cache" where
  "add_evictions n c = c\<lparr>ca_stats := (ca_stats c)\<lparr>ct_evictions := add64 (ct_evictions (ca_stats c)) n\<rparr>\<rparr>"

definition add_saved :: "i64 \<Rightarrow> cache \<Rightarrow> cache" where
  "add_saved n c = c\<lparr>ca_stats := (ca_stats c)\<lparr>ct_compression_saved := add64 (ct_compression_saved (ca_stats c)) n\<rparr>\<rparr>"

definition cache_get :: "(string \<Rightarrow> string option) \<Rightarrow> time \<Rightarrow> string \<Rightarrow> cache \<Rightarrow> string option \<times> cache" where
  "cache_get gunzip now key c =
     (if \<not> cc_enabled (ca_cfg c) then (None, c)
      else let i = shard_index c key; (r, sh) = shard_get gunzip now key (ca_shards c ! i); c = put_shard i sh c in
        case r of
          Miss \<Rightarrow> (None, add_misses 1 c)
        | Hit v \<Rightarrow> (Some v, add_hits 1 c)
        | Corrupt \<Rightarrow> (None, add_hits 1 c))"

definition prepare_value :: "(string \<Rightarrow> string option) \<Rightarrow> cache_config \<Rightarrow> string \<Rightarrow> stored_value" where
  "prepare_value gzip cfg value =
     (let size = int (length value);
          plain = \<lparr>sd_value = value, sd_original_size = size, sd_stored_size = size, sd_compressed = False\<rparr> in
      if cc_compression_enabled cfg \<and> cc_compression_min_size cfg \<le> size
      then (case gzip value of
              Some z \<Rightarrow> if int (length z) < size
                then \<lparr>sd_value = z, sd_original_size = size, sd_stored_size = int (length z), sd_compressed = True\<rparr>
                else plain
            | None \<Rightarrow> plain)
      else plain)"

definition cache_set_with_ttl :: "(string \<Rightarrow> string option) \<Rightarrow> time \<Rightarrow> string \<Rightarrow> string \<Rightarrow> string \<Rightarrow> string
    \<Rightarrow> duration \<Rightarrow> cache \<Rightarrow> cache" where
  "cache_set_with_ttl gzip now key value model endpoint ttl c =
     (let cfg = ca_cfg c in
      if \<not> cc_enabled cfg then c
      else if cc_max_item_size cfg < int (length value) then c
      else let ttl = (if ttl = 0 then get_ttl cfg model endpoint else ttl);
               v = prepare_value gzip cfg value;
               c = (if sd_compressed v then add_saved (sd_original_size v - sd_stored_size v) c else c);
               i = shard_index c key;
               (n, sh) = shard_set cfg now ttl key v model endpoint (ca_shards c ! i)
           in add_evictions (int n) (put_shard i sh c))"

definition cache_set :: "(string \<Rightarrow> string option) \<Rightarrow> time \<Rightarrow> string \<Rightarrow> string \<Rightarrow> string \<Rightarrow> string \<Rightarrow> cache \<Rightarrow> cache" where
  "cache_set gzip now key value model endpoint c = cache_set_with_ttl gzip now key value model endpoint 0 c"

definition cache_delete :: "string \<Rightarrow> cache \<Rightarrow> cache" where
  "cache_delete key c = (let i = shard_index c key in put_shard i (shard_delete key (ca_shards c ! i)) c)"

definition clear_shard :: "shard \<Rightarrow> shard" where
  "clear_shard sh = sh\<lparr>sh_items := (\<lambda>_. None), sh_lru := [], sh_size := 0\<rparr>"

definition cache_clear :: "cache \<Rightarrow> cache" where
  "cache_clear c = c\<lparr>ca_shards := map clear_shard (ca_shards c)\<rparr>"

definition cache_cleanup :: "time \<Rightarrow> cache \<Rightarrow> cache" where
  "cache_cleanup now c =
     (let rs = map (cleanup_shard now) (ca_shards c)
      in add_evictions (int (sum_list (map fst rs))) (c\<lparr>ca_shards := map snd rs\<rparr>))"

record stats_view =
  cv_hits :: i64
  cv_misses :: i64
  cv_evictions :: i64
  cv_deduplicated :: i64
  cv_saved :: i64
  cv_memory_used :: i64
  cv_item_count :: nat
  cv_hit_rate :: rat
  cv_avg_item_size :: rat

definition cache_hit_rate :: "cache \<Rightarrow> rat" where
  "cache_hit_rate c = (let h = ct_hits (ca_stats c); total = add64 h (ct_misses (ca_stats c))
     in if total = 0 then 0 else of_int h / of_int total)"

definition cache_stats_of :: "cache \<Rightarrow> stats_view" where
  "cache_stats_of c =
     (let total_size = foldl (\<lambda>n sh. add64 n (sh_size sh)) 0 (ca_shards c);
          total_count = sum_list (map (\<lambda>sh. length (sh_lru sh)) (ca_shards c)); st = ca_stats c;
          total = add64 (ct_hits st) (ct_misses st) in
      \<lparr>cv_hits = ct_hits st, cv_misses = ct_misses st, cv_evictions = ct_evictions st,
       cv_deduplicated = ct_deduplicated st, cv_saved = ct_compression_saved st,
       cv_memory_used = total_size, cv_item_count = total_count, cv_hit_rate = (if 0 < total then of_int (ct_hits st) / of_int total else 0),
       cv_avg_item_size = (if 0 < total_count then of_int total_size / of_nat total_count else 0)\<rparr>)"

definition cache_set_enabled :: "bool \<Rightarrow> cache \<Rightarrow> cache" where
  "cache_set_enabled b c = c\<lparr>ca_cfg := (ca_cfg c)\<lparr>cc_enabled := b\<rparr>\<rparr>"

definition cache_is_enabled :: "cache \<Rightarrow> bool" where
  "cache_is_enabled c = cc_enabled (ca_cfg c)"

definition update_config :: "cache_config \<Rightarrow> cache \<Rightarrow> cache" where
  "update_config cfg c = c\<lparr>ca_cfg := (ca_cfg c)\<lparr>cc_enabled := cc_enabled cfg, cc_ttl := cc_ttl cfg,
     cc_max_item_size := cc_max_item_size cfg, cc_max_memory_mb := cc_max_memory_mb cfg,
     cc_compression_enabled := cc_compression_enabled cfg\<rparr>\<rparr>"

text \<open>
  The global instance: \<open>InitGlobalCache\<close> stops and replaces it, \<open>GlobalCache\<close> makes a default one
  when there is none yet and keeps it (\<open>sync.Once\<close> has run exactly when there is one).
\<close>

definition init_global_cache :: "cache_config \<Rightarrow> cache option \<Rightarrow> cache option" where
  "init_global_cache cfg g = Some (new_cache cfg)"

definition global_cache :: "cache option \<Rightarrow> cache \<times> cache option" where
  "global_cache g = (case g of Some c \<Rightarrow> (c, g)
     | None \<Rightarrow> let c = new_cache default_cache_config in (c, Some c))"

lemma global_cache_is_one: "global_cache g = (c, g') \<Longrightarrow> global_cache g' = (c, g')"
  by (auto simp: global_cache_def Let_def split: option.splits)

subsection \<open>A shard is an LRU list\<close>

definition shard_abs :: "shard \<Rightarrow> entry list" where
  "shard_abs sh = map (\<lambda>i. sh_heap sh ! i) (sh_lru sh)"

definition stored_total :: "entry list \<Rightarrow> i64" where
  "stored_total es = wrap64 (sum_list (map ce_stored_size es))"

definition shard_inv :: "shard \<Rightarrow> bool" where
  "shard_inv sh \<longleftrightarrow> distinct (sh_lru sh)
     \<and> (\<forall>i \<in> set (sh_lru sh). i < length (sh_heap sh) \<and> sh_items sh (ce_key (sh_heap sh ! i)) = Some i)
     \<and> (\<forall>k i. sh_items sh k = Some i \<longrightarrow> i \<in> set (sh_lru sh) \<and> ce_key (sh_heap sh ! i) = k)
     \<and> sh_size sh = stored_total (shard_abs sh)"

definition lru_remove :: "string \<Rightarrow> entry list \<Rightarrow> entry list" where
  "lru_remove k es = filter (\<lambda>e. ce_key e \<noteq> k) es"

definition lru_find :: "string \<Rightarrow> entry list \<Rightarrow> entry option" where
  "lru_find k es = find (\<lambda>e. ce_key e = k) es"

function lru_trim :: "(entry list \<Rightarrow> bool) \<Rightarrow> entry list \<Rightarrow> entry list" where
  "lru_trim full es = (if full es \<and> es \<noteq> [] then lru_trim full (butlast es) else es)"
  by pat_completeness auto

termination by (relation "measure (\<lambda>(f, es). length es)") auto

declare lru_trim.simps [simp del]

text \<open>The abstract operations, on entries from the most to the least recently used.\<close>

definition lru_get :: "(string \<Rightarrow> string option) \<Rightarrow> time \<Rightarrow> string \<Rightarrow> entry list \<Rightarrow> lookup_outcome \<times> entry list" where
  "lru_get gunzip now k es = (case lru_find k es of
       None \<Rightarrow> (Miss, es)
     | Some e \<Rightarrow>
         if is_expired now e then (Miss, lru_remove k es)
         else if \<not> ce_compressed e then (Hit (ce_value e), touch_entry now e # lru_remove k es)
         else (case gunzip (ce_value e) of
                 None \<Rightarrow> (Corrupt, lru_remove k es)
               | Some v \<Rightarrow> (Hit v, touch_entry now e # lru_remove k es)))"

definition over_memory :: "cache_config \<Rightarrow> i64 \<Rightarrow> entry list \<Rightarrow> bool" where
  "over_memory cfg n es \<longleftrightarrow> 0 < cc_max_memory_mb cfg \<and> max_memory cfg < add64 (stored_total es) n"

definition lru_set :: "cache_config \<Rightarrow> time \<Rightarrow> duration \<Rightarrow> string \<Rightarrow> stored_value \<Rightarrow> string \<Rightarrow> string
    \<Rightarrow> entry list \<Rightarrow> entry list" where
  "lru_set cfg now ttl k v model endpoint es = (case lru_find k es of
       Some e \<Rightarrow> update_entry now ttl v e # lru_remove k es
     | None \<Rightarrow> new_entry now ttl k v model endpoint
         # lru_trim (\<lambda>es. max_per_shard cfg \<le> int (length es))
             (lru_trim (over_memory cfg (sd_stored_size v)) es))"

lemma shard_inv_empty: "shard_inv empty_shard"
  by (simp add: shard_inv_def empty_shard_def stored_total_def shard_abs_def in64_def)

lemma shard_invD:
  assumes "shard_inv sh"
  shows "distinct (sh_lru sh)" and "i \<in> set (sh_lru sh) \<Longrightarrow> i < length (sh_heap sh)"
    and "i \<in> set (sh_lru sh) \<Longrightarrow> sh_items sh (ce_key (sh_heap sh ! i)) = Some i"
    and "sh_items sh k = Some i \<Longrightarrow> i \<in> set (sh_lru sh)"
    and "sh_items sh k = Some i \<Longrightarrow> ce_key (sh_heap sh ! i) = k"
    and "sh_size sh = stored_total (shard_abs sh)"
  using assms unfolding shard_inv_def by blast+

lemma shard_key_inj:
  assumes "shard_inv sh" and "i \<in> set (sh_lru sh)" and "j \<in> set (sh_lru sh)"
  shows "ce_key (sh_heap sh ! j) = ce_key (sh_heap sh ! i) \<longleftrightarrow> j = i"
  using shard_invD(3) [OF assms(1,2)] shard_invD(3) [OF assms(1,3)] by auto

lemma shard_keys_distinct: "shard_inv sh \<Longrightarrow> distinct (map ce_key (shard_abs sh))"
  by (simp add: shard_abs_def distinct_map comp_inj_on_iff inj_on_def shard_invD(1) shard_key_inj)

lemma lru_find_Some: "lru_find k es = Some e \<Longrightarrow> e \<in> set es \<and> ce_key e = k"
  unfolding lru_find_def by (induction es) (auto split: if_splits)

lemma find_abs:
  assumes inv: "shard_inv sh"
  shows "lru_find k (shard_abs sh) = map_option (\<lambda>i. sh_heap sh ! i) (sh_items sh k)"
proof (cases "sh_items sh k")
  case None
  then have "ce_key (sh_heap sh ! i) \<noteq> k" if "i \<in> set (sh_lru sh)" for i
    using shard_invD(3) [OF inv that] by auto
  with None show ?thesis by (simp add: lru_find_def shard_abs_def find_None_iff)
next
  case (Some i)
  have i: "i \<in> set (sh_lru sh)" "ce_key (sh_heap sh ! i) = k"
    using shard_invD(4,5) [OF inv Some] by auto
  then have "sh_heap sh ! i \<in> set (shard_abs sh)" by (simp add: shard_abs_def)
  with i(2) obtain e where e: "lru_find k (shard_abs sh) = Some e"
    unfolding lru_find_def by (metis (mono_tags, lifting) find_None_iff not_Some_eq)
  obtain j where "j \<in> set (sh_lru sh)" "e = sh_heap sh ! j" "ce_key e = k"
    using lru_find_Some [OF e] by (auto simp: shard_abs_def)
  with i shard_key_inj [OF inv i(1)] Some e show ?thesis by auto
qed

lemma stored_total_Cons: "stored_total (e # es) = add64 (stored_total es) (ce_stored_size e)"
  by (simp add: stored_total_def add64_def add.commute [of "ce_stored_size e"])

lemma stored_total_remove:
  assumes "distinct (map ce_key es)" and "e \<in> set es"
  shows "stored_total (lru_remove (ce_key e) es) = sub64 (stored_total es) (ce_stored_size e)"
proof -
  have "sum_list (map ce_stored_size es)
      = ce_stored_size e + sum_list (map ce_stored_size (lru_remove (ce_key e) es))"
    using assms
  proof (induction es)
    case (Cons a es)
    show ?case
    proof (cases "a = e")
      case True
      with Cons.prems have "lru_remove (ce_key e) es = es"
        unfolding lru_remove_def by (intro filter_True) (auto simp: image_iff)
      with True show ?thesis by (simp add: lru_remove_def)
    next
      case False
      with Cons.prems have "ce_key a \<noteq> ce_key e" by force
      with False Cons show ?thesis by (simp add: lru_remove_def)
    qed
  qed simp
  moreover have "wrap64 (wrap64 x - y) = wrap64 (x - y)" for x y
    using wrap64_wrap64_add [of x "- y"] by simp
  ultimately show ?thesis by (simp add: stored_total_def sub64_def)
qed

lemma remove_abs:
  assumes inv: "shard_inv sh" and i: "i \<in> set (sh_lru sh)"
  shows "shard_abs (remove_from_shard i sh) = lru_remove (ce_key (sh_heap sh ! i)) (shard_abs sh)
     \<and> shard_inv (remove_from_shard i sh)"
proof -
  note key = shard_key_inj [OF inv i]
  have rem: "remove1 i (sh_lru sh) = filter (\<lambda>j. j \<noteq> i) (sh_lru sh)"
    unfolding distinct_remove1_removeAll [OF shard_invD(1) [OF inv]] removeAll_filter_not_eq
    by (rule filter_cong) auto
  have abs: "shard_abs (remove_from_shard i sh) = lru_remove (ce_key (sh_heap sh ! i)) (shard_abs sh)"
    by (auto simp: shard_abs_def remove_from_shard_def lru_remove_def rem filter_map Let_def key
        intro!: arg_cong [where f = "map _"] filter_cong)
  have "sh_heap sh ! i \<in> set (shard_abs sh)" using i by (simp add: shard_abs_def)
  with stored_total_remove [OF shard_keys_distinct [OF inv] this]
  have size: "sh_size (remove_from_shard i sh) = stored_total (shard_abs (remove_from_shard i sh))"
    using inv unfolding abs by (simp add: remove_from_shard_def shard_inv_def Let_def)
  have "shard_inv (remove_from_shard i sh)"
    unfolding shard_inv_def size
    using shard_invD [OF inv] key
    by (auto simp: remove_from_shard_def rem Let_def)
  with abs show ?thesis by simp
qed


text \<open>Every operation of a shard commutes with the abstraction and keeps the invariant.\<close>

lemma evict_oldest_abs:
  assumes inv: "shard_inv sh" and ne: "sh_lru sh \<noteq> []"
  shows "shard_abs (snd (evict_oldest sh)) = butlast (shard_abs sh) \<and> shard_inv (snd (evict_oldest sh))"
proof -
  let ?i = "last (sh_lru sh)"
  have i: "?i \<in> set (sh_lru sh)" using ne by simp
  have last: "last (shard_abs sh) = sh_heap sh ! ?i" using ne by (simp add: shard_abs_def last_map)
  have "lru_remove (ce_key (last es)) es = butlast es" if "distinct (map ce_key es)" "es \<noteq> []" for es
    using that
    by (induction es rule: rev_induct) (auto simp: lru_remove_def filter_id_conv image_iff)
  with shard_keys_distinct [OF inv] ne have "lru_remove (ce_key (sh_heap sh ! ?i)) (shard_abs sh) = butlast (shard_abs sh)"
    unfolding last [symmetric] by (simp add: shard_abs_def)
  with remove_abs [OF inv i] ne show ?thesis by (simp add: evict_oldest_def)
qed

lemma evict_while_abs:
  assumes "shard_inv sh" and "\<And>sh. shard_inv sh \<Longrightarrow> full sh = afull (shard_abs sh)"
  shows "shard_abs (snd (evict_while full sh)) = lru_trim afull (shard_abs sh)
     \<and> shard_inv (snd (evict_while full sh))"
  using assms(1)
proof (induction "length (sh_lru sh)" arbitrary: sh rule: less_induct)
  case less
  have e: "shard_abs sh = [] \<longleftrightarrow> sh_lru sh = []" by (simp add: shard_abs_def)
  show ?case
  proof (cases "full sh \<and> sh_lru sh \<noteq> []")
    case True
    let ?sh = "snd (evict_oldest sh)"
    have o: "shard_abs ?sh = butlast (shard_abs sh)" "shard_inv ?sh"
      using evict_oldest_abs less.prems True by auto
    have step: "snd (evict_while full sh) = snd (evict_while full ?sh)"
      using True by (subst evict_while.simps) (simp split: prod.splits)
    show ?thesis
      using less.hyps [OF evict_oldest_shorter o(2)] True o(1) e assms(2) [OF less.prems]
      unfolding step by (simp add: lru_trim.simps [of afull "shard_abs sh"])
  next
    case False
    with e assms(2) [OF less.prems] less.prems show ?thesis
      by (auto simp: lru_trim.simps [of afull "shard_abs sh"] evict_while.simps [of full sh])
  qed
qed

lemma move_write_abs:
  fixes f i sh
  assumes inv: "shard_inv sh" and i: "sh_items sh k = Some i" and key: "\<And>e. ce_key (f e) = ce_key e"
  defines "sh' \<equiv> write_entry i f (move_to_front i sh)"
  shows "shard_abs sh' = f (sh_heap sh ! i) # lru_remove k (shard_abs sh) \<and> sh_heap sh' ! i = f (sh_heap sh ! i)
     \<and> sh_size sh' = sh_size sh
     \<and> shard_inv (sh'\<lparr>sh_size := stored_total (shard_abs sh')\<rparr>)"
proof -
  have m: "i \<in> set (sh_lru sh)" "ce_key (sh_heap sh ! i) = k" "i < length (sh_heap sh)"
    using shard_invD(4,5) [OF inv i] shard_invD(2) [OF inv] by auto
  have rem: "map (\<lambda>j. sh_heap sh ! j) (remove1 i (sh_lru sh)) = lru_remove k (shard_abs sh)"
    using remove_abs [OF inv m(1)] m(2) by (simp add: shard_abs_def remove_from_shard_def Let_def)
  have ni: "i \<notin> set (remove1 i (sh_lru sh))" using shard_invD(1) [OF inv] by simp
  have parts: "sh_lru sh' = i # remove1 i (sh_lru sh)" "sh_items sh' = sh_items sh" "sh_size sh' = sh_size sh"
    "length (sh_heap sh') = length (sh_heap sh)"
    by (simp_all add: sh'_def write_entry_def move_to_front_def)
  have heap: "sh_heap sh' ! j = (if j = i then f (sh_heap sh ! i) else sh_heap sh ! j)" for j
    using m(3) by (simp add: sh'_def write_entry_def move_to_front_def)
  then have same: "ce_key (sh_heap sh' ! j) = ce_key (sh_heap sh ! j)" for j by (simp add: key)
  have "map (\<lambda>j. sh_heap sh' ! j) (remove1 i (sh_lru sh)) = map (\<lambda>j. sh_heap sh ! j) (remove1 i (sh_lru sh))"
    using ni by (intro map_cong) (auto simp: heap)
  then have abs: "shard_abs sh' = f (sh_heap sh ! i) # lru_remove k (shard_abs sh)"
    unfolding rem by (simp add: shard_abs_def parts heap)
  have "distinct (sh_lru sh')" "set (sh_lru sh') = set (sh_lru sh)"
    using m(1) shard_invD(1) [OF inv] by (auto simp: parts)
  then have "shard_inv (sh'\<lparr>sh_size := stored_total (shard_abs sh')\<rparr>)"
    using shard_invD [OF inv] unfolding shard_inv_def by (simp add: parts same) (simp add: shard_abs_def)
  with abs heap parts show ?thesis by simp
qed

lemma shard_get_abs:
  assumes inv: "shard_inv sh"
  shows "lru_get gunzip now k (shard_abs sh) = map_prod id shard_abs (shard_get gunzip now k sh)
     \<and> shard_inv (snd (shard_get gunzip now k sh))"
proof (cases "sh_items sh k")
  case None
  with inv show ?thesis by (simp add: shard_get_def lru_get_def find_abs [OF inv])
next
  case (Some i)
  have m: "i \<in> set (sh_lru sh)" "ce_key (sh_heap sh ! i) = k"
    using shard_invD(4,5) [OF inv Some] by auto
  let ?e = "sh_heap sh ! i" and ?sh = "write_entry i (touch_entry now) (move_to_front i sh)"
  note rem = remove_abs [OF inv m(1), unfolded m(2)]
  note mv = move_write_abs [OF inv Some, of "touch_entry now"]
  have key: "ce_key (touch_entry now e) = ce_key e" for e by (simp add: touch_entry_def)
  have "?e \<in> set (shard_abs sh)" using m by (simp add: shard_abs_def)
  then have "stored_total (shard_abs ?sh) = add64 (sub64 (stored_total (shard_abs sh)) (ce_stored_size ?e)) (ce_stored_size ?e)"
    using mv [OF key] stored_total_remove [OF shard_keys_distinct [OF inv], of ?e] m(2)
    by (simp add: stored_total_Cons touch_entry_def)
  also have "\<dots> = sh_size ?sh" using mv [OF key] shard_invD(6) [OF inv]
    by (simp add: add64_def sub64_def stored_total_def)
  finally have size: "stored_total (shard_abs ?sh) = sh_size ?sh" .
  have "x\<lparr>sh_size := sh_size x\<rparr> = x" for x :: shard by simp
  then have inv': "shard_inv ?sh" using mv [OF key] unfolding size by metis
  have find: "lru_find k (shard_abs sh) = Some ?e" by (simp add: find_abs [OF inv] Some)
  have i': "i \<in> set (sh_lru ?sh)" "ce_key (sh_heap ?sh ! i) = k"
    using mv [OF key] m(2) by (simp_all add: touch_entry_def) (simp add: write_entry_def move_to_front_def)
  have "lru_remove k (touch_entry now ?e # lru_remove k es) = lru_remove k es" for es
    using m(2) by (simp add: lru_remove_def touch_entry_def)
  with remove_abs [OF inv' i'(1), unfolded i'(2)] mv [OF key]
  have rem': "shard_abs (remove_from_shard i ?sh) = lru_remove k (shard_abs sh)" "shard_inv (remove_from_shard i ?sh)"
    by simp_all
  show ?thesis
    using Some rem rem' inv' mv [OF key] find
    by (auto simp: shard_get_def lru_get_def Let_def touch_entry_def split: option.splits)
qed

lemma push_front_abs:
  assumes inv: "shard_inv sh" and new: "lru_find (ce_key e) (shard_abs sh) = None"
  shows "shard_abs (push_front e sh) = e # shard_abs sh \<and> shard_inv (push_front e sh)"
proof -
  let ?n = "length (sh_heap sh)"
  have items: "sh_items sh (ce_key e) = None" using new by (simp add: find_abs [OF inv])
  have below: "i < ?n" if "i \<in> set (sh_lru sh)" for i using shard_invD(2) [OF inv that] .
  have "map (\<lambda>i. (sh_heap sh @ [e]) ! i) (sh_lru sh) = map (\<lambda>i. sh_heap sh ! i) (sh_lru sh)"
    using below by (intro map_cong) (auto simp: nth_append)
  then have abs: "shard_abs (push_front e sh) = e # shard_abs sh"
    by (simp add: shard_abs_def push_front_def Let_def)
  have other: "ce_key (sh_heap sh ! i) \<noteq> ce_key e" if "i \<in> set (sh_lru sh)" for i
    using shard_invD(3) [OF inv that] items by auto
  have "shard_inv (push_front e sh)"
    unfolding shard_inv_def abs stored_total_Cons shard_invD(6) [OF inv, symmetric]
    using shard_invD [OF inv] below other
    by (auto simp: push_front_def Let_def nth_append less_Suc_eq split: if_splits) blast+
  with abs show ?thesis by simp
qed


lemma lru_find_butlast: "lru_find k es = None \<Longrightarrow> lru_find k (butlast es) = None"
  unfolding lru_find_def by (auto simp: find_None_iff dest: in_set_butlastD)

lemma lru_find_trim: "lru_find k es = None \<Longrightarrow> lru_find k (lru_trim full es) = None"
  by (induction full es rule: lru_trim.induct)
     (subst lru_trim.simps, auto dest: lru_find_butlast)

lemma lru_trim_False: "(\<And>es. \<not> full es) \<Longrightarrow> lru_trim full es = es"
  by (simp add: lru_trim.simps [of full es])

lemma evict_if_needed_abs:
  assumes inv: "shard_inv sh"
  shows "shard_abs (snd (evict_if_needed cfg n sh)) = lru_trim (over_memory cfg n) (shard_abs sh)
     \<and> shard_inv (snd (evict_if_needed cfg n sh))"
proof (cases "cc_max_memory_mb cfg \<le> 0")
  case True
  with inv show ?thesis by (simp add: evict_if_needed_def lru_trim_False over_memory_def)
next
  case False
  then show ?thesis
    using evict_while_abs [OF inv, of "\<lambda>sh. max_memory cfg < add64 (sh_size sh) n" "over_memory cfg n"]
    by (simp add: evict_if_needed_def over_memory_def shard_invD(6))
qed

lemma shard_set_abs:
  assumes inv: "shard_inv sh"
  shows "shard_abs (snd (shard_set cfg now ttl k v model endpoint sh))
       = lru_set cfg now ttl k v model endpoint (shard_abs sh)
     \<and> shard_inv (snd (shard_set cfg now ttl k v model endpoint sh))"
proof (cases "sh_items sh k")
  case (Some i)
  have m: "i \<in> set (sh_lru sh)" "ce_key (sh_heap sh ! i) = k"
    using shard_invD(4,5) [OF inv Some] by auto
  let ?e = "sh_heap sh ! i" and ?sh = "write_entry i (update_entry now ttl v) (move_to_front i sh)"
  have key: "ce_key (update_entry now ttl v e) = ce_key e" for e by (simp add: update_entry_def)
  have mv: "shard_abs ?sh = update_entry now ttl v ?e # lru_remove k (shard_abs sh)"
    "sh_size ?sh = sh_size sh" "shard_inv (?sh\<lparr>sh_size := stored_total (shard_abs ?sh)\<rparr>)"
    using move_write_abs [OF inv Some, of "update_entry now ttl v"] key by blast+
  have "?e \<in> set (shard_abs sh)" using m by (simp add: shard_abs_def)
  then have "stored_total (shard_abs ?sh) = add64 (sub64 (sh_size ?sh) (ce_stored_size ?e)) (sd_stored_size v)"
    using mv(1,2) stored_total_remove [OF shard_keys_distinct [OF inv], of ?e] m(2) shard_invD(6) [OF inv]
    by (simp add: stored_total_Cons update_entry_def)
  with mv have "shard_inv (?sh\<lparr>sh_size := add64 (sub64 (sh_size ?sh) (ce_stored_size ?e)) (sd_stored_size v)\<rparr>)"
    by simp
  moreover have "sh_heap (move_to_front i sh) = sh_heap sh" by (simp add: move_to_front_def)
  moreover have "shard_abs (?sh\<lparr>sh_size := x\<rparr>) = shard_abs ?sh" for x by (simp add: shard_abs_def)
  ultimately show ?thesis
    using Some mv(1) by (simp add: shard_set_def lru_set_def find_abs [OF inv] Let_def)
next
  case None
  let ?n = "sd_stored_size v"
  let ?sh = "snd (evict_if_needed cfg ?n sh)"
  let ?sh' = "snd (evict_while (\<lambda>sh. max_per_shard cfg \<le> int (length (sh_lru sh))) ?sh)"
  let ?es = "lru_trim (\<lambda>es. max_per_shard cfg \<le> int (length es)) (lru_trim (over_memory cfg ?n) (shard_abs sh))"
  let ?e = "new_entry now ttl k v model endpoint"
  have 1: "shard_abs ?sh = lru_trim (over_memory cfg ?n) (shard_abs sh)" "shard_inv ?sh"
    using evict_if_needed_abs [OF inv] by auto
  have 2: "shard_abs ?sh' = ?es" "shard_inv ?sh'"
    using evict_while_abs [OF 1(2), of "\<lambda>sh. max_per_shard cfg \<le> int (length (sh_lru sh))"
        "\<lambda>es. max_per_shard cfg \<le> int (length es)"]
    by (auto simp: shard_abs_def 1(1) [unfolded shard_abs_def])
  have find: "lru_find k (shard_abs sh) = None" by (simp add: find_abs [OF inv] None)
  then have "lru_find (ce_key ?e) (shard_abs ?sh') = None"
    unfolding 2(1) by (auto intro!: lru_find_trim simp: new_entry_def)
  from push_front_abs [OF 2(2) this] None find show ?thesis
    by (auto simp: shard_set_def lru_set_def 2(1) split: prod.splits)
qed

lemma shard_delete_abs:
  assumes inv: "shard_inv sh"
  shows "shard_abs (shard_delete k sh) = lru_remove k (shard_abs sh) \<and> shard_inv (shard_delete k sh)"
proof (cases "sh_items sh k")
  case None
  with find_abs [OF inv, of k] inv show ?thesis
    by (auto simp: shard_delete_def lru_find_def lru_remove_def find_None_iff filter_id_conv)
next
  case (Some i)
  with remove_abs [OF inv shard_invD(4) [OF inv Some]] shard_invD(5) [OF inv Some] show ?thesis
    by (simp add: shard_delete_def)
qed

lemma cleanup_fold_abs:
  "shard_inv sh \<Longrightarrow> distinct ds \<Longrightarrow> set ds \<subseteq> set (sh_lru sh) \<Longrightarrow>
   shard_abs (fold remove_from_shard ds sh)
     = filter (\<lambda>e. \<forall>i \<in> set ds. ce_key e \<noteq> ce_key (sh_heap sh ! i)) (shard_abs sh)
   \<and> shard_inv (fold remove_from_shard ds sh)"
proof (induction ds arbitrary: sh)
  case (Cons d ds)
  have d: "d \<in> set (sh_lru sh)" using Cons.prems by simp
  let ?sh = "remove_from_shard d sh"
  have heap: "sh_heap ?sh = sh_heap sh" and lru: "sh_lru ?sh = remove1 d (sh_lru sh)"
    by (simp_all add: remove_from_shard_def Let_def)
  have "set ds \<subseteq> set (sh_lru ?sh)" using Cons.prems shard_invD(1) [OF Cons.prems(1)] by (auto simp: lru)
  with Cons.IH [of ?sh] Cons.prems remove_abs [OF Cons.prems(1) d] show ?case
    by (auto simp: heap lru_remove_def intro!: filter_cong)
qed simp

lemma cleanup_shard_abs:
  assumes inv: "shard_inv sh"
  shows "shard_abs (snd (cleanup_shard now sh)) = filter (\<lambda>e. \<not> is_expired now e) (shard_abs sh)
     \<and> shard_inv (snd (cleanup_shard now sh))"
proof -
  let ?ds = "filter (\<lambda>i. is_expired now (sh_heap sh ! i)) (rev (sh_lru sh))"
  have "distinct ?ds" "set ?ds \<subseteq> set (sh_lru sh)" using shard_invD(1) [OF inv] by auto
  note fold = cleanup_fold_abs [OF inv this]
  have "(\<forall>i \<in> set ?ds. ce_key e \<noteq> ce_key (sh_heap sh ! i)) \<longleftrightarrow> \<not> is_expired now e"
    if e: "e \<in> set (shard_abs sh)" for e
  proof -
    obtain j where "j \<in> set (sh_lru sh)" "e = sh_heap sh ! j" using e by (auto simp: shard_abs_def)
    then show ?thesis using shard_key_inj [OF inv] by auto
  qed
  then have "filter (\<lambda>e. \<forall>i \<in> set ?ds. ce_key e \<noteq> ce_key (sh_heap sh ! i)) (shard_abs sh)
      = filter (\<lambda>e. \<not> is_expired now e) (shard_abs sh)" by (rule filter_cong [OF refl])
  with fold show ?thesis by (simp add: cleanup_shard_def Let_def)
qed


subsection \<open>Properties of a shard\<close>

datatype shard_op =
    ShGet time string
  | ShSet time duration string stored_value string string
  | ShDelete string
  | ShCleanup time
  | ShClear

fun shard_step :: "cache_config \<Rightarrow> (string \<Rightarrow> string option) \<Rightarrow> shard \<Rightarrow> shard_op \<Rightarrow> shard" where
  "shard_step cfg gunzip sh (ShGet now k) = snd (shard_get gunzip now k sh)"
| "shard_step cfg gunzip sh (ShSet now ttl k v model ep) = snd (shard_set cfg now ttl k v model ep sh)"
| "shard_step cfg gunzip sh (ShDelete k) = shard_delete k sh"
| "shard_step cfg gunzip sh (ShCleanup now) = snd (cleanup_shard now sh)"
| "shard_step cfg gunzip sh ShClear = clear_shard sh"

fun lru_step :: "cache_config \<Rightarrow> (string \<Rightarrow> string option) \<Rightarrow> entry list \<Rightarrow> shard_op \<Rightarrow> entry list" where
  "lru_step cfg gunzip es (ShGet now k) = snd (lru_get gunzip now k es)"
| "lru_step cfg gunzip es (ShSet now ttl k v model ep) = lru_set cfg now ttl k v model ep es"
| "lru_step cfg gunzip es (ShDelete k) = lru_remove k es"
| "lru_step cfg gunzip es (ShCleanup now) = filter (\<lambda>e. \<not> is_expired now e) es"
| "lru_step cfg gunzip es ShClear = []"

lemma shard_step_abs:
  "shard_inv sh \<Longrightarrow> shard_inv (shard_step cfg gunzip sh e)
     \<and> shard_abs (shard_step cfg gunzip sh e) = lru_step cfg gunzip (shard_abs sh) e"
proof (cases e)
  case (ShGet now k)
  moreover assume "shard_inv sh"
  ultimately show ?thesis
    using shard_get_abs [of sh gunzip now k] by (cases "shard_get gunzip now k sh") auto
next
  case ShClear
  then show ?thesis by (simp add: clear_shard_def shard_inv_def shard_abs_def stored_total_def in64_def)
qed (auto simp: shard_set_abs shard_delete_abs cleanup_shard_abs)

interpretation sh: simulation "shard_step cfg gunzip" shard_inv shard_abs "lru_step cfg gunzip"
  for cfg gunzip
  by unfold_locales (simp_all add: shard_step_abs)

text \<open>
  C12: A shard is an LRU list: after any sequence of operations on an empty shard the hash
  map and the linked list agree, the list of entries is the one the abstract LRU list
  computes (use moves to the front, eviction takes from the back, expired entries leave
  when they are met), the size counter is the sum of the stored sizes, and a lookup gives
  the abstract answer.\<close>

theorem shard_refines_lru_list:
  "shard_abs (foldl (shard_step cfg gunzip) empty_shard ops) = foldl (lru_step cfg gunzip) [] ops
   \<and> shard_inv (foldl (shard_step cfg gunzip) empty_shard ops)
   \<and> fst (shard_get gunzip now k (foldl (shard_step cfg gunzip) empty_shard ops))
       = fst (lru_get gunzip now k (foldl (lru_step cfg gunzip) [] ops))"
proof -
  let ?sh = "foldl (shard_step cfg gunzip) empty_shard ops"
  have inv: "shard_inv ?sh" using shard_inv_empty by (rule sh.run_inv)
  have abs: "shard_abs ?sh = foldl (lru_step cfg gunzip) [] ops"
    using sh.run_simulates [OF shard_inv_empty, of cfg gunzip ops]
    by (simp add: shard_abs_def [of empty_shard]) (simp add: empty_shard_def)
  have "fst (shard_get gunzip now k ?sh) = fst (lru_get gunzip now k (shard_abs ?sh))"
    using shard_get_abs [OF inv, of gunzip now k] by simp
  with inv abs show ?thesis by simp
qed

lemma max_per_shard_ge: "10 \<le> max_per_shard cfg"
  by (simp add: max_per_shard_def Let_def)

lemma length_lru_trim: "length (lru_trim full es) \<le> length es"
  by (induction full es rule: lru_trim.induct)
     (subst lru_trim.simps, auto intro: order_trans)

lemma lru_trim_stops: "full (lru_trim full es) \<Longrightarrow> lru_trim full es = []"
  by (induction full es rule: lru_trim.induct)
     (subst (asm) lru_trim.simps, subst lru_trim.simps, auto split: if_splits)

lemma length_filter_remove: "lru_find k es = Some e \<Longrightarrow> length (lru_remove k es) < length es"
proof -
  assume "lru_find k es = Some e"
  then have "e \<in> set es" "ce_key e = k" using lru_find_Some by auto
  then show ?thesis unfolding lru_remove_def by (intro length_filter_less) auto
qed

text \<open>
  A shard never holds more entries than its share: whatever happens, the number of
  entries stays at most \<open>MaxSize / NumShards\<close>, or ten when that is less than ten.\<close>

theorem shard_capacity:
  "int (length (sh_lru (foldl (shard_step cfg gunzip) empty_shard ops))) \<le> max_per_shard cfg"
proof -
  have trim: "int (length (lru_trim (\<lambda>es. max_per_shard cfg \<le> int (length es)) es)) < max_per_shard cfg" for es
    using lru_trim_stops [of "\<lambda>es. max_per_shard cfg \<le> int (length es)" es] max_per_shard_ge [of cfg]
    by (cases "max_per_shard cfg \<le> int (length (lru_trim (\<lambda>es. max_per_shard cfg \<le> int (length es)) es))") auto
  have step: "int (length (lru_step cfg gunzip es e)) \<le> max_per_shard cfg"
    if "int (length es) \<le> max_per_shard cfg" for es e
  proof (cases e)
    case (ShGet now k)
    with that show ?thesis
      using length_filter_remove [of k es]
      by (auto simp: lru_get_def lru_remove_def intro: order_trans [OF _ that] split: option.splits)
  next
    case (ShSet now ttl k v model ep)
    show ?thesis
    proof (cases "lru_find k es")
      case None
      with ShSet trim show ?thesis by (simp add: lru_set_def zle_add1_eq_le [symmetric] add.commute) 
    next
      case (Some e')
      with ShSet that length_filter_remove [OF Some] show ?thesis by (simp add: lru_set_def)
    qed
  qed (use that max_per_shard_ge [of cfg] in \<open>auto simp: lru_remove_def intro: order_trans [OF _ that]\<close>)
  have "int (length (foldl (lru_step cfg gunzip) [] ops)) \<le> max_per_shard cfg"
    using max_per_shard_ge [of cfg] by (induction ops rule: rev_induct) (simp_all add: step)
  moreover have "length (sh_lru sh) = length (shard_abs sh)" for sh by (simp add: shard_abs_def)
  moreover have "shard_abs (foldl (shard_step cfg gunzip) empty_shard ops) = foldl (lru_step cfg gunzip) [] ops"
    using sh.run_simulates [OF shard_inv_empty, of cfg gunzip ops]
    by (simp add: shard_abs_def [of empty_shard]) (simp add: empty_shard_def)
  ultimately show ?thesis by simp
qed

text \<open>
  Replacing the value of a stored key escapes the memory limit: it evicts nothing,
  whatever \<open>MaxMemoryMB\<close> is, and the shard grows by the difference of the sizes.\<close>

theorem update_escapes_memory_limit:
  assumes "shard_inv sh" and "sh_items sh k = Some i"
  shows "fst (shard_set cfg now ttl k v model ep sh) = 0
     \<and> length (sh_lru (snd (shard_set cfg now ttl k v model ep sh))) = length (sh_lru sh)
     \<and> sh_size (snd (shard_set cfg now ttl k v model ep sh))
         = add64 (sub64 (sh_size sh) (ce_stored_size (sh_heap sh ! i))) (sd_stored_size v)"
proof -
  have "i \<in> set (sh_lru sh)" using shard_invD(4) [OF assms] .
  then have "length (i # remove1 i (sh_lru sh)) = length (sh_lru sh)"
    by (simp add: length_remove1) (metis Suc_pred length_pos_if_in_set)
  with assms(2) show ?thesis by (simp add: shard_set_def Let_def move_to_front_def write_entry_def)
qed

definition plain_value :: "nat \<Rightarrow> stored_value" where
  "plain_value n = \<lparr>sd_value = replicate n CHR ''x'', sd_original_size = int n, sd_stored_size = int n,
     sd_compressed = False\<rparr>"

theorem update_escapes_memory_limit_witness:
  "sh_size (snd (shard_set (default_cache_config\<lparr>cc_max_memory_mb := 1, cc_num_shards := 1048576\<rparr>) 5 9 ''k''
      (plain_value 7) ''m'' ''e''
      (snd (shard_set default_cache_config 0 9 ''k'' (plain_value 1) ''m'' ''e'' empty_shard)))) = 7
   \<and> max_memory (default_cache_config\<lparr>cc_max_memory_mb := 1, cc_num_shards := 1048576\<rparr>) = 1"
proof -
  let ?sh = "push_front (new_entry 0 9 ''k'' (plain_value 1) ''m'' ''e'') empty_shard"
  have trim: "evict_while full empty_shard = (0, empty_shard)" for full
    by (simp add: evict_while.simps) (simp add: empty_shard_def)
  have items: "sh_items empty_shard = (\<lambda>_. None)" by (simp add: empty_shard_def)
  have sh: "snd (shard_set default_cache_config 0 9 ''k'' (plain_value 1) ''m'' ''e'' empty_shard) = ?sh"
    by (simp add: shard_set_def evict_if_needed_def trim items)
  have "shard_inv ?sh"
    by (rule push_front_abs [OF shard_inv_empty, THEN conjunct2])
       (simp add: lru_find_def shard_abs_def empty_shard_def)
  moreover have "sh_items ?sh ''k'' = Some 0" by (simp add: push_front_def new_entry_def empty_shard_def)
  ultimately have "sh_size (snd (shard_set (default_cache_config\<lparr>cc_max_memory_mb := 1, cc_num_shards := 1048576\<rparr>)
      5 9 ''k'' (plain_value 7) ''m'' ''e'' ?sh)) = add64 (sub64 (sh_size ?sh) (ce_stored_size (sh_heap ?sh ! 0))) 7"
    using update_escapes_memory_limit [of ?sh "''k''" 0] by (simp add: plain_value_def)
  then show ?thesis unfolding sh
    by (simp add: push_front_def new_entry_def empty_shard_def plain_value_def add64_def sub64_def
        in64_def max_memory_def mul64_def quot64_def default_cache_config_def)
qed


subsection \<open>Properties of the cache\<close>

definition cache_inv :: "cache \<Rightarrow> bool" where
  "cache_inv c \<longleftrightarrow> ca_shards c \<noteq> [] \<and> length (ca_shards c) < 2 ^ 32 \<and> list_all shard_inv (ca_shards c)"

lemma cache_inv_new: "cc_num_shards cfg < 2 ^ 32 \<Longrightarrow> cache_inv (new_cache cfg)"
  by (auto simp: cache_inv_def new_cache_def Let_def list_all_iff shard_inv_empty nat_less_iff)

lemma shard_index_less: "cache_inv c \<Longrightarrow> shard_index c k < length (ca_shards c)"
  by (simp add: cache_inv_def shard_index_def unat_mod unat_of_nat)

lemma shard_index_frame [simp]:
  "shard_index (put_shard i sh c) k = shard_index c k"
  "shard_index (add_evictions n c) k = shard_index c k"
  "shard_index (add_saved n c) k = shard_index c k"
  by (simp_all add: shard_index_def put_shard_def add_evictions_def add_saved_def)

lemma cache_frame [simp]:
  "ca_shards (add_evictions n c) = ca_shards c" "ca_shards (add_saved n c) = ca_shards c"
  "ca_cfg (add_evictions n c) = ca_cfg c" "ca_cfg (add_saved n c) = ca_cfg c"
  "ca_cfg (put_shard i sh c) = ca_cfg c" "ca_shards (put_shard i sh c) = (ca_shards c)[i := sh]"
  by (simp_all add: put_shard_def add_evictions_def add_saved_def)

text \<open>The law of gzip: what was compressed decompresses to the original.\<close>

definition gzip_law :: "(string \<Rightarrow> string option) \<Rightarrow> (string \<Rightarrow> string option) \<Rightarrow> bool" where
  "gzip_law gzip gunzip \<longleftrightarrow> (\<forall>v z. gzip v = Some z \<longrightarrow> gunzip z = Some v)"

lemma lru_find_after_set:
  "\<exists>e. lru_find k (lru_set cfg now ttl k v model ep es) = Some e \<and> ce_value e = sd_value v
     \<and> ce_compressed e = sd_compressed v \<and> ce_expires_at e = now + ttl"
proof (cases "lru_find k es")
  case None
  then show ?thesis by (simp add: lru_set_def) (simp add: lru_find_def new_entry_def)
next
  case (Some e)
  with lru_find_Some [OF Some] show ?thesis
    by (simp add: lru_set_def) (simp add: lru_find_def update_entry_def)
qed

lemma prepare_value_cases:
  "sd_value (prepare_value gzip cfg v) = v \<and> \<not> sd_compressed (prepare_value gzip cfg v)
   \<or> gzip v = Some (sd_value (prepare_value gzip cfg v)) \<and> sd_compressed (prepare_value gzip cfg v)"
  by (auto simp: prepare_value_def Let_def split: option.splits)

text \<open>What every operation keeps.\<close>

lemma cache_inv_put:
  "cache_inv c \<Longrightarrow> shard_inv sh \<Longrightarrow> cache_inv (put_shard i sh c)"
  by (auto simp: cache_inv_def put_shard_def list_all_iff dest!: set_update_subset_insert [THEN subsetD])

lemma cache_inv_stats [simp]:
  "cache_inv (c\<lparr>ca_stats := t\<rparr>) = cache_inv c" "cache_inv (c\<lparr>ca_cfg := cfg\<rparr>) = cache_inv c"
  "cache_inv (add_hits n c) = cache_inv c" "cache_inv (add_misses n c) = cache_inv c"
  "cache_inv (add_evictions n c) = cache_inv c" "cache_inv (add_saved n c) = cache_inv c"
  by (simp_all add: cache_inv_def add_hits_def add_misses_def add_evictions_def add_saved_def)

lemma cache_inv_shard: "cache_inv c \<Longrightarrow> shard_inv (ca_shards c ! shard_index c key)"
  using shard_index_less [of c key] by (simp add: cache_inv_def list_all_length)

lemma cache_keeps:
  "cache_inv c \<Longrightarrow> cache_inv (snd (cache_get gunzip now key c))"
  "cache_inv c \<Longrightarrow> cache_inv (cache_set_with_ttl gzip now key v model ep ttl c)"
  "cache_inv c \<Longrightarrow> cache_inv (cache_clear c)"
  "cache_inv c \<Longrightarrow> cache_inv (cache_cleanup now c)"
  "cache_inv c \<Longrightarrow> cache_inv (cache_set_enabled on c)"
proof -
  assume inv: "cache_inv c"
  show "cache_inv (snd (cache_get gunzip now key c))"
    using shard_get_abs [OF cache_inv_shard [OF inv, of key], of gunzip now key] inv
    by (auto simp: cache_get_def Let_def cache_inv_put split: prod.split lookup_outcome.split)
  have "shard_inv sh" if "shard_set cfg now t key d model ep (ca_shards c ! shard_index c key) = (n, sh)" for cfg t d n sh
    using shard_set_abs [OF cache_inv_shard [OF inv, of key], of cfg now t key d model ep] that by simp
  then show "cache_inv (cache_set_with_ttl gzip now key v model ep ttl c)"
    using inv by (auto simp: cache_set_with_ttl_def Let_def intro!: cache_inv_put split: prod.split)
  show "cache_inv (cache_clear c)"
    using inv by (auto simp: cache_inv_def cache_clear_def list_all_iff clear_shard_def shard_inv_def stored_total_def shard_abs_def in64_def)
  show "cache_inv (cache_cleanup now c)"
    using inv cleanup_shard_abs by (auto simp: cache_inv_def cache_cleanup_def Let_def list_all_iff add_evictions_def)
  show "cache_inv (cache_set_enabled on c)"
    using inv by (simp add: cache_set_enabled_def)
qed

lemma cache_cfg_kept [simp]:
  "ca_cfg (snd (cache_get gunzip now key c)) = ca_cfg c"
  "ca_cfg (cache_set_with_ttl gzip now key v model ep ttl c) = ca_cfg c"
  by (auto simp: cache_get_def cache_set_with_ttl_def put_shard_def add_hits_def add_misses_def
      add_evictions_def add_saved_def Let_def split: prod.split lookup_outcome.split)

text \<open>What the cache holds for a key: the bytes, whether they are compressed, the expiry.\<close>

definition stored_for :: "string \<Rightarrow> cache \<Rightarrow> (string \<times> bool \<times> time) option" where
  "stored_for k c = (let sh = ca_shards c ! shard_index c k in
     map_option (\<lambda>i. (ce_value (sh_heap sh ! i), ce_compressed (sh_heap sh ! i), ce_expires_at (sh_heap sh ! i)))
       (sh_items sh k))"

lemma stored_for_abs:
  "cache_inv c \<Longrightarrow> stored_for k c = map_option (\<lambda>e. (ce_value e, ce_compressed e, ce_expires_at e))
     (lru_find k (shard_abs (ca_shards c ! shard_index c k)))"
  by (simp add: stored_for_def find_abs [OF cache_inv_shard] option.map_comp comp_def Let_def)

lemma cache_get_stored:
  assumes inv: "cache_inv c" and on: "cc_enabled (ca_cfg c)"
    and stored: "stored_for k c = Some (w, z, x)" and time: "now \<le> x"
    and plain: "(if z then gunzip w else Some w) = Some v"
  shows "fst (cache_get gunzip now k c) = Some v"
proof -
  let ?sh = "ca_shards c ! shard_index c k"
  obtain e where e: "lru_find k (shard_abs ?sh) = Some e" "ce_value e = w" "ce_compressed e = z" "ce_expires_at e = x"
    using stored by (auto simp: stored_for_abs [OF inv])
  with time have "\<not> is_expired now e" by (simp add: is_expired_def time_after_def)
  with e plain have "fst (lru_get gunzip now k (shard_abs ?sh)) = Hit v"
    by (auto simp: lru_get_def split: if_splits)
  then have "fst (shard_get gunzip now k ?sh) = Hit v"
    using shard_get_abs [OF cache_inv_shard [OF inv], of gunzip now k k] by simp
  with on show ?thesis by (auto simp: cache_get_def Let_def split: prod.split)
qed

lemma stored_after_set:
  assumes inv: "cache_inv c" and on: "cc_enabled (ca_cfg c)" and size: "int (length v) \<le> cc_max_item_size (ca_cfg c)"
  shows "\<exists>w z. stored_for k (cache_set_with_ttl gzip now k v model ep ttl c)
       = Some (w, z, now + (if ttl = 0 then get_ttl (ca_cfg c) model ep else ttl))
     \<and> (if z then gzip v = Some w else w = v)"
proof -
  let ?i = "shard_index c k" and ?ttl = "if ttl = 0 then get_ttl (ca_cfg c) model ep else ttl"
  let ?v = "prepare_value gzip (ca_cfg c) v"
  let ?sh = "snd (shard_set (ca_cfg c) now ?ttl k ?v model ep (ca_shards c ! ?i))"
  note set = shard_set_abs [OF cache_inv_shard [OF inv, of k], of "ca_cfg c" now ?ttl k ?v model ep]
  obtain e where e: "lru_find k (shard_abs ?sh) = Some e" "ce_value e = sd_value ?v"
    "ce_compressed e = sd_compressed ?v" "ce_expires_at e = now + ?ttl"
    using lru_find_after_set [of k "ca_cfg c" now ?ttl ?v model ep "shard_abs (ca_shards c ! ?i)"] set by auto
  let ?c = "cache_set_with_ttl gzip now k v model ep ttl c"
  have "?c = add_evictions (int (fst (shard_set (ca_cfg c) now ?ttl k ?v model ep (ca_shards c ! ?i))))
      (put_shard ?i ?sh (if sd_compressed ?v then add_saved (sd_original_size ?v - sd_stored_size ?v) c else c))"
    using on size by (simp add: cache_set_with_ttl_def Let_def case_prod_beta split del: if_split) simp
  then have "shard_index ?c k = ?i" "ca_shards ?c ! ?i = ?sh"
    using shard_index_less [OF inv, of k] by simp_all
  moreover have "map_option (\<lambda>i. sh_heap ?sh ! i) (sh_items ?sh k) = Some e"
    using e(1) find_abs [of ?sh k] set by simp
  ultimately have "stored_for k ?c = Some (sd_value ?v, sd_compressed ?v, now + ?ttl)"
    using e by (auto simp: stored_for_def Let_def)
  with prepare_value_cases [of gzip "ca_cfg c" v] show ?thesis by auto
qed

text \<open>
  What is stored is found: with caching enabled and a value within the size limit, a
  lookup of the key that was just set, at any instant up to its expiry, returns exactly
  the bytes that were stored, compressed or not, whatever the cache held before.\<close>

theorem get_after_set:
  assumes inv: "cache_inv c" and law: "gzip_law gzip gunzip"
    and on: "cc_enabled (ca_cfg c)" and size: "int (length v) \<le> cc_max_item_size (ca_cfg c)"
    and time: "now' \<le> now + (if ttl = 0 then get_ttl (ca_cfg c) model ep else ttl)"
  shows "fst (cache_get gunzip now' k (cache_set_with_ttl gzip now k v model ep ttl c)) = Some v"
proof -
  let ?c = "cache_set_with_ttl gzip now k v model ep ttl c"
  obtain w z where "stored_for k ?c = Some (w, z, now + (if ttl = 0 then get_ttl (ca_cfg c) model ep else ttl))"
    and "if z then gzip v = Some w else w = v"
    using stored_after_set [OF inv on size, of k gzip now model ep ttl] by blast
  with law time on cache_keeps(2) [OF inv] show ?thesis
    by (intro cache_get_stored) (auto simp: gzip_law_def)
qed

theorem get_after_set_witness:
  "fst (cache_get Some 300 ''k'' (cache_set_with_ttl Some 0 ''k'' ''{}'' ''gpt-4'' ''/v1/chat/completions'' 0
     (new_cache default_cache_config))) = Some ''{}''"
proof -
  have "get_ttl default_cache_config ''gpt-4'' ''/v1/chat/completions'' = 5 * minute"
    by (simp add: get_ttl_def default_cache_config_def)
  moreover have "cache_inv (new_cache default_cache_config)"
    by (rule cache_inv_new) (simp add: default_cache_config_def)
  ultimately show ?thesis
    using get_after_set [of "new_cache default_cache_config" Some Some "''{}''" 300 0 0 "''gpt-4''"
        "''/v1/chat/completions''" "''k''"]
    by (simp add: gzip_law_def new_cache_def Let_def minute_def) (simp add: default_cache_config_def)
qed

text \<open>
  Two embedding requests collide when their dimensions differ by a multiple of 65536:
  the cache key keeps only the low 16 bits of the requested dimensions, so one request is
  answered with the vector of the other.\<close>

theorem embedding_keys_collide:
  "generate_embedding_key sha model input (Some (d + 65536 * n)) = generate_embedding_key sha model input (Some d)"
proof -
  have split: "d + 65536 * n = d + 256 * (256 * n)" by simp
  have pow: "(2 :: int) ^ 8 = 256" by simp
  have "(d + 256 * (256 * n)) div 256 = 256 * n + d div 256" by (rule div_mult_self2) simp
  then have "byte_at 8 (d + 65536 * n) = byte_at 8 d"
    unfolding byte_at_def split pow by (simp only: mod_mult_self3 add.commute [of "256 * n"] mod_mult_self2)
  moreover have "byte_at 0 (d + 65536 * n) = byte_at 0 d"
    unfolding byte_at_def split by (simp only: power_0 div_by_1 mod_mult_self2)
  ultimately show ?thesis by (simp add: generate_embedding_key_def)
qed

subsection \<open>Eviction ends\<close>

text \<open>The shard after a number of evictions.\<close>

fun evicted :: "nat \<Rightarrow> shard \<Rightarrow> shard" where
  "evicted 0 sh = sh"
| "evicted (Suc n) sh = evicted n (snd (evict_oldest sh))"

lemma evict_while_unfold:
  "evict_while full sh = (if full sh \<and> sh_lru sh \<noteq> []
     then (let (m, t) = evict_while full (snd (evict_oldest sh)) in (Suc m, t)) else (0, sh))"
  by (subst evict_while.simps) (auto simp: evict_oldest_def split: prod.split)

lemma evict_while_count:
  assumes "evict_while full sh = (n, t)"
  shows "n \<le> length (sh_lru sh) \<and> t = evicted n sh \<and> (full t \<longrightarrow> sh_lru t = [])
     \<and> (\<forall>k < n. full (evicted k sh) \<and> sh_lru (evicted k sh) \<noteq> [])"
  using assms
proof (induction "length (sh_lru sh)" arbitrary: sh n rule: less_induct)
  case less
  show ?case
  proof (cases "full sh \<and> sh_lru sh \<noteq> []")
    case True
    let ?sh = "snd (evict_oldest sh)"
    from True less.prems obtain m where m: "evict_while full ?sh = (m, t)" "n = Suc m"
      by (auto simp: evict_while_unfold [of full sh] split: prod.splits)
    have shorter: "length (sh_lru ?sh) < length (sh_lru sh)" using True by (simp add: evict_oldest_shorter)
    have "full (evicted k sh) \<and> sh_lru (evicted k sh) \<noteq> []" if "k < n" for k
      using that True m less.hyps [OF shorter m(1)] by (cases k) auto
    with m less.hyps [OF shorter m(1)] shorter show ?thesis by auto
  next
    case False
    with less.prems show ?thesis by (auto simp: evict_while_unfold [of full sh])
  qed
qed

lemma evicted_abs:
  "shard_inv sh \<Longrightarrow> k \<le> length (shard_abs sh) \<Longrightarrow>
   shard_abs (evicted k sh) = take (length (shard_abs sh) - k) (shard_abs sh) \<and> shard_inv (evicted k sh)"
proof (induction k arbitrary: sh)
  case (Suc k)
  let ?sh = "snd (evict_oldest sh)"
  have "sh_lru sh \<noteq> []" using Suc.prems(2) by (auto simp: shard_abs_def)
  note o = evict_oldest_abs [OF Suc.prems(1) this]
  with Suc.IH [of ?sh] Suc.prems(2) show ?case by (simp add: butlast_conv_take)
qed simp

text \<open>
  C35: The eviction for memory ends, after the least number of evictions that helps. The
  entries of a shard are listed from the most to the least recently used, and it is the end of
  that list that goes: \<open>n\<close> entries are evicted, the least recently used ones, each while the
  new value did not fit next to what was left; and the shard that remains has room for it or
  is empty. (A value larger than the limit therefore empties the shard and is stored all the
  same.) Without a limit nothing is evicted.\<close>

theorem eviction_ends:
  assumes inv: "shard_inv sh" and run: "evict_if_needed cfg new_size sh = (n, t)"
  shows "n \<le> length (shard_abs sh) \<and> shard_abs t = take (length (shard_abs sh) - n) (shard_abs sh) \<and> shard_inv t
     \<and> (cc_max_memory_mb cfg \<le> 0 \<longrightarrow> n = 0)
     \<and> (0 < cc_max_memory_mb cfg \<longrightarrow>
          shard_abs t = [] \<or> add64 (stored_total (shard_abs t)) new_size \<le> max_memory cfg)
     \<and> (\<forall>k < n. max_memory cfg < add64 (stored_total (take (length (shard_abs sh) - k) (shard_abs sh))) new_size)"
proof (cases "cc_max_memory_mb cfg \<le> 0")
  case True
  with inv run show ?thesis by (simp add: evict_if_needed_def)
next
  case False
  have len: "length (sh_lru u) = length (shard_abs u)" for u by (simp add: shard_abs_def)
  from False run have "evict_while (\<lambda>sh. max_memory cfg < add64 (sh_size sh) new_size) sh = (n, t)"
    by (simp add: evict_if_needed_def)
  note count = evict_while_count [OF this]
  then have n: "n \<le> length (shard_abs sh)" and t: "t = evicted n sh" by (simp_all add: len)
  note abs = evicted_abs [OF inv]
  have size: "sh_size u = stored_total (shard_abs u)" if "shard_inv u" for u using that by (simp add: shard_inv_def)
  have "shard_abs t = [] \<or> add64 (stored_total (shard_abs t)) new_size \<le> max_memory cfg"
    using count abs [OF n] size [of t] by (auto simp: t shard_abs_def not_less)
  moreover have "max_memory cfg < add64 (stored_total (take (length (shard_abs sh) - k) (shard_abs sh))) new_size"
    if "k < n" for k
    using count abs [of k] size [of "evicted k sh"] n that by auto
  ultimately show ?thesis using False n abs [OF n] t by auto
qed

definition demo_entry :: "string \<Rightarrow> entry" where
  "demo_entry k = \<lparr>ce_key = k, ce_value = [], ce_model = [], ce_endpoint = [], ce_created_at = 0, ce_expires_at = 9,
     ce_last_access = 0, ce_hit_count = 0, ce_size = 400000, ce_stored_size = 400000, ce_compressed = False\<rparr>"

definition demo_full_shard :: shard where
  "demo_full_shard = \<lparr>sh_items = [''a'' \<mapsto> 0, ''b'' \<mapsto> 1], sh_lru = [1, 0],
     sh_heap = [demo_entry ''a'', demo_entry ''b''], sh_size = 800000\<rparr>"

lemma demo_full_inv: "shard_inv demo_full_shard"
  by (simp add: shard_inv_def demo_full_shard_def shard_abs_def stored_total_def demo_entry_def in64_def)

theorem eviction_ends_witness:
  "let t = snd (evict_if_needed (default_cache_config\<lparr>cc_max_memory_mb := 1, cc_num_shards := 1\<rparr>) 400000 demo_full_shard)
   in shard_abs t = [demo_entry ''b''] \<and> add64 (stored_total (shard_abs t)) 400000 \<le> 1048576"
proof -
  let ?cfg = "default_cache_config\<lparr>cc_max_memory_mb := 1, cc_num_shards := 1\<rparr>"
  have cfg: "max_memory ?cfg = 1048576" "cc_max_memory_mb ?cfg = 1"
    by (simp_all add: max_memory_def mul64_def quot64_def in64_def)
  let ?t = "remove_from_shard 0 demo_full_shard"
  have t: "sh_size ?t = 400000" "sh_lru ?t = [1]"
    by (simp_all add: demo_full_shard_def remove_from_shard_def Let_def demo_entry_def sub64_def in64_def)
  have full: "sh_size demo_full_shard = 800000" "sh_lru demo_full_shard = [1, 0]"
    "shard_abs demo_full_shard = [demo_entry ''b'', demo_entry ''a'']"
    by (simp_all add: demo_full_shard_def shard_abs_def)
  have run: "evict_if_needed ?cfg 400000 demo_full_shard = (1, ?t)"
    by (simp add: evict_if_needed_def cfg evict_while_unfold [of _ demo_full_shard] evict_while_unfold [of _ ?t]
        evict_oldest_def full t add64_def in64_def)
  from eviction_ends [OF demo_full_inv run] show ?thesis by (auto simp: run cfg full)
qed

end
