(* ===== verification/Retry.thy ===== *)
theory Retry
  imports Prelude
begin

section \<open>Retries with exponential backoff (internal/retry/retry.go)\<close>

text \<open>
  Errors with the wrapper that marks them retryable, the retry loop and the backoff
  delays. The function being retried and the rest of the world are a state that every
  attempt may change; the context is seen through two readings per attempt, before it and
  while sleeping after it. The float64 arithmetic of the delay is exact here.
\<close>

text \<open>
  An error of the program: a plain one, one wrapped by \<open>fmt.Errorf\<close> with the verb
  \<open>w\<close>, a \<open>RetryableError\<close>, or the \<open>ProviderError\<close> of internal/provider (status code,
  type, message and code of an upstream answer).
\<close>

datatype go_error =
    Plain string
  | Wrap string go_error
  | RetryableError go_error bool
  | ProviderError i64 string string string

fun error_text :: "go_error \<Rightarrow> string" where
  "error_text (Plain m) = m"
| "error_text (Wrap p e) = p @ error_text e"
| "error_text (RetryableError e _) = error_text e"
| "error_text (ProviderError status typ message code) =
     (if typ \<noteq> [] then typ @ '': '' @ message @ '' (status '' @ itoa status @ '')''
      else ''provider error (status '' @ itoa status @ ''): '' @ message)"

text \<open>\<open>errors.As\<close> finds the outermost \<open>RetryableError\<close> of the chain.\<close>

fun is_retryable :: "go_error \<Rightarrow> bool" where
  "is_retryable (Plain _) = False"
| "is_retryable (Wrap _ e) = is_retryable e"
| "is_retryable (RetryableError _ r) = r"
| "is_retryable (ProviderError _ _ _ _) = False"

definition new_retryable_error :: "go_error \<Rightarrow> bool \<Rightarrow> go_error" where
  "new_retryable_error e r = RetryableError e r"

record retry_config =
  rc_max_retries :: i64
  rc_initial_delay :: duration
  rc_max_delay :: duration
  rc_multiplier :: rat
  rc_jitter :: rat

definition default_config :: retry_config where
  "default_config = \<lparr>rc_max_retries = 3, rc_initial_delay = 100 * millisecond,
     rc_max_delay = 5 * second, rc_multiplier = 2, rc_jitter = 1 / 10\<rparr>"

record 'a retry_result =
  rs_value :: "'a option"
  rs_attempts :: i64
  rs_err :: "go_error option"

subsection \<open>Delays\<close>

text \<open>\<open>r\<close> is the reading of \<open>rand.Float64()\<close>; the conversion to a duration truncates.\<close>

definition calculate_delay :: "retry_config \<Rightarrow> nat \<Rightarrow> rat \<Rightarrow> duration" where
  "calculate_delay cfg attempt r =
     (let delay = of_int (rc_initial_delay cfg) * rc_multiplier cfg ^ attempt;
          delay = (if of_int (rc_max_delay cfg) < delay then of_int (rc_max_delay cfg) else delay);
          delay = (if 0 < rc_jitter cfg
                   then let jitter_range = delay * rc_jitter cfg
                        in delay - jitter_range + r * jitter_range * 2
                   else delay)
      in truncate_rat delay)"

record backoff =
  bo_cfg :: retry_config
  bo_attempt :: nat

definition new_backoff :: "retry_config \<Rightarrow> backoff" where
  "new_backoff cfg = \<lparr>bo_cfg = cfg, bo_attempt = 0\<rparr>"

definition backoff_next :: "rat \<Rightarrow> backoff \<Rightarrow> duration \<times> backoff" where
  "backoff_next r b = (calculate_delay (bo_cfg b) (bo_attempt b) r, b\<lparr>bo_attempt := Suc (bo_attempt b)\<rparr>)"

definition backoff_reset :: "backoff \<Rightarrow> backoff" where
  "backoff_reset b = b\<lparr>bo_attempt := 0\<rparr>"

definition backoff_attempts :: "backoff \<Rightarrow> nat" where
  "backoff_attempts b = bo_attempt b"

definition max_reached :: "backoff \<Rightarrow> bool" where
  "max_reached b \<longleftrightarrow> rc_max_retries (bo_cfg b) \<le> int (bo_attempt b)"

subsection \<open>The loop\<close>

text \<open>
  What the loop reads from outside: \<open>ctx_before k\<close> is \<open>ctx.Err()\<close> before attempt \<open>k\<close>, and
  \<open>ctx_sleeping k\<close> is the error when the context ends before the delay after attempt \<open>k\<close>.
\<close>

record env =
  ctx_before :: "nat \<Rightarrow> go_error option"
  ctx_sleeping :: "nat \<Rightarrow> go_error option"

function retry_loop :: "retry_config \<Rightarrow> env \<Rightarrow> (nat \<Rightarrow> 's \<Rightarrow> (go_error + 'a) \<times> 's) \<Rightarrow> nat
    \<Rightarrow> 'a retry_result \<Rightarrow> go_error option \<Rightarrow> 's \<Rightarrow> 'a retry_result \<times> 's" where
  "retry_loop cfg env fn attempt result last_err s =
     (if rc_max_retries cfg < int attempt then (result\<lparr>rs_err := last_err\<rparr>, s)
      else let result = result\<lparr>rs_attempts := int attempt + 1\<rparr> in
        case ctx_before env attempt of
          Some e \<Rightarrow> (result\<lparr>rs_err := Some e\<rparr>, s)
        | None \<Rightarrow>
            (case fn attempt s of
               (Inr v, s) \<Rightarrow> (result\<lparr>rs_value := Some v\<rparr>, s)
             | (Inl err, s) \<Rightarrow>
                 if \<not> is_retryable err then (result\<lparr>rs_err := Some err\<rparr>, s)
                 else if int attempt < rc_max_retries cfg
                 then (case ctx_sleeping env attempt of
                         Some e \<Rightarrow> (result\<lparr>rs_err := Some e\<rparr>, s)
                       | None \<Rightarrow> retry_loop cfg env fn (Suc attempt) result (Some err) s)
                 else retry_loop cfg env fn (Suc attempt) result (Some err) s))"
  by pat_completeness auto

termination by (relation "measure (\<lambda>(cfg, env, fn, k, r, l, s). nat (rc_max_retries cfg + 1 - int k))") auto

declare retry_loop.simps [simp del]

text \<open>\<open>Do\<close> starts from the zero result.\<close>

definition zero_result :: "'a retry_result" where
  "zero_result = \<lparr>rs_value = None, rs_attempts = 0, rs_err = None\<rparr>"

definition retry_do :: "retry_config \<Rightarrow> env \<Rightarrow> (nat \<Rightarrow> 's \<Rightarrow> (go_error + 'a) \<times> 's) \<Rightarrow> 's
    \<Rightarrow> 'a retry_result \<times> 's" where
  "retry_do cfg env fn s = retry_loop cfg env fn 0 zero_result None s"

definition do_simple :: "retry_config \<Rightarrow> env \<Rightarrow> ('s \<Rightarrow> go_error option \<times> 's) \<Rightarrow> 's \<Rightarrow> go_error option \<times> 's" where
  "do_simple cfg env fn s =
     (let (r, s) = retry_do cfg env (\<lambda>attempt s. let (e, s) = fn s in
            (case e of Some e \<Rightarrow> Inl e | None \<Rightarrow> Inr (), s)) s
      in (rs_err r, s))"

definition execute_with_result :: "retry_config \<Rightarrow> env \<Rightarrow> ('s \<Rightarrow> (go_error + 'a) \<times> 's) \<Rightarrow> 's
    \<Rightarrow> ('a option \<times> go_error option) \<times> 's" where
  "execute_with_result cfg env fn s =
     (let (r, s) = retry_do cfg env (\<lambda>attempt s. fn s) s in ((rs_value r, rs_err r), s))"

subsection \<open>A rule for the loop\<close>

text \<open>
  The contract of a function under retry: an invariant \<open>I\<close> of the state that an attempt
  needs and that a retryable failure gives back, and what holds with a value (\<open>Q\<close>) and with
  an error (\<open>E\<close>) at the end.
\<close>

definition settled :: "('a \<Rightarrow> 's \<Rightarrow> bool) \<Rightarrow> (go_error \<Rightarrow> 's \<Rightarrow> bool) \<Rightarrow> 'a retry_result \<Rightarrow> 's \<Rightarrow> bool" where
  "settled Q E r s \<longleftrightarrow> (\<exists>v. rs_value r = Some v \<and> rs_err r = None \<and> Q v s)
     \<or> (\<exists>e. rs_value r = None \<and> rs_err r = Some e \<and> E e s)"

locale attempts =
  fixes fn :: "nat \<Rightarrow> 's \<Rightarrow> (go_error + 'a) \<times> 's"
    and I :: "'s \<Rightarrow> bool"
    and Q :: "'a \<Rightarrow> 's \<Rightarrow> bool"
    and E :: "go_error \<Rightarrow> 's \<Rightarrow> bool"
    and env :: env
  assumes on_value: "I s \<Longrightarrow> fn k s = (Inr v, s') \<Longrightarrow> Q v s'"
    and on_error: "I s \<Longrightarrow> fn k s = (Inl e, s') \<Longrightarrow> E e s'"
    and on_retry: "I s \<Longrightarrow> fn k s = (Inl e, s') \<Longrightarrow> is_retryable e \<Longrightarrow> I s'"
    and on_cancel: "I s \<Longrightarrow> ctx_before env k = Some e \<or> ctx_sleeping env k = Some e \<Longrightarrow> E e s"
begin

lemma loop:
  "I s \<Longrightarrow> (\<And>e. l = Some e \<Longrightarrow> E e s) \<Longrightarrow> rs_value r = None \<Longrightarrow> rs_err r = None \<Longrightarrow>
   retry_loop cfg env fn k r l s = (r', s') \<Longrightarrow>
   settled Q E r' s' \<or> (rs_value r' = None \<and> rs_err r' = None \<and> l = None \<and> rc_max_retries cfg < int k \<and> s' = s)"
proof (induction "nat (rc_max_retries cfg + 1 - int k)" arbitrary: k r l s)
  case 0
  then show ?case by (cases l) (auto simp: retry_loop.simps settled_def)
next
  case (Suc d)
  have k: "\<not> rc_max_retries cfg < int k" and d: "d = nat (rc_max_retries cfg + 1 - int (Suc k))"
    using Suc.hyps(2) by simp_all
  note run = Suc.prems(5) [unfolded retry_loop.simps [of cfg env fn k] Let_def if_not_P [OF k]]
  let ?r = "r\<lparr>rs_attempts := int k + 1\<rparr>"
  show ?case
  proof (cases "ctx_before env k")
    case (Some e)
    with run on_cancel [OF Suc.prems(1), of k e] Suc.prems(3) show ?thesis by (auto simp: settled_def)
  next
    case None
    obtain x t where f: "fn k s = (x, t)" by fastforce
    show ?thesis
    proof (cases x)
      case (Inr v)
      with run None f on_value [OF Suc.prems(1), of k v t] Suc.prems(4) show ?thesis
        by (auto simp: settled_def)
    next
      case (Inl e)
      have E: "E e t" using on_error [OF Suc.prems(1)] f Inl by simp
      show ?thesis
      proof (cases "is_retryable e")
        case False
        with run None f Inl E Suc.prems(3) show ?thesis by (auto simp: settled_def)
      next
        case True
        have I: "I t" using on_retry [OF Suc.prems(1)] f Inl True by simp
        have again: "settled Q E r' s'" if "retry_loop cfg env fn (Suc k) ?r (Some e) t = (r', s')"
          using Suc.hyps(1) [OF d I _ _ _ that] E Suc.prems(3,4) by auto
        show ?thesis
        proof (cases "ctx_sleeping env k")
          case (Some e')
          with run None f Inl True again on_cancel [OF I, of k e'] Suc.prems(3) show ?thesis
            by (auto simp: settled_def split: if_splits)
        qed (use run None f Inl True again in \<open>auto split: if_splits\<close>)
      qed
    qed
  qed
qed

lemma run:
  assumes "I s" and "retry_do cfg env fn s = (r', s')"
  shows "settled Q E r' s' \<or> (rs_value r' = None \<and> rs_err r' = None \<and> rc_max_retries cfg < 0 \<and> s' = s)"
  using loop [of s None zero_result cfg 0 r' s'] assms by (auto simp: retry_do_def zero_result_def)

end

subsection \<open>Properties\<close>

text \<open>An attempt whose outcome the loop does not retry.\<close>

fun final :: "go_error + 'a \<Rightarrow> bool" where
  "final (Inr v) = True"
| "final (Inl e) = (\<not> is_retryable e)"

text \<open>The result of a single attempt, numbered \<open>k\<close>.\<close>

fun result_of :: "nat \<Rightarrow> go_error + 'a \<Rightarrow> 'a retry_result" where
  "result_of k (Inr v) = \<lparr>rs_value = Some v, rs_attempts = int k + 1, rs_err = None\<rparr>"
| "result_of k (Inl e) = \<lparr>rs_value = None, rs_attempts = int k + 1, rs_err = Some e\<rparr>"

definition no_cancel :: env where
  "no_cancel = \<lparr>ctx_before = (\<lambda>_. None), ctx_sleeping = (\<lambda>_. None)\<rparr>"

text \<open>The first final attempt among \<open>k, \<dots>, k + m\<close>, or the last one.\<close>

fun settle :: "(nat \<Rightarrow> go_error + 'a) \<Rightarrow> nat \<Rightarrow> nat \<Rightarrow> nat" where
  "settle f k 0 = k"
| "settle f k (Suc m) = (if final (f k) then k else settle f (Suc k) m)"

lemma settle_ge: "k \<le> settle f k m"
  by (induction m arbitrary: k) (auto intro: Suc_leD)

lemma settle_range:
  "k \<le> settle f k m \<and> settle f k m \<le> k + m \<and> (\<forall>j. k \<le> j \<and> j < settle f k m \<longrightarrow> \<not> final (f j))
   \<and> (settle f k m < k + m \<longrightarrow> final (f (settle f k m)))"
proof (induction m arbitrary: k)
  case (Suc m)
  from Suc.IH [of "Suc k"] show ?case
    by (cases "final (f k)") (auto, (metis Suc_leI le_neq_implies_less)+)
qed auto

lemma retry_loop_settle:
  "rs_value r = None \<Longrightarrow> rs_err r = None \<Longrightarrow>
   retry_loop cfg no_cancel (\<lambda>j s. (f j, s @ [j])) k r l s =
     (if rc_max_retries cfg < int k then (r\<lparr>rs_err := l\<rparr>, s)
      else let m = settle f k (nat (rc_max_retries cfg) - k) in (result_of m (f m), s @ [k..<Suc m]))"
proof (induction "nat (rc_max_retries cfg + 1 - int k)" arbitrary: k r l s)
  case 0
  then show ?case by (simp add: retry_loop.simps)
next
  case (Suc d)
  let ?m = "nat (rc_max_retries cfg) - k"
  have k: "\<not> rc_max_retries cfg < int k" using Suc.hyps(2) by simp
  show ?case
  proof (cases "f k")
    case (Inr v)
    then have "settle f k ?m = k" by (cases ?m) auto
    with Inr k Suc.prems show ?thesis
      by (simp add: retry_loop.simps [of _ _ _ k] no_cancel_def Let_def)
  next
    case (Inl e)
    show ?thesis
    proof (cases "is_retryable e")
      case False
      with Inl have "settle f k ?m = k" by (cases ?m) auto
      with Inl False k Suc.prems show ?thesis
        by (simp add: retry_loop.simps [of _ _ _ k] no_cancel_def Let_def)
    next
      case True
      have step: "retry_loop cfg no_cancel (\<lambda>j s. (f j, s @ [j])) k r l s
          = retry_loop cfg no_cancel (\<lambda>j s. (f j, s @ [j])) (Suc k) (r\<lparr>rs_attempts := int k + 1\<rparr>) (Some e) (s @ [k])"
        using Inl True k by (simp add: retry_loop.simps [of _ _ _ k] no_cancel_def Let_def)
      show ?thesis
      proof (cases ?m)
        case 0
        then have "rc_max_retries cfg < int (Suc k)" by linarith
        with 0 k Inl Suc.prems show ?thesis
          unfolding step by (simp add: retry_loop.simps [of _ _ _ "Suc k"] Let_def)
      next
        case (Suc m')
        have "settle f k ?m = settle f (Suc k) m'" and "nat (rc_max_retries cfg) - Suc k = m'"
          using Inl True Suc by auto
        moreover have "Suc k \<le> settle f (Suc k) m'" by (rule settle_ge)
        ultimately show ?thesis
          using Suc Suc.prems Suc.hyps(1) [of "Suc k" "r\<lparr>rs_attempts := int k + 1\<rparr>" "Some e" "s @ [k]"] Suc.hyps(2)
          unfolding step by (simp add: Let_def upt_conv_Cons)
      qed
    qed
  qed
qed

text \<open>
  C32: Without cancellation \<open>Do\<close> makes attempts 0, 1, 2, and so on, each once and in this
  order, stops at the first that succeeds or fails with an error that is not retryable,
  never makes more than \<open>MaxRetries + 1\<close> of them, and returns exactly the outcome of the
  last one with its number.\<close>

theorem retry_do_contract:
  assumes "0 \<le> rc_max_retries cfg"
  shows "\<exists>m. int m \<le> rc_max_retries cfg
     \<and> retry_do cfg no_cancel (\<lambda>j s. (f j, s @ [j])) [] = (result_of m (f m), [0..<Suc m])
     \<and> (\<forall>j < m. \<not> final (f j)) \<and> (int m < rc_max_retries cfg \<longrightarrow> final (f m))"
proof (intro exI conjI)
  let ?m = "settle f 0 (nat (rc_max_retries cfg))"
  note range = settle_range [of 0 f "nat (rc_max_retries cfg)"]
  show "int ?m \<le> rc_max_retries cfg" using range assms by linarith
  show "retry_do cfg no_cancel (\<lambda>j s. (f j, s @ [j])) [] = (result_of ?m (f ?m), [0..<Suc ?m])"
    using assms retry_loop_settle [of zero_result cfg f 0 None "[]"]
    by (simp add: retry_do_def zero_result_def Let_def)
  show "\<forall>j < ?m. \<not> final (f j)" using range by auto
  show "int ?m < rc_max_retries cfg \<longrightarrow> final (f ?m)" using range assms by auto
qed

theorem retry_do_contract_witness:
  "\<exists>m. int m \<le> 3 \<and> retry_do default_config no_cancel
     (\<lambda>j s. (if j < 2 then Inl (RetryableError (Plain ''busy'') True) else Inr True, s @ [j])) []
       = (result_of m (if m < 2 then Inl (RetryableError (Plain ''busy'') True) else Inr True), [0..<Suc m])"
  using retry_do_contract [of default_config
      "\<lambda>j. if j < 2 then Inl (RetryableError (Plain ''busy'') True) else Inr True"]
  by (auto simp: default_config_def)

text \<open>
  A negative \<open>MaxRetries\<close> skips the function altogether: \<open>Do\<close> returns no value and no
  error, so a caller that tests only the error takes a zero value for a result.\<close>

theorem negative_max_retries_returns_nothing:
  assumes "rc_max_retries cfg < 0"
  shows "retry_do cfg env fn s = (\<lparr>rs_value = None, rs_attempts = 0, rs_err = None\<rparr>, s)
       \<and> execute_with_result cfg env (\<lambda>s. fn 0 s) s = ((None, None), s)"
  using assms by (simp add: retry_do_def execute_with_result_def retry_loop.simps zero_result_def)

theorem negative_max_retries_returns_nothing_witness:
  "retry_do (default_config\<lparr>rc_max_retries := - 1\<rparr>) no_cancel (\<lambda>j s. (Inr True, s @ [j])) []
     = (\<lparr>rs_value = None, rs_attempts = 0, rs_err = None\<rparr>, [])"
  using negative_max_retries_returns_nothing [of "default_config\<lparr>rc_max_retries := - 1\<rparr>"
      no_cancel "\<lambda>j s. (Inr True, s @ [j])" "[]"] by simp

definition capped_delay :: "retry_config \<Rightarrow> nat \<Rightarrow> rat" where
  "capped_delay cfg k = min (of_int (rc_max_delay cfg)) (of_int (rc_initial_delay cfg) * rc_multiplier cfg ^ k)"

text \<open>
  Delays stay in the jitter band around the capped exponential: with a non-negative
  initial delay, cap and multiplier and a jitter between zero and one, the delay after an
  attempt lies within the fraction \<open>Jitter\<close> of \<open>min MaxDelay (InitialDelay * Multiplier^k)\<close>;
  so it is never negative and exceeds \<open>MaxDelay\<close> by at most that fraction.\<close>

theorem delay_in_jitter_band:
  assumes "0 \<le> rc_initial_delay cfg" and "0 \<le> rc_max_delay cfg" and "0 \<le> rc_multiplier cfg"
    and "0 \<le> rc_jitter cfg" and "rc_jitter cfg \<le> 1" and "0 \<le> r" and "r < 1"
  shows "0 \<le> calculate_delay cfg k r
     \<and> \<lfloor>capped_delay cfg k * (1 - rc_jitter cfg)\<rfloor> \<le> calculate_delay cfg k r
     \<and> of_int (calculate_delay cfg k r) \<le> capped_delay cfg k * (1 + rc_jitter cfg)"
proof -
  let ?base = "capped_delay cfg k"
  have base: "0 \<le> ?base" using assms(1-3) by (simp add: capped_delay_def)
  define d where "d = ?base - ?base * rc_jitter cfg + r * (?base * rc_jitter cfg) * 2"
  have j: "0 \<le> ?base * rc_jitter cfg" "?base * rc_jitter cfg \<le> ?base"
    using base assms(4,5) by (simp_all add: mult_left_le)
  have "0 \<le> r * (?base * rc_jitter cfg)" "r * (?base * rc_jitter cfg) \<le> ?base * rc_jitter cfg"
    using j assms(6,7) by (simp_all add: mult_left_le_one_le)
  then have d: "?base * (1 - rc_jitter cfg) \<le> d" "d \<le> ?base * (1 + rc_jitter cfg)" "0 \<le> d"
    using j by (simp_all add: d_def algebra_simps)
  have "calculate_delay cfg k r = truncate_rat d"
    using assms(4) by (auto simp: calculate_delay_def d_def capped_delay_def min_def not_less Let_def)
  then have delay: "calculate_delay cfg k r = \<lfloor>d\<rfloor>" using d(3) by (simp add: truncate_rat_def)
  show ?thesis
    unfolding delay using d by (auto intro: floor_mono order_trans [OF of_int_floor_le])
qed

theorem delay_in_jitter_band_witness:
  "0 \<le> calculate_delay default_config 9 (1 / 2) \<and> \<lfloor>(4500000000 :: rat)\<rfloor> \<le> calculate_delay default_config 9 (1 / 2)"
  using delay_in_jitter_band [of default_config "1 / 2" 9]
  by (simp add: default_config_def capped_delay_def time_simps min_def)

end
