(* ===== verification/Dedup.thy ===== *)
theory Dedup
  imports Retry
begin

section \<open>Request deduplication (DeduplicatedCall of internal/cache/cache.go)\<close>

text \<open>
  Concurrent callers of \<open>DeduplicatedCall\<close> as a step relation: each step is one atomic
  action of the code (the \<open>LoadOrStore\<close> on the map of flights, the end of the call with
  the closing of the channel, the wake-up of a waiter, the delayed \<open>Delete\<close>, a panic of
  the called function). Flights are pointers, that is indices into \<open>dd_flights\<close>; a flight
  whose channel is still open is \<^const>\<open>None\<close>.
\<close>

type_synonym flight_result = "string \<times> go_error option"

text \<open>Where a caller stands: a leader runs the function, a waiter receives from the channel.\<close>

datatype caller =
    Idle
  | Leading string nat
  | Waiting string nat
  | Returned string nat flight_result bool
  | Panicked string nat

record dedup =
  dd_map :: "string \<Rightarrow> nat option"
  dd_flights :: "flight_result option list"
  dd_callers :: "nat \<Rightarrow> caller"
  dd_pending :: "string list"
  dd_deduplicated :: nat

definition dd_init :: dedup where
  "dd_init = \<lparr>dd_map = (\<lambda>_. None), dd_flights = [], dd_callers = (\<lambda>_. Idle), dd_pending = [], dd_deduplicated = 0\<rparr>"

text \<open>\<open>LoadOrStore\<close>: join the flight of the key, or start one.\<close>

definition dd_join :: "nat \<Rightarrow> string \<Rightarrow> dedup \<Rightarrow> dedup" where
  "dd_join c k s = (case dd_map s k of
       Some f \<Rightarrow> s\<lparr>dd_callers := (dd_callers s)(c := Waiting k f)\<rparr>
     | None \<Rightarrow> (let f = length (dd_flights s) in
         s\<lparr>dd_flights := dd_flights s @ [None], dd_map := (dd_map s)(k := Some f),
           dd_callers := (dd_callers s)(c := Leading k f)\<rparr>))"

text \<open>The function returned: publish the result and schedule the deletion.\<close>

definition dd_finish :: "nat \<Rightarrow> string \<Rightarrow> nat \<Rightarrow> flight_result \<Rightarrow> dedup \<Rightarrow> dedup" where
  "dd_finish c k f r s = s\<lparr>dd_flights := (dd_flights s)[f := Some r], dd_pending := k # dd_pending s,
     dd_callers := (dd_callers s)(c := Returned k f r False)\<rparr>"

definition dd_wake :: "nat \<Rightarrow> string \<Rightarrow> nat \<Rightarrow> flight_result \<Rightarrow> dedup \<Rightarrow> dedup" where
  "dd_wake c k f r s = s\<lparr>dd_deduplicated := Suc (dd_deduplicated s),
     dd_callers := (dd_callers s)(c := Returned k f r True)\<rparr>"

definition dd_expire :: "string \<Rightarrow> dedup \<Rightarrow> dedup" where
  "dd_expire k s = s\<lparr>dd_map := (dd_map s)(k := None), dd_pending := remove1 k (dd_pending s)\<rparr>"

definition dd_panic :: "nat \<Rightarrow> string \<Rightarrow> nat \<Rightarrow> dedup \<Rightarrow> dedup" where
  "dd_panic c k f s = s\<lparr>dd_callers := (dd_callers s)(c := Panicked k f)\<rparr>"

text \<open>
  The flag says whether the called functions may panic. These are the calls of an enabled
  cache; a disabled one shares nothing between its callers and just runs the function, which
  \<open>deduplicated_call\<close> (\<open>Proxy\<close>) has as its first branch.
\<close>

inductive dd_step :: "bool \<Rightarrow> dedup \<Rightarrow> dedup \<Rightarrow> bool" for panics where
  step_join: "dd_callers s c = Idle \<Longrightarrow> dd_step panics s (dd_join c k s)"
| step_finish: "dd_callers s c = Leading k f \<Longrightarrow> dd_step panics s (dd_finish c k f r s)"
| step_wake: "dd_callers s c = Waiting k f \<Longrightarrow> f < length (dd_flights s) \<Longrightarrow> dd_flights s ! f = Some r \<Longrightarrow>
    dd_step panics s (dd_wake c k f r s)"
| step_expire: "k \<in> set (dd_pending s) \<Longrightarrow> dd_step panics s (dd_expire k s)"
| step_panic: "panics \<Longrightarrow> dd_callers s c = Leading k f \<Longrightarrow> dd_step panics s (dd_panic c k f s)"

inductive_cases dd_stepE: "dd_step panics s t"

inductive dd_reach :: "bool \<Rightarrow> dedup \<Rightarrow> dedup \<Rightarrow> bool" for panics s where
  reach_refl: "dd_reach panics s s"
| reach_step: "dd_reach panics s t \<Longrightarrow> dd_step panics t u \<Longrightarrow> dd_reach panics s u"

definition open_flight :: "dedup \<Rightarrow> nat \<Rightarrow> bool" where
  "open_flight s f \<longleftrightarrow> dd_flights s ! f = None"

text \<open>
  The invariant: flights in the map are distinct and allocated, a finished flight in the
  map awaits its deletion, leaders lead the open flight their key maps to, alone, waiters
  wait for a finished flight or the one in the map, and who returned has the flight's
  result.
\<close>

definition pending_ok :: "dedup \<Rightarrow> bool" where
  "pending_ok s \<longleftrightarrow> distinct (dd_pending s)
     \<and> (\<forall>k \<in> set (dd_pending s). \<forall>f. dd_map s k = Some f \<longrightarrow> \<not> open_flight s f)
     \<and> (\<forall>k f. dd_map s k = Some f \<longrightarrow> f < length (dd_flights s))"

definition leader_ok :: "dedup \<Rightarrow> bool" where
  "leader_ok s \<longleftrightarrow> (\<forall>c k f. dd_callers s c = Leading k f \<longrightarrow> dd_map s k = Some f \<and> open_flight s f)"

definition unique_ok :: "dedup \<Rightarrow> bool" where
  "unique_ok s \<longleftrightarrow> (\<forall>c k f c' k'. dd_callers s c = Leading k f \<longrightarrow> dd_callers s c' = Leading k' f \<longrightarrow> c' = c)"

definition waiter_ok :: "dedup \<Rightarrow> bool" where
  "waiter_ok s \<longleftrightarrow> (\<forall>c k f. dd_callers s c = Waiting k f \<longrightarrow> f < length (dd_flights s))"

definition returned_ok :: "dedup \<Rightarrow> bool" where
  "returned_ok s \<longleftrightarrow> (\<forall>c k f r d. dd_callers s c = Returned k f r d \<longrightarrow>
     f < length (dd_flights s) \<and> dd_flights s ! f = Some r)"

definition dd_inv :: "dedup \<Rightarrow> bool" where
  "dd_inv s \<longleftrightarrow> pending_ok s \<and> leader_ok s \<and> unique_ok s \<and> waiter_ok s \<and> returned_ok s
     \<and> (\<forall>k \<in> set (dd_pending s). dd_map s k \<noteq> None)"

lemma dd_inv_init: "dd_inv dd_init"
  by (simp add: dd_inv_def pending_ok_def leader_ok_def unique_ok_def waiter_ok_def returned_ok_def dd_init_def)

lemma dd_invD:
  assumes "dd_inv s"
  shows "dd_map s k = Some f \<Longrightarrow> f < length (dd_flights s)"
    and "k \<in> set (dd_pending s) \<Longrightarrow> dd_map s k = Some f \<Longrightarrow> \<not> open_flight s f"
    and "distinct (dd_pending s)" and "k \<in> set (dd_pending s) \<Longrightarrow> dd_map s k \<noteq> None"
    and "dd_callers s c = Leading k f \<Longrightarrow> dd_map s k = Some f"
    and "dd_callers s c = Leading k f \<Longrightarrow> open_flight s f"
    and "dd_callers s c = Leading k f \<Longrightarrow> dd_callers s c' = Leading k' f \<Longrightarrow> c' = c"
    and "dd_callers s c = Waiting k f \<Longrightarrow> f < length (dd_flights s)"
    and "dd_callers s c = Returned k f r d \<Longrightarrow> f < length (dd_flights s)"
    and "dd_callers s c = Returned k f r d \<Longrightarrow> dd_flights s ! f = Some r"
proof -
  have oks: "pending_ok s" "leader_ok s" "unique_ok s" "waiter_ok s" "returned_ok s"
    using assms by (simp_all add: dd_inv_def)
  show "dd_map s k = Some f \<Longrightarrow> f < length (dd_flights s)"
    and "k \<in> set (dd_pending s) \<Longrightarrow> dd_map s k = Some f \<Longrightarrow> \<not> open_flight s f"
    and "distinct (dd_pending s)" using oks(1) unfolding pending_ok_def by blast+
  show "k \<in> set (dd_pending s) \<Longrightarrow> dd_map s k \<noteq> None" using assms unfolding dd_inv_def by blast
  show "dd_callers s c = Leading k f \<Longrightarrow> dd_map s k = Some f"
    and "dd_callers s c = Leading k f \<Longrightarrow> open_flight s f" using oks(2) unfolding leader_ok_def by blast+
  show "dd_callers s c = Leading k f \<Longrightarrow> dd_callers s c' = Leading k' f \<Longrightarrow> c' = c"
    using oks(3) unfolding unique_ok_def by blast
  show "dd_callers s c = Waiting k f \<Longrightarrow> f < length (dd_flights s)" using oks(4) unfolding waiter_ok_def by blast
  show "dd_callers s c = Returned k f r d \<Longrightarrow> f < length (dd_flights s)"
    and "dd_callers s c = Returned k f r d \<Longrightarrow> dd_flights s ! f = Some r"
    using oks(5) unfolding returned_ok_def by blast+
qed

text \<open>A change of one caller that leaves the flights alone.\<close>

lemma dd_inv_callers:
  assumes inv: "dd_inv s"
    and x: "\<And>k f. x \<noteq> Leading k f" "\<And>k f. x = Waiting k f \<Longrightarrow> f < length (dd_flights s)"
      "\<And>k f r d. x = Returned k f r d \<Longrightarrow> f < length (dd_flights s) \<and> dd_flights s ! f = Some r"
    and t: "dd_map t = dd_map s" "dd_flights t = dd_flights s" "dd_pending t = dd_pending s"
      "dd_callers t = (dd_callers s)(c := x)"
  shows "dd_inv t"
proof -
  have o: "open_flight t f = open_flight s f" for f by (simp add: open_flight_def t)
  have "pending_ok t" unfolding pending_ok_def t o using dd_invD(1-3) [OF inv] by blast
  moreover have "leader_ok t" unfolding leader_ok_def t o using dd_invD(5,6) [OF inv] x(1) by (auto split: if_splits)
  moreover have "unique_ok t" unfolding unique_ok_def t using dd_invD(7) [OF inv] x(1) by (auto split: if_splits)
  moreover have "waiter_ok t" unfolding waiter_ok_def t using dd_invD(8) [OF inv] x(2) by (auto split: if_splits)
  moreover have "returned_ok t" unfolding returned_ok_def t using dd_invD(9,10) [OF inv] x(3) by (auto split: if_splits)
  moreover have "\<forall>k \<in> set (dd_pending t). dd_map t k \<noteq> None" unfolding t using dd_invD(4) [OF inv] by blast
  ultimately show ?thesis by (simp add: dd_inv_def)
qed

lemma dd_inv_lead:
  assumes inv: "dd_inv s" and k: "dd_map s k = None"
  shows "dd_inv (dd_join c k s)"
proof -
  let ?n = "length (dd_flights s)" and ?s = "dd_join c k s"
  have old: "f < ?n \<Longrightarrow> dd_flights ?s ! f = dd_flights s ! f" "f < ?n \<Longrightarrow> open_flight ?s f = open_flight s f" for f
    using k by (simp_all add: dd_join_def Let_def open_flight_def nth_append)
  have new: "open_flight ?s ?n" using k by (simp add: dd_join_def Let_def open_flight_def)
  have t: "dd_map ?s = (dd_map s)(k := Some ?n)" "dd_pending ?s = dd_pending s"
    "dd_callers ?s = (dd_callers s)(c := Leading k ?n)" "length (dd_flights ?s) = Suc ?n"
    using k by (simp_all add: dd_join_def Let_def)
  have np: "k \<notin> set (dd_pending s)" using k dd_invD(4) [OF inv] by blast
  have lead: "dd_callers s c' = Leading k' f \<Longrightarrow> f < ?n \<and> k' \<noteq> k" for c' k' f
    using dd_invD(1,5) [OF inv] k by fastforce
  have "pending_ok ?s"
    unfolding pending_ok_def t using dd_invD(1-3) [OF inv] np old(2)
    by (auto dest: less_SucI split: if_splits)
  moreover have "leader_ok ?s"
    unfolding leader_ok_def t using dd_invD(5,6) [OF inv] lead new old(2) by (auto split: if_splits)
  moreover have "unique_ok ?s"
    unfolding unique_ok_def t using dd_invD(7) [OF inv] lead by (fastforce split: if_splits)
  moreover have "waiter_ok ?s"
    unfolding waiter_ok_def t using dd_invD(8) [OF inv] by (auto dest: less_SucI split: if_splits)
  moreover have "returned_ok ?s"
    unfolding returned_ok_def
  proof (intro allI impI)
    fix c' k' f r d assume "dd_callers ?s c' = Returned k' f r d"
    then have "dd_callers s c' = Returned k' f r d" by (simp add: t split: if_splits)
    then have "f < ?n" "dd_flights s ! f = Some r" using dd_invD(9,10) [OF inv] by blast+
    then show "f < length (dd_flights ?s) \<and> dd_flights ?s ! f = Some r" by (simp add: t(4) old(1))
  qed
  moreover have "\<forall>k \<in> set (dd_pending ?s). dd_map ?s k \<noteq> None" unfolding t using dd_invD(4) [OF inv] by auto
  ultimately show ?thesis by (simp add: dd_inv_def)
qed

lemma dd_inv_finish:
  assumes inv: "dd_inv s" and c: "dd_callers s c = Leading k f"
  shows "dd_inv (dd_finish c k f r s)" (is "dd_inv ?s")
proof -
  have k: "dd_map s k = Some f" "open_flight s f" "f < length (dd_flights s)"
    using dd_invD(1,5,6) [OF inv] c by blast+
  have np: "k \<notin> set (dd_pending s)" using dd_invD(2) [OF inv] k by blast
  have o: "open_flight ?s g \<longleftrightarrow> g \<noteq> f \<and> open_flight s g" for g
    using k(3) by (cases "g = f") (simp_all add: open_flight_def dd_finish_def)
  have t: "dd_map ?s = dd_map s" "dd_pending ?s = k # dd_pending s"
    "dd_callers ?s = (dd_callers s)(c := Returned k f r False)" "length (dd_flights ?s) = length (dd_flights s)"
    by (simp_all add: dd_finish_def)
  have other: "dd_callers s c' = Leading k' f \<Longrightarrow> c' = c" for c' k' using dd_invD(7) [OF inv c] .
  have ret: "dd_flights ?s ! g = Some r'" if "dd_callers s c' = Returned k' g r' d" for c' k' g r' d
    using dd_invD(10) [OF inv that] k(2) by (cases "g = f") (simp_all add: dd_finish_def open_flight_def)
  have "pending_ok ?s"
    unfolding pending_ok_def t o using dd_invD(1-3) [OF inv] np k(1) by auto
  moreover have "leader_ok ?s"
    unfolding leader_ok_def t o using dd_invD(5,6) [OF inv] other by (auto split: if_splits)
  moreover have "unique_ok ?s"
    unfolding unique_ok_def t using dd_invD(7) [OF inv] by (auto split: if_splits)
  moreover have "waiter_ok ?s"
    unfolding waiter_ok_def t using dd_invD(8) [OF inv] by (auto split: if_splits)
  moreover have "returned_ok ?s"
    unfolding returned_ok_def t using dd_invD(9) [OF inv] ret k(3)
    by (auto simp: dd_finish_def split: if_splits)
  moreover have "\<forall>k \<in> set (dd_pending ?s). dd_map ?s k \<noteq> None" unfolding t using dd_invD(4) [OF inv] k(1) by auto
  ultimately show ?thesis by (simp add: dd_inv_def)
qed

lemma dd_inv_expire:
  assumes inv: "dd_inv s" and k: "k \<in> set (dd_pending s)"
  shows "dd_inv (dd_expire k s)" (is "dd_inv ?s")
proof -
  have o: "open_flight ?s g = open_flight s g" for g by (simp add: open_flight_def dd_expire_def)
  have pend: "set (remove1 k (dd_pending s)) = set (dd_pending s) - {k}"
    using dd_invD(3) [OF inv] by simp
  have t: "dd_map ?s = (dd_map s)(k := None)" "dd_pending ?s = remove1 k (dd_pending s)"
    "dd_callers ?s = dd_callers s" "dd_flights ?s = dd_flights s"
    by (simp_all add: dd_expire_def)
  have lead: "dd_callers s c' = Leading k' f \<Longrightarrow> k' \<noteq> k" for c' k' f
    using dd_invD(2,5,6) [OF inv] k by blast
  have "pending_ok ?s"
    unfolding pending_ok_def t o pend using dd_invD(1-3) [OF inv] by (auto split: if_splits)
  moreover have "leader_ok ?s"
    unfolding leader_ok_def t o using dd_invD(5,6) [OF inv] lead by auto
  moreover have "unique_ok ?s" unfolding unique_ok_def t using dd_invD(7) [OF inv] by blast
  moreover have "waiter_ok ?s" unfolding waiter_ok_def t using dd_invD(8) [OF inv] by blast
  moreover have "returned_ok ?s" unfolding returned_ok_def t using dd_invD(9,10) [OF inv] by blast
  moreover have "\<forall>k \<in> set (dd_pending ?s). dd_map ?s k \<noteq> None" unfolding t pend using dd_invD(4) [OF inv] by auto
  ultimately show ?thesis by (simp add: dd_inv_def)
qed

lemma dd_step_inv: "dd_step panics s t \<Longrightarrow> dd_inv s \<Longrightarrow> dd_inv t"
proof (induction rule: dd_step.induct)
  case (step_join s c k)
  show ?case
  proof (cases "dd_map s k")
    case None
    with step_join.prems show ?thesis by (rule dd_inv_lead)
  next
    case (Some f)
    then show ?thesis
      using dd_invD(1) [OF step_join.prems Some]
      by (intro dd_inv_callers [OF step_join.prems, of "Waiting k f" _ c]) (simp_all add: dd_join_def)
  qed
next
  case (step_wake s c k f r)
  then show ?case
    by (intro dd_inv_callers [OF step_wake.prems, of "Returned k f r True" _ c]) (simp_all add: dd_wake_def)
next
  case (step_panic s c k f)
  then show ?case
    by (intro dd_inv_callers [OF step_panic.prems, of "Panicked k f" _ c]) (simp_all add: dd_panic_def)
qed (auto intro: dd_inv_finish dd_inv_expire)

lemma dd_reach_inv: "dd_reach panics s t \<Longrightarrow> dd_inv s \<Longrightarrow> dd_inv t"
  by (induction rule: dd_reach.induct) (auto intro: dd_step_inv)

subsection \<open>Properties\<close>

text \<open>
  C13: Deduplication gives one execution and one answer: in every reachable state at most
  one caller per key is executing the function, and all callers that returned from the
  same flight, the one that executed and those that waited, hold the same result.\<close>

theorem one_execution_one_answer:
  assumes "dd_reach panics dd_init s"
  shows "(dd_callers s c = Leading k f \<and> dd_callers s c' = Leading k f' \<longrightarrow> c = c')
     \<and> (dd_callers s c = Returned k f r d \<and> dd_callers s c' = Returned k' f r' d' \<longrightarrow> r = r')"
proof -
  have inv: "dd_inv s" using assms dd_inv_init by (rule dd_reach_inv)
  have "c = c'" if "dd_callers s c = Leading k f" "dd_callers s c' = Leading k f'"
  proof -
    have "f = f'" using dd_invD(5) [OF inv that(1)] dd_invD(5) [OF inv that(2)] by simp
    with dd_invD(7) [OF inv that(2)] that(1) show ?thesis by blast
  qed
  moreover have "r = r'" if "dd_callers s c = Returned k f r d" "dd_callers s c' = Returned k' f r' d'"
    using dd_invD(10) [OF inv that(1)] dd_invD(10) [OF inv that(2)] by simp
  ultimately show ?thesis by blast
qed

definition demo_flight :: dedup where
  "demo_flight = dd_wake 2 ''k'' 0 (''body'', None) (dd_finish 1 ''k'' 0 (''body'', None) (dd_join 2 ''k'' (dd_join 1 ''k'' dd_init)))"

lemma demo_flight_reach: "dd_reach False dd_init demo_flight"
  unfolding demo_flight_def
  by (rule reach_step [OF reach_step [OF reach_step [OF reach_step [OF reach_refl step_join] step_join] step_finish] step_wake])
     (simp_all add: dd_join_def dd_finish_def dd_init_def Let_def)

theorem one_execution_one_answer_witness:
  "dd_callers demo_flight 1 = Returned ''k'' 0 (''body'', None) False
   \<and> dd_callers demo_flight 2 = Returned ''k'' 0 (''body'', None) True"
  using one_execution_one_answer [OF demo_flight_reach, of 1 "''k''" 0 2 0 "(''body'', None)" False "''k''" "(''body'', None)" True]
  by (simp add: demo_flight_def dd_wake_def dd_join_def dd_finish_def dd_init_def Let_def)

text \<open>A flight whose leader is gone.\<close>

definition orphaned :: "string \<Rightarrow> nat \<Rightarrow> dedup \<Rightarrow> bool" where
  "orphaned k f s \<longleftrightarrow> dd_map s k = Some f \<and> open_flight s f \<and> (\<forall>c k'. dd_callers s c \<noteq> Leading k' f)"

lemma orphaned_panic:
  assumes inv: "dd_inv s" and c: "dd_callers s c = Leading k f"
  shows "orphaned k f (dd_panic c k f s)"
  using dd_invD(5,6,7) [OF inv c] by (auto simp: orphaned_def dd_panic_def open_flight_def split: if_splits)

lemma orphaned_step:
  assumes step: "dd_step panics s t" and inv: "dd_inv s" and orph: "orphaned k f s"
  shows "orphaned k f t"
proof -
  have k: "dd_map s k = Some f" "open_flight s f" "f < length (dd_flights s)" "\<And>c k'. dd_callers s c \<noteq> Leading k' f"
    using orph dd_invD(1) [OF inv] by (auto simp: orphaned_def)
  show ?thesis
    using step
  proof cases
    case (step_join c k')
    with k show ?thesis
      by (cases "dd_map s k'") (auto simp: orphaned_def dd_join_def Let_def open_flight_def nth_append)
  next
    case (step_finish c k' g r)
    moreover have "g \<noteq> f" using step_finish k(4) by auto
    ultimately show ?thesis using k by (auto simp: orphaned_def dd_finish_def open_flight_def)
  next
    case (step_wake c k' g r)
    with k show ?thesis by (auto simp: orphaned_def dd_wake_def open_flight_def)
  next
    case (step_expire k')
    moreover have "k' \<noteq> k" using dd_invD(2) [OF inv] step_expire k(1,2) by blast
    ultimately show ?thesis using k by (auto simp: orphaned_def dd_expire_def open_flight_def)
  next
    case (step_panic c k' g)
    with k show ?thesis by (auto simp: orphaned_def dd_panic_def open_flight_def)
  qed
qed

lemma orphaned_reach: "dd_reach panics s t \<Longrightarrow> dd_inv s \<Longrightarrow> orphaned k f s \<Longrightarrow> dd_inv t \<and> orphaned k f t"
  by (induction rule: dd_reach.induct) (auto intro: dd_step_inv orphaned_step)

text \<open>
  A panic of the called function blocks its key for good: the flight stays in the map
  with its channel open, so whatever happens afterwards no caller ever returns from it,
  and every later caller with the same key becomes a waiter of that flight.\<close>

theorem panic_blocks_key_forever:
  assumes reach: "dd_reach panics dd_init s" and c: "dd_callers s c = Leading k f"
    and after: "dd_reach panics (dd_panic c k f s) t"
  shows "dd_callers t c' \<noteq> Returned k' f r d \<and> dd_callers (dd_join c' k t) c' = Waiting k f"
proof -
  have inv: "dd_inv s" using reach dd_inv_init by (rule dd_reach_inv)
  have "dd_inv (dd_panic c k f s)"
    by (rule dd_inv_callers [OF inv, of "Panicked k f" _ c]) (simp_all add: dd_panic_def)
  from orphaned_reach [OF after this orphaned_panic [OF inv c]]
  have inv': "dd_inv t" and orph: "orphaned k f t" by auto
  have "dd_callers t c' \<noteq> Returned k' f r d"
    using dd_invD(10) [OF inv', of c' k' f r d] orph by (auto simp: orphaned_def open_flight_def)
  with orph show ?thesis by (simp add: orphaned_def dd_join_def)
qed

theorem panic_blocks_key_forever_witness:
  "dd_callers (dd_join 3 ''k'' (dd_panic 1 ''k'' 0 (dd_join 1 ''k'' dd_init))) 3 = Waiting ''k'' 0"
proof -
  have "dd_reach True dd_init (dd_join 1 ''k'' dd_init)"
    by (rule reach_step [OF reach_refl step_join]) (simp add: dd_init_def)
  moreover have "dd_callers (dd_join 1 ''k'' dd_init) 1 = Leading ''k'' 0"
    by (simp add: dd_init_def dd_join_def Let_def)
  ultimately show ?thesis using panic_blocks_key_forever [OF _ _ reach_refl] by blast
qed

end
