(* ===== verification/RateLimit.thy ===== *)
theory RateLimit
  imports Storage
begin

section \<open>Rate limiting (internal/ratelimit/ratelimit.go)\<close>

text \<open>
  The limiter: a fixed window of one minute per user that counts requests and tokens.
  The limits of an active user come from the users table, anyone else gets the defaults.
  The table is an argument of the operations that read it.
\<close>

record limits =
  lim_requests :: i64
  lim_tokens :: i64

record window =
  wd_requests :: i64
  wd_tokens :: i64
  wd_start :: time

record limiter =
  lm_enabled :: bool
  lm_windows :: "string \<Rightarrow> window option"
  lm_defaults :: limits

record limit_result =
  lr_allowed :: bool
  lr_remaining_requests :: i64
  lr_remaining_tokens :: i64
  lr_reset_at :: time
  lr_retry_after :: duration

text \<open>The composite literal \<open>Result{Allowed: ok}\<close>: all other fields are zero.\<close>

definition plain_result :: "bool \<Rightarrow> limit_result" where
  "plain_result ok = \<lparr>lr_allowed = ok, lr_remaining_requests = 0, lr_remaining_tokens = 0,
     lr_reset_at = time_zero, lr_retry_after = 0\<rparr>"

definition new_limiter :: "bool \<Rightarrow> i64 \<Rightarrow> i64 \<Rightarrow> limiter" where
  "new_limiter enabled req_per_min tokens_per_min =
     \<lparr>lm_enabled = enabled, lm_windows = (\<lambda>_. None),
      lm_defaults = \<lparr>lim_requests = req_per_min, lim_tokens = tokens_per_min\<rparr>\<rparr>"

definition get_user_limits :: "string \<Rightarrow> storage \<Rightarrow> limiter \<Rightarrow> (db_error, limits) res" where
  "get_user_limits name st l = res_bind (get_user_by_username name st) (\<lambda>u. case u of
       Some u \<Rightarrow> if us_active u
         then Ok \<lparr>lim_requests = us_max_requests_per_minute u, lim_tokens = us_max_tokens_per_minute u\<rparr>
         else Ok (lm_defaults l)
     | None \<Rightarrow> Ok (lm_defaults l))"

text \<open>The window a request at \<open>now\<close> falls in: the stored one, or a new one when it is over.\<close>

definition current_window :: "time \<Rightarrow> window option \<Rightarrow> window" where
  "current_window now w = (case w of
       Some w \<Rightarrow> if minute \<le> time_sub now (wd_start w)
                 then \<lparr>wd_requests = 0, wd_tokens = 0, wd_start = now\<rparr> else w
     | None \<Rightarrow> \<lparr>wd_requests = 0, wd_tokens = 0, wd_start = now\<rparr>)"

text \<open>The locked part of \<open>Allow\<close>, on one user's window.\<close>

definition window_allow :: "limits \<Rightarrow> time \<Rightarrow> window option \<Rightarrow> limit_result \<times> window" where
  "window_allow lims now w0 =
     (let w = current_window now w0; reset_at = wd_start w + minute in
      if lim_requests lims \<le> wd_requests w
      then (\<lparr>lr_allowed = False, lr_remaining_requests = 0,
             lr_remaining_tokens = sub64 (lim_tokens lims) (wd_tokens w),
             lr_reset_at = reset_at, lr_retry_after = time_sub reset_at now\<rparr>, w)
      else let w = w\<lparr>wd_requests := add64 (wd_requests w) 1\<rparr> in
           (\<lparr>lr_allowed = True, lr_remaining_requests = sub64 (lim_requests lims) (wd_requests w),
             lr_remaining_tokens = sub64 (lim_tokens lims) (wd_tokens w),
             lr_reset_at = reset_at, lr_retry_after = 0\<rparr>, w))"

definition limiter_allow :: "time \<Rightarrow> string \<Rightarrow> storage \<Rightarrow> limiter \<Rightarrow> (db_error, limit_result) res \<times> limiter" where
  "limiter_allow now name st l =
     (if \<not> lm_enabled l then (Ok (plain_result True), l)
      else case get_user_limits name st l of
          Err e \<Rightarrow> (Err e, l)
        | Panic m \<Rightarrow> (Panic m, l)
        | Ok lims \<Rightarrow> (let (r, w) = window_allow lims now (lm_windows l name)
                    in (Ok r, l\<lparr>lm_windows := (lm_windows l)(name := Some w)\<rparr>)))"

definition record_tokens :: "string \<Rightarrow> i64 \<Rightarrow> limiter \<Rightarrow> limiter" where
  "record_tokens name tokens l =
     (if \<not> lm_enabled l then l
      else case lm_windows l name of
          None \<Rightarrow> l
        | Some w \<Rightarrow> l\<lparr>lm_windows := (lm_windows l)(name := Some (w\<lparr>wd_tokens := add64 (wd_tokens w) tokens\<rparr>))\<rparr>)"

definition check_tokens :: "time \<Rightarrow> string \<Rightarrow> i64 \<Rightarrow> storage \<Rightarrow> limiter \<Rightarrow> (db_error, limit_result) res" where
  "check_tokens now name tokens st l =
     (if \<not> lm_enabled l then Ok (plain_result True)
      else res_bind (get_user_limits name st l) (\<lambda>lims.
        case lm_windows l name of
          None \<Rightarrow> Ok ((plain_result True)\<lparr>lr_remaining_tokens := lim_tokens lims\<rparr>)
        | Some w \<Rightarrow>
            if minute \<le> time_sub now (wd_start w)
            then Ok ((plain_result True)\<lparr>lr_remaining_tokens := lim_tokens lims\<rparr>)
            else if lim_tokens lims < add64 (wd_tokens w) tokens
            then let reset_at = wd_start w + minute in
              Ok ((plain_result False)\<lparr>lr_remaining_tokens := sub64 (lim_tokens lims) (wd_tokens w),
                  lr_reset_at := reset_at, lr_retry_after := time_sub reset_at now\<rparr>)
            else Ok ((plain_result True)\<lparr>lr_remaining_tokens :=
                  sub64 (sub64 (lim_tokens lims) (wd_tokens w)) tokens\<rparr>)))"

definition limiter_stats :: "string \<Rightarrow> limiter \<Rightarrow> window option" where
  "limiter_stats name l = lm_windows l name"

definition limiter_reset :: "string \<Rightarrow> limiter \<Rightarrow> limiter" where
  "limiter_reset name l = l\<lparr>lm_windows := (lm_windows l)(name := None)\<rparr>"

definition limiter_reset_all :: "limiter \<Rightarrow> limiter" where
  "limiter_reset_all l = l\<lparr>lm_windows := (\<lambda>_. None)\<rparr>"

definition set_enabled :: "bool \<Rightarrow> limiter \<Rightarrow> limiter" where
  "set_enabled enabled l = l\<lparr>lm_enabled := enabled\<rparr>"

definition is_enabled :: "limiter \<Rightarrow> bool" where
  "is_enabled l = lm_enabled l"

definition limiter_cleanup :: "time \<Rightarrow> limiter \<Rightarrow> limiter" where
  "limiter_cleanup now l = l\<lparr>lm_windows := (\<lambda>n. case lm_windows l n of
     None \<Rightarrow> None
   | Some w \<Rightarrow> if 5 * minute \<le> time_sub now (wd_start w) then None else Some w)\<rparr>"

subsection \<open>The limit over any minute\<close>

lemma minute_le_time_sub: "minute \<le> time_sub now s \<longleftrightarrow> s + minute \<le> now"
  by (rule time_sub_ge_iff) (simp_all add: minute_def)

text \<open>
  The requests of one user under fixed limits, between them the token bookkeeping and the
  cleanup of old windows, which must not give away requests.
\<close>

datatype lim_op = LimAllow time | LimTokens i64 | LimCleanup time

fun lim_time :: "lim_op \<Rightarrow> time list" where
  "lim_time (LimAllow t) = [t]"
| "lim_time (LimCleanup t) = [t]"
| "lim_time (LimTokens n) = []"

fun lim_step :: "string \<Rightarrow> storage \<Rightarrow> limiter \<Rightarrow> lim_op \<Rightarrow> time list \<times> limiter" where
  "lim_step name st l (LimAllow t) =
     (case limiter_allow t name st l of
        (Ok r, l') \<Rightarrow> (if lr_allowed r then [t] else [], l')
      | (_, l') \<Rightarrow> ([], l'))"
| "lim_step name st l (LimTokens n) = ([], record_tokens name n l)"
| "lim_step name st l (LimCleanup t) = ([], limiter_cleanup t l)"

text \<open>The instants at which requests are let through.\<close>

fun lim_run :: "string \<Rightarrow> storage \<Rightarrow> limiter \<Rightarrow> lim_op list \<Rightarrow> time list" where
  "lim_run name st l [] = []"
| "lim_run name st l (e # es) = (let (ts, l') = lim_step name st l e in ts @ lim_run name st l' es)"

definition between :: "time \<Rightarrow> time \<Rightarrow> time list \<Rightarrow> int" where
  "between a b ts = int (length (filter (\<lambda>t. a \<le> t \<and> t < b) ts))"

lemma between_simps [simp]:
  "between a b [] = 0"
  "between a b (t # ts) = (if a \<le> t \<and> t < b then 1 else 0) + between a b ts"
  by (simp_all add: between_def)

lemma between_append [simp]: "between a b (ts @ us) = between a b ts + between a b us"
  by (simp add: between_def)

lemma between_zero: "(\<forall>t \<in> set ts. b \<le> t) \<Longrightarrow> between a b ts = 0"
  by (induction ts) auto

definition clocked :: "lim_op list \<Rightarrow> bool" where
  "clocked es \<longleftrightarrow> sorted (concat (map lim_time es))"

definition lim_inv :: "string \<Rightarrow> storage \<Rightarrow> i64 \<Rightarrow> limiter \<Rightarrow> bool" where
  "lim_inv name st n l \<longleftrightarrow> lm_enabled l \<and> in64 n
     \<and> (\<exists>lims. get_user_limits name st l = Ok lims \<and> lim_requests lims = n)
     \<and> (\<forall>w. lm_windows l name = Some w \<longrightarrow> 0 \<le> wd_requests w \<and> wd_requests w \<le> max 0 n)"

text \<open>What the stored window has left.\<close>

definition left_over :: "i64 \<Rightarrow> string \<Rightarrow> limiter \<Rightarrow> int" where
  "left_over n name l = (case lm_windows l name of None \<Rightarrow> 0 | Some w \<Rightarrow> max 0 n - wd_requests w)"

lemma limits_frame [simp]:
  "get_user_limits name st (l\<lparr>lm_windows := ws\<rparr>) = get_user_limits name st l"
  by (cases "get_user_by_username name st") (auto simp: get_user_limits_def split: option.splits)

lemma allow_step:
  fixes t
  assumes inv: "lim_inv name st n l"
  defines "w \<equiv> current_window t (lm_windows l name)"
  shows "\<exists>l'. lim_step name st l (LimAllow t) = (if n \<le> wd_requests w then [] else [t], l')
     \<and> lm_windows l' = (lm_windows l)(name := Some (if n \<le> wd_requests w then w
          else w\<lparr>wd_requests := wd_requests w + 1\<rparr>))
     \<and> lim_inv name st n l'"
proof -
  have w: "0 \<le> wd_requests w" "wd_requests w \<le> max 0 n"
    using inv by (auto simp: lim_inv_def w_def current_window_def split: option.splits)
  obtain lims where lims: "get_user_limits name st l = Ok lims" "lim_requests lims = n" "lm_enabled l"
    using inv by (auto simp: lim_inv_def)
  have "add64 (wd_requests w) 1 = wd_requests w + 1" if "\<not> n \<le> wd_requests w"
    using that w(1) inv by (intro add64_exact) (auto simp: lim_inv_def in64_def)
  then show ?thesis
    using inv lims w
    by (auto simp: limiter_allow_def window_allow_def lim_inv_def Let_def simp flip: w_def)
qed

lemma lim_step_inv: "lim_inv name st n l \<Longrightarrow> lim_inv name st n (snd (lim_step name st l e))"
proof (cases e)
  case (LimAllow t)
  assume "lim_inv name st n l"
  with LimAllow show ?thesis using allow_step [of name st n l t] by auto
qed (auto simp: lim_inv_def record_tokens_def limiter_cleanup_def split: option.splits if_splits)

interpretation lm: machine "\<lambda>l e. snd (lim_step name st l e)" "lim_inv name st n" for name st n
  by unfold_locales (rule lim_step_inv)

lemma lim_run_times: "set (lim_run name st l es) \<subseteq> set (concat (map lim_time es))"
proof (induction es arbitrary: l)
  case (Cons e es)
  have "set (fst (lim_step name st l e)) \<subseteq> set (lim_time e)"
    by (cases e) (auto split: prod.splits res.splits)
  with Cons.IH [of "snd (lim_step name st l e)"] show ?case
    by (cases "lim_step name st l e") auto
qed simp

lemma between_run_zero:
  "(\<forall>t \<in> set (concat (map lim_time es)). b \<le> t) \<Longrightarrow> between a b (lim_run name st l es) = 0"
  using lim_run_times by (intro between_zero) blast

lemma clocked_Cons:
  "clocked (e # es) \<Longrightarrow> clocked es" 
  "clocked (e # es) \<Longrightarrow> t \<in> set (lim_time e) \<Longrightarrow> t' \<in> set (concat (map lim_time es)) \<Longrightarrow> t \<le> t'"
  by (auto simp: clocked_def sorted_append)

lemma between_le: "between a b ts \<le> int (length ts)"
  by (simp add: between_def)

text \<open>Inside a window every step keeps it and counts what it lets through.\<close>

lemma window_step:
  assumes inv: "lim_inv name st n l" and win: "lm_windows l name = Some w"
    and early: "\<forall>t \<in> set (lim_time e). t < wd_start w + minute"
  shows "\<exists>w'. lm_windows (snd (lim_step name st l e)) name = Some w' \<and> wd_start w' = wd_start w
     \<and> int (length (fst (lim_step name st l e))) = wd_requests w' - wd_requests w"
proof (cases e)
  case (LimTokens k)
  with inv win show ?thesis by (simp add: record_tokens_def lim_inv_def)
next
  case (LimCleanup t)
  then have "\<not> 5 * minute \<le> time_sub t (wd_start w)"
    using early by (subst time_sub_ge_iff) (simp_all add: minute_def)
  with LimCleanup win show ?thesis by (simp add: limiter_cleanup_def)
next
  case (LimAllow t)
  then have "current_window t (lm_windows l name) = w"
    using win early by (simp add: current_window_def minute_le_time_sub)
  with allow_step [OF inv, of t] LimAllow show ?thesis by auto
qed

text \<open>Within one window no more than what is left of it is let through.\<close>

lemma one_window:
  assumes "lim_inv name st n l" and "clocked es"
    and "lm_windows l name = Some w" and "b \<le> wd_start w + minute"
  shows "between a b (lim_run name st l es) \<le> max 0 n - wd_requests w"
  using assms
proof (induction es arbitrary: l w)
  case Nil
  then show ?case by (auto simp: lim_inv_def)
next
  case (Cons e es)
  note inv = Cons.prems(1) and win = Cons.prems(3,4) and tl = clocked_Cons(1) [OF Cons.prems(2)]
  obtain ts l' where step: "lim_step name st l e = (ts, l')" by fastforce
  have times: "set ts \<subseteq> set (lim_time e)" using step by (cases e) (auto split: prod.splits res.splits if_splits)
  show ?case
  proof (cases "\<exists>t \<in> set (lim_time e). b \<le> t")
    case True
    then have late: "\<forall>t \<in> set (lim_time e) \<union> set (concat (map lim_time es)). b \<le> t"
      using clocked_Cons(2) [OF Cons.prems(2)] by (cases e) fastforce+
    then have "between a b ts = 0" "between a b (lim_run name st l' es) = 0"
      using times by (auto intro!: between_zero between_run_zero)
    with step inv win show ?thesis by (simp add: lim_inv_def)
  next
    case False
    with win(2) have "\<forall>t \<in> set (lim_time e). t < wd_start w + minute" by auto
    from window_step [OF inv win(1) this] step obtain w' where
      w': "lm_windows l' name = Some w'" "wd_start w' = wd_start w" "int (length ts) = wd_requests w' - wd_requests w" by auto
    have "between a b (lim_run name st l' es) \<le> max 0 n - wd_requests w'"
      using Cons.IH [OF _ tl w'(1)] lim_step_inv [OF inv, of e] step w'(2) win(2) by simp
    with step w'(3) between_le [of a b ts] show ?thesis by simp
  qed
qed

text \<open>From the start of an interval of a minute on, at most one further window opens in it.\<close>

lemma from_start:
  assumes "lim_inv name st n l" and "clocked es" and "\<forall>t \<in> set (concat (map lim_time es)). a \<le> t"
    and "b \<le> a + minute"
  shows "between a b (lim_run name st l es) \<le> left_over n name l + max 0 n"
  using assms(1-3)
proof (induction es arbitrary: l)
  case Nil
  then show ?case by (auto simp: left_over_def lim_inv_def split: option.splits)
next
  case (Cons e es)
  note inv = Cons.prems(1) and tl = clocked_Cons(1) [OF Cons.prems(2)]
  let ?l = "snd (lim_step name st l e)"
  have inv': "lim_inv name st n ?l" using inv by (rule lim_step_inv)
  have lo: "0 \<le> left_over n name l" using inv by (auto simp: left_over_def lim_inv_def split: option.splits)
  have IH: "between a b (lim_run name st ?l es) \<le> left_over n name ?l + max 0 n"
    using Cons.IH [OF inv' tl] Cons.prems(3) by auto
  show ?case
  proof (cases "\<exists>t. e = LimAllow t")
    case False
    then have "fst (lim_step name st l e) = [] \<and> left_over n name ?l \<le> left_over n name l"
      using inv by (cases e) (auto simp: left_over_def record_tokens_def limiter_cleanup_def lim_inv_def split: option.splits)
    with IH show ?thesis by (cases "lim_step name st l e") simp
  next
    case True
    then obtain t where e: "e = LimAllow t" by blast
    define w where "w = current_window t (lm_windows l name)"
    obtain l' where step: "lim_step name st l e = (if n \<le> wd_requests w then [] else [t], l')"
      and ws: "lm_windows l' name = Some (if n \<le> wd_requests w then w else w\<lparr>wd_requests := wd_requests w + 1\<rparr>)"
      using allow_step [OF inv, of t] unfolding w_def e by auto
    show ?thesis
    proof (cases "lm_windows l name = Some w")
      case True
      with ws step have "left_over n name ?l = left_over n name l - (if n \<le> wd_requests w then 0 else 1)"
        by (auto simp: left_over_def)
      with IH step show ?thesis by (auto split: if_splits)
    next
      case False
      then have "wd_start w = t" "wd_requests w = 0"
        by (auto simp: w_def current_window_def split: option.splits if_splits)
      with one_window [OF inv' tl, of "the (lm_windows l' name)" b a] step ws lo assms(4) Cons.prems(3) e
      show ?thesis by (auto split: if_splits)
    qed
  qed
qed

text \<open>
  C31: The limit holds over any minute up to a factor of two: whatever requests, token
  records and cleanups a user's limiter sees on a clock that does not run backwards, at
  most twice the configured requests per minute are let through between any two instants
  that are at most a minute apart.\<close>

theorem any_minute_at_most_twice:
  assumes "lim_inv name st n l" and "clocked es" and "b \<le> a + minute"
  shows "between a b (lim_run name st l es) \<le> 2 * max 0 n"
  using assms(1,2)
proof (induction es arbitrary: l)
  case (Cons e es)
  let ?l = "snd (lim_step name st l e)"
  have IH: "between a b (lim_run name st ?l es) \<le> 2 * max 0 n"
    using Cons.IH [OF lim_step_inv [OF Cons.prems(1)] clocked_Cons(1) [OF Cons.prems(2)]] .
  have start: ?case if "\<forall>t \<in> set (concat (map lim_time (e # es))). a \<le> t"
  proof -
    have "left_over n name l \<le> max 0 n"
      using Cons.prems(1) by (auto simp: left_over_def lim_inv_def split: option.splits)
    with from_start [OF Cons.prems that assms(3)] show ?thesis by linarith
  qed
  have skip: ?case if "t \<in> set (lim_time e)" "\<not> a \<le> t" for t
    using IH that by (cases e) (auto split: prod.splits res.splits)
  show ?case
  proof (cases e)
    case (LimTokens k)
    with IH show ?thesis by simp
  next
    case (LimAllow t)
    with skip [of t] start clocked_Cons(2) [OF Cons.prems(2), of t] show ?thesis by fastforce
  next
    case (LimCleanup t)
    with skip [of t] start clocked_Cons(2) [OF Cons.prems(2), of t] show ?thesis by fastforce
  qed
qed simp

lemma new_limiter_inv:
  "\<not> st_down st \<Longrightarrow> find_user name st = None \<Longrightarrow> in64 n \<Longrightarrow> lim_inv name st n (new_limiter True n m)"
  by (simp add: lim_inv_def new_limiter_def get_user_limits_def get_user_by_username_def)

text \<open>
  The factor is reached: two requests per minute allow four within eleven seconds when
  they straddle the end of a window.\<close>

theorem any_minute_at_most_twice_witness:
  "between (50 * second) (50 * second + minute)
     (lim_run ''u'' demo_tables (new_limiter True 2 100)
        (map LimAllow [0, 59 * second, 60 * second, 61 * second])) \<le> 4
   \<and> lim_run ''u'' demo_tables (new_limiter True 2 100) (map LimAllow [0, 1, 2]) = [0, 1]"
proof -
  have inv: "lim_inv ''u'' demo_tables 2 (new_limiter True 2 100)"
    by (rule new_limiter_inv) (simp_all add: demo_defs find_user_def in64_def)
  have "lim_run ''u'' demo_tables (new_limiter True 2 100) (map LimAllow [0, 1, 2]) = [0, 1]"
    by (simp add: limiter_allow_def window_allow_def current_window_def new_limiter_def time_sub_def sat64_def
        minute_def get_user_limits_def get_user_by_username_def find_user_def demo_defs Let_def
        add64_def in64_def)
  with any_minute_at_most_twice [OF inv, of "map LimAllow [0, 59 * second, 60 * second, 61 * second]"
      "50 * second + minute" "50 * second"]
  show ?thesis by (simp add: clocked_def second_def minute_def)
qed

text \<open>
  Within one minute the limit is exact: of the requests a user without a window sends
  in less than a minute, exactly the first ones up to the limit are let through.\<close>

theorem first_requests_allowed:
  assumes inv: "lim_inv name st n l" and none: "lm_windows l name = None"
    and window: "\<forall>t \<in> set (t0 # ts). t0 \<le> t \<and> t < t0 + minute"
  shows "lim_run name st l (map LimAllow (t0 # ts)) = take (nat n) (t0 # ts)"
proof -
  have run: "lim_run name st l (map LimAllow ts) = take (nat n - nat (wd_requests w)) ts"
    if "lim_inv name st n l" "lm_windows l name = Some w" "wd_start w = t0"
      "\<forall>t \<in> set ts. t < t0 + minute" for l w ts
    using that
  proof (induction ts arbitrary: l w)
    case (Cons t ts)
    have cur: "current_window t (lm_windows l name) = w"
      using Cons.prems by (simp add: current_window_def minute_le_time_sub)
    obtain l' where step: "lim_step name st l (LimAllow t) = (if n \<le> wd_requests w then [] else [t], l')"
      and ws: "lm_windows l' name = Some (if n \<le> wd_requests w then w else w\<lparr>wd_requests := wd_requests w + 1\<rparr>)"
      and inv': "lim_inv name st n l'"
      using allow_step [OF Cons.prems(1), of t] by (auto simp: cur)
    have "0 \<le> wd_requests w" using Cons.prems by (auto simp: lim_inv_def)
    then show ?case
      using Cons.IH [OF inv', of "the (lm_windows l' name)"] Cons.prems step ws
      by (cases "n \<le> wd_requests w") (auto simp: take_Cons' nat_diff_distrib' nat_add_distrib)
  qed simp
  have cur: "current_window t0 (lm_windows l name) = \<lparr>wd_requests = 0, wd_tokens = 0, wd_start = t0\<rparr>"
    using none by (simp add: current_window_def)
  obtain l' where step: "lim_step name st l (LimAllow t0) = (if n \<le> 0 then [] else [t0], l')"
    and ws: "lm_windows l' name = Some \<lparr>wd_requests = (if n \<le> 0 then 0 else 1), wd_tokens = 0, wd_start = t0\<rparr>"
    and inv': "lim_inv name st n l'"
    using allow_step [OF inv, of t0] by (auto simp: cur)
  show ?thesis
    using run [OF inv' ws, of ts] window step by (cases "n \<le> 0") (auto simp: take_Cons')
qed

theorem first_requests_allowed_witness:
  "lim_run ''u'' demo_tables (new_limiter True 2 100) (map LimAllow [5, 9, 6, 7]) = [5, 9]"
proof -
  have "lim_inv ''u'' demo_tables 2 (new_limiter True 2 100)"
    by (rule new_limiter_inv) (simp_all add: demo_defs find_user_def in64_def)
  from first_requests_allowed [OF this, of 5 "[9, 6, 7]"] show ?thesis
    by (simp add: new_limiter_def minute_def take_Cons')
qed

end
