(* ===== verification/Router.thy ===== *)
theory Router
  imports Storage "HOL-Library.Multiset"
begin

section \<open>Request routing (internal/router/router.go)\<close>

text \<open>
  Routing rules with their compiled patterns, loading them from the table, and the choice
  of a hostgroup. \<open>regexp.Compile\<close> is the argument \<open>compile\<close>: \<^const>\<open>None\<close> on a
  pattern that does not compile, otherwise the compiled \<open>MatchString\<close>. \<open>sort.Slice\<close>, which
  does not promise the order of equal elements, is the argument \<open>sort_slice\<close>, with the law
  \<open>slice_law\<close>.
\<close>

type_synonym regex = "string \<Rightarrow> bool"
type_synonym compiler = "string \<Rightarrow> regex option"

record compiled_rule =
  cr_rule :: routing_rule
  cr_model :: "regex option"
  cr_pattern :: "regex option"
  cr_user :: "regex option"

record router =
  rt_rules :: "compiled_rule list"

definition new_router :: router where
  "new_router = \<lparr>rt_rules = []\<rparr>"

definition compile_field :: "compiler \<Rightarrow> string \<Rightarrow> regex option" where
  "compile_field compile p = (if p \<noteq> [] then compile p else None)"

definition compile_rule :: "compiler \<Rightarrow> routing_rule \<Rightarrow> compiled_rule" where
  "compile_rule compile r = \<lparr>cr_rule = r, cr_model = compile_field compile (rr_match_model r),
     cr_pattern = compile_field compile (rr_match_pattern r),
     cr_user = compile_field compile (rr_match_user r)\<rparr>"

definition rule_priority :: "compiled_rule \<Rightarrow> i64" where
  "rule_priority cr = rr_priority (cr_rule cr)"

definition load_rules :: "compiler \<Rightarrow> (compiled_rule list \<Rightarrow> compiled_rule list) \<Rightarrow> storage \<Rightarrow> router
    \<Rightarrow> (db_error, unit) res \<times> router" where
  "load_rules compile sort_slice st r =
     (case get_routing_rules st of
        Err e \<Rightarrow> (Err e, r)
      | Panic m \<Rightarrow> (Panic m, r)
      | Ok rules \<Rightarrow> (Ok (), r\<lparr>rt_rules := sort_slice (map (compile_rule compile) (filter rr_active rules))\<rparr>))"

subsection \<open>Matching\<close>

definition quote_char :: "char \<Rightarrow> string" where
  "quote_char c =
     (if c = CHR ''*'' then ''.*''
      else if c = CHR ''?'' then ''.''
      else if c \<in> set ''.+^$()[]{}|'' \<or> c = CHR 0x5C then [CHR 0x5C, c]
      else [c])"

definition glob_regex :: "string \<Rightarrow> string" where
  "glob_regex pattern = ''^'' @ concat (map quote_char pattern) @ ''$''"

definition simple_match :: "compiler \<Rightarrow> string \<Rightarrow> string \<Rightarrow> bool" where
  "simple_match compile pattern s =
     (if pattern = [] then True
      else if pattern = ''*'' then True
      else case compile (glob_regex pattern) of
          None \<Rightarrow> pattern = s
        | Some re \<Rightarrow> re s)"

definition match_rule :: "compiler \<Rightarrow> compiled_rule \<Rightarrow> string \<Rightarrow> string \<Rightarrow> string \<Rightarrow> bool" where
  "match_rule compile cr model prompt username =
     ((case cr_model cr of
         Some re \<Rightarrow> re model
       | None \<Rightarrow> rr_match_model (cr_rule cr) = [] \<or> simple_match compile (rr_match_model (cr_rule cr)) model)
      \<and> (case cr_pattern cr of Some re \<Rightarrow> re prompt | None \<Rightarrow> True)
      \<and> (case cr_user cr of
          Some re \<Rightarrow> re username
        | None \<Rightarrow> rr_match_user (cr_rule cr) = [] \<or> rr_match_user (cr_rule cr) = username))"

definition route_request :: "compiler \<Rightarrow> string \<Rightarrow> string \<Rightarrow> string \<Rightarrow> i64 \<Rightarrow> router \<Rightarrow> i64 \<times> i64 option" where
  "route_request compile model prompt username d r =
     (case find (\<lambda>cr. match_rule compile cr model prompt username) (rt_rules r) of
        Some cr \<Rightarrow> (rr_destination_hostgroup (cr_rule cr), rr_mirror_hostgroup (cr_rule cr))
      | None \<Rightarrow> (d, None))"

definition get_rules :: "router \<Rightarrow> compiled_rule list" where
  "get_rules r = rt_rules r"

definition add_rule :: "compiler \<Rightarrow> (compiled_rule list \<Rightarrow> compiled_rule list) \<Rightarrow> time \<Rightarrow> routing_rule
    \<Rightarrow> storage \<Rightarrow> router \<Rightarrow> (db_error, unit) res \<times> storage \<times> router" where
  "add_rule compile sort_slice now rule st r =
     (case insert_routing_rule now rule st of
        (Ok _, st) \<Rightarrow> (let (e, r) = load_rules compile sort_slice st r in (e, st, r))
      | (Err e, st) \<Rightarrow> (Err e, st, r)
      | (Panic m, st) \<Rightarrow> (Panic m, st, r))"

definition remove_rule :: "compiler \<Rightarrow> (compiled_rule list \<Rightarrow> compiled_rule list) \<Rightarrow> i64
    \<Rightarrow> storage \<Rightarrow> router \<Rightarrow> (db_error, unit) res \<times> storage \<times> router" where
  "remove_rule compile sort_slice rule_id st r =
     (case delete_routing_rule rule_id st of
        (Ok _, st) \<Rightarrow> (let (e, r) = load_rules compile sort_slice st r in (e, st, r))
      | (Err e, st) \<Rightarrow> (Err e, st, r)
      | (Panic m, st) \<Rightarrow> (Panic m, st, r))"

subsection \<open>Properties\<close>

text \<open>What \<open>sort.Slice\<close> promises for the comparison by priority.\<close>

definition slice_law :: "(compiled_rule list \<Rightarrow> compiled_rule list) \<Rightarrow> bool" where
  "slice_law sort_slice \<longleftrightarrow> (\<forall>crs. mset (sort_slice crs) = mset crs \<and> sorted (map rule_priority (sort_slice crs)))"

text \<open>When a rule of the table applies to a request.\<close>

definition applies :: "compiler \<Rightarrow> routing_rule \<Rightarrow> string \<Rightarrow> string \<Rightarrow> string \<Rightarrow> bool" where
  "applies compile r model prompt username \<longleftrightarrow> rr_active r
     \<and> match_rule compile (compile_rule compile r) model prompt username"

lemma find_sorted_min:
  "sorted (map f xs) \<Longrightarrow> find P xs = Some x \<Longrightarrow> x \<in> set xs \<and> P x \<and> (\<forall>y \<in> set xs. P y \<longrightarrow> f x \<le> f y)"
  by (induction xs) (auto split: if_splits)

lemma loaded_rules:
  assumes "load_rules compile sort_slice st r = (Ok (), r')" and "slice_law sort_slice"
  shows "sorted (map rule_priority (rt_rules r'))
     \<and> set (rt_rules r') = compile_rule compile ` {x \<in> set (st_rules st). rr_active x}"
proof -
  have "\<not> st_down st" and r': "rt_rules r' = sort_slice (map (compile_rule compile)
      (filter rr_active (sort_key (\<lambda>r. (rr_priority r, rr_rule_id r)) (st_rules st))))"
    using assms(1) by (auto simp: load_rules_def get_routing_rules_def split: if_splits)
  moreover have "set (sort_slice crs) = set crs" for crs
    using assms(2) unfolding slice_law_def by (metis set_mset_mset)
  ultimately show ?thesis using assms(2) by (auto simp: slice_law_def)
qed

text \<open>
  C33: Requests go where the rules say: once the rules are loaded, a request that some
  active rule of the table applies to gets the destination and mirror of an applicable
  rule of the best (lowest) priority, and any other request the default hostgroup and no
  mirror.\<close>

theorem routes_by_best_priority:
  assumes load: "load_rules compile sort_slice st r = (Ok (), r')" and law: "slice_law sort_slice"
  shows "if \<exists>x \<in> set (st_rules st). applies compile x model prompt username
     then \<exists>x \<in> set (st_rules st). applies compile x model prompt username
        \<and> (\<forall>y \<in> set (st_rules st). applies compile y model prompt username \<longrightarrow> rr_priority x \<le> rr_priority y)
        \<and> route_request compile model prompt username d r' = (rr_destination_hostgroup x, rr_mirror_hostgroup x)
     else route_request compile model prompt username d r' = (d, None)"
proof -
  let ?P = "\<lambda>cr. match_rule compile cr model prompt username"
  note rules = loaded_rules [OF load law]
  have prio: "rule_priority (compile_rule compile x) = rr_priority x" for x
    by (simp add: rule_priority_def compile_rule_def)
  show ?thesis
  proof (cases "find ?P (rt_rules r')")
    case None
    then have "route_request compile model prompt username d r' = (d, None)"
      by (simp add: route_request_def)
    with None show ?thesis using rules by (auto simp: find_None_iff applies_def)
  next
    case (Some cr)
    have "cr \<in> set (rt_rules r') \<and> ?P cr \<and> (\<forall>y \<in> set (rt_rules r'). ?P y \<longrightarrow> rule_priority cr \<le> rule_priority y)"
      using rules by (intro find_sorted_min [OF _ Some]) simp
    then obtain x where x: "x \<in> set (st_rules st)" "rr_active x" "cr = compile_rule compile x" "?P cr"
      and best: "\<forall>y \<in> set (st_rules st). rr_active y \<longrightarrow> ?P (compile_rule compile y) \<longrightarrow> rr_priority x \<le> rr_priority y"
      using rules by (auto simp: prio)
    moreover have "cr_rule cr = x" using x by (simp add: compile_rule_def)
    ultimately show ?thesis using Some by (auto simp: applies_def route_request_def)
  qed
qed

definition demo_rule :: "i64 \<Rightarrow> string \<Rightarrow> i64 \<Rightarrow> routing_rule" where
  "demo_rule prio pat hg = \<lparr>rr_id = hg, rr_rule_id = hg, rr_active = True, rr_match_model = [],
     rr_match_pattern = pat, rr_match_user = [], rr_destination_hostgroup = hg, rr_mirror_hostgroup = None,
     rr_priority = prio, rr_comment = [], rr_created_at = 0, rr_updated_at = 0\<rparr>"

text \<open>A compiler of literals: a pattern with an opening parenthesis does not compile.\<close>

definition literal_compiler :: compiler where
  "literal_compiler p = (if CHR ''('' \<in> set p then None else Some (\<lambda>s. str_contains s p))"

lemma slice_law_sort: "slice_law (sort_key rule_priority)"
  by (simp add: slice_law_def)

theorem routes_by_best_priority_witness:
  "route_request literal_compiler ''gpt-4'' ''hello'' ''u'' 0
     (snd (load_rules literal_compiler (sort_key rule_priority)
       (demo_tables\<lparr>st_rules := [demo_rule 9 [] 1, demo_rule 3 ''hell'' 2]\<rparr>) new_router)) = (2, None)"
proof -
  let ?st = "demo_tables\<lparr>st_rules := [demo_rule 9 [] 1, demo_rule 3 ''hell'' 2]\<rparr>"
  let ?l = "load_rules literal_compiler (sort_key rule_priority) ?st new_router"
  have l: "?l = (Ok (), snd ?l)" by (simp add: load_rules_def get_routing_rules_def demo_defs)
  have "applies literal_compiler (demo_rule p pat hg) ''gpt-4'' ''hello'' ''u''"
    if "pat = [] \<or> pat = ''hell''" for p pat hg
    using that by (auto simp: applies_def demo_rule_def match_rule_def compile_rule_def compile_field_def
        literal_compiler_def str_contains_def)
  then show ?thesis
    using routes_by_best_priority [OF l slice_law_sort, of "''gpt-4''" "''hello''" "''u''" 0]
    by (auto simp: demo_defs) (auto simp: demo_rule_def)
qed

text \<open>
  A prompt pattern that does not compile is dropped without an error: the rule loads,
  and from then on applies to a request whatever its prompt is.\<close>

theorem broken_pattern_matches_every_prompt:
  assumes "compile (rr_match_pattern r) = None"
  shows "applies compile r model prompt username = applies compile r model prompt' username"
  using assms by (simp add: applies_def match_rule_def compile_rule_def compile_field_def)

theorem broken_pattern_matches_every_prompt_witness:
  "applies literal_compiler (demo_rule 1 ''(secret'' 2) ''m'' ''harmless'' ''u''"
proof -
  have "applies literal_compiler (demo_rule 1 ''(secret'' 2) ''m'' ''(secret'' ''u''
      = applies literal_compiler (demo_rule 1 ''(secret'' 2) ''m'' ''harmless'' ''u''"
    by (rule broken_pattern_matches_every_prompt) (simp add: demo_rule_def literal_compiler_def)
  then show ?thesis
    by (simp add: applies_def match_rule_def compile_rule_def compile_field_def demo_rule_def literal_compiler_def)
qed

end
