(* ===== verification/Config.thy ===== *)
theory Config
  imports Cache "HOL-Library.AList" "HOL-Library.Multiset"
begin

section \<open>Configuration (internal/config/config.go)\<close>

text \<open>
  The configuration, grouped as the source groups its fields, its defaults, loading from
  an INI file, the variables of the admin interface, and the values derived from it. The
  INI library is seen through the four readers of a key with a default value. The map of
  model timeouts is an association list in the order of its iteration.
\<close>

record network_config =
  admin_bind_address :: string
  admin_port :: i64
  admin_http_port :: i64
  proxy_bind_address :: string
  proxy_port :: i64

record logging_config =
  log_level :: string
  log_format :: string
  log_file :: string

record failover_config =
  failover_enabled :: bool
  max_retries :: i64
  retry_delay_ms :: i64
  retry_max_delay_ms :: i64
  retry_multiplier :: rat

record breaker_config =
  cb_enabled :: bool
  cb_threshold :: i64
  cb_timeout_ms :: i64
  cb_success_threshold :: i64

record check_config =
  check_enabled :: bool
  check_interval_ms :: i64
  check_timeout_ms :: i64

record pool_config =
  max_connections_per_server :: i64
  connection_timeout_ms :: i64
  idle_timeout_ms :: i64

record request_config =
  request_timeout_ms :: i64
  max_request_body_size :: i64

record limit_config =
  rate_limit_enabled :: bool
  default_requests_per_minute :: i64
  default_tokens_per_minute :: i64

record prometheus_config =
  prometheus_enabled :: bool
  prometheus_port :: i64
  prometheus_path :: string

record security_config =
  admin_username :: string
  admin_password_hash :: string
  admin_password :: string
  api_key_encryption_key :: string

record tls_config =
  tls_enabled :: bool
  tls_cert_file :: string
  tls_key_file :: string

record cache_settings =
  cache_on :: bool
  cache_max_size :: i64
  cache_max_memory_mb :: i64
  cache_ttl_seconds :: i64
  cache_max_item_size_kb :: i64
  cache_compression_on :: bool
  cache_embeddings_ttl_hours :: i64

record cluster_config =
  cluster_enabled :: bool
  cluster_name :: string
  cluster_peers :: "string list"

record referee_config =
  referee_enabled :: bool
  referee_min_responses :: i64
  referee_timeout_ms :: i64
  referee_max_providers :: i64
  referee_default_model :: string

record config =
  cf_network :: network_config
  cf_data_dir :: string
  cf_logging :: logging_config
  cf_failover :: failover_config
  cf_breaker :: breaker_config
  cf_check :: check_config
  cf_pool :: pool_config
  cf_request :: request_config
  cf_limit :: limit_config
  cf_prometheus :: prometheus_config
  cf_security :: security_config
  cf_tls :: tls_config
  cf_cache :: cache_settings
  cf_cluster :: cluster_config
  cf_model_timeouts :: "(string \<times> i64) list"
  cf_referee :: referee_config

definition default_settings :: config where
  "default_settings =
     \<lparr>cf_network = \<lparr>admin_bind_address = ''127.0.0.1'', admin_port = 6032, admin_http_port = 6033,
        proxy_bind_address = ''0.0.0.0'', proxy_port = 6034\<rparr>,
      cf_data_dir = ''/var/lib/mindbalancer'',
      cf_logging = \<lparr>log_level = ''info'', log_format = ''json'', log_file = []\<rparr>,
      cf_failover = \<lparr>failover_enabled = True, max_retries = 3, retry_delay_ms = 100,
        retry_max_delay_ms = 5000, retry_multiplier = 2\<rparr>,
      cf_breaker = \<lparr>cb_enabled = True, cb_threshold = 5, cb_timeout_ms = 30000, cb_success_threshold = 2\<rparr>,
      cf_check = \<lparr>check_enabled = True, check_interval_ms = 5000, check_timeout_ms = 3000\<rparr>,
      cf_pool = \<lparr>max_connections_per_server = 100, connection_timeout_ms = 10000, idle_timeout_ms = 60000\<rparr>,
      cf_request = \<lparr>request_timeout_ms = 120000, max_request_body_size = 10 * 1024 * 1024\<rparr>,
      cf_limit = \<lparr>rate_limit_enabled = True, default_requests_per_minute = 1000, default_tokens_per_minute = 100000\<rparr>,
      cf_prometheus = \<lparr>prometheus_enabled = True, prometheus_port = 9090, prometheus_path = ''/metrics''\<rparr>,
      cf_security = \<lparr>admin_username = ''admin'', admin_password_hash = [], admin_password = [],
        api_key_encryption_key = []\<rparr>,
      cf_tls = \<lparr>tls_enabled = False, tls_cert_file = [], tls_key_file = []\<rparr>,
      cf_cache = \<lparr>cache_on = True, cache_max_size = 10000, cache_max_memory_mb = 512, cache_ttl_seconds = 300,
        cache_max_item_size_kb = 2048, cache_compression_on = True, cache_embeddings_ttl_hours = 24\<rparr>,
      cf_cluster = \<lparr>cluster_enabled = False, cluster_name = ''mindbalancer-cluster'', cluster_peers = []\<rparr>,
      cf_model_timeouts = [(''o1'', 300000), (''o1-preview'', 300000), (''o1-mini'', 180000),
        (''gpt-4'', 120000), (''claude-3-opus'', 180000)],
      cf_referee = \<lparr>referee_enabled = True, referee_min_responses = 2, referee_timeout_ms = 60000,
        referee_max_providers = 4, referee_default_model = ''gpt-4o''\<rparr>\<rparr>"

subsection \<open>Loading\<close>

text \<open>The readers \<open>MustString\<close>, \<open>MustInt\<close>, \<open>MustBool\<close> and \<open>MustFloat64\<close> of a section.\<close>

record ini =
  must_string :: "string \<Rightarrow> string \<Rightarrow> string"
  must_int :: "string \<Rightarrow> i64 \<Rightarrow> i64"
  must_bool :: "string \<Rightarrow> bool \<Rightarrow> bool"
  must_float :: "string \<Rightarrow> rat \<Rightarrow> rat"

definition load_network :: "ini \<Rightarrow> network_config \<Rightarrow> network_config" where
  "load_network i n =
     \<lparr>admin_bind_address = must_string i ''admin_bind_address'' (admin_bind_address n),
      admin_port = must_int i ''admin_port'' (admin_port n),
      admin_http_port = must_int i ''admin_http_port'' (admin_http_port n),
      proxy_bind_address = must_string i ''proxy_bind_address'' (proxy_bind_address n),
      proxy_port = must_int i ''proxy_port'' (proxy_port n)\<rparr>"

definition load_service :: "ini \<Rightarrow> config \<Rightarrow> config" where
  "load_service i c = c\<lparr>
     cf_network := load_network i (cf_network c),
     cf_data_dir := must_string i ''data_dir'' (cf_data_dir c),
     cf_logging := \<lparr>log_level = must_string i ''log_level'' (log_level (cf_logging c)),
       log_format = must_string i ''log_format'' (log_format (cf_logging c)),
       log_file = must_string i ''log_file'' (log_file (cf_logging c))\<rparr>,
     cf_failover := \<lparr>failover_enabled = must_bool i ''failover_enabled'' (failover_enabled (cf_failover c)),
       max_retries = must_int i ''max_retries'' (max_retries (cf_failover c)),
       retry_delay_ms = must_int i ''retry_delay_ms'' (retry_delay_ms (cf_failover c)),
       retry_max_delay_ms = must_int i ''retry_max_delay_ms'' (retry_max_delay_ms (cf_failover c)),
       retry_multiplier = must_float i ''retry_multiplier'' (retry_multiplier (cf_failover c))\<rparr>,
     cf_breaker := \<lparr>cb_enabled = must_bool i ''circuit_breaker_enabled'' (cb_enabled (cf_breaker c)),
       cb_threshold = must_int i ''circuit_breaker_threshold'' (cb_threshold (cf_breaker c)),
       cb_timeout_ms = must_int i ''circuit_breaker_timeout_ms'' (cb_timeout_ms (cf_breaker c)),
       cb_success_threshold = must_int i ''circuit_breaker_success_threshold'' (cb_success_threshold (cf_breaker c))\<rparr>,
     cf_check := \<lparr>check_enabled = must_bool i ''health_check_enabled'' (check_enabled (cf_check c)),
       check_interval_ms = must_int i ''health_check_interval_ms'' (check_interval_ms (cf_check c)),
       check_timeout_ms = must_int i ''health_check_timeout_ms'' (check_timeout_ms (cf_check c))\<rparr>,
     cf_pool := \<lparr>max_connections_per_server = must_int i ''max_connections_per_server'' (max_connections_per_server (cf_pool c)),
       connection_timeout_ms = must_int i ''connection_timeout_ms'' (connection_timeout_ms (cf_pool c)),
       idle_timeout_ms = must_int i ''idle_timeout_ms'' (idle_timeout_ms (cf_pool c))\<rparr>,
     cf_request := \<lparr>request_timeout_ms = must_int i ''request_timeout_ms'' (request_timeout_ms (cf_request c)),
       max_request_body_size = must_int i ''max_request_body_size'' (max_request_body_size (cf_request c))\<rparr>\<rparr>"

definition load_policy :: "ini \<Rightarrow> config \<Rightarrow> config" where
  "load_policy i c = c\<lparr>
     cf_limit := \<lparr>rate_limit_enabled = must_bool i ''rate_limit_enabled'' (rate_limit_enabled (cf_limit c)),
       default_requests_per_minute = must_int i ''default_requests_per_minute'' (default_requests_per_minute (cf_limit c)),
       default_tokens_per_minute = must_int i ''default_tokens_per_minute'' (default_tokens_per_minute (cf_limit c))\<rparr>,
     cf_prometheus := \<lparr>prometheus_enabled = must_bool i ''prometheus_enabled'' (prometheus_enabled (cf_prometheus c)),
       prometheus_port = must_int i ''prometheus_port'' (prometheus_port (cf_prometheus c)),
       prometheus_path = must_string i ''prometheus_path'' (prometheus_path (cf_prometheus c))\<rparr>,
     cf_security := \<lparr>admin_username = must_string i ''admin_username'' (admin_username (cf_security c)),
       admin_password_hash = must_string i ''admin_password_hash'' (admin_password_hash (cf_security c)),
       admin_password = must_string i ''admin_password'' (admin_password (cf_security c)),
       api_key_encryption_key = must_string i ''api_key_encryption_key'' (api_key_encryption_key (cf_security c))\<rparr>,
     cf_tls := \<lparr>tls_enabled = must_bool i ''tls_enabled'' (tls_enabled (cf_tls c)),
       tls_cert_file = must_string i ''tls_cert_file'' (tls_cert_file (cf_tls c)),
       tls_key_file = must_string i ''tls_key_file'' (tls_key_file (cf_tls c))\<rparr>,
     cf_cluster := \<lparr>cluster_enabled = must_bool i ''cluster_enabled'' (cluster_enabled (cf_cluster c)),
       cluster_name = must_string i ''cluster_name'' (cluster_name (cf_cluster c)),
       cluster_peers = (let p = must_string i ''cluster_peers'' [] in
         if p \<noteq> [] then split_on CHR '','' p else cluster_peers (cf_cluster c))\<rparr>,
     cf_cache := \<lparr>cache_on = must_bool i ''cache_enabled'' (cache_on (cf_cache c)),
       cache_max_size = must_int i ''cache_max_size'' (cache_max_size (cf_cache c)),
       cache_max_memory_mb = must_int i ''cache_max_memory_mb'' (cache_max_memory_mb (cf_cache c)),
       cache_ttl_seconds = must_int i ''cache_ttl_seconds'' (cache_ttl_seconds (cf_cache c)),
       cache_max_item_size_kb = must_int i ''cache_max_item_size_kb'' (cache_max_item_size_kb (cf_cache c)),
       cache_compression_on = must_bool i ''cache_compression_enabled'' (cache_compression_on (cf_cache c)),
       cache_embeddings_ttl_hours = must_int i ''cache_embeddings_ttl_hours'' (cache_embeddings_ttl_hours (cf_cache c))\<rparr>,
     cf_referee := \<lparr>referee_enabled = must_bool i ''referee_enabled'' (referee_enabled (cf_referee c)),
       referee_min_responses = must_int i ''referee_min_responses'' (referee_min_responses (cf_referee c)),
       referee_timeout_ms = must_int i ''referee_timeout_ms'' (referee_timeout_ms (cf_referee c)),
       referee_max_providers = must_int i ''referee_max_providers'' (referee_max_providers (cf_referee c)),
       referee_default_model = must_string i ''referee_default_model'' (referee_default_model (cf_referee c))\<rparr>\<rparr>"

text \<open>
  \<open>stat\<close> says whether a file exists and \<open>read\<close> what \<open>ini.Load\<close> gives for it.
\<close>

definition load_config :: "(string \<Rightarrow> bool) \<Rightarrow> (string \<Rightarrow> string + ini) \<Rightarrow> string \<Rightarrow> string \<Rightarrow> string + config" where
  "load_config stat read home path =
     (let candidates = [''mindbalancer.cnf'', ''/etc/mindbalancer/mindbalancer.cnf'', 
            (if home = [] then ''.mindbalancer/mindbalancer.cnf'' else home @ ''/.mindbalancer/mindbalancer.cnf'')];
          path = (if path = [] then case find stat candidates of Some p \<Rightarrow> p | None \<Rightarrow> [] else path)
      in if path = [] then Inr default_settings
         else case read path of
             Inl e \<Rightarrow> Inl (''failed to load config file: '' @ e)
           | Inr i \<Rightarrow> Inr (load_policy i (load_service i default_settings)))"

subsection \<open>Variables\<close>

definition format_bool :: "bool \<Rightarrow> string" where
  "format_bool b = (if b then ''true'' else ''false'')"

text \<open>\<open>strings.ToLower(strings.ReplaceAll(name, "-", "_"))\<close>.\<close>

definition variable_name :: "string \<Rightarrow> string" where
  "variable_name name = to_lower (map (\<lambda>c. if c = CHR ''-'' then CHR ''_'' else c) name)"

definition config_get :: "string \<Rightarrow> config \<Rightarrow> string option" where
  "config_get name c =
     (let n = variable_name name in
      if n = ''admin_bind_address'' then Some (admin_bind_address (cf_network c))
      else if n = ''admin_port'' then Some (itoa (admin_port (cf_network c)))
      else if n = ''admin_http_port'' then Some (itoa (admin_http_port (cf_network c)))
      else if n = ''proxy_bind_address'' then Some (proxy_bind_address (cf_network c))
      else if n = ''proxy_port'' then Some (itoa (proxy_port (cf_network c)))
      else if n = ''data_dir'' then Some (cf_data_dir c)
      else if n = ''log_level'' then Some (log_level (cf_logging c))
      else if n = ''log_format'' then Some (log_format (cf_logging c))
      else if n = ''log_file'' then Some (log_file (cf_logging c))
      else if n = ''failover_enabled'' then Some (format_bool (failover_enabled (cf_failover c)))
      else if n = ''max_retries'' \<or> n = ''ai_max_retries'' then Some (itoa (max_retries (cf_failover c)))
      else if n = ''circuit_breaker_enabled'' then Some (format_bool (cb_enabled (cf_breaker c)))
      else if n = ''circuit_breaker_threshold'' then Some (itoa (cb_threshold (cf_breaker c)))
      else if n = ''health_check_enabled'' then Some (format_bool (check_enabled (cf_check c)))
      else if n = ''health_check_interval'' \<or> n = ''ai_health_check_interval''
        then Some (itoa (check_interval_ms (cf_check c)))
      else if n = ''prometheus_enabled'' then Some (format_bool (prometheus_enabled (cf_prometheus c)))
      else if n = ''prometheus_port'' then Some (itoa (prometheus_port (cf_prometheus c)))
      else None)"

definition set_max_retries :: "i64 \<Rightarrow> config \<Rightarrow> config" where
  "set_max_retries v c = c\<lparr>cf_failover := (cf_failover c)\<lparr>max_retries := v\<rparr>\<rparr>"

definition set_breaker_threshold :: "i64 \<Rightarrow> config \<Rightarrow> config" where
  "set_breaker_threshold v c = c\<lparr>cf_breaker := (cf_breaker c)\<lparr>cb_threshold := v\<rparr>\<rparr>"

definition set_check_interval :: "i64 \<Rightarrow> config \<Rightarrow> config" where
  "set_check_interval v c = c\<lparr>cf_check := (cf_check c)\<lparr>check_interval_ms := v\<rparr>\<rparr>"

definition config_set :: "string \<Rightarrow> string \<Rightarrow> config \<Rightarrow> string + config" where
  "config_set name value c =
     (let n = variable_name name in
      if n = ''log_level'' then Inr (c\<lparr>cf_logging := (cf_logging c)\<lparr>log_level := value\<rparr>\<rparr>)
      else if n = ''max_retries'' \<or> n = ''ai_max_retries'' then
        (case atoi value of None \<Rightarrow> Inl ''invalid value for max_retries'' | Some v \<Rightarrow> Inr (set_max_retries v c))
      else if n = ''circuit_breaker_threshold'' then
        (case atoi value of None \<Rightarrow> Inl ''invalid value for circuit_breaker_threshold''
         | Some v \<Rightarrow> Inr (set_breaker_threshold v c))
      else if n = ''health_check_interval'' \<or> n = ''ai_health_check_interval'' then
        (case atoi value of None \<Rightarrow> Inl ''invalid value for health_check_interval''
         | Some v \<Rightarrow> Inr (set_check_interval v c))
      else Inl (''unknown or read-only variable: '' @ name))"

definition get_all_config_variables :: "config \<Rightarrow> (string \<times> string) list" where
  "get_all_config_variables c =
    [(''admin_bind_address'', admin_bind_address (cf_network c)),
     (''admin_port'', itoa (admin_port (cf_network c))),
     (''proxy_bind_address'', proxy_bind_address (cf_network c)),
     (''proxy_port'', itoa (proxy_port (cf_network c))),
     (''data_dir'', cf_data_dir c),
     (''log_level'', log_level (cf_logging c)),
     (''log_format'', log_format (cf_logging c)),
     (''failover_enabled'', format_bool (failover_enabled (cf_failover c))),
     (''max_retries'', itoa (max_retries (cf_failover c))),
     (''circuit_breaker_enabled'', format_bool (cb_enabled (cf_breaker c))),
     (''circuit_breaker_threshold'', itoa (cb_threshold (cf_breaker c))),
     (''health_check_enabled'', format_bool (check_enabled (cf_check c))),
     (''health_check_interval_ms'', itoa (check_interval_ms (cf_check c))),
     (''prometheus_enabled'', format_bool (prometheus_enabled (cf_prometheus c))),
     (''prometheus_port'', itoa (prometheus_port (cf_prometheus c))),
     (''cache_enabled'', format_bool (cache_on (cf_cache c))),
     (''cache_max_size'', itoa (cache_max_size (cf_cache c))),
     (''cache_max_memory_mb'', itoa (cache_max_memory_mb (cf_cache c))),
     (''cache_ttl_seconds'', itoa (cache_ttl_seconds (cf_cache c))),
     (''cache_max_item_size_kb'', itoa (cache_max_item_size_kb (cf_cache c))),
     (''cache_compression_enabled'', format_bool (cache_compression_on (cf_cache c))),
     (''cache_embeddings_ttl_hours'', itoa (cache_embeddings_ttl_hours (cf_cache c))),
     (''referee_enabled'', format_bool (referee_enabled (cf_referee c))),
     (''referee_min_responses'', itoa (referee_min_responses (cf_referee c))),
     (''referee_timeout_ms'', itoa (referee_timeout_ms (cf_referee c))),
     (''referee_max_providers'', itoa (referee_max_providers (cf_referee c))),
     (''referee_default_model'', referee_default_model (cf_referee c))]"

subsection \<open>Derived values\<close>

text \<open>\<open>time.Duration(n) * time.Millisecond\<close> wraps like any 64-bit product.\<close>

definition ms :: "i64 \<Rightarrow> duration" where
  "ms n = mul64 n millisecond"

definition request_timeout :: "config \<Rightarrow> duration" where
  "request_timeout c = ms (request_timeout_ms (cf_request c))"

definition health_check_interval :: "config \<Rightarrow> duration" where
  "health_check_interval c = ms (check_interval_ms (cf_check c))"

definition health_check_timeout :: "config \<Rightarrow> duration" where
  "health_check_timeout c = ms (check_timeout_ms (cf_check c))"

definition circuit_breaker_timeout :: "config \<Rightarrow> duration" where
  "circuit_breaker_timeout c = ms (cb_timeout_ms (cf_breaker c))"

definition retry_delay :: "config \<Rightarrow> duration" where
  "retry_delay c = ms (retry_delay_ms (cf_failover c))"

definition retry_max_delay :: "config \<Rightarrow> duration" where
  "retry_max_delay c = ms (retry_max_delay_ms (cf_failover c))"

definition referee_timeout :: "config \<Rightarrow> duration" where
  "referee_timeout c = ms (referee_timeout_ms (cf_referee c))"

definition db_path :: "config \<Rightarrow> string" where
  "db_path c = (if cf_data_dir c = [] then ''mindbalancer.db'' else cf_data_dir c @ ''/mindbalancer.db'')"

text \<open>The name of a configured model is a prefix of the requested one.\<close>

definition name_matches :: "string \<Rightarrow> string \<Rightarrow> bool" where
  "name_matches model name \<longleftrightarrow> length name \<le> length model \<and> take (length name) model = name"

definition get_model_timeout :: "string \<Rightarrow> config \<Rightarrow> duration" where
  "get_model_timeout model c =
     (case map_of (cf_model_timeouts c) model of
        Some t \<Rightarrow> ms t
      | None \<Rightarrow> (case find (\<lambda>(name, _). name_matches model name) (cf_model_timeouts c) of
            Some (_, t) \<Rightarrow> ms t
          | None \<Rightarrow> ms (request_timeout_ms (cf_request c))))"

definition set_model_timeout :: "string \<Rightarrow> i64 \<Rightarrow> config \<Rightarrow> config" where
  "set_model_timeout model t c =
     c\<lparr>cf_model_timeouts := AList.update model t (cf_model_timeouts c)\<rparr>"

definition get_all_model_timeouts :: "config \<Rightarrow> (string \<times> i64) list" where
  "get_all_model_timeouts c = cf_model_timeouts c"

text \<open>\<open>GetCacheConfig\<close>, completed with the fixed settings of \<open>NewProxy\<close>.\<close>

definition get_cache_config :: "config \<Rightarrow> cache_config" where
  "get_cache_config c = (let s = cf_cache c in
     \<lparr>cc_enabled = cache_on s, cc_max_size = cache_max_size s, cc_max_memory_mb = cache_max_memory_mb s,
      cc_ttl = mul64 (cache_ttl_seconds s) second, cc_max_item_size = mul64 (cache_max_item_size_kb s) 1024,
      cc_num_shards = 16, cc_compression_enabled = cache_compression_on s, cc_compression_min_size = 1024,
      cc_cleanup_interval = minute, cc_model_ttls = [],
      cc_embeddings_ttl = mul64 (cache_embeddings_ttl_hours s) hour\<rparr>)"

subsection \<open>Properties\<close>

text \<open>The variable a name stands for: two of them have an alias.\<close>

definition canonical_variable :: "string \<Rightarrow> string" where
  "canonical_variable name = (let n = variable_name name in
     if n = ''ai_max_retries'' then ''max_retries''
     else if n = ''ai_health_check_interval'' then ''health_check_interval'' else n)"

text \<open>What each setting changes of what \<open>Get\<close> returns.\<close>

lemma get_after_set_level:
  "config_get name (c\<lparr>cf_logging := (cf_logging c)\<lparr>log_level := v\<rparr>\<rparr>)
     = (if variable_name name = ''log_level'' then Some v else config_get name c)"
proof (cases "variable_name name = ''log_level''")
  case False
  let ?c = "c\<lparr>cf_logging := (cf_logging c)\<lparr>log_level := v\<rparr>\<rparr>"
  have f: "cf_network ?c = cf_network c" "cf_data_dir ?c = cf_data_dir c" "cf_failover ?c = cf_failover c"
    "cf_breaker ?c = cf_breaker c" "cf_check ?c = cf_check c" "cf_prometheus ?c = cf_prometheus c"
    "log_format (cf_logging ?c) = log_format (cf_logging c)" "log_file (cf_logging ?c) = log_file (cf_logging c)" by simp_all
  from False have n: "(variable_name name = ''log_level'') = False" by simp
  show ?thesis unfolding config_get_def Let_def f n if_False ..
qed (simp add: config_get_def Let_def)

lemma get_after_set_retries:
  "config_get name (set_max_retries v c)
     = (if canonical_variable name = ''max_retries'' then Some (itoa v) else config_get name c)"
proof (cases "canonical_variable name = ''max_retries''")
  case False
  let ?c = "set_max_retries v c"
  have f: "cf_network ?c = cf_network c" "cf_data_dir ?c = cf_data_dir c" "cf_logging ?c = cf_logging c"
    "cf_breaker ?c = cf_breaker c" "cf_check ?c = cf_check c" "cf_prometheus ?c = cf_prometheus c"
    "failover_enabled (cf_failover ?c) = failover_enabled (cf_failover c)" by (simp_all add: set_max_retries_def)
  from False have n: "(variable_name name = ''max_retries'' \<or> variable_name name = ''ai_max_retries'') = False"
    by (auto simp: canonical_variable_def)
  from False show ?thesis unfolding config_get_def Let_def f n if_False by simp
next
  case True
  then have "variable_name name = ''max_retries'' \<or> variable_name name = ''ai_max_retries''"
    by (auto simp: canonical_variable_def Let_def split: if_splits)
  with True show ?thesis by (auto simp: config_get_def Let_def set_max_retries_def)
qed

lemma get_after_set_threshold:
  "config_get name (set_breaker_threshold v c)
     = (if variable_name name = ''circuit_breaker_threshold'' then Some (itoa v) else config_get name c)"
proof (cases "variable_name name = ''circuit_breaker_threshold''")
  case False
  let ?c = "set_breaker_threshold v c"
  have f: "cf_network ?c = cf_network c" "cf_data_dir ?c = cf_data_dir c" "cf_logging ?c = cf_logging c"
    "cf_failover ?c = cf_failover c" "cf_check ?c = cf_check c" "cf_prometheus ?c = cf_prometheus c"
    "cb_enabled (cf_breaker ?c) = cb_enabled (cf_breaker c)" by (simp_all add: set_breaker_threshold_def)
  from False have n: "(variable_name name = ''circuit_breaker_threshold'') = False" by simp
  show ?thesis unfolding config_get_def Let_def f n if_False ..
qed (simp add: config_get_def Let_def set_breaker_threshold_def)

lemma get_after_set_interval:
  "config_get name (set_check_interval v c)
     = (if canonical_variable name = ''health_check_interval'' then Some (itoa v) else config_get name c)"
proof (cases "canonical_variable name = ''health_check_interval''")
  case False
  let ?c = "set_check_interval v c"
  have f: "cf_network ?c = cf_network c" "cf_data_dir ?c = cf_data_dir c" "cf_logging ?c = cf_logging c"
    "cf_failover ?c = cf_failover c" "cf_breaker ?c = cf_breaker c" "cf_prometheus ?c = cf_prometheus c"
    "check_enabled (cf_check ?c) = check_enabled (cf_check c)" by (simp_all add: set_check_interval_def)
  from False have n: "(variable_name name = ''health_check_interval'' \<or> variable_name name = ''ai_health_check_interval'') = False"
    by (auto simp: canonical_variable_def)
  from False show ?thesis unfolding config_get_def Let_def f n if_False by simp
next
  case True
  then have "variable_name name = ''health_check_interval'' \<or> variable_name name = ''ai_health_check_interval''"
    by (auto simp: canonical_variable_def Let_def split: if_splits)
  with True show ?thesis by (auto simp: config_get_def Let_def set_check_interval_def)
qed

lemmas get_after_set_variable =
  get_after_set_level get_after_set_retries get_after_set_threshold get_after_set_interval

lemma canonical_same:
  "canonical_variable name = (if variable_name name \<in> {''max_retries'', ''ai_max_retries''} then ''max_retries''
     else if variable_name name \<in> {''health_check_interval'', ''ai_health_check_interval''} then ''health_check_interval''
     else variable_name name)"
  by (simp add: canonical_variable_def)

text \<open>
  Setting a variable and reading it back: a successful \<open>Set\<close> makes \<open>Get\<close> of the same
  name return the value that was set (a number in its decimal form), and changes no other
  variable that \<open>Get\<close> knows; names are compared without case and with dashes as
  underscores.\<close>

theorem set_then_get:
  assumes "config_set name value c = Inr c'"
  shows "config_get name c' = Some (if variable_name name = ''log_level'' then value
           else case atoi value of Some i \<Rightarrow> itoa i | None \<Rightarrow> [])
     \<and> (canonical_variable other \<noteq> canonical_variable name \<longrightarrow> config_get other c' = config_get other c)"
proof -
  consider (log) "variable_name name = ''log_level''" "c' = c\<lparr>cf_logging := (cf_logging c)\<lparr>log_level := value\<rparr>\<rparr>"
    | (retries) v where "variable_name name \<in> {''max_retries'', ''ai_max_retries''}" "atoi value = Some v"
        "c' = set_max_retries v c"
    | (threshold) v where "variable_name name = ''circuit_breaker_threshold''" "atoi value = Some v"
        "c' = set_breaker_threshold v c"
    | (interval) v where "variable_name name \<in> {''health_check_interval'', ''ai_health_check_interval''}"
        "atoi value = Some v" "c' = set_check_interval v c"
    using assms by (auto simp: config_set_def Let_def split: if_splits option.splits)
  then show ?thesis
    by cases (auto simp: get_after_set_variable canonical_same)
qed

theorem set_then_get_witness:
  "\<exists>c'. config_set ''MAX-RETRIES'' ''007'' default_settings = Inr c' \<and> config_get ''max_retries'' c' = Some ''7''"
proof -
  have v: "variable_name ''MAX-RETRIES'' = ''max_retries''" "variable_name ''max_retries'' = ''max_retries''"
    by code_simp+
  have n: "atoi ''007'' = Some 7"
    by code_simp
  have set: "config_set ''MAX-RETRIES'' ''007'' default_settings = Inr (set_max_retries 7 default_settings)"
    by (simp add: config_set_def v n)
  have "config_get ''MAX-RETRIES'' (set_max_retries 7 default_settings) = Some (itoa 7)"
    using set_then_get [OF set] by (simp add: v n)
  moreover have "itoa 7 = ''7''" by code_simp
  ultimately show ?thesis using set by (auto simp: config_get_def v)
qed

text \<open>
  The timeout of a model can depend on the iteration order of a map: with the default
  settings a request for \<open>o1-mini-2024-09-12\<close> gets three or five minutes, because both
  \<open>o1\<close> and \<open>o1-mini\<close> are prefixes of its name and the first one met wins; only an exact
  name is resolved the same way in every order.\<close>

theorem model_timeout_depends_on_map_order:
  "(\<exists>order. mset order = mset (cf_model_timeouts default_settings)
      \<and> get_model_timeout ''o1-mini-2024-09-12'' (default_settings\<lparr>cf_model_timeouts := order\<rparr>) = 3 * minute)
   \<and> (\<exists>order. mset order = mset (cf_model_timeouts default_settings)
      \<and> get_model_timeout ''o1-mini-2024-09-12'' (default_settings\<lparr>cf_model_timeouts := order\<rparr>) = 5 * minute)"
proof (intro conjI exI)
  let ?order = "[(''o1-mini'', 180000), (''o1'', 300000), (''o1-preview'', 300000), (''gpt-4'', 120000), (''claude-3-opus'', 180000)]"
  show "mset ?order = mset (cf_model_timeouts default_settings)" by (simp add: default_settings_def)
  show "get_model_timeout ''o1-mini-2024-09-12'' (default_settings\<lparr>cf_model_timeouts := ?order\<rparr>) = 3 * minute"
    by (simp add: get_model_timeout_def name_matches_def ms_def mul64_def in64_def time_simps)
  show "mset (cf_model_timeouts default_settings) = mset (cf_model_timeouts default_settings)" ..
  show "get_model_timeout ''o1-mini-2024-09-12''
      (default_settings\<lparr>cf_model_timeouts := cf_model_timeouts default_settings\<rparr>) = 5 * minute"
    by (simp add: get_model_timeout_def default_settings_def name_matches_def ms_def mul64_def in64_def time_simps)
qed

end
