(* ===== verification/Metrics.thy ===== *)
theory Metrics
  imports Config
begin

section \<open>Metrics and pricing (internal/metrics/metrics.go)\<close>

text \<open>
  The collector's price table with the cost of a request, the metrics it registers, and
  the updates each recording operation makes. The Prometheus client is seen through the
  descriptions it is given and the updates sent to it, a list of \<open>metric\<close> values
  (\<open>Inc\<close> and \<open>Add\<close>, \<open>Set\<close>, \<open>Inc\<close> and \<open>Dec\<close> of a gauge, \<open>Observe\<close>). The price table is an association list in the order of its
  iteration.
\<close>

datatype metric =
    Count string "string list" rat
  | Gauge string "string list" rat
  | Shift string "string list" rat
  | Observe string "string list" rat

datatype metric_kind = CounterKind | GaugeKind | HistogramKind "rat list"

record metric_desc =
  md_name :: string
  md_help :: string
  md_kind :: metric_kind
  md_labels :: "string list"

record pricing =
  pr_input :: rat
  pr_output :: rat

record collector =
  co_pricing :: "(string \<times> pricing) list"
  co_registry :: "metric_desc list"

subsection \<open>The registered metrics\<close>

definition describe :: "string \<Rightarrow> string \<Rightarrow> metric_kind \<Rightarrow> string list \<Rightarrow> metric_desc" where
  "describe name help kind labels = \<lparr>md_name = name, md_help = help, md_kind = kind, md_labels = labels\<rparr>"

text \<open>The metrics \<open>NewCollector\<close> makes, and the order in which it registers them.\<close>

definition request_descs :: "metric_desc list" where
  "request_descs =
    [describe ''mindbalancer_requests_total'' ''Total number of requests processed''
       CounterKind [''server'', ''model'', ''status''],
     describe ''mindbalancer_request_duration_seconds'' ''Request duration in seconds''
       (HistogramKind [1 / 10, 25 / 100, 5 / 10, 1, 25 / 10, 5, 10, 30, 60, 120]) [''server'', ''model''],
     describe ''mindbalancer_requests_in_flight'' ''Number of requests currently being processed''
       GaugeKind [''server''],
     describe ''mindbalancer_tokens_total'' ''Total number of tokens processed''
       CounterKind [''server'', ''direction''],
     describe ''mindbalancer_cost_usd_total'' ''Total estimated cost in USD''
       CounterKind [''server'', ''model'', ''provider'']]"

definition cache_descs :: "metric_desc list" where
  "cache_descs =
    [describe ''mindbalancer_cache_hits_total'' ''Total number of cache hits''
       CounterKind [],
     describe ''mindbalancer_cache_misses_total'' ''Total number of cache misses''
       CounterKind [],
     describe ''mindbalancer_cache_evictions_total'' ''Total number of cache evictions''
       CounterKind [],
     describe ''mindbalancer_cache_deduplications_total'' ''Total number of deduplicated requests''
       CounterKind [],
     describe ''mindbalancer_cache_memory_bytes'' ''Current cache memory usage in bytes''
       GaugeKind [],
     describe ''mindbalancer_cache_items'' ''Current number of items in cache''
       GaugeKind [],
     describe ''mindbalancer_cache_compression_saved_bytes_total'' ''Total bytes saved by compression''
       CounterKind []]"

definition server_descs :: "metric_desc list" where
  "server_descs =
    [describe ''mindbalancer_server_status'' ''Server status (1=healthy, 0=unhealthy)''
       GaugeKind [''server'', ''provider''],
     describe ''mindbalancer_circuit_breaker_state'' ''Circuit breaker state (0=closed, 1=open, 2=half-open)''
       GaugeKind [''server''],
     describe ''mindbalancer_server_latency_seconds'' ''Average server latency in seconds''
       GaugeKind [''server''],
     describe ''mindbalancer_connections_active'' ''Number of active connections''
       GaugeKind [''server''],
     describe ''mindbalancer_connections_idle'' ''Number of idle connections''
       GaugeKind [''server''],
     describe ''mindbalancer_errors_total'' ''Total number of errors''
       CounterKind [''server'', ''type'']]"

definition referee_descs :: "metric_desc list" where
  "referee_descs =
    [describe ''mindbalancer_referee_requests_total'' ''Total number of referee mode requests''
       CounterKind [''status''],
     describe ''mindbalancer_referee_request_duration_seconds'' ''Referee mode request duration in seconds''
       (HistogramKind [1, 25 / 10, 5, 10, 20, 30, 60, 120, 180]) [],
     describe ''mindbalancer_referee_providers_queried'' ''Number of providers queried in referee mode''
       (HistogramKind [1, 2, 3, 4, 5, 6]) [],
     describe ''mindbalancer_referee_successful_responses'' ''Number of successful provider responses in referee mode''
       (HistogramKind [0, 1, 2, 3, 4, 5, 6]) []]"

definition registered :: "metric_desc list" where
  "registered = request_descs @ cache_descs @ server_descs @ referee_descs"

text \<open>
  \<open>MustRegister\<close> panics on a name that the registry has, or on metrics of one name.
\<close>

fun must_register :: "metric_desc list \<Rightarrow> metric_desc list \<Rightarrow> (unit, metric_desc list) res" where
  "must_register reg [] = Ok reg"
| "must_register reg (d # ds) =
     (if md_name d \<in> md_name ` set reg then Panic ''duplicate metrics collector registration attempted''
      else must_register (reg @ [d]) ds)"

text \<open>
  The updates the client takes: the metric is registered, is of the kind the update is
  for, and gets as many label values as it has labels (\<open>WithLabelValues\<close> panics
  otherwise); a counter only grows (\<open>Add\<close> panics otherwise).
\<close>

fun metric_name :: "metric \<Rightarrow> string" where
  "metric_name (Count n _ _) = n"
| "metric_name (Gauge n _ _) = n"
| "metric_name (Shift n _ _) = n"
| "metric_name (Observe n _ _) = n"

fun update_fits :: "metric \<Rightarrow> metric_desc \<Rightarrow> bool" where
  "update_fits (Count _ ls x) d = (md_kind d = CounterKind \<and> length ls = length (md_labels d) \<and> 0 \<le> x)"
| "update_fits (Gauge _ ls _) d = (md_kind d = GaugeKind \<and> length ls = length (md_labels d))"
| "update_fits (Shift _ ls _) d = (md_kind d = GaugeKind \<and> length ls = length (md_labels d))"
| "update_fits (Observe _ ls _) d =
     (length ls = length (md_labels d) \<and> (case md_kind d of HistogramKind _ \<Rightarrow> True | _ \<Rightarrow> False))"

text \<open>
  Of the demands that \<open>client_golang\<close> makes of an update these are the ones that depend on
  the program's text: the metric is registered, its kind has the operation, and the call
  names as many label values as the metric has labels. It also demands valid UTF-8 of the
  values, which depends on what the models and servers are called and is not modelled.
\<close>

definition accepted :: "metric_desc list \<Rightarrow> metric \<Rightarrow> bool" where
  "accepted reg u = (case find (\<lambda>d. md_name d = metric_name u) reg of None \<Rightarrow> False | Some d \<Rightarrow> update_fits u d)"

subsection \<open>Prices\<close>

definition price :: "rat \<Rightarrow> rat \<Rightarrow> pricing" where
  "price i out = \<lparr>pr_input = i, pr_output = out\<rparr>"

definition default_pricing :: "(string \<times> pricing) list" where
  "default_pricing =
    [(''gpt-4'', price (3 / 100) (6 / 100)),
     (''gpt-4-turbo'', price (1 / 100) (3 / 100)),
     (''gpt-4o'', price (5 / 1000) (15 / 1000)),
     (''gpt-4o-mini'', price (15 / 100000) (6 / 10000)),
     (''gpt-3.5-turbo'', price (5 / 10000) (15 / 10000)),
     (''o1'', price (15 / 1000) (6 / 100)),
     (''o1-mini'', price (3 / 1000) (12 / 1000)),
     (''o1-preview'', price (15 / 1000) (6 / 100)),
     (''claude-3-5-sonnet-20241022'', price (3 / 1000) (15 / 1000)),
     (''claude-3-5-haiku-20241022'', price (8 / 10000) (4 / 1000)),
     (''claude-3-opus-20240229'', price (15 / 1000) (75 / 1000)),
     (''claude-3-sonnet-20240229'', price (3 / 1000) (15 / 1000)),
     (''claude-3-haiku-20240307'', price (25 / 100000) (125 / 100000)),
     (''llama-3.1-70b-versatile'', price (59 / 100000) (79 / 100000)),
     (''llama-3.1-8b-instant'', price (5 / 100000) (8 / 100000)),
     (''mixtral-8x7b-32768'', price (24 / 100000) (24 / 100000)),
     (''gemini-1.5-pro'', price (125 / 100000) (5 / 1000)),
     (''gemini-1.5-flash'', price (75 / 1000000) (3 / 10000)),
     (''gemini-2.0-flash'', price (1 / 10000) (4 / 10000))]"

definition new_collector :: collector where
  "new_collector = \<lparr>co_pricing = default_pricing, co_registry = registered\<rparr>"

subsection \<open>Cost\<close>

definition find_pricing :: "string \<Rightarrow> collector \<Rightarrow> pricing option" where
  "find_pricing model c =
     (case map_of (co_pricing c) model of
        Some p \<Rightarrow> Some p
      | None \<Rightarrow> map_option snd (find (\<lambda>(name, _). name_matches model name) (co_pricing c)))"

definition calculate_cost :: "string \<Rightarrow> i64 \<Rightarrow> i64 \<Rightarrow> collector \<Rightarrow> rat" where
  "calculate_cost model input_tokens output_tokens c =
     (case find_pricing model c of
        None \<Rightarrow> 0
      | Some p \<Rightarrow> of_int input_tokens / 1000 * pr_input p + of_int output_tokens / 1000 * pr_output p)"

definition set_model_pricing :: "string \<Rightarrow> rat \<Rightarrow> rat \<Rightarrow> collector \<Rightarrow> collector" where
  "set_model_pricing model i out c = c\<lparr>co_pricing := AList.update model (price i out) (co_pricing c)\<rparr>"

definition get_model_pricing :: "string \<Rightarrow> collector \<Rightarrow> pricing option" where
  "get_model_pricing model c = map_of (co_pricing c) model"

definition get_all_pricing :: "collector \<Rightarrow> (string \<times> pricing) list" where
  "get_all_pricing c = co_pricing c"

subsection \<open>Recording\<close>

definition status_label :: "bool \<Rightarrow> string" where
  "status_label success = (if success then ''success'' else ''error'')"

text \<open>\<open>d.Seconds()\<close>.\<close>

definition seconds :: "duration \<Rightarrow> rat" where
  "seconds d = of_int d / of_int second"

definition record_request :: "string \<Rightarrow> string \<Rightarrow> bool \<Rightarrow> duration \<Rightarrow> i64 \<Rightarrow> i64 \<Rightarrow> metric list" where
  "record_request srv model success d prompt_tokens output_tokens =
     [Count ''mindbalancer_requests_total'' [srv, model, status_label success] 1,
      Observe ''mindbalancer_request_duration_seconds'' [srv, model] (seconds d)]
     @ (if 0 < prompt_tokens then [Count ''mindbalancer_tokens_total'' [srv, ''input''] (of_int prompt_tokens)] else [])
     @ (if 0 < output_tokens then [Count ''mindbalancer_tokens_total'' [srv, ''output''] (of_int output_tokens)] else [])"

definition record_error :: "string \<Rightarrow> string \<Rightarrow> metric list" where
  "record_error srv error_type = [Count ''mindbalancer_errors_total'' [srv, error_type] 1]"

definition set_server_status :: "string \<Rightarrow> string \<Rightarrow> bool \<Rightarrow> metric list" where
  "set_server_status srv provider healthy = [Gauge ''mindbalancer_server_status'' [srv, provider] (if healthy then 1 else 0)]"

definition set_circuit_breaker_state :: "string \<Rightarrow> i64 \<Rightarrow> metric list" where
  "set_circuit_breaker_state srv state = [Gauge ''mindbalancer_circuit_breaker_state'' [srv] (of_int state)]"

definition set_server_latency :: "string \<Rightarrow> duration \<Rightarrow> metric list" where
  "set_server_latency srv d = [Gauge ''mindbalancer_server_latency_seconds'' [srv] (seconds d)]"

definition set_connections_active :: "string \<Rightarrow> i64 \<Rightarrow> metric list" where
  "set_connections_active srv n = [Gauge ''mindbalancer_connections_active'' [srv] (of_int n)]"

definition set_connections_idle :: "string \<Rightarrow> i64 \<Rightarrow> metric list" where
  "set_connections_idle srv n = [Gauge ''mindbalancer_connections_idle'' [srv] (of_int n)]"

definition increment_in_flight :: "string \<Rightarrow> metric list" where
  "increment_in_flight srv = [Shift ''mindbalancer_requests_in_flight'' [srv] 1]"

definition decrement_in_flight :: "string \<Rightarrow> metric list" where
  "decrement_in_flight srv = [Shift ''mindbalancer_requests_in_flight'' [srv] (- 1)]"

definition record_cost :: "string \<Rightarrow> string \<Rightarrow> string \<Rightarrow> i64 \<Rightarrow> i64 \<Rightarrow> collector \<Rightarrow> metric list" where
  "record_cost srv model provider input_tokens output_tokens c =
     (let cost = calculate_cost model input_tokens output_tokens c in
      if 0 < cost then [Count ''mindbalancer_cost_usd_total'' [srv, model, provider] cost] else [])"

definition record_cache_hit :: "metric list" where
  "record_cache_hit = [Count ''mindbalancer_cache_hits_total'' [] 1]"

definition record_cache_miss :: "metric list" where
  "record_cache_miss = [Count ''mindbalancer_cache_misses_total'' [] 1]"

definition record_cache_eviction :: "metric list" where
  "record_cache_eviction = [Count ''mindbalancer_cache_evictions_total'' [] 1]"

definition record_deduplication :: "metric list" where
  "record_deduplication = [Count ''mindbalancer_cache_deduplications_total'' [] 1]"

definition set_cache_memory :: "i64 \<Rightarrow> metric list" where
  "set_cache_memory n = [Gauge ''mindbalancer_cache_memory_bytes'' [] (of_int n)]"

definition set_cache_item_count :: "i64 \<Rightarrow> metric list" where
  "set_cache_item_count n = [Gauge ''mindbalancer_cache_items'' [] (of_int n)]"

definition add_compression_saved :: "i64 \<Rightarrow> metric list" where
  "add_compression_saved n = [Count ''mindbalancer_cache_compression_saved_bytes_total'' [] (of_int n)]"

definition update_cache_stats :: "i64 \<Rightarrow> i64 \<Rightarrow> i64 \<Rightarrow> i64 \<Rightarrow> metric list" where
  "update_cache_stats memory_used item_count evictions compression_saved =
     [Gauge ''mindbalancer_cache_memory_bytes'' [] (of_int memory_used), Gauge ''mindbalancer_cache_items'' [] (of_int item_count)]"

definition record_referee_request :: "bool \<Rightarrow> duration \<Rightarrow> i64 \<Rightarrow> i64 \<Rightarrow> metric list" where
  "record_referee_request success d queried successful =
     [Count ''mindbalancer_referee_requests_total'' [status_label success] 1,
      Observe ''mindbalancer_referee_request_duration_seconds'' [] (seconds d),
      Observe ''mindbalancer_referee_providers_queried'' [] (of_int queried),
      Observe ''mindbalancer_referee_successful_responses'' [] (of_int successful)]"

subsection \<open>Well-formed updates\<close>

text \<open>The registration goes through, and a metric is found under its name.\<close>

lemma must_register_distinct:
  "distinct (map md_name (reg @ ds)) \<Longrightarrow> must_register reg ds = Ok (reg @ ds)"
  by (induction ds arbitrary: reg) (auto simp: image_iff)

lemmas registered_rules =
  registered_def request_descs_def cache_descs_def server_descs_def referee_descs_def describe_def

lemma registered_names_distinct: "distinct (map md_name registered)"
  by (simp add: registered_rules)

lemma registration_succeeds: "must_register [] registered = Ok registered"
  using must_register_distinct [of "[]" registered] registered_names_distinct by simp

lemmas update_rules = accepted_def registered_rules

text \<open>
  The metrics that requests report. The other ones of the registry are never written:
  nothing calls the functions that set them.
\<close>

definition request_metrics :: "string list" where
  "request_metrics =
    [''mindbalancer_requests_total'', ''mindbalancer_request_duration_seconds'', ''mindbalancer_tokens_total'',
     ''mindbalancer_cost_usd_total'', ''mindbalancer_cache_hits_total'', ''mindbalancer_cache_misses_total'',
     ''mindbalancer_cache_deduplications_total'', ''mindbalancer_referee_requests_total'',
     ''mindbalancer_referee_request_duration_seconds'', ''mindbalancer_referee_providers_queried'',
     ''mindbalancer_referee_successful_responses'']"

definition silent_metrics :: "string list" where
  "silent_metrics =
    [''mindbalancer_requests_in_flight'', ''mindbalancer_errors_total'', ''mindbalancer_server_status'',
     ''mindbalancer_circuit_breaker_state'', ''mindbalancer_server_latency_seconds'',
     ''mindbalancer_connections_active'', ''mindbalancer_connections_idle'', ''mindbalancer_cache_evictions_total'',
     ''mindbalancer_cache_memory_bytes'', ''mindbalancer_cache_items'',
     ''mindbalancer_cache_compression_saved_bytes_total'']"

lemma registered_metrics_split:
  "mset (map md_name registered) = mset request_metrics + mset silent_metrics"
  "set request_metrics \<inter> set silent_metrics = {}"
  by (simp_all add: registered_rules request_metrics_def silent_metrics_def)

definition request_update :: "metric \<Rightarrow> bool" where
  "request_update u \<longleftrightarrow> accepted registered u \<and> metric_name u \<in> set request_metrics"

text \<open>Every function that a request calls reports updates the client takes.\<close>

lemma request_updates [simp]:
  "list_all request_update (record_request srv model success d prompt_tokens output_tokens)"
  "list_all request_update (record_cost srv model provider prompt_tokens output_tokens c)"
  "list_all request_update record_cache_hit"
  "list_all request_update record_cache_miss"
  "list_all request_update record_deduplication"
  "list_all request_update (record_referee_request success d queried successful)"
  by (simp_all add: request_update_def update_rules request_metrics_def record_request_def record_cost_def
      record_cache_hit_def record_cache_miss_def record_deduplication_def record_referee_request_def Let_def)

text \<open>So do the functions that nothing calls, but for a counter that is told to fall.\<close>

lemma unused_updates_accepted:
  "list_all (accepted registered) (record_error srv error_type)"
  "list_all (accepted registered) (set_server_status srv provider healthy)"
  "list_all (accepted registered) (set_circuit_breaker_state srv state)"
  "list_all (accepted registered) (set_server_latency srv d)"
  "list_all (accepted registered) (set_connections_active srv n)"
  "list_all (accepted registered) (set_connections_idle srv n)"
  "list_all (accepted registered) (increment_in_flight srv)"
  "list_all (accepted registered) (decrement_in_flight srv)"
  "list_all (accepted registered) record_cache_eviction"
  "list_all (accepted registered) (update_cache_stats memory_used item_count evictions saved)"
  "list_all (accepted registered) (add_compression_saved n) \<longleftrightarrow> 0 \<le> n"
  by (simp_all add: update_rules record_error_def set_server_status_def set_circuit_breaker_state_def
      set_server_latency_def set_connections_active_def set_connections_idle_def increment_in_flight_def
      decrement_in_flight_def record_cache_eviction_def update_cache_stats_def add_compression_saved_def)

subsection \<open>Properties\<close>

text \<open>
  The cost recorded for a dated model name depends on the iteration order of a map:
  for \<open>gpt-4o-2024-08-06\<close>, the example of the source's own comment, the same tokens cost
  what \<open>gpt-4o\<close> costs in one order and what \<open>gpt-4\<close> costs, six times as much on input, in
  another; a name that is in the table is priced the same in every order.\<close>

theorem cost_depends_on_map_order:
  "calculate_cost ''gpt-4o-2024-08-06'' 1000 0 new_collector = 3 / 100
   \<and> (\<exists>order. mset order = mset default_pricing
        \<and> calculate_cost ''gpt-4o-2024-08-06'' 1000 0 (new_collector\<lparr>co_pricing := order\<rparr>) = 5 / 1000)"
proof (intro conjI exI)
  let ?order = "(''gpt-4o'', price (5 / 1000) (15 / 1000)) # remove1 (''gpt-4o'', price (5 / 1000) (15 / 1000)) default_pricing"
  show "calculate_cost ''gpt-4o-2024-08-06'' 1000 0 new_collector = 3 / 100"
    by (simp add: calculate_cost_def find_pricing_def new_collector_def default_pricing_def name_matches_def price_def)
  have "(''gpt-4o'', price (5 / 1000) (15 / 1000)) \<in># mset default_pricing"
    by (simp add: default_pricing_def)
  then show "mset ?order = mset default_pricing" by simp
  have "map_of default_pricing ''gpt-4o-2024-08-06'' = None" by (simp add: default_pricing_def)
  then have "map_of ?order ''gpt-4o-2024-08-06'' = None"
    unfolding map_of_eq_None_iff
    using set_remove1_subset [of "(''gpt-4o'', price (5 / 1000) (15 / 1000))" default_pricing]
    by (auto simp: image_iff)
  then show "calculate_cost ''gpt-4o-2024-08-06'' 1000 0 (new_collector\<lparr>co_pricing := ?order\<rparr>) = 5 / 1000"
    by (simp add: calculate_cost_def find_pricing_def new_collector_def name_matches_def price_def)
qed

end
