(* ===== verification/Auth.thy ===== *)
theory Auth
  imports Crypto
begin

section \<open>Sessions and credentials of the admin interface (internal/admin/auth.go)\<close>

text \<open>
  The session table with its 24 hour lifetime, the two middlewares that guard the admin
  endpoints, and the authenticator that checks the administrator's password. Random bytes
  (\<open>rand.Read\<close>) are an argument, \<^const>\<open>None\<close> when the system's source fails; bcrypt is
  the pair of parameters \<open>bcrypt_hash\<close> and \<open>bcrypt_ok\<close>, and what the code relies on is
  \<open>bcrypt_law\<close>.
\<close>

subsection \<open>Requests and responses\<close>

text \<open>
  The parts of an \<open>http.Request\<close> the admin interface reads, and what it writes to the
  \<open>http.ResponseWriter\<close>. The type of the body is a parameter: each interface has its own
  replies.
\<close>

record web_request =
  hr_method :: string
  hr_path :: string
  hr_content_type :: string
  hr_cookies :: "(string \<times> string) list"
  hr_query :: "string \<Rightarrow> string"
  hr_form :: "(string \<Rightarrow> string) option"
  hr_body :: string

record cookie =
  ck_name :: string
  ck_value :: string
  ck_path :: string
  ck_expires :: "time option"
  ck_max_age :: int
  ck_http_only :: bool
  ck_secure :: bool

record 'b web_response =
  rs_status :: int
  rs_location :: "string option"
  rs_cookie :: "cookie option"
  rs_body :: "'b option"

definition respond :: "int \<Rightarrow> 'b option \<Rightarrow> 'b web_response" where
  "respond code b = \<lparr>rs_status = code, rs_location = None, rs_cookie = None, rs_body = b\<rparr>"

definition redirect :: "string \<Rightarrow> 'b web_response" where
  "redirect url = \<lparr>rs_status = 302, rs_location = Some url, rs_cookie = None, rs_body = None\<rparr>"

text \<open>\<open>r.Cookie(name)\<close> is the first cookie of that name.\<close>

definition request_cookie :: "string \<Rightarrow> web_request \<Rightarrow> string option" where
  "request_cookie name r = map_of (hr_cookies r) name"

subsection \<open>Sessions\<close>

record session =
  se_id :: string
  se_username :: string
  se_created_at :: time
  se_expires_at :: time

record session_manager =
  sm_sessions :: "string \<Rightarrow> session option"
  sm_ttl :: duration
  sm_cookie_name :: string
  sm_cookie_secure :: bool

definition new_session_manager :: "bool \<Rightarrow> session_manager" where
  "new_session_manager secure = \<lparr>sm_sessions = Map.empty, sm_ttl = 24 * hour,
     sm_cookie_name = ''mindbalancer_session'', sm_cookie_secure = secure\<rparr>"

text \<open>One tick of the cleanup goroutine.\<close>

definition cleanup_expired :: "time \<Rightarrow> session_manager \<Rightarrow> session_manager" where
  "cleanup_expired now sm = sm\<lparr>sm_sessions := (\<lambda>sid. case sm_sessions sm sid of
       Some s \<Rightarrow> if time_after now (se_expires_at s) then None else Some s
     | None \<Rightarrow> None)\<rparr>"

text \<open>\<open>base64.URLEncoding\<close> is the standard encoding with two characters replaced.\<close>

definition url_char :: "char \<Rightarrow> char" where
  "url_char c = (if c = CHR ''+'' then CHR ''-'' else if c = CHR ''/'' then CHR ''_'' else c)"

definition b64_url :: "string \<Rightarrow> string" where
  "b64_url s = map url_char (b64_encode s)"

definition b64_raw_url :: "string \<Rightarrow> string" where
  "b64_raw_url s = filter (\<lambda>c. c \<noteq> CHR ''='') (b64_url s)"

definition create_session :: "string option \<Rightarrow> time \<Rightarrow> string \<Rightarrow> session_manager
    \<Rightarrow> (unit, session) res \<times> session_manager" where
  "create_session rnd now username sm =
     (case rnd of
        None \<Rightarrow> (Err (), sm)
      | Some b \<Rightarrow>
          let s = \<lparr>se_id = b64_url b, se_username = username, se_created_at = now,
                   se_expires_at = now + sm_ttl sm\<rparr>
          in (Ok s, sm\<lparr>sm_sessions := (sm_sessions sm)(se_id s \<mapsto> s)\<rparr>))"

definition delete_session :: "string \<Rightarrow> session_manager \<Rightarrow> session_manager" where
  "delete_session sid sm = sm\<lparr>sm_sessions := (sm_sessions sm)(sid := None)\<rparr>"

definition get_session :: "time \<Rightarrow> string \<Rightarrow> session_manager \<Rightarrow> session option \<times> session_manager" where
  "get_session now sid sm =
     (case sm_sessions sm sid of
        None \<Rightarrow> (None, sm)
      | Some s \<Rightarrow> if time_after now (se_expires_at s) then (None, delete_session sid sm)
          else (Some s, sm))"

definition session_cookie :: "session \<Rightarrow> session_manager \<Rightarrow> cookie" where
  "session_cookie s sm = \<lparr>ck_name = sm_cookie_name sm, ck_value = se_id s, ck_path = ''/'',
     ck_expires = Some (se_expires_at s), ck_max_age = 0, ck_http_only = True,
     ck_secure = sm_cookie_secure sm\<rparr>"

definition cleared_cookie :: "session_manager \<Rightarrow> cookie" where
  "cleared_cookie sm = \<lparr>ck_name = sm_cookie_name sm, ck_value = [], ck_path = ''/'',
     ck_expires = None, ck_max_age = - 1, ck_http_only = True,
     ck_secure = sm_cookie_secure sm\<rparr>"

definition get_session_from_request :: "time \<Rightarrow> web_request \<Rightarrow> session_manager
    \<Rightarrow> session option \<times> session_manager" where
  "get_session_from_request now r sm =
     (case request_cookie (sm_cookie_name sm) r of
        None \<Rightarrow> (None, sm)
      | Some sid \<Rightarrow> get_session now sid sm)"

text \<open>
  The middlewares run the handler they wrap on the same request. The handler works on a
  larger state; \<open>put\<close> stores the session table in it. \<open>unauthorized\<close> is the JSON body of
  the 401.
\<close>

definition auth_middleware :: "time \<Rightarrow> web_request \<Rightarrow> (session_manager \<Rightarrow> 's)
    \<Rightarrow> ('s \<Rightarrow> 'b web_response \<times> 's) \<Rightarrow> session_manager \<Rightarrow> 'b web_response \<times> 's" where
  "auth_middleware now r put next sm =
     (case get_session_from_request now r sm of
        (None, sm') \<Rightarrow> (redirect ''/admin/login'', put sm')
      | (Some _, sm') \<Rightarrow> next (put sm'))"

definition auth_api_middleware :: "'b \<Rightarrow> time \<Rightarrow> web_request \<Rightarrow> (session_manager \<Rightarrow> 's)
    \<Rightarrow> ('s \<Rightarrow> 'b web_response \<times> 's) \<Rightarrow> session_manager \<Rightarrow> 'b web_response \<times> 's" where
  "auth_api_middleware unauthorized now r put next sm =
     (case get_session_from_request now r sm of
        (None, sm') \<Rightarrow> (respond 401 (Some unauthorized), put sm')
      | (Some _, sm') \<Rightarrow> next (put sm'))"

subsection \<open>Credentials\<close>

record authenticator =
  au_username :: string
  au_password_hash :: string
  au_generated_password :: string

text \<open>
  \<open>bcrypt_hash salt password\<close> fails on passwords of more than 72 bytes; the salt is read
  from the system's random source.
\<close>

type_synonym bcrypt_hash = "string option \<Rightarrow> string \<Rightarrow> string option"
type_synonym bcrypt_ok = "string \<Rightarrow> string \<Rightarrow> bool"

definition bcrypt_law :: "bcrypt_hash \<Rightarrow> bcrypt_ok \<Rightarrow> bool" where
  "bcrypt_law bhash bok \<longleftrightarrow> (\<forall>salt p h. bhash salt p = Some h \<longrightarrow> h \<noteq> [] \<and> bok h p)"

definition hash_password :: "bcrypt_hash \<Rightarrow> string option \<Rightarrow> string \<Rightarrow> (unit, string) res" where
  "hash_password bhash salt password =
     (case bhash salt password of None \<Rightarrow> Err () | Some h \<Rightarrow> Ok h)"

definition generate_random_password :: "string option \<Rightarrow> (unit, string) res" where
  "generate_random_password rnd = (case rnd of None \<Rightarrow> Err () | Some b \<Rightarrow> Ok (b64_raw_url b))"

definition new_authenticator :: "bcrypt_hash \<Rightarrow> string option \<Rightarrow> string option \<Rightarrow> string \<Rightarrow> string
    \<Rightarrow> authenticator" where
  "new_authenticator bhash rnd salt username password_hash =
     (let a = \<lparr>au_username = username, au_password_hash = password_hash, au_generated_password = []\<rparr>
      in if password_hash = []
         then (case generate_random_password rnd of
             Ok pw \<Rightarrow> (case hash_password bhash salt pw of
                 Ok h \<Rightarrow> a\<lparr>au_password_hash := h, au_generated_password := pw\<rparr>
               | _ \<Rightarrow> a)
           | _ \<Rightarrow> a)
         else a)"

definition authenticate :: "bcrypt_ok \<Rightarrow> authenticator \<Rightarrow> string \<Rightarrow> string \<Rightarrow> bool" where
  "authenticate bok a username password =
     (if username \<noteq> au_username a then False
      else if au_password_hash a = [] then False
      else bok (au_password_hash a) password)"

definition is_auth_configured :: "authenticator \<Rightarrow> bool" where
  "is_auth_configured a \<longleftrightarrow> au_password_hash a \<noteq> []"

subsection \<open>The life of a session\<close>

text \<open>
  The operations on the session table, as they reach it from the login page, the guarded
  endpoints, the logout link and the cleanup goroutine.
\<close>

datatype session_op =
    Login "string option" time string
  | Lookup time string
  | Logout string
  | Sweep time

fun session_step :: "session_manager \<Rightarrow> session_op \<Rightarrow> session_manager" where
  "session_step sm (Login rnd now u) = snd (create_session rnd now u sm)"
| "session_step sm (Lookup now sid) = snd (get_session now sid sm)"
| "session_step sm (Logout sid) = delete_session sid sm"
| "session_step sm (Sweep now) = cleanup_expired now sm"

text \<open>
  The session a run of operations leaves in the table under an id: that of the last login
  that drew this id, unless a logout, a lookup or a sweep after its expiry followed.
\<close>

fun live_session :: "duration \<Rightarrow> string \<Rightarrow> session_op list \<Rightarrow> session option" where
  "live_session ttl sid [] = None"
| "live_session ttl sid (e # past) = (case e of
      Login (Some b) now u \<Rightarrow>
        if b64_url b = sid
        then Some \<lparr>se_id = sid, se_username = u, se_created_at = now, se_expires_at = now + ttl\<rparr>
        else live_session ttl sid past
    | Login None now u \<Rightarrow> live_session ttl sid past
    | Lookup now s \<Rightarrow>
        (case live_session ttl sid past of
           Some x \<Rightarrow> if s = sid \<and> se_expires_at x < now then None else Some x | None \<Rightarrow> None)
    | Logout s \<Rightarrow> if s = sid then None else live_session ttl sid past
    | Sweep now \<Rightarrow>
        (case live_session ttl sid past of
           Some x \<Rightarrow> if se_expires_at x < now then None else Some x | None \<Rightarrow> None))"

lemma session_step_ttl [simp]: "sm_ttl (session_step sm e) = sm_ttl sm"
  by (cases e) (auto simp: create_session_def get_session_def delete_session_def
    cleanup_expired_def Let_def split: option.splits)

lemma session_run_ttl [simp]: "sm_ttl (foldl session_step sm es) = sm_ttl sm"
  by (induction es arbitrary: sm) simp_all

lemma session_table_live:
  assumes "sm_sessions sm = Map.empty"
  shows "sm_sessions (foldl session_step sm es) sid = live_session (sm_ttl sm) sid (rev es)"
proof (induction es rule: rev_induct)
  case Nil
  with assms show ?case by simp
next
  case (snoc e es)
  let ?s = "foldl session_step sm es"
  show ?case
  proof (cases e)
    case (Login rnd now u)
    with snoc show ?thesis
      by (cases rnd) (simp_all add: create_session_def Let_def)
  next
    case (Lookup now s)
    with snoc show ?thesis
      by (cases "s = sid") (auto simp: get_session_def delete_session_def time_after_def split: option.splits)
  next
    case (Logout s)
    with snoc show ?thesis by (simp add: delete_session_def)
  next
    case (Sweep now)
    with snoc show ?thesis by (auto simp: cleanup_expired_def time_after_def split: option.splits)
  qed
qed

text \<open>A session in the table goes back to a login, with no logout of its id since.\<close>

lemma live_session_login:
  "live_session ttl sid past = Some x \<Longrightarrow>
     \<exists>after b t before. past = after @ Login (Some b) t (se_username x) # before \<and> b64_url b = sid
       \<and> se_expires_at x = t + ttl \<and> Logout sid \<notin> set after"
proof (induction past)
  case (Cons e past)
  show ?case
  proof (cases "live_session ttl sid past = Some x \<and> e \<noteq> Logout sid")
    case True
    with Cons.IH obtain after b t before where
      "past = after @ Login (Some b) t (se_username x) # before" "b64_url b = sid"
      "se_expires_at x = t + ttl" "Logout sid \<notin> set after" by blast
    with True show ?thesis
      by (intro exI [of _ "e # after"] exI [of _ b] exI [of _ t] exI [of _ before]) auto
  next
    case False
    with Cons.prems obtain b t where "e = Login (Some b) t (se_username x)" "b64_url b = sid"
      "se_expires_at x = t + ttl"
      by (auto split: session_op.splits option.splits if_splits)
    then show ?thesis by (intro exI [of _ "[]"] exI [of _ b] exI [of _ t] exI [of _ past]) auto
  qed
qed simp

lemma get_session_Some:
  "get_session now sid sm = (Some x, sm') \<Longrightarrow>
     sm_sessions sm sid = Some x \<and> now \<le> se_expires_at x \<and> sm' = sm"
  by (auto simp: get_session_def time_after_def split: option.splits if_splits)

lemma request_session_Some:
  "get_session_from_request now r sm = (Some x, sm') \<Longrightarrow>
     \<exists>sid. request_cookie (sm_cookie_name sm) r = Some sid \<and> get_session now sid sm = (Some x, sm')"
  by (auto simp: get_session_from_request_def split: option.splits)

definition logged_in :: "session_op list \<Rightarrow> string \<Rightarrow> time \<Rightarrow> bool" where
  "logged_in es sid now \<longleftrightarrow> (\<exists>before b t u after. es = before @ Login (Some b) t u # after \<and>
     b64_url b = sid \<and> now \<le> t + 24 * hour \<and> Logout sid \<notin> set after)"

lemma session_implies_login:
  assumes "get_session_from_request now r (foldl session_step (new_session_manager sec) es) = (Some x, sm)"
  shows "\<exists>sid. request_cookie ''mindbalancer_session'' r = Some sid \<and> logged_in es sid now"
proof -
  let ?s = "foldl session_step (new_session_manager sec) es"
  have name: "sm_cookie_name (foldl session_step s fs) = sm_cookie_name s" for s fs
  proof (induction fs arbitrary: s)
    case (Cons f fs)
    have "sm_cookie_name (session_step s f) = sm_cookie_name s"
      by (cases f) (auto simp: create_session_def get_session_def delete_session_def
        cleanup_expired_def Let_def split: option.splits)
    with Cons show ?case by simp
  qed simp
  obtain sid where c: "request_cookie (sm_cookie_name ?s) r = Some sid"
    and g: "get_session now sid ?s = (Some x, sm)" using request_session_Some [OF assms] by blast
  have "sm_sessions ?s sid = Some x" and n: "now \<le> se_expires_at x"
    using get_session_Some [OF g] by auto
  then have "live_session (24 * hour) sid (rev es) = Some x"
    using session_table_live [of "new_session_manager sec" es sid] by (simp add: new_session_manager_def)
  from live_session_login [OF this] obtain after b t before where
    "rev es = after @ Login (Some b) t (se_username x) # before" "b64_url b = sid"
    "se_expires_at x = t + 24 * hour" "Logout sid \<notin> set after" by blast
  then have "es = rev before @ Login (Some b) t (se_username x) # rev after"
    by (metis rev_append rev.simps(2) rev_rev_ident append.assoc append_Cons append_Nil)
  with n \<open>b64_url b = sid\<close> \<open>se_expires_at x = t + 24 * hour\<close> \<open>Logout sid \<notin> set after\<close>
  have "logged_in es sid now" unfolding logged_in_def by (metis set_rev)
  moreover have "request_cookie ''mindbalancer_session'' r = Some sid"
    using c name [of "new_session_manager sec" es] by (simp add: new_session_manager_def)
  ultimately show ?thesis by blast
qed

text \<open>
  C15: The guard of the admin endpoints is exact about who passes. After any history of
  logins, logouts, lookups and cleanups on a fresh session table, a request that carries
  no cookie of a session opened at most 24 hours ago and not logged out since is answered
  with 401, whatever the handler behind the guard would do.
\<close>

theorem guarded_endpoint_needs_session:
  assumes "\<And>sid. request_cookie ''mindbalancer_session'' r = Some sid \<Longrightarrow> \<not> logged_in es sid now"
  shows "\<exists>sm. auth_api_middleware unauthorized now r put handler
      (foldl session_step (new_session_manager sec) es) = (respond 401 (Some unauthorized), put sm)"
proof -
  let ?s = "foldl session_step (new_session_manager sec) es"
  obtain x sm where g: "get_session_from_request now r ?s = (x, sm)" by fastforce
  have "x = None" using session_implies_login [of now r sec es _ sm] g assms by (cases x) auto
  with g show ?thesis by (auto simp: auth_api_middleware_def)
qed

definition demo_request :: "string \<Rightarrow> string \<Rightarrow> web_request" where
  "demo_request path sid = \<lparr>hr_method = ''GET'', hr_path = path, hr_content_type = [],
     hr_cookies = [(''mindbalancer_session'', sid)], hr_query = (\<lambda>_. []), hr_form = None, hr_body = []\<rparr>"

lemma not_logged_in_after_logout:
  "\<not> logged_in [Login (Some b) t u, Logout (b64_url b)] (b64_url b) now"
  by (auto simp: logged_in_def Cons_eq_append_conv)

theorem guarded_endpoint_needs_session_witness:
  "\<exists>sm. auth_api_middleware ''no'' 2000 (demo_request ''/api/servers'' (b64_url ''secret'')) (\<lambda>sm. sm)
      (\<lambda>sm. (respond 200 (Some ''data''), sm))
      (foldl session_step (new_session_manager True)
        [Login (Some ''secret'') 1000 ''admin'', Logout (b64_url ''secret'')])
    = (respond 401 (Some ''no''), sm)"
  using guarded_endpoint_needs_session
    [of "demo_request ''/api/servers'' (b64_url ''secret'')"
        "[Login (Some ''secret'') 1000 ''admin'', Logout (b64_url ''secret'')]" 2000
        "''no''" "\<lambda>sm. sm" "\<lambda>sm. (respond 200 (Some ''data''), sm)" True]
  by (simp add: demo_request_def request_cookie_def not_logged_in_after_logout)

text \<open>The converse: a login opens the guarded endpoints until its session expires or ends.\<close>

lemma session_opens_endpoints:
  assumes "create_session (Some b) t u sm = (Ok x, sm')" and "now \<le> t + sm_ttl sm"
    and "request_cookie (sm_cookie_name sm) r = Some (b64_url b)"
  shows "auth_api_middleware unauthorized now r put handler sm' = handler (put sm')"
  using assms by (auto simp: create_session_def Let_def auth_api_middleware_def
    get_session_from_request_def get_session_def time_after_def)

subsection \<open>Authentication fails closed\<close>

text \<open>
  Without a configured hash the generated password is the only way in, and when none could
  be generated there is no way in at all.
\<close>

lemma bootstrap_password_authenticates:
  assumes "bcrypt_law bhash bok" and "rnd = Some b" and "bhash salt (b64_raw_url b) = Some h"
  shows "authenticate bok (new_authenticator bhash rnd salt username []) username
    (au_generated_password (new_authenticator bhash rnd salt username []))"
  using assms by (auto simp: bcrypt_law_def new_authenticator_def generate_random_password_def
    hash_password_def authenticate_def)

lemma unconfigured_authenticator_refuses:
  assumes "rnd = None \<or> (\<forall>p. bhash salt p = None)"
  shows "\<not> authenticate bok (new_authenticator bhash rnd salt username []) u p"
  using assms by (auto simp: new_authenticator_def generate_random_password_def hash_password_def
    authenticate_def Let_def split: option.splits)

end
