(* ===== verification/Admin.thy ===== *)
theory Admin
  imports Balancer Router Config Auth
begin

section \<open>The admin console (internal/admin/admin.go)\<close>

text \<open>
  The state of the \<open>Admin\<close> value and the SQL-like commands of \<open>Execute\<close>, which the MySQL
  protocol server runs for its clients: the tables they print, the statements that change
  the storage, the configuration and the cache, and the parser of the INSERT and DELETE
  statements.
\<close>

subsection \<open>State and surroundings\<close>

text \<open>
  \<open>ad_health\<close> is the checker the balancer also points to; no admin operation changes it.
\<close>

record admin =
  ad_config :: config
  ad_storage :: storage
  ad_balancer :: balancer
  ad_health :: checker
  ad_router :: router
  ad_cache :: "cache option"
  ad_sessions :: session_manager
  ad_auth :: authenticator

text \<open>
  What a command finds outside the program: the clock, the cipher and its random nonce, the
  regexp compiler, \<open>sort.Slice\<close>, the order in which Go ranges over the maps it prints, and
  the formatting of a time of day.
\<close>

record world =
  wo_now :: time
  wo_seal :: "string \<Rightarrow> string \<Rightarrow> string \<Rightarrow> string"
  wo_nonce :: "string option"
  wo_unseal :: "string \<Rightarrow> string \<Rightarrow> string \<Rightarrow> string option"
  wo_compile :: compiler
  wo_slice :: "compiled_rule list \<Rightarrow> compiled_rule list"
  wo_server_names :: "string list"
  wo_health_names :: "string list"
  wo_variable_order :: "(string \<times> string) list \<Rightarrow> (string \<times> string) list"
  wo_recent :: "time \<Rightarrow> bool"
  wo_clock_text :: "time \<Rightarrow> string"

text \<open>A new \<open>Admin\<close> has no cache until \<open>SetCache\<close> hands it the proxy's.\<close>

definition new_admin :: "bcrypt_hash \<Rightarrow> string option \<Rightarrow> string option \<Rightarrow> config \<Rightarrow> storage
    \<Rightarrow> balancer \<Rightarrow> checker \<Rightarrow> router \<Rightarrow> admin" where
  "new_admin bhash rnd salt cfg st bal hc rtr =
     \<lparr>ad_config = cfg, ad_storage = st, ad_balancer = bal, ad_health = hc, ad_router = rtr,
      ad_cache = None, ad_sessions = new_session_manager (tls_enabled (cf_tls cfg)),
      ad_auth = new_authenticator bhash rnd salt (admin_username (cf_security cfg))
        (admin_password_hash (cf_security cfg))\<rparr>"

definition set_cache :: "cache \<Rightarrow> admin \<Rightarrow> admin" where
  "set_cache c ad = ad\<lparr>ad_cache := Some c\<rparr>"

datatype command_error = CmdError string | CmdStorage db_error

type_synonym cmd_result = "(command_error, string) res"

definition storage_failed :: "(db_error, 'a) res \<Rightarrow> cmd_result" where
  "storage_failed r = (case r of Err e \<Rightarrow> Err (CmdStorage e) | Panic m \<Rightarrow> Panic m | Ok _ \<Rightarrow> Ok [])"

subsection \<open>Printing\<close>

definition truncate_text :: "string \<Rightarrow> nat \<Rightarrow> string" where
  "truncate_text s max_len = (if length s \<le> max_len then s else take (max_len - 2) s @ ''..'')"

text \<open>\<open>%8d\<close>: padding on the left; \<^const>\<open>pad_right\<close> is \<open>%-15s\<close>.\<close>

definition pad_left :: "nat \<Rightarrow> string \<Rightarrow> string" where
  "pad_left n s = replicate (n - length s) CHR '' '' @ s"

abbreviation newline :: string where "newline \<equiv> [CHR 0x0A]"

text \<open>\<open>%.2f\<close>: a fixed number of decimals, a tie rounded to even.\<close>

definition round_even :: "rat \<Rightarrow> int" where
  "round_even x = (let f = \<lfloor>x\<rfloor>; d = x - of_int f in
     if d < 1 / 2 then f else if 1 / 2 < d then f + 1 else if even f then f else f + 1)"

definition fixed_text :: "nat \<Rightarrow> rat \<Rightarrow> string" where
  "fixed_text k q =
     (let n = nat (round_even (\<bar>q\<bar> * 10 ^ k)); frac = dec_digits (n mod 10 ^ k)
      in (if q < 0 then ''-'' else []) @ dec_digits (n div 10 ^ k) @
         (if k = 0 then [] else CHR ''.'' # replicate (k - length frac) CHR ''0'' @ frac))"

fun join :: "string \<Rightarrow> string list \<Rightarrow> string" where
  "join sep [] = []"
| "join sep [s] = s"
| "join sep (s # t # ts) = s @ sep @ join sep (t # ts)"

definition row_text :: "string list \<Rightarrow> string" where
  "row_text cells = ''| '' @ join '' | '' cells @ '' |'' @ newline"

definition rule_text :: "nat list \<Rightarrow> string" where
  "rule_text widths = ''+'' @ concat (map (\<lambda>w. replicate w CHR ''-'' @ ''+'') widths) @ newline"

definition table_text :: "nat list \<Rightarrow> string \<Rightarrow> string list \<Rightarrow> string" where
  "table_text widths heading rows =
     rule_text widths @ heading @ newline @ rule_text widths @ concat rows @ rule_text widths"

definition rows_in_set :: "nat \<Rightarrow> string" where
  "rows_in_set n = itoa (int n) @ '' rows in set'' @ newline"

subsection \<open>The tables\<close>

definition execute_select_servers :: "admin \<Rightarrow> cmd_result" where
  "execute_select_servers ad = (case get_servers None (ad_storage ad) of
       Ok servers \<Rightarrow> Ok (table_text [17, 13, 34, 10, 8, 8]
         ''| name            | provider    | endpoint                         | hostgroup| weight | status |''
         (map (\<lambda>s. row_text [pad_right 15 (truncate_text (sv_name s) 15),
            pad_right 11 (truncate_text (sv_provider_type s) 11),
            pad_right 32 (truncate_text (sv_endpoint s) 32), pad_left 8 (itoa (sv_hostgroup s)),
            pad_left 6 (itoa (sv_weight s)), pad_right 6 (sv_status s)]) servers)
         @ rows_in_set (length servers))
     | r \<Rightarrow> storage_failed r)"

definition execute_select_users :: "admin \<Rightarrow> cmd_result" where
  "execute_select_users ad = (case get_users (ad_storage ad) of
       Ok users \<Rightarrow> Ok (table_text [18, 8, 12, 15]
         ''| username         | active | req/min    | tokens/min    |''
         (map (\<lambda>u. row_text [pad_right 16 (truncate_text (us_username u) 16),
            pad_right 6 (if us_active u then ''Yes'' else ''No''),
            pad_left 10 (itoa (us_max_requests_per_minute u)),
            pad_left 13 (itoa (us_max_tokens_per_minute u))]) users)
         @ rows_in_set (length users))
     | r \<Rightarrow> storage_failed r)"

definition execute_select_rules :: "admin \<Rightarrow> cmd_result" where
  "execute_select_rules ad = (case get_routing_rules (ad_storage ad) of
       Ok rules \<Rightarrow> Ok (table_text [9, 8, 15, 15, 10, 9]
         ''| rule_id | active | match_model   | match_pattern | dest_hg  | priority|''
         (map (\<lambda>r. row_text [pad_left 7 (itoa (rr_rule_id r)),
            pad_right 6 (if rr_active r then ''Yes'' else ''No''),
            pad_right 13 (truncate_text (rr_match_model r) 13),
            pad_right 13 (truncate_text (rr_match_pattern r) 13),
            pad_left 8 (itoa (rr_destination_hostgroup r)), pad_left 7 (itoa (rr_priority r))]) rules)
         @ rows_in_set (length rules))
     | r \<Rightarrow> storage_failed r)"

definition execute_select_variables :: "world \<Rightarrow> admin \<Rightarrow> cmd_result" where
  "execute_select_variables w ad =
     (let vars = wo_variable_order w (get_all_config_variables (ad_config ad)) in
      Ok (table_text [27, 18] ''| variable_name             | variable_value   |''
        (map (\<lambda>(n, v). row_text [pad_right 25 (truncate_text n 25), pad_right 16 (truncate_text v 16)]) vars)
        @ rows_in_set (length vars)))"

definition execute_select_server_stats :: "world \<Rightarrow> admin \<Rightarrow> cmd_result" where
  "execute_select_server_stats w ad = (case get_server_stats (wo_recent w) (ad_storage ad) of
       Ok stats \<Rightarrow> Ok (table_text [17, 11, 9, 8, 13]
         ''| server          | requests  | success | errors | avg_latency |''
         (map (\<lambda>s. row_text [pad_right 15 (truncate_text (sx_server_name s) 15),
            pad_left 9 (itoa (int (sx_total_requests s))), pad_left 7 (itoa (int (sx_success_count s))),
            pad_left 6 (itoa (int (sx_error_count s))),
            pad_left 9 (fixed_text 2 (sx_avg_latency_ms s)) @ ''ms'']) stats)
         @ rows_in_set (length stats))
     | r \<Rightarrow> storage_failed r)"

definition execute_select_request_stats :: "world \<Rightarrow> admin \<Rightarrow> cmd_result" where
  "execute_select_request_stats w ad = (case get_recent_logs 20 (ad_storage ad) of
       Ok logs \<Rightarrow> Ok (table_text [18, 17, 13, 8, 10]
         ''| timestamp        | server          | model       | status | latency  |''
         (map (\<lambda>l. row_text [pad_right 16 (wo_clock_text w (rl_timestamp l)),
            pad_right 15 (truncate_text (rl_server_name l) 15),
            pad_right 11 (truncate_text (rl_model l) 11), pad_left 6 (itoa (rl_status_code l)),
            pad_left 6 (itoa (rl_latency_ms l)) @ ''ms'']) logs)
         @ rows_in_set (length logs))
     | r \<Rightarrow> storage_failed r)"

definition execute_show_processlist :: "world \<Rightarrow> admin \<Rightarrow> cmd_result" where
  "execute_show_processlist w ad = Ok (table_text [17, 13, 12]
     ''| server          | connections | total_reqs |''
     (map (\<lambda>s. row_text [pad_right 15 (truncate_text (sv_name (ss_server s)) 15),
        pad_left 11 (itoa (ss_connections s)), pad_left 10 (itoa (ss_total_reqs s))])
       (get_all_server_states (wo_server_names w) (ad_balancer ad))))"

text \<open>The number of hostgroups is that of the groups with at least one server.\<close>

definition execute_show_stats :: "world \<Rightarrow> admin \<Rightarrow> cmd_result" where
  "execute_show_stats w ad =
     (let st = balancer_stats_of (wo_server_names w) (ad_balancer ad);
          hgs = remdups (map sst_hostgroup (bst_server_stats st)) in
      Ok (''Algorithm: '' @ bst_algorithm st @ newline @
        ''Total Servers: '' @ itoa (int (bst_total_servers st)) @ newline @
        ''Healthy Servers: '' @ itoa (int (bst_healthy_servers st)) @ newline @
        ''Hostgroups: '' @ itoa (int (length hgs)) @ newline))"

definition execute_show_hostgroups :: "admin \<Rightarrow> cmd_result" where
  "execute_show_hostgroups ad = (case get_hostgroups (ad_storage ad) of
       Ok hgs \<Rightarrow> Ok (table_text [10, 15, 13] ''| group_id | name          | servers     |''
         (map (\<lambda>h. row_text [pad_left 8 (itoa (hg_group_id h)),
            pad_right 13 (truncate_text (hg_name h) 13),
            pad_left 11 (itoa (int (length (get_hostgroup_servers (hg_group_id h) (ad_balancer ad)))))]) hgs))
     | r \<Rightarrow> storage_failed r)"

definition admin_mask_api_key :: "string \<Rightarrow> string" where
  "admin_mask_api_key key = (if length key \<le> 8 then ''****''
     else take 4 key @ ''...'' @ drop (length key - 4) key)"

definition execute_show_api_keys :: "admin \<Rightarrow> cmd_result" where
  "execute_show_api_keys ad = (case get_servers None (ad_storage ad) of
       Ok servers \<Rightarrow> Ok (table_text [17, 13, 42]
         ''| name            | provider    | api_key (masked)                         |''
         (map (\<lambda>s. row_text [pad_right 15 (truncate_text (sv_name s) 15),
            pad_right 11 (truncate_text (sv_provider_type s) 11),
            pad_right 40 (truncate_text (admin_mask_api_key (sv_api_key s)) 40)]) servers)
         @ rows_in_set (length servers))
     | r \<Rightarrow> storage_failed r)"

definition execute_show_health_status :: "world \<Rightarrow> admin \<Rightarrow> cmd_result" where
  "execute_show_health_status w ad =
     (let rows = List.map_filter (\<lambda>n. map_option (\<lambda>s. (n, s)) (get_all_status (ad_health ad) n))
        (wo_health_names w) in
      Ok (table_text [17, 10, 12] ''| server          | healthy  | latency_ms |''
        (map (\<lambda>(n, s). row_text [pad_right 15 (truncate_text n 15),
           pad_right 8 (if hs_healthy s then ''Yes'' else ''No''),
           pad_left 10 (itoa (quot64 (hs_latency s) millisecond))]) rows)
        @ rows_in_set (length rows)))"

definition execute_show_cache_status :: "admin \<Rightarrow> cmd_result" where
  "execute_show_cache_status ad = (case ad_cache ad of
       None \<Rightarrow> Ok (''Cache not initialized'' @ newline)
     | Some c \<Rightarrow>
         let st = cache_stats_of c; row = (\<lambda>n v. row_text [pad_right 18 n, pad_right 18 v]) in
         Ok (rule_text [18, 18] @ ''| Variable           | Value              |'' @ newline @
           rule_text [20, 20] @
           row ''status'' (if cache_is_enabled c then ''enabled'' else ''disabled'') @
           row ''hits'' (itoa (cv_hits st)) @ row ''misses'' (itoa (cv_misses st)) @
           row ''hit_rate'' (fixed_text 2 (cv_hit_rate st)) @
           row ''evictions'' (itoa (cv_evictions st)) @
           row ''deduplicated'' (itoa (cv_deduplicated st)) @
           row ''compression_saved'' (itoa (cv_saved st)) @
           row ''memory_bytes'' (itoa (cv_memory_used st)) @
           row ''item_count'' (itoa (int (cv_item_count st))) @
           row ''avg_item_size'' (fixed_text 0 (cv_avg_item_size st)) @
           rule_text [20, 20]))"

subsection \<open>Parsing values\<close>

definition is_quote :: "char \<Rightarrow> bool" where
  "is_quote c \<longleftrightarrow> c = CHR 0x27 \<or> c = CHR 0x22"

text \<open>
  The loop of \<open>parseCSVValues\<close>: the open quote, the bytes of the current value and the
  values found so far. A comma inside quotes does not separate.
\<close>

fun csv_loop :: "char option \<Rightarrow> string \<Rightarrow> string list \<Rightarrow> string \<Rightarrow> string list" where
  "csv_loop quote current values [] =
     (if current \<noteq> [] then values @ [trim_space current] else values)"
| "csv_loop quote current values (c # s) =
     (if quote = None \<and> is_quote c then csv_loop (Some c) (current @ [c]) values s
      else if quote = Some c then csv_loop None (current @ [c]) values s
      else if quote = None \<and> c = CHR '','' then csv_loop None [] (values @ [trim_space current]) s
      else csv_loop quote (current @ [c]) values s)"

definition parse_csv_values :: "string \<Rightarrow> string list" where
  "parse_csv_values s = csv_loop None [] [] s"

definition unquote :: "string \<Rightarrow> string" where
  "unquote s = (let s = trim_space s in
     if 2 \<le> length s \<and> is_quote (hd s) \<and> last s = hd s then butlast (tl s) else s)"

text \<open>
  \<open>fmt.Sscanf(s, "%d", &n)\<close> on a trimmed string: an optional sign and the digits that
  follow, anything after them is ignored; \<^const>\<open>None\<close> leaves the variable as it was.
\<close>

definition sscan_int :: "string \<Rightarrow> i64 option" where
  "sscan_int s =
     (let neg = (s \<noteq> [] \<and> hd s = CHR ''-'');
          t = (if s \<noteq> [] \<and> (hd s = CHR ''-'' \<or> hd s = CHR ''+'') then tl s else s)
      in Option.bind (parse_dec (takeWhile is_digit t))
           (\<lambda>n. fit64 (if neg then - int n else int n)))"

subsection \<open>The statements\<close>

text \<open>The values of an INSERT statement: nothing without the keyword VALUES.\<close>

definition statement_values :: "string \<Rightarrow> string list option" where
  "statement_values command = map_option (\<lambda>i.
     let part = trim_prefix (trim_space (drop (i + 6) command)) ''(''
     in parse_csv_values (trim_suffix (trim_suffix (trim_suffix part '')'') '';'') '')''))
     (str_index (to_upper command) ''VALUES'')"

definition value_or :: "string list \<Rightarrow> nat \<Rightarrow> i64 \<Rightarrow> i64" where
  "value_or values k d =
     (if k < length values then (case sscan_int (values ! k) of Some n \<Rightarrow> n | None \<Rightarrow> d) else d)"

definition server_of_values :: "string list \<Rightarrow> server" where
  "server_of_values values = \<lparr>sv_id = 0, sv_name = unquote (values ! 0),
     sv_provider_type = unquote (values ! 1), sv_endpoint = unquote (values ! 2),
     sv_api_key = unquote (values ! 3), sv_hostgroup = value_or values 4 0,
     sv_weight = value_or values 5 1, sv_max_connections = 100, sv_status = status_online,
     sv_comment = [], sv_created_at = time_zero, sv_updated_at = time_zero\<rparr>"

definition row_affected :: "string \<Rightarrow> string \<Rightarrow> string" where
  "row_affected name what = ''Query OK, 1 row affected (server '' @ [CHR 0x27] @ name @ [CHR 0x27] @
     '' '' @ what @ '')'' @ newline"

definition execute_insert_server :: "world \<Rightarrow> string \<Rightarrow> admin \<Rightarrow> cmd_result \<times> admin" where
  "execute_insert_server w command ad =
     (case statement_values command of
        None \<Rightarrow> (Err (CmdError ''invalid INSERT syntax: missing VALUES''), ad)
      | Some values \<Rightarrow>
          if length values < 4
          then (Err (CmdError ''invalid INSERT: need at least name, provider_type, endpoint, api_key_encrypted''), ad)
          else (case insert_server (wo_seal w) (wo_nonce w) (wo_now w) (server_of_values values) (ad_storage ad) of
              (Ok _, st) \<Rightarrow> (Ok (row_affected (sv_name (server_of_values values)) ''added''), ad\<lparr>ad_storage := st\<rparr>)
            | (r, st) \<Rightarrow> (storage_failed r, ad\<lparr>ad_storage := st\<rparr>)))"

definition execute_delete_server :: "string \<Rightarrow> admin \<Rightarrow> cmd_result \<times> admin" where
  "execute_delete_server command ad =
     (case str_index (to_upper command) ''WHERE'' of
        None \<Rightarrow> (Err (CmdError ''invalid DELETE syntax: missing WHERE clause (required for safety)''), ad)
      | Some i \<Rightarrow>
          let part = trim_suffix (trim_space (drop (i + 5) command)) '';'' in
          if \<not> str_contains (to_upper part) ''NAME''
          then (Err (CmdError (''DELETE only supports WHERE name = '' @ [CHR 0x27] @ ''value'' @ [CHR 0x27])), ad)
          else (case split2 part ''='' of
              [_, r] \<Rightarrow>
                let name = unquote (trim_space r) in
                (case delete_server name (ad_storage ad) of
                   (Ok _, st) \<Rightarrow> (Ok (row_affected name ''deleted''), ad\<lparr>ad_storage := st\<rparr>)
                 | (r, st) \<Rightarrow> (storage_failed r, ad\<lparr>ad_storage := st\<rparr>))
            | _ \<Rightarrow> (Err (CmdError ''invalid WHERE clause''), ad)))"

definition execute_load_servers :: "world \<Rightarrow> admin \<Rightarrow> cmd_result \<times> admin" where
  "execute_load_servers w ad =
     (case load_servers (wo_unseal w) (ad_storage ad) (ad_balancer ad) of
        (Ok _, b) \<Rightarrow> (Ok (''Query OK, servers loaded to runtime'' @ newline), ad\<lparr>ad_balancer := b\<rparr>)
      | (r, b) \<Rightarrow> (storage_failed r, ad\<lparr>ad_balancer := b\<rparr>))"

definition execute_load_rules :: "world \<Rightarrow> admin \<Rightarrow> cmd_result \<times> admin" where
  "execute_load_rules w ad =
     (case load_rules (wo_compile w) (wo_slice w) (ad_storage ad) (ad_router ad) of
        (Ok _, rt) \<Rightarrow> (Ok (''Query OK, routing rules loaded to runtime'' @ newline), ad\<lparr>ad_router := rt\<rparr>)
      | (r, rt) \<Rightarrow> (storage_failed r, ad\<lparr>ad_router := rt\<rparr>))"

definition execute_set :: "string \<Rightarrow> admin \<Rightarrow> cmd_result \<times> admin" where
  "execute_set command ad =
     (case split2 (drop 4 command) ''='' of
        [n, v] \<Rightarrow>
          let name = trim_space n; val = trim_space v in
          (case config_set name val (ad_config ad) of
             Inl e \<Rightarrow> (Err (CmdError e), ad)
           | Inr c \<Rightarrow> (Ok (''Query OK, '' @ name @ '' set to '' @ val @ newline), ad\<lparr>ad_config := c\<rparr>))
      | _ \<Rightarrow> (Err (CmdError ''invalid SET syntax''), ad))"

definition execute_cache_enable :: "bool \<Rightarrow> admin \<Rightarrow> cmd_result \<times> admin" where
  "execute_cache_enable enable ad = (case ad_cache ad of
       None \<Rightarrow> (Err (CmdError ''cache not initialized''), ad)
     | Some c \<Rightarrow> (Ok (''Query OK, cache '' @ (if enable then ''enabled'' else ''disabled'') @ newline),
         ad\<lparr>ad_cache := Some (cache_set_enabled enable c)\<rparr>))"

definition execute_cache_clear :: "admin \<Rightarrow> cmd_result \<times> admin" where
  "execute_cache_clear ad = (case ad_cache ad of
       None \<Rightarrow> (Err (CmdError ''cache not initialized''), ad)
     | Some c \<Rightarrow> (Ok (''Query OK, cache cleared'' @ newline), ad\<lparr>ad_cache := Some (cache_clear c)\<rparr>))"

text \<open>The dispatch of \<open>Execute\<close>: the first prefix of the upper-case command that fits.\<close>

definition execute :: "world \<Rightarrow> string \<Rightarrow> admin \<Rightarrow> cmd_result \<times> admin" where
  "execute w input ad =
     (let command = trim_space input; upper = to_upper command; starts = has_prefix upper in
      if starts ''SELECT * FROM AI_SERVERS'' then (execute_select_servers ad, ad)
      else if starts ''SELECT * FROM AI_USERS'' then (execute_select_users ad, ad)
      else if starts ''SELECT * FROM AI_ROUTING_RULES'' then (execute_select_rules ad, ad)
      else if starts ''SELECT * FROM GLOBAL_VARIABLES'' then (execute_select_variables w ad, ad)
      else if starts ''SELECT * FROM STATS_AI_SERVERS'' then (execute_select_server_stats w ad, ad)
      else if starts ''SELECT * FROM STATS_AI_REQUESTS'' then (execute_select_request_stats w ad, ad)
      else if starts ''SHOW PROCESSLIST'' then (execute_show_processlist w ad, ad)
      else if starts ''SHOW STATS'' then (execute_show_stats w ad, ad)
      else if starts ''SHOW HOSTGROUPS'' then (execute_show_hostgroups ad, ad)
      else if starts ''SHOW API KEYS'' then (execute_show_api_keys ad, ad)
      else if starts ''SHOW HEALTH STATUS'' then (execute_show_health_status w ad, ad)
      else if starts ''SHOW CACHE STATUS'' then (execute_show_cache_status ad, ad)
      else if starts ''CACHE ENABLE'' then execute_cache_enable True ad
      else if starts ''CACHE DISABLE'' then execute_cache_enable False ad
      else if starts ''CACHE CLEAR'' then execute_cache_clear ad
      else if starts ''LOAD AI SERVERS TO RUNTIME'' then execute_load_servers w ad
      else if starts ''LOAD AI ROUTING RULES TO RUNTIME'' then execute_load_rules w ad
      else if starts ''INSERT INTO AI_SERVERS'' then execute_insert_server w command ad
      else if starts ''DELETE FROM AI_SERVERS'' then execute_delete_server command ad
      else if starts ''SET '' then execute_set command ad
      else (Err (CmdError (''unknown command: '' @ command)), ad))"

subsection \<open>Quoted values survive the parser\<close>

definition sql_quote :: "string \<Rightarrow> string" where
  "sql_quote s = CHR 0x27 # s @ [CHR 0x27]"

lemma not_space_quote [simp]: "\<not> is_space (CHR 0x27)"
  by (simp add: is_space_def)

lemma trim_space_quoted [simp]: "trim_space (sql_quote s) = sql_quote s"
  by (simp add: trim_space_def sql_quote_def)

lemma unquote_quoted [simp]: "unquote (sql_quote s) = s"
  by (simp add: unquote_def Let_def) (simp add: sql_quote_def is_quote_def)

lemma csv_inside_quotes:
  "q \<notin> set s \<Longrightarrow> csv_loop (Some q) cur vals (s @ q # rest) = csv_loop None (cur @ s @ [q]) vals rest"
  by (induction s arbitrary: cur) auto

lemma csv_quoted:
  "CHR 0x27 \<notin> set s \<Longrightarrow>
     csv_loop None cur vals (sql_quote s @ rest) = csv_loop None (cur @ sql_quote s) vals rest"
  using csv_inside_quotes [of "CHR 0x27" s] by (simp add: sql_quote_def is_quote_def)

text \<open>A value without quotes and commas, such as a number.\<close>

lemma csv_plain:
  "list_all (\<lambda>c. \<not> is_quote c \<and> c \<noteq> CHR '','') s \<Longrightarrow>
     csv_loop None cur vals (s @ rest) = csv_loop None (cur @ s) vals rest"
  by (induction s arbitrary: cur) auto

lemma csv_comma [simp]:
  "csv_loop None cur vals (CHR '','' # s) = csv_loop None [] (vals @ [trim_space cur]) s"
  by (simp add: is_quote_def)

lemma csv_space [simp]:
  "csv_loop None cur vals (CHR '' '' # s) = csv_loop None (cur @ '' '') vals s"
  by (simp add: is_quote_def)

lemma trim_space_leading [simp]: "trim_space (CHR '' '' # s) = trim_space s"
  by (simp add: trim_space_def is_space_def)

lemma dec_digits_no_space: "list_all (\<lambda>c. \<not> is_space c \<and> \<not> is_quote c \<and> c \<noteq> CHR '','') (dec_digits n)"
proof -
  have "is_digit c \<Longrightarrow> \<not> is_space c \<and> \<not> is_quote c \<and> c \<noteq> CHR '',''" for c
    by (auto simp: is_digit_def is_space_def is_quote_def Let_def)
  then show ?thesis using dec_digits_digits [of n] by (auto simp: list_all_iff)
qed

lemma itoa_plain: "list_all (\<lambda>c. \<not> is_space c \<and> \<not> is_quote c \<and> c \<noteq> CHR '','') (itoa i) \<and> itoa i \<noteq> []"
  using dec_digits_no_space dec_digits_digits
  by (auto simp: itoa_def is_space_def is_quote_def Let_def)

lemma dropWhile_none: "list_all (\<lambda>c. \<not> P c) s \<Longrightarrow> dropWhile P s = s"
  by (cases s) auto

lemma trim_space_no_space: "list_all (\<lambda>c. \<not> is_space c) s \<Longrightarrow> trim_space s = s"
  using dropWhile_none [of is_space s] dropWhile_none [of is_space "rev s"]
  by (simp add: trim_space_def)

lemma trim_space_itoa [simp]: "trim_space (itoa i) = itoa i"
proof (rule trim_space_no_space)
  show "list_all (\<lambda>c. \<not> is_space c) (itoa i)"
    using conjunct1 [OF itoa_plain [of i]] by (rule list.pred_mono_strong) simp
qed

lemma takeWhile_digits: "takeWhile is_digit (dec_digits n) = dec_digits n"
  using dec_digits_digits [of n] by (simp add: takeWhile_eq_all_conv list_all_iff)

lemma sscan_itoa [simp]: "in64 i \<Longrightarrow> sscan_int (itoa i) = Some i"
proof -
  assume i: "in64 i"
  obtain c cs where d: "dec_digits (nat i) = c # cs" and c: "is_digit c"
    using dec_digits_digits [of "nat i"] by (cases "dec_digits (nat i)") auto
  then have "takeWhile is_digit (c # cs) = c # cs" "parse_dec (c # cs) = Some (nat i)"
    using takeWhile_digits [of "nat i"] parse_dec_digits [of "nat i"] by simp_all
  with i d is_digit_not_sign [OF c] show ?thesis
    by (cases "i < 0") (simp_all add: itoa_def sscan_int_def Let_def takeWhile_digits fit64_def)
qed

subsection \<open>What the statements do\<close>

lemma has_prefix_append_long: "length p \<le> length a \<Longrightarrow> has_prefix (a @ b) p = has_prefix a p"
  by (simp add: has_prefix_def)

lemma str_index_append: "str_index a p = Some i \<Longrightarrow> str_index (a @ b) p = Some i"
proof (induction a arbitrary: i)
  case Nil
  then show ?case by (cases b) (auto split: if_splits)
next
  case (Cons c a)
  have "has_prefix (c # a) p \<Longrightarrow> has_prefix (c # a @ b) p"
    by (metis append.assoc append_Cons has_prefix_iff)
  moreover have "str_index a p \<noteq> None" if "\<not> has_prefix (c # a) p" using Cons.prems that by auto
  moreover have "\<not> has_prefix (c # a @ b) p" if "\<not> has_prefix (c # a) p" "str_index a p \<noteq> None"
  proof -
    have "length p \<le> length a" using that(2)
    proof (induction a)
      case (Cons d a)
      then show ?case by (auto simp: has_prefix_def split: if_splits dest: arg_cong [of _ _ length])
    qed (auto split: if_splits)
    then show ?thesis using that(1) has_prefix_append_long [of p "c # a" b] by simp
  qed
  ultimately show ?case using Cons by (auto split: if_splits)
qed

lemma to_upper_append: "to_upper (a @ b) = to_upper a @ to_upper b"
  by (simp add: to_upper_def)

lemma trim_space_ends:
  "s \<noteq> [] \<Longrightarrow> \<not> is_space (hd s) \<Longrightarrow> \<not> is_space (last s) \<Longrightarrow> trim_space s = s"
proof -
  assume s: "s \<noteq> []" "\<not> is_space (hd s)" "\<not> is_space (last s)"
  then have "dropWhile is_space s = s" "dropWhile is_space (rev s) = rev s"
    by (cases s, simp_all add: hd_rev dropWhile_eq_self_iff)
  then show ?thesis by (simp add: trim_space_def)
qed

lemma trim_suffix_other: "s \<noteq> [] \<Longrightarrow> last s \<noteq> c \<Longrightarrow> trim_suffix s [c] = s"
proof -
  assume "s \<noteq> []" "last s \<noteq> c"
  then have "drop (length s - 1) s \<noteq> [c]"
    by (metis append_butlast_last_id append_eq_conv_conj length_butlast list.inject)
  then show ?thesis by (simp add: trim_suffix_def has_suffix_def)
qed

lemma csv_plain_end:
  "list_all (\<lambda>c. \<not> is_quote c \<and> c \<noteq> CHR '','') s \<Longrightarrow> cur @ s \<noteq> [] \<Longrightarrow>
     csv_loop None cur vals s = vals @ [trim_space (cur @ s)]"
  using csv_plain [of s cur vals "[]"] by simp

text \<open>
  The statement an operator types to add a server, and the row it stands for. The MySQL
  client passes it on as it is.
\<close>

definition insert_head :: string where
  "insert_head = ''INSERT INTO ai_servers (name, provider_type, endpoint, api_key_encrypted, hostgroup, weight) VALUES ''"

definition insert_values :: "string \<Rightarrow> string \<Rightarrow> string \<Rightarrow> string \<Rightarrow> i64 \<Rightarrow> i64 \<Rightarrow> string" where
  "insert_values name kind url key hg wt =
     sql_quote name @ '', '' @ sql_quote kind @ '', '' @ sql_quote url @ '', '' @ sql_quote key @
     '', '' @ itoa hg @ '', '' @ itoa wt"

definition inserted_row :: "string \<Rightarrow> string \<Rightarrow> string \<Rightarrow> string \<Rightarrow> i64 \<Rightarrow> i64 \<Rightarrow> server" where
  "inserted_row name kind url key hg wt = \<lparr>sv_id = 0, sv_name = name, sv_provider_type = kind,
     sv_endpoint = url, sv_api_key = key, sv_hostgroup = hg, sv_weight = wt,
     sv_max_connections = 100, sv_status = status_online, sv_comment = [],
     sv_created_at = time_zero, sv_updated_at = time_zero\<rparr>"

lemma parse_insert_values:
  assumes "list_all (\<lambda>s. CHR 0x27 \<notin> set s) [name, kind, url, key]"
  shows "parse_csv_values (insert_values name kind url key hg wt) =
     [sql_quote name, sql_quote kind, sql_quote url, sql_quote key, itoa hg, itoa wt]"
proof -
  have plain: "list_all (\<lambda>c. \<not> is_quote c \<and> c \<noteq> CHR '','') (itoa i)" for i
    using conjunct1 [OF itoa_plain [of i]] by (rule list.pred_mono_strong) simp
  show ?thesis using assms
    by (simp add: parse_csv_values_def insert_values_def csv_quoted csv_plain [OF plain]
      csv_plain_end [OF plain] del: csv_loop.simps(2))
qed

lemma last_itoa: "is_digit (last (itoa i))"
  using dec_digits_digits [of "nat i"] dec_digits_digits [of "nat (- i)"]
  by (auto simp: itoa_def list_all_iff)

lemma last_insert_values: "is_digit (last (insert_values name kind url key hg wt))"
  using last_itoa [of wt] itoa_plain [of wt] by (auto simp: insert_values_def)

lemma insert_part:
  fixes name kind url key hg wt w ad
  defines "v \<equiv> insert_values name kind url key hg wt"
  shows "trim_suffix (trim_suffix (trim_suffix (trim_prefix (trim_space ('' ('' @ v @ '')'')) ''('') '')'') '';'') '')'' = v"
proof -
  have v: "v \<noteq> []" "last v \<noteq> CHR '';''" "last v \<noteq> CHR '')''"
    using last_insert_values [of name kind url key hg wt]
    by (auto simp: v_def insert_values_def sql_quote_def is_digit_def)
  have "trim_space ('' ('' @ v @ '')'') = ''('' @ v @ '')''"
    using trim_space_ends [of "''('' @ v @ '')''"] by (simp add: is_space_def)
  then have "trim_prefix (trim_space ('' ('' @ v @ '')'')) ''('' = v @ '')''"
    using trim_prefix_append [of "''(''" "v @ '')''"] by simp
  then show ?thesis using v by (simp add: trim_suffix_other)
qed

lemmas command_heads = has_prefix_append_long to_upper_append

lemma insert_head_facts:
  "str_index (to_upper insert_head) ''VALUES'' = Some 93" "drop 99 insert_head = '' ''"
  "length insert_head = 100" "hd insert_head = CHR ''I''"
  by code_simp+


lemma insert_head_upper: "to_upper insert_head =
    ''INSERT INTO AI_SERVERS (NAME, PROVIDER_TYPE, ENDPOINT, API_KEY_ENCRYPTED, HOSTGROUP, WEIGHT) VALUES ''"
  by code_simp

lemma execute_insert_dispatch:
  assumes "rest \<noteq> []" and "\<not> is_space (last rest)"
  shows "execute w (insert_head @ rest) ad = execute_insert_server w (insert_head @ rest) ad"
proof -
  have "trim_space (insert_head @ rest) = insert_head @ rest"
    using assms by (intro trim_space_ends) (simp_all add: insert_head_def is_space_def)
  then show ?thesis
    by (simp add: execute_def Let_def command_heads insert_head_upper)
qed

text \<open>
  C36: The INSERT statement is parsed back into the row it was printed from. For any name,
  provider, endpoint and key without a single quote (commas, parentheses and spaces
  included) and any 64-bit hostgroup and weight, \<open>Execute\<close> runs exactly the storage insert
  of that row, reports success exactly when it succeeded, and changes nothing else.
\<close>

theorem insert_statement_inserts_row:
  fixes name kind url key hg wt w ad
  assumes "list_all (\<lambda>s. CHR 0x27 \<notin> set s) [name, kind, url, key]" and "in64 hg" and "in64 wt"
  defines "r \<equiv> execute w (insert_head @ ''('' @ insert_values name kind url key hg wt @ '')'') ad"
    and "s \<equiv> insert_server (wo_seal w) (wo_nonce w) (wo_now w) (inserted_row name kind url key hg wt)
      (ad_storage ad)"
  shows "snd r = ad\<lparr>ad_storage := snd s\<rparr> \<and> (is_Ok (fst r) \<longleftrightarrow> is_Ok (fst s))"
proof -
  let ?v = "insert_values name kind url key hg wt"
  have d: "r = execute_insert_server w (insert_head @ ''('' @ ?v @ '')'') ad"
    unfolding r_def by (rule execute_insert_dispatch) (simp_all add: is_space_def)
  have i: "str_index (to_upper (insert_head @ ''('' @ ?v @ '')'')) ''VALUES'' = Some 93"
    unfolding to_upper_append by (rule str_index_append [OF insert_head_facts(1)])
  have p: "drop (93 + 6) (insert_head @ ''('' @ ?v @ '')'') = '' ('' @ ?v @ '')''"
    by (simp add: insert_head_facts)
  have v: "statement_values (insert_head @ ''('' @ ?v @ '')'') =
      Some [sql_quote name, sql_quote kind, sql_quote url, sql_quote key, itoa hg, itoa wt]" (is "_ = Some ?vs")
    unfolding statement_values_def i option.map Let_def p insert_part
      parse_insert_values [OF assms(1)] by (rule refl)
  have row: "server_of_values ?vs = inserted_row name kind url key hg wt"
    using assms(2,3) by (simp add: server_of_values_def inserted_row_def value_or_def eval_nat_numeral)
  have name: "sv_name (inserted_row name kind url key hg wt) = name" by (simp add: inserted_row_def)
  have "execute_insert_server w (insert_head @ ''('' @ ?v @ '')'') ad =
     (case s of (Ok x, st) \<Rightarrow> (Ok (row_affected name ''added''), ad\<lparr>ad_storage := st\<rparr>)
        | (x, st) \<Rightarrow> (storage_failed x, ad\<lparr>ad_storage := st\<rparr>))"
    unfolding execute_insert_server_def v option.case row s_def name by simp
  then show ?thesis unfolding d
    by (auto simp: storage_failed_def split: prod.splits res.splits)
qed


definition empty_world :: world where
  "empty_world = \<lparr>wo_now = 0, wo_seal = (\<lambda>_ _ s. s), wo_nonce = None, wo_unseal = (\<lambda>_ _ s. Some s),
     wo_compile = literal_compiler, wo_slice = id, wo_server_names = [], wo_health_names = [],
     wo_variable_order = id, wo_recent = (\<lambda>_. True), wo_clock_text = (\<lambda>_. [])\<rparr>"

definition demo_admin :: "server list \<Rightarrow> admin" where
  "demo_admin servers = \<lparr>ad_config = default_settings,
     ad_storage = (empty_tables disabled_encryptor)\<lparr>st_servers := servers\<rparr>,
     ad_balancer = new_balancer None None, ad_health = new_checker 0 0, ad_router = new_router,
     ad_cache = Some (new_cache (get_cache_config default_settings)),
     ad_sessions = new_session_manager True,
     ad_auth = \<lparr>au_username = ''admin'', au_password_hash = ''hash'', au_generated_password = []\<rparr>\<rparr>"

theorem insert_statement_inserts_row_witness:
  "is_Ok (fst (execute empty_world (insert_head @ ''('' @
      insert_values ''a,(b)'' ''openai'' ''http://h:1'' ''k'' 3 (- 2) @ '')'') (demo_admin [])))"
proof -
  let ?s = "insert_server (wo_seal empty_world) (wo_nonce empty_world) (wo_now empty_world)
     (inserted_row ''a,(b)'' ''openai'' ''http://h:1'' ''k'' 3 (- 2)) (ad_storage (demo_admin []))"
  have "is_Ok (fst ?s)"
    by (simp add: insert_server_def demo_admin_def empty_tables_def encrypt_for_store_def encrypt_def
      inserted_row_def find_server_def Let_def)
  moreover have "is_Ok (fst (execute empty_world (insert_head @ ''('' @
      insert_values ''a,(b)'' ''openai'' ''http://h:1'' ''k'' 3 (- 2) @ '')'') (demo_admin []))) = is_Ok (fst ?s)"
    by (rule conjunct2 [OF insert_statement_inserts_row]) (simp_all add: in64_def)
  ultimately show ?thesis by simp
qed

subsection \<open>DELETE reads less than it is given\<close>

lemma str_index_byte: "c \<notin> set a \<Longrightarrow> str_index (a @ c # s) [c] = Some (length a)"
  by (induction a) auto

definition delete_head :: string where
  "delete_head = ''DELETE FROM ai_servers WHERE ''"

lemma delete_head_upper: "to_upper delete_head = ''DELETE FROM AI_SERVERS WHERE ''"
  by code_simp

lemma delete_head_facts:
  "str_index (to_upper delete_head) ''WHERE'' = Some 23" "drop 28 delete_head = '' ''"
  "length delete_head = 29"
  by code_simp+

lemma execute_delete_dispatch:
  assumes "rest \<noteq> []" and "\<not> is_space (last rest)"
  shows "execute w (delete_head @ rest) ad = execute_delete_server (delete_head @ rest) ad"
proof -
  have "trim_space (delete_head @ rest) = delete_head @ rest"
    using assms by (intro trim_space_ends) (simp_all add: delete_head_def is_space_def)
  then show ?thesis
    by (simp add: execute_def Let_def command_heads delete_head_upper)
qed

text \<open>
  The DELETE statement does not read its WHERE clause beyond the first equals sign. For
  every text \<open>a\<close> that contains "name" in any case and no equals sign, the clause
  \<open>a= 'n'\<close> deletes the server called \<open>n\<close>: so \<open>name != 'n'\<close> deletes exactly the server it
  was to keep, and \<open>rename_to = 'n'\<close> deletes by a column that does not exist.
\<close>

theorem delete_ignores_clause:
  assumes "CHR ''='' \<notin> set a" and "str_contains (to_upper a) ''NAME''" and "\<not> is_space (hd a)"
  shows "snd (execute w (delete_head @ a @ ''= '' @ sql_quote n) ad) =
     ad\<lparr>ad_storage := snd (delete_server n (ad_storage ad))\<rparr>"
proof -
  let ?c = "a @ ''= '' @ sql_quote n"
  have a: "a \<noteq> []" using assms(2) by (auto simp: str_contains_def to_upper_def)
  have d: "execute w (delete_head @ ?c) ad = execute_delete_server (delete_head @ ?c) ad"
    by (rule execute_delete_dispatch) (simp_all add: sql_quote_def)
  have i: "str_index (to_upper (delete_head @ ?c)) ''WHERE'' = Some 23"
    unfolding to_upper_append by (rule str_index_append [OF delete_head_facts(1)])
  have p: "drop (23 + 5) (delete_head @ ?c) = CHR '' '' # ?c" by (simp add: delete_head_facts)
  have q: "last ?c = CHR 0x27" by (simp add: sql_quote_def)
  have s: "trim_suffix (trim_space (CHR '' '' # ?c)) '';'' = ?c"
    using trim_space_ends [of ?c] trim_suffix_other [of ?c "CHR '';''"] a assms(3) q by simp
  obtain k where "str_index (to_upper a) ''NAME'' = Some k" using assms(2) by (auto simp: str_contains_def)
  then have n: "str_contains (to_upper ?c) ''NAME''"
    unfolding to_upper_append str_contains_def using str_index_append by fastforce
  have e: "split2 ?c ''='' = [a, CHR '' '' # sql_quote n]"
    using str_index_byte [OF assms(1), of "CHR '' '' # sql_quote n"] by (simp add: split2_def)
  show ?thesis unfolding d execute_delete_server_def i option.case Let_def p s e
    using n by (auto split: prod.splits res.splits)
qed

theorem delete_ignores_clause_witness:
  "st_servers (ad_storage (snd (execute empty_world
      (delete_head @ ''name !'' @ ''= '' @ sql_quote ''prod'')
      (demo_admin [inserted_row ''prod'' [] [] [] 0 1, inserted_row ''test'' [] [] [] 0 1]))))
    = [inserted_row ''test'' [] [] [] 0 1]"
proof -
  have "str_contains (to_upper ''name !'') ''NAME''" by code_simp
  then show ?thesis
    using delete_ignores_clause [of "''name !''" empty_world "''prod''"]
    by (simp add: is_space_def delete_server_def demo_admin_def empty_tables_def inserted_row_def)
qed

text \<open>A column name that does not contain NAME, or no clause at all, deletes nothing.\<close>

lemma delete_without_where:
  "str_index (to_upper c) ''WHERE'' = None \<Longrightarrow> snd (execute_delete_server c ad) = ad"
  by (simp add: execute_delete_server_def)

subsection \<open>Masking and shortening\<close>

lemma mask_short_key: "length key \<le> 8 \<Longrightarrow> admin_mask_api_key key = ''****''"
  by (simp add: admin_mask_api_key_def)

text \<open>A key of nine bytes is printed with all but one of them.\<close>

lemma mask_nine_byte_key:
  "length key = 9 \<Longrightarrow> admin_mask_api_key key = take 4 key @ ''...'' @ drop 5 key"
  by (simp add: admin_mask_api_key_def)

lemma length_truncate_text: "2 \<le> n \<Longrightarrow> length (truncate_text s n) \<le> n"
  by (simp add: truncate_text_def, linarith)

end
