(* ===== verification/Mindsql.thy ===== *)
theory Mindsql
  imports Admin
begin

section \<open>The command line client (cmd/mindsql/main.go)\<close>

text \<open>
  What \<open>mindsql\<close> prints for the result of a statement, and the interactive loop, which puts
  the lines of a statement together. The connection is a parameter: \<open>db.Query\<close> as a
  function on a state of its own. The line editor enters through what \<open>Prompt\<close> returns and
  the calls to \<open>AppendHistory\<close>.
\<close>

subsection \<open>Results of a statement\<close>

text \<open>
  A value that a row scans into an \<open>interface{}\<close>: nothing, bytes, or a value of another
  type, given by the text \<open>%v\<close> prints for it and the text it converts to.
\<close>

datatype cell = SqlNull | SqlBytes string | SqlOther string string

text \<open>Each row scans to values or to an error; \<open>Columns()\<close> may fail as well.\<close>

record result_set =
  rs_columns :: "string + string list"
  rs_rows :: "(string + cell list) list"

datatype console = Printed string | Complained string

type_synonym 'd database = "string \<Rightarrow> 'd \<Rightarrow> (string + result_set) \<times> 'd"

definition println :: "string \<Rightarrow> console" where
  "println s = Printed (s @ newline)"

definition complain :: "string \<Rightarrow> console" where
  "complain e = Complained (''ERROR: '' @ e @ newline)"

text \<open>\<open>rows.Scan\<close> wants as many destinations as there are columns.\<close>

definition scan_row :: "nat \<Rightarrow> string + cell list \<Rightarrow> string + cell list" where
  "scan_row n row = (case row of
       Inl e \<Rightarrow> Inl e
     | Inr cs \<Rightarrow> if length cs = n then Inr cs
         else Inl (''sql: expected '' @ itoa (int (length cs)) @ '' destination arguments in Scan, not '' @ itoa (int n)))"

definition scan_string :: "string + cell list \<Rightarrow> string + string" where
  "scan_string row = (case scan_row 1 row of
       Inl e \<Rightarrow> Inl e
     | Inr cs \<Rightarrow> (case hd cs of
           SqlNull \<Rightarrow> Inl ''sql: Scan error on column index 0, name \"result\": converting NULL to string is unsupported''
         | SqlBytes s \<Rightarrow> Inr s
         | SqlOther _ s \<Rightarrow> Inr s))"

subsection \<open>Tables\<close>

definition cell_text :: "cell \<Rightarrow> string" where
  "cell_text c = (case c of SqlNull \<Rightarrow> ''NULL'' | SqlBytes s \<Rightarrow> s | SqlOther s _ \<Rightarrow> s)"

text \<open>A row that does not scan is left out.\<close>

fun collect_rows :: "nat \<Rightarrow> (string + cell list) list \<Rightarrow> string list list" where
  "collect_rows n [] = []"
| "collect_rows n (r # rs) = (case scan_row n r of
       Inl _ \<Rightarrow> collect_rows n rs
     | Inr cs \<Rightarrow> List.map cell_text cs # collect_rows n rs)"

definition widen :: "string list \<Rightarrow> nat list \<Rightarrow> nat list" where
  "widen row ws = map2 (\<lambda>v w. if w < length v then length v else w) row ws"

definition column_widths :: "string list \<Rightarrow> string list list \<Rightarrow> nat list" where
  "column_widths columns rows = fold widen rows (List.map length columns)"

definition print_separator :: "nat list \<Rightarrow> string" where
  "print_separator ws = ''+'' @ concat (List.map (\<lambda>w. replicate (w + 2) CHR ''-'' @ ''+'') ws) @ newline"

definition print_row :: "string list \<Rightarrow> nat list \<Rightarrow> string" where
  "print_row vs ws = ''|'' @ concat (map2 (\<lambda>v w. '' '' @ pad_right w v @ '' |'') vs ws) @ newline"

definition table_lines :: "string list \<Rightarrow> string list list \<Rightarrow> string list" where
  "table_lines columns rows = (let ws = column_widths columns rows in
     [print_separator ws, print_row columns ws, print_separator ws]
     @ List.map (\<lambda>row. print_row row ws) rows @ [print_separator ws])"

definition print_tabular_results :: "(string + cell list) list \<Rightarrow> string list \<Rightarrow> console list" where
  "print_tabular_results rows columns = (let all_rows = collect_rows (length columns) rows in
     List.map Printed (table_lines columns all_rows)
     @ [println (itoa (int (length all_rows)) @ '' rows in set'')])"

text \<open>A raw result ends at the first row that does not scan.\<close>

fun print_raw :: "(string + cell list) list \<Rightarrow> console list" where
  "print_raw [] = []"
| "print_raw (r # rs) = (case scan_string r of
       Inl e \<Rightarrow> [complain e]
     | Inr s \<Rightarrow> println s # print_raw rs)"

subsection \<open>Executing a command\<close>

definition arrow_up :: string where "arrow_up = [CHR 0xE2, CHR 0x86, CHR 0x91]"
definition arrow_down :: string where "arrow_down = [CHR 0xE2, CHR 0x86, CHR 0x93]"

definition help_lines :: "string list" where
  "help_lines =
    [[],
     ''MindBalancer Admin Commands'',
     ''==========================='',
     [],
     ''Server Management:'',
     ''  SELECT * FROM ai_servers;           - List all servers'',
     ''  INSERT INTO ai_servers (name, provider_type, endpoint, api_key_encrypted, hostgroup, weight)'',
     ''    VALUES ('' @ sql_quote ''name'' @ '', '' @ sql_quote ''openai'' @ '', '' @ sql_quote ''https://...'' @ '', ''
       @ sql_quote ''sk-xxx'' @ '', 0, 1);'',
     ''  DELETE FROM ai_servers WHERE name = '' @ sql_quote ''xxx'' @ '';'',
     ''  LOAD AI SERVERS TO RUNTIME;         - Apply server changes'',
     [],
     ''User Management:'',
     ''  SELECT * FROM ai_users;             - List all users'',
     ''  LOAD AI USERS TO RUNTIME;           - Apply user changes'',
     [],
     ''Routing Rules:'',
     ''  SELECT * FROM ai_routing_rules;     - List routing rules'',
     ''  LOAD AI ROUTING RULES TO RUNTIME;   - Apply rule changes'',
     [],
     ''Configuration:'',
     ''  SELECT * FROM global_variables;     - Show all variables'',
     ''  SET variable-name = value;          - Set a variable'',
     [],
     ''Statistics & Monitoring:'',
     ''  SELECT * FROM stats_ai_servers;     - Server statistics'',
     ''  SELECT * FROM stats_ai_requests;    - Recent requests'',
     ''  SHOW PROCESSLIST;                   - Active connections'',
     ''  SHOW STATS;                         - Summary statistics'',
     ''  SHOW HOSTGROUPS;                    - Hostgroup overview'',
     ''  SHOW API KEYS;                      - Show API keys (masked)'',
     ''  SHOW HEALTH STATUS;                 - Server health status'',
     [],
     ''Shortcuts:'',
     ''  '' @ arrow_up @ ''/'' @ arrow_down @ ''        - Navigate command history'',
     ''  Tab        - Auto-complete commands'',
     ''  Ctrl+C     - Cancel current input'',
     ''  '' @ [CHR 0x5C] @ ''h, help   - Show this help'',
     ''  '' @ [CHR 0x5C] @ ''q, quit   - Exit mindsql'',
     ''  '' @ [CHR 0x5C] @ ''c, clear  - Clear current command'',
     ''  '' @ [CHR 0x5C] @ ''s, status - Show connection status'']"

definition print_help :: "console list" where
  "print_help = [Printed (concat (List.map (\<lambda>l. l @ newline) help_lines))]"

definition quit_words :: "string list" where "quit_words = [''QUIT'', ''EXIT'', CHR 0x5C # ''Q'']"
definition help_words :: "string list" where "help_words = [''HELP'', CHR 0x5C # ''H'']"
definition clear_words :: "string list" where "clear_words = [''CLEAR'', CHR 0x5C # ''C'']"
definition status_words :: "string list" where "status_words = [''STATUS'', CHR 0x5C # ''S'']"

definition print_results :: "result_set \<Rightarrow> console list" where
  "print_results rs = (case rs_columns rs of
       Inl e \<Rightarrow> [complain e]
     | Inr columns \<Rightarrow>
         if length columns = 1 \<and> hd columns = ''result'' then print_raw (rs_rows rs)
         else print_tabular_results (rs_rows rs) columns)"

definition execute_command :: "'d database \<Rightarrow> string \<Rightarrow> 'd \<Rightarrow> console list \<times> 'd" where
  "execute_command query input d =
     (let command = trim_space input; upper = to_upper command in
      if command = [] then ([], d)
      else if upper \<in> set quit_words then ([], d)
      else if upper \<in> set help_words then (print_help, d)
      else case query command d of
          (Inl e, d') \<Rightarrow> ([complain e], d')
        | (Inr rs, d') \<Rightarrow> (print_results rs, d'))"

text \<open>The rows that do not scan are skipped, as is an error of the query.\<close>

definition dashes :: console where "dashes = println (replicate 14 CHR ''-'')"

definition show_status :: "'d database \<Rightarrow> 'd \<Rightarrow> console list \<times> 'd" where
  "show_status query d =
     (let (r, d') = query ''SHOW STATS'' d;
          shown = (case r of Inl _ \<Rightarrow> []
            | Inr rs \<Rightarrow> concat (List.map (\<lambda>row. case scan_string row of Inr s \<Rightarrow> [println s] | Inl _ \<Rightarrow> []) (rs_rows rs)))
      in ([dashes, println ''mindsql - MindBalancer Admin CLI'', dashes] @ shown @ [dashes], d'))"

subsection \<open>The interactive loop\<close>

datatype prompt_result = PromptLine string | PromptAborted | PromptFailed

text \<open>
  The state of the loop: the database, the command buffer, the entries given to
  \<open>AppendHistory\<close>, what was printed, and whether the loop was left.
\<close>

record 'd repl_session =
  se_db :: 'd
  se_buffer :: string
  se_history :: "string list"
  se_output :: "console list"
  se_left :: bool

definition greeting :: "console list" where
  "greeting = [println ''Welcome to mindsql - MindBalancer Admin CLI'',
     println (''Type '' @ sql_quote ''help'' @ '' for available commands, '' @ sql_quote ''quit'' @ '' to exit.''), println []]"

definition new_repl :: "'d \<Rightarrow> 'd repl_session" where
  "new_repl d = \<lparr>se_db = d, se_buffer = [], se_history = [], se_output = greeting, se_left = False\<rparr>"

definition shown_prompt :: "'d repl_session \<Rightarrow> string" where
  "shown_prompt s = (if se_buffer s \<noteq> [] then ''      -> '' else ''mindsql> '')"

definition special_commands :: "string list" where
  "special_commands = [''SHOW PROCESSLIST'', ''SHOW STATS'', ''SHOW HOSTGROUPS'', ''SHOW API KEYS'',
     ''SHOW HEALTH STATUS'', ''SHUTDOWN'', ''FLUSH LOGS'']"

definition is_special_command :: "string \<Rightarrow> bool" where
  "is_special_command cmd = list_ex (has_prefix (to_upper (trim_space cmd))) special_commands"

definition statement_complete :: "string \<Rightarrow> bool" where
  "statement_complete cmd \<longleftrightarrow> has_suffix cmd '';'' \<or> is_special_command cmd"

definition say :: "console list \<Rightarrow> 'd repl_session \<Rightarrow> 'd repl_session" where
  "say out s = s\<lparr>se_output := se_output s @ out\<rparr>"

definition remember :: "string \<Rightarrow> 'd repl_session \<Rightarrow> 'd repl_session" where
  "remember entry s = s\<lparr>se_history := se_history s @ [entry]\<rparr>"

definition run_statement :: "'d database \<Rightarrow> string \<Rightarrow> 'd repl_session \<Rightarrow> 'd repl_session" where
  "run_statement query cmd s = (let (out, d) = execute_command query cmd (se_db s) in (say out s)\<lparr>se_db := d\<rparr>)"

text \<open>A line that is no word of its own goes to the buffer, which may complete a statement.\<close>

definition accumulate :: "'d database \<Rightarrow> string \<Rightarrow> 'd repl_session \<Rightarrow> 'd repl_session" where
  "accumulate query input s =
     (let cmd = se_buffer s @ (if se_buffer s \<noteq> [] then '' '' else []) @ input in
      if statement_complete cmd
      then (run_statement query (trim_suffix cmd '';'') (remember cmd s))\<lparr>se_buffer := []\<rparr>
      else s\<lparr>se_buffer := cmd\<rparr>)"

definition take_line :: "'d database \<Rightarrow> string \<Rightarrow> 'd repl_session \<Rightarrow> 'd repl_session" where
  "take_line query line s =
     (let input = trim_space line; upper = to_upper input in
      if input = [] then s
      else if upper \<in> set quit_words then (say [println ''Bye''] s)\<lparr>se_left := True\<rparr>
      else if upper \<in> set help_words then remember input (say print_help s)
      else if upper \<in> set clear_words then s\<lparr>se_buffer := []\<rparr>
      else if upper \<in> set status_words then
        (let (out, d) = show_status query (se_db s) in remember input ((say out s)\<lparr>se_db := d\<rparr>))
      else accumulate query input s)"

definition prompted :: "'d database \<Rightarrow> prompt_result \<Rightarrow> 'd repl_session \<Rightarrow> 'd repl_session" where
  "prompted query r s = (if se_left s then s else case r of
       PromptLine line \<Rightarrow> take_line query line s
     | PromptAborted \<Rightarrow>
         if se_buffer s \<noteq> [] then say [println []] (s\<lparr>se_buffer := []\<rparr>)
         else (say [println ''Bye''] s)\<lparr>se_left := True\<rparr>
     | PromptFailed \<Rightarrow> s\<lparr>se_left := True\<rparr>)"

definition run_interactive :: "'d database \<Rightarrow> prompt_result list \<Rightarrow> 'd \<Rightarrow> 'd repl_session" where
  "run_interactive query rs d = fold (prompted query) rs (new_repl d)"

text \<open>Completion of what is typed so far.\<close>

definition completions :: "string list" where
  "completions =
    [''SELECT * FROM ai_servers;'', ''SELECT * FROM ai_users;'', ''SELECT * FROM ai_routing_rules;'',
     ''SELECT * FROM global_variables;'', ''SELECT * FROM stats_ai_servers;'', ''SELECT * FROM stats_ai_requests;'',
     ''SHOW PROCESSLIST;'', ''SHOW STATS;'', ''SHOW HOSTGROUPS;'', ''SHOW API KEYS;'', ''SHOW HEALTH STATUS;'',
     ''LOAD AI SERVERS TO RUNTIME;'', ''LOAD AI ROUTING RULES TO RUNTIME;'', ''INSERT INTO ai_servers'',
     ''DELETE FROM ai_servers WHERE name = '', ''quit'', ''help'']"

definition complete_line :: "string \<Rightarrow> string list" where
  "complete_line line = filter (\<lambda>cmd. has_prefix (to_lower cmd) (to_lower line)) completions"

subsection \<open>The program\<close>

text \<open>
  \<open>filepath.Clean\<close> and \<open>filepath.Join\<close>: empty and \<open>.\<close> elements go, \<open>..\<close> takes the element
  before it with it.
\<close>

fun clean_elements :: "bool \<Rightarrow> string list \<Rightarrow> string list \<Rightarrow> string list" where
  "clean_elements rooted acc [] = rev acc"
| "clean_elements rooted acc (x # xs) =
     (if x = [] \<or> x = ''.'' then clean_elements rooted acc xs
      else if x = ''..'' then
        (case acc of
           [] \<Rightarrow> clean_elements rooted (if rooted then [] else [x]) xs
         | a # as \<Rightarrow> clean_elements rooted (if a = ''..'' then x # acc else as) xs)
      else clean_elements rooted (x # acc) xs)"

definition join_with :: "string \<Rightarrow> string list \<Rightarrow> string" where
  "join_with sep ss = (case ss of [] \<Rightarrow> [] | x # xs \<Rightarrow> x @ concat (List.map (\<lambda>y. sep @ y) xs))"

definition path_clean :: "string \<Rightarrow> string" where
  "path_clean s = (let rooted = has_prefix s ''/'';
       p = (if rooted then ''/'' else []) @ join_with ''/'' (clean_elements rooted [] (split_on CHR ''/'' s))
     in if p = [] then ''.'' else p)"

definition path_join :: "string list \<Rightarrow> string" where
  "path_join ps = (let qs = filter (\<lambda>p. p \<noteq> []) ps in if qs = [] then [] else path_clean (join_with ''/'' qs))"

definition get_history_file :: "string + string \<Rightarrow> string" where
  "get_history_file home = (case home of
       Inl _ \<Rightarrow> ''.mindsql_history''
     | Inr h \<Rightarrow> path_join [h, ''.mindsql_history''])"

text \<open>The command line, as \<open>flag.Parse\<close> leaves it.\<close>

record mindsql_options =
  mo_host :: string
  mo_port :: i64
  mo_user :: string
  mo_password :: string
  mo_execute :: string
  mo_version :: bool

definition default_options :: mindsql_options where
  "default_options = \<lparr>mo_host = ''127.0.0.1'', mo_port = 6032, mo_user = ''admin'', mo_password = [],
     mo_execute = [], mo_version = False\<rparr>"

definition data_source_name :: "mindsql_options \<Rightarrow> string" where
  "data_source_name mo = mo_user mo @ '':'' @ mo_password mo @ ''@tcp('' @ mo_host mo @ '':'' @ itoa (mo_port mo) @ '')/''"

text \<open>
  How the program ends: with an exit code and what it printed, or with the session of the
  interactive loop. Opening and pinging the database are parameters.
\<close>

datatype 'd ending = Exited nat "console list" 'd | Interactive "'d repl_session"

definition mindsql_main :: "string \<Rightarrow> string \<Rightarrow> (string \<Rightarrow> string option) \<Rightarrow> (string \<Rightarrow> string option) \<Rightarrow> 'd database
    \<Rightarrow> prompt_result list \<Rightarrow> mindsql_options \<Rightarrow> 'd \<Rightarrow> 'd ending" where
  "mindsql_main version built open_db ping query prompts mo d =
     (let dsn = data_source_name mo in
      if mo_version mo then Exited 0 [println (''mindsql '' @ version @ '' (built '' @ built @ '')'')] d
      else case open_db dsn of
        Some e \<Rightarrow> Exited 1 [Complained (''Failed to connect: '' @ e @ newline)] d
      | None \<Rightarrow> (case ping dsn of
          Some e \<Rightarrow> Exited 1 [Complained (''Connection failed: '' @ e @ newline)] d
        | None \<Rightarrow>
            if mo_execute mo \<noteq> [] then (let (out, d') = execute_command query (mo_execute mo) d in Exited 0 out d')
            else Interactive (run_interactive query prompts d)))"

subsection \<open>Tables are rectangular\<close>

lemma length_widen [simp]: "length (widen row ws) = min (length row) (length ws)"
  by (simp add: widen_def)

lemma collect_rows_length: "row \<in> set (collect_rows n rs) \<Longrightarrow> length row = n"
  by (induction n rs rule: collect_rows.induct) (auto simp: scan_row_def split: sum.splits if_splits)

text \<open>A column is as wide as its heading and as each of its values, in bytes.\<close>

definition covers :: "nat list \<Rightarrow> string list \<Rightarrow> bool" where
  "covers ws row \<longleftrightarrow> list_all2 (\<lambda>w v. length v \<le> w) ws row"

lemma widen_covers:
  assumes "length row = length ws"
  shows "covers (widen row ws) row" and "covers ws row' \<Longrightarrow> covers (widen row ws) row'"
  using assms by (fastforce simp: covers_def widen_def list_all2_conv_all_nth)+

lemma fold_widen_covers:
  assumes "\<And>row. row \<in> set rows \<Longrightarrow> length row = length ws"
  shows "covers ws r \<Longrightarrow> covers (fold widen rows ws) r" and "row \<in> set rows \<Longrightarrow> covers (fold widen rows ws) row"
proof -
  have "(covers ws r \<longrightarrow> covers (fold widen rows ws) r) \<and> (row \<in> set rows \<longrightarrow> covers (fold widen rows ws) row)" for r row
    using assms
  proof (induction rows arbitrary: ws r)
    case (Cons x rows)
    then have len: "length x = length ws" by simp
    with Cons.prems have "\<And>row. row \<in> set rows \<Longrightarrow> length row = length (widen x ws)" by simp
    from Cons.IH [OF this, where r = r] Cons.IH [OF this, where r = x] widen_covers [OF len]
    show ?case by auto
  qed simp
  then show "covers ws r \<Longrightarrow> covers (fold widen rows ws) r" and "row \<in> set rows \<Longrightarrow> covers (fold widen rows ws) row" by blast+
qed

lemma rune_count_separator: "rune_count (print_separator ws) = sum_list (List.map (\<lambda>w. w + 3) ws) + 2"
proof -
  have "length (concat (List.map (\<lambda>w. replicate (w + 2) CHR ''-'' @ ''+'') ws)) = sum_list (List.map (\<lambda>w. w + 3) ws)"
    by (induction ws) simp_all
  then show ?thesis
    by (subst rune_count_ascii) (auto simp: print_separator_def list_all_iff)
qed

lemma rune_count_row:
  "covers ws vs \<Longrightarrow> rune_count (print_row vs ws) = sum_list (List.map (\<lambda>w. w + 3) ws) + 2"
proof -
  let ?cells = "\<lambda>vs ws. concat (map2 (\<lambda>v w. '' '' @ pad_right w v @ '' |'') vs ws) @ newline"
  have "rune_count (?cells vs ws) = sum_list (List.map (\<lambda>w. w + 3) ws) + 1" if "covers ws vs"
    using that unfolding covers_def
  proof (induction rule: list_all2_induct)
    case (Cons w ws v vs)
    have "rune_count (pad_right w v) = w" using Cons.hyps(1) rune_count_le [of v] by (intro rune_count_padded) simp
    moreover have "rune_count (pad_right w v @ CHR '' '' # CHR ''|'' # ?cells vs ws)
        = rune_count (pad_right w v) + (rune_count (?cells vs ws) + 2)"
      by (subst rune_count_append) simp_all
    ultimately show ?case using Cons.IH by simp
  qed simp
  then show "covers ws vs \<Longrightarrow> ?thesis" by (simp add: print_row_def)
qed

text \<open>
  A result is printed as a rectangle: whatever the columns are called and whatever the
  rows hold, every line of the table has the same number of runes, even though the widths
  are counted in bytes and the padding in runes.\<close>

theorem table_is_rectangular:
  "list_all (\<lambda>l. rune_count l = rune_count (print_separator (column_widths columns (collect_rows (length columns) rows))))
     (table_lines columns (collect_rows (length columns) rows))"
proof -
  let ?rows = "collect_rows (length columns) rows"
  let ?ws = "column_widths columns ?rows"
  have "covers (List.map length columns) columns" by (simp add: covers_def list_all2_conv_all_nth)
  then have "covers ?ws columns \<and> (\<forall>row \<in> set ?rows. covers ?ws row)"
    using fold_widen_covers [of ?rows "List.map length columns"]
    by (simp add: column_widths_def collect_rows_length)
  then show ?thesis by (simp add: table_lines_def Let_def list_all_iff rune_count_row rune_count_separator)
qed

subsection \<open>Statements over several lines\<close>

definition spaced :: "string list \<Rightarrow> string" where
  "spaced ws = concat (List.map (\<lambda>w. '' '' @ w) ws)"

definition is_word :: "string \<Rightarrow> bool" where
  "is_word s \<longleftrightarrow> to_upper s \<in> set (quit_words @ help_words @ clear_words @ status_words)"

text \<open>What was typed and not printed away: the finished statements and the one begun.\<close>

definition typed :: "'d repl_session \<Rightarrow> string list" where
  "typed s = se_history s @ (if se_buffer s = [] then [] else [se_buffer s])"

text \<open>
  A finished statement ends in a semicolon or begins, in any case, with one of the commands
  that need none. Of the finished statements the database is to be asked those that say
  something without their semicolon and the blanks around it, save for the words with which
  the client is left and its help printed.
\<close>

definition finished :: "string \<Rightarrow> bool" where
  "finished q \<longleftrightarrow> (q \<noteq> [] \<and> last q = CHR '';'') \<or> (\<exists>c \<in> {''SHOW PROCESSLIST'', ''SHOW STATS'', ''SHOW HOSTGROUPS'',
     ''SHOW API KEYS'', ''SHOW HEALTH STATUS'', ''SHUTDOWN'', ''FLUSH LOGS''}. take (length c) (to_upper (trim_space q)) = c)"

definition asked :: "string list \<Rightarrow> string list" where
  "asked qs = filter (\<lambda>q. q \<noteq> [] \<and> to_upper q \<notin> {''QUIT'', ''EXIT'', CHR 0x5C # ''Q'', ''HELP'', CHR 0x5C # ''H''})
     (map (\<lambda>q. trim_space (if q \<noteq> [] \<and> last q = CHR '';'' then butlast q else q)) qs)"

definition executes :: "'d database \<Rightarrow> string \<Rightarrow> 'd \<Rightarrow> 'd" where
  "executes query q d = snd (execute_command query (trim_suffix q '';'') d)"

lemma spaced_append [simp]: "spaced [] = []" "spaced (xs @ ys) = spaced xs @ spaced ys" "spaced [x] = '' '' @ x"
  by (simp_all add: spaced_def)

lemma not_complete_empty: "\<not> statement_complete []"
  by (simp add: statement_complete_def is_special_command_def has_suffix_def special_commands_def trim_space_def to_upper_def)

lemma accumulate_step:
  assumes "input \<noteq> []"
  shows "spaced (typed (accumulate query input s)) = spaced (typed s @ [input])"
    and "\<exists>new. se_history (accumulate query input s) = se_history s @ new \<and> list_all statement_complete new
       \<and> se_db (accumulate query input s) = fold (executes query) new (se_db s)"
    and "\<not> statement_complete (se_buffer (accumulate query input s))"
    and "se_left (accumulate query input s) = se_left s"
proof -
  let ?cmd = "se_buffer s @ (if se_buffer s \<noteq> [] then '' '' else []) @ input"
  obtain out d where run: "execute_command query (trim_suffix ?cmd '';'') (se_db s) = (out, d)" by fastforce
  have acc: "accumulate query input s = (if statement_complete ?cmd
      then s\<lparr>se_history := se_history s @ [?cmd], se_output := se_output s @ out, se_db := d, se_buffer := []\<rparr>
      else s\<lparr>se_buffer := ?cmd\<rparr>)"
    using run by (simp add: accumulate_def Let_def run_statement_def say_def remember_def)
  show "spaced (typed (accumulate query input s)) = spaced (typed s @ [input])"
    using assms by (simp add: acc typed_def)
  show "\<exists>new. se_history (accumulate query input s) = se_history s @ new \<and> list_all statement_complete new
       \<and> se_db (accumulate query input s) = fold (executes query) new (se_db s)"
  proof (cases "statement_complete ?cmd")
    case True
    then show ?thesis using run by (intro exI [of _ "[?cmd]"]) (simp add: acc executes_def)
  next
    case False
    then show ?thesis by (intro exI [of _ "[]"]) (simp add: acc)
  qed
  show "\<not> statement_complete (se_buffer (accumulate query input s))" by (simp add: acc not_complete_empty)
  show "se_left (accumulate query input s) = se_left s" by (simp add: acc)
qed

lemma typed_line:
  assumes "\<not> is_word (trim_space line)" and "\<not> se_left s"
  shows "prompted query (PromptLine line) s = (if trim_space line = [] then s else accumulate query (trim_space line) s)"
  using assms by (simp add: prompted_def take_line_def is_word_def Let_def)

lemma typed_lines:
  assumes "\<forall>l \<in> set ls. \<not> is_word (trim_space l)" and "\<not> se_left s" and "\<not> statement_complete (se_buffer s)"
  shows "\<exists>new. let t = fold (prompted query) (List.map PromptLine ls) s in
      spaced (typed t) = spaced (typed s @ filter (\<lambda>l. l \<noteq> []) (List.map trim_space ls))
      \<and> se_history t = se_history s @ new \<and> list_all statement_complete new
      \<and> se_db t = fold (executes query) new (se_db s)
      \<and> \<not> statement_complete (se_buffer t) \<and> \<not> se_left t"
  using assms
proof (induction ls rule: rev_induct)
  case Nil
  then show ?case by (auto intro: exI [of _ "[]"])
next
  case (snoc l ls)
  let ?t = "fold (prompted query) (List.map PromptLine ls) s"
  from snoc obtain new where t: "spaced (typed ?t) = spaced (typed s @ filter (\<lambda>l. l \<noteq> []) (List.map trim_space ls))"
    "se_history ?t = se_history s @ new" "list_all statement_complete new" "se_db ?t = fold (executes query) new (se_db s)"
    "\<not> statement_complete (se_buffer ?t)" "\<not> se_left ?t" by (auto simp: Let_def)
  have line: "prompted query (PromptLine l) ?t = (if trim_space l = [] then ?t else accumulate query (trim_space l) ?t)"
    using snoc.prems(1) t(6) by (intro typed_line) auto
  show ?case
  proof (cases "trim_space l = []")
    case True
    with line t show ?thesis by (auto simp: Let_def intro: exI [of _ new])
  next
    case False
    note step = accumulate_step [OF this, of query ?t]
    obtain more where "se_history (accumulate query (trim_space l) ?t) = se_history ?t @ more" "list_all statement_complete more"
      "se_db (accumulate query (trim_space l) ?t) = fold (executes query) more (se_db ?t)" using step(2) by blast
    moreover have "spaced (typed ?t @ [trim_space l])
        = spaced (typed s @ filter (\<lambda>l. l \<noteq> []) (List.map trim_space (ls @ [l])))"
      using t(1) False by simp
    ultimately show ?thesis using line False t step(1,3,4)
      by (auto simp: Let_def intro: exI [of _ "new @ more"])
  qed
qed

lemma last_char: "has_suffix q [c] \<longleftrightarrow> q \<noteq> [] \<and> last q = c"
  by (cases q rule: rev_cases) (simp_all add: has_suffix_def)

lemma statement_complete_finished: "statement_complete q = finished q"
  by (auto simp: statement_complete_def finished_def last_char is_special_command_def special_commands_def has_prefix_def)

lemma trim_semicolon: "trim_suffix q '';'' = (if q \<noteq> [] \<and> last q = CHR '';'' then butlast q else q)"
  by (simp add: trim_suffix_def last_char butlast_conv_take)

lemma executes_asked: "fold (executes query) qs d = fold (\<lambda>q d. snd (query q d)) (asked qs) d"
proof (induction qs arbitrary: d)
  case (Cons q qs)
  then show ?case
    by (simp add: asked_def executes_def execute_command_def trim_semicolon [symmetric] Let_def quit_words_def
      help_words_def split: prod.split sum.split)
qed (simp add: asked_def)

text \<open>
  C39: The loop puts statements together and loses nothing: of lines none of which is a word
  of its own (quit, help, clear, status), the finished statements and the begun one are the
  lines that are not blank, trimmed, in their order, each in exactly one of them; the finished
  ones, and only those, end in a semicolon or are special commands; and the database has been
  asked each of them once, trimmed and without its semicolon, in their order, and nothing
  else. Only those that are then empty or a word for leaving or help never reach it
  (\<open>;\<close>, \<open>quit;\<close>, \<open>help;\<close>): they are finished statements too, and leave the loop where it is.
\<close>

theorem statements_put_together:
  assumes "\<forall>l \<in> set ls. \<not> is_word (trim_space l)"
  shows "let t = run_interactive query (List.map PromptLine ls) d in
      spaced (typed t) = spaced (filter (\<lambda>l. l \<noteq> []) (List.map trim_space ls))
      \<and> list_all finished (se_history t) \<and> \<not> finished (se_buffer t)
      \<and> se_db t = fold (\<lambda>q d. snd (query q d)) (asked (se_history t)) d \<and> \<not> se_left t"
proof -
  have "\<not> se_left (new_repl d)" "\<not> statement_complete (se_buffer (new_repl d))"
    "se_history (new_repl d) = []" "typed (new_repl d) = []" "se_db (new_repl d) = d"
    by (simp_all add: new_repl_def typed_def not_complete_empty)
  moreover have "statement_complete = finished" by (rule ext) (rule statement_complete_finished)
  ultimately show ?thesis
    using typed_lines [OF assms, of "new_repl d" query]
    by (auto simp: run_interactive_def Let_def executes_asked)
qed

text \<open>A database that remembers what it was asked.\<close>

definition log_database :: "string list database" where
  "log_database q d = (Inl [], d @ [q])"

lemma log_database_log: "fold (\<lambda>q d. snd (log_database q d)) qs d = d @ qs"
  by (induction qs arbitrary: d) (simp_all add: log_database_def)

theorem statements_put_together_witness:
  "let t = run_interactive log_database (List.map PromptLine [''  SELECT *'', [], ''FROM ai_users;'', ''quit;'', ''SELECT'']) []
   in spaced (typed t) = '' SELECT * FROM ai_users; quit; SELECT'' \<and> se_db t = [''SELECT * FROM ai_users''] \<and> \<not> se_left t"
proof -
  let ?ls = "[''  SELECT *'', [], ''FROM ai_users;'', ''quit;'', ''SELECT'']"
  have lines: "List.map trim_space ?ls = [''SELECT *'', [], ''FROM ai_users;'', ''quit;'', ''SELECT'']" by code_simp
  then have "\<forall>l \<in> set ?ls. \<not> is_word (trim_space l)"
    by (simp add: is_word_def quit_words_def help_words_def clear_words_def status_words_def to_upper_def byte_upper_def)
  moreover have "se_history (run_interactive log_database (List.map PromptLine ?ls) []) = [''SELECT * FROM ai_users;'', ''quit;'']"
    "asked [''SELECT * FROM ai_users;'', ''quit;''] = [''SELECT * FROM ai_users'']" by code_simp+
  ultimately show ?thesis
    using statements_put_together [of ?ls log_database "[]"] lines
    by (simp add: Let_def spaced_def log_database_log)
qed

subsection \<open>What the client and the server disagree about\<close>

text \<open>
  With a semicolon, as every other command of the help is written, \<open>quit\<close> is a statement,
  which executes as nothing: the loop goes on.\<close>

lemma quit_with_semicolon_stays:
  "run_interactive query [PromptLine ''quit;''] d = (new_repl d)\<lparr>se_history := [''quit;'']\<rparr>"
proof -
  have "trim_space ''quit;'' = ''quit;''" "trim_space ''quit'' = ''quit''" "to_upper ''quit;'' = ''QUIT;''" "to_upper ''quit'' = ''QUIT''"
    by code_simp+
  then show ?thesis
    by (simp add: run_interactive_def prompted_def new_repl_def take_line_def accumulate_def Let_def quit_words_def
        help_words_def clear_words_def status_words_def statement_complete_def has_suffix_def trim_suffix_def
        run_statement_def execute_command_def remember_def say_def)
qed

text \<open>A statement of the help, and two commands that the client takes for complete, are unknown to the server.\<close>

lemma unknown_to_server:
  "execute w ''LOAD AI USERS TO RUNTIME'' ad = (Err (CmdError ''unknown command: LOAD AI USERS TO RUNTIME''), ad)"
  "execute w ''SHUTDOWN'' ad = (Err (CmdError ''unknown command: SHUTDOWN''), ad)"
  "execute w ''FLUSH LOGS'' ad = (Err (CmdError ''unknown command: FLUSH LOGS''), ad)"
proof -
  have "trim_space ''LOAD AI USERS TO RUNTIME'' = ''LOAD AI USERS TO RUNTIME''"
    "to_upper ''LOAD AI USERS TO RUNTIME'' = ''LOAD AI USERS TO RUNTIME''"
    "trim_space ''SHUTDOWN'' = ''SHUTDOWN''" "to_upper ''SHUTDOWN'' = ''SHUTDOWN''"
    "trim_space ''FLUSH LOGS'' = ''FLUSH LOGS''" "to_upper ''FLUSH LOGS'' = ''FLUSH LOGS''"
    by code_simp+
  then show "execute w ''LOAD AI USERS TO RUNTIME'' ad = (Err (CmdError ''unknown command: LOAD AI USERS TO RUNTIME''), ad)"
    "execute w ''SHUTDOWN'' ad = (Err (CmdError ''unknown command: SHUTDOWN''), ad)"
    "execute w ''FLUSH LOGS'' ad = (Err (CmdError ''unknown command: FLUSH LOGS''), ad)"
    by (simp_all add: execute_def Let_def)
qed

text \<open>
  Two statements on one line are sent as one, of which the server sees the first: the
  second one is dropped without a word.\<close>

lemma second_statement_dropped:
  "execute w ''SELECT * FROM ai_users; DELETE FROM ai_servers WHERE name = 1'' ad = (execute_select_users ad, ad)"
proof -
  have "trim_space ''SELECT * FROM ai_users; DELETE FROM ai_servers WHERE name = 1''
      = ''SELECT * FROM ai_users; DELETE FROM ai_servers WHERE name = 1''"
    "to_upper ''SELECT * FROM ai_users; DELETE FROM ai_servers WHERE name = 1''
      = ''SELECT * FROM AI_USERS; DELETE FROM AI_SERVERS WHERE NAME = 1''" by code_simp+
  then show ?thesis by (simp add: execute_def Let_def)
qed

end
