(* ===== verification/Protocol.thy ===== *)
theory Protocol
  imports Prelude
begin

section \<open>The MySQL protocol of the admin interface (pkg/protocol/mysql.go)\<close>

text \<open>
  Packets, the handshake, the password check and the command loop of one connection. A
  connection is the bytes still to be read, the bytes written so far and the sequence
  number; writing to it does not fail. SHA-1 is an argument with the law that its digests
  have 20 bytes. The command handler is an argument with a state of its own. A slice
  expression out of range is a panic.
\<close>

type_synonym byte = "8 word"

definition bytes_of :: "string \<Rightarrow> byte list" where
  "bytes_of s = map (\<lambda>c. of_nat (of_char c)) s"

definition string_of :: "byte list \<Rightarrow> string" where
  "string_of bs = map (\<lambda>b. char_of (unat b)) bs"

lemma string_of_bytes_of [simp]: "string_of (bytes_of s) = s"
  by (simp add: string_of_def bytes_of_def comp_def unat_of_nat)

lemma length_bytes_of [simp]: "length (bytes_of s) = length s"
  by (simp add: bytes_of_def)

text \<open>\<open>xs[i:j]\<close>.\<close>

definition byte_slice :: "nat \<Rightarrow> nat \<Rightarrow> byte list \<Rightarrow> (string, byte list) res" where
  "byte_slice i j xs = (if i \<le> j \<and> j \<le> length xs then Ok (take (j - i) (drop i xs)) else Panic ''slice bounds out of range'')"

subsection \<open>Packets\<close>

record connection =
  cn_input :: "byte list"
  cn_output :: "byte list"
  cn_seq :: byte

text \<open>\<open>byte(n >> k)\<close> of a length.\<close>

definition len_byte :: "nat \<Rightarrow> nat \<Rightarrow> byte" where
  "len_byte k n = of_nat (n div 2 ^ k)"

definition read_full :: "nat \<Rightarrow> connection \<Rightarrow> byte list option \<times> connection" where
  "read_full n c = (if n \<le> length (cn_input c)
     then (Some (take n (cn_input c)), c\<lparr>cn_input := drop n (cn_input c)\<rparr>)
     else (None, c\<lparr>cn_input := []\<rparr>))"

definition packet_length :: "byte list \<Rightarrow> nat" where
  "packet_length h = unat (h ! 0) + 256 * unat (h ! 1) + 65536 * unat (h ! 2)"

definition read_packet :: "connection \<Rightarrow> (string, byte list) res \<times> connection" where
  "read_packet c =
     (case read_full 4 c of
        (None, c) \<Rightarrow> (Err ''EOF'', c)
      | (Some h, c) \<Rightarrow>
          let c = c\<lparr>cn_seq := h ! 3 + 1\<rparr> in
          (case read_full (packet_length h) c of
             (None, c) \<Rightarrow> (Err ''EOF'', c)
           | (Some data, c) \<Rightarrow> (Ok data, c)))"

definition packet :: "byte \<Rightarrow> byte list \<Rightarrow> byte list" where
  "packet seq data = [len_byte 0 (length data), len_byte 8 (length data), len_byte 16 (length data), seq] @ data"

definition write_packet :: "byte list \<Rightarrow> connection \<Rightarrow> connection" where
  "write_packet data c = c\<lparr>cn_output := cn_output c @ packet (cn_seq c) data, cn_seq := cn_seq c + 1\<rparr>"

subsection \<open>The handshake\<close>

definition server_version :: string where "server_version = ''5.7.0-MindBalancer''"

definition handshake_packet :: "byte list \<Rightarrow> (string, byte list) res" where
  "handshake_packet scramble =
     res_bind (byte_slice 0 8 scramble) (\<lambda>part1. res_bind (byte_slice 8 20 scramble) (\<lambda>part2.
       Ok ([10] @ bytes_of server_version @ [0] @ [1, 0, 0, 0] @ part1 @ [0] @ [0xff, 0xf7] @ [0x21]
         @ [0x02, 0x00] @ [0x00, 0x00] @ [0x15] @ replicate 10 0 @ part2 @ [0]
         @ bytes_of ''mysql_native_password'' @ [0])))"

definition send_handshake :: "byte list \<Rightarrow> connection \<Rightarrow> (string, unit) res \<times> connection" where
  "send_handshake scramble c = (case handshake_packet scramble of
       Ok p \<Rightarrow> (Ok (), write_packet p c) | Err e \<Rightarrow> (Err e, c) | Panic m \<Rightarrow> (Panic m, c))"

fun index_byte :: "byte \<Rightarrow> byte list \<Rightarrow> nat option" where
  "index_byte b [] = None"
| "index_byte b (x # xs) = (if x = b then Some 0 else map_option Suc (index_byte b xs))"

definition parse_handshake_response :: "byte list \<Rightarrow> (string, string \<times> byte list) res" where
  "parse_handshake_response data =
     (if length data < 32 then Err ''handshake response too short''
      else case index_byte 0 (drop 32 data) of
          None \<Rightarrow> Err ''missing username terminator''
        | Some nul \<Rightarrow>
            res_bind (byte_slice 32 (32 + nul) data) (\<lambda>user.
              let pos = 32 + nul + 1 in
              if pos < length data then
                let l = unat (data ! pos); pos = pos + 1 in
                if length data < pos + l then Err ''truncated auth response''
                else res_bind (byte_slice pos (pos + l) data) (\<lambda>auth. Ok (string_of user, auth))
              else Ok (string_of user, [])))"

definition read_handshake_response :: "connection \<Rightarrow> (string, string \<times> byte list) res \<times> connection" where
  "read_handshake_response c = (case read_packet c of
       (Ok data, c) \<Rightarrow> (parse_handshake_response data, c)
     | (Err e, c) \<Rightarrow> (Err e, c)
     | (Panic m, c) \<Rightarrow> (Panic m, c))"

definition send_ok :: "connection \<Rightarrow> connection" where
  "send_ok c = write_packet [0x00, 0x00, 0x00, 0x02, 0x00, 0x00, 0x00] c"

definition send_error :: "nat \<Rightarrow> string \<Rightarrow> connection \<Rightarrow> connection" where
  "send_error code message c =
     write_packet ([0xff, len_byte 0 code, len_byte 8 code] @ bytes_of ''#42000'' @ bytes_of message) c"

subsection \<open>Authentication\<close>

definition verify_native_password :: "(byte list \<Rightarrow> byte list) \<Rightarrow> string \<Rightarrow> byte list \<Rightarrow> byte list \<Rightarrow> bool" where
  "verify_native_password sha1 password scramble auth_resp =
     (if auth_resp = [] then password = []
      else if length auth_resp \<noteq> 20 \<or> scramble = [] then False
      else let stage1 = sha1 (bytes_of password); stage2 = sha1 stage1;
               token = sha1 (scramble @ stage2);
               recovered = map (\<lambda>i. xor (auth_resp ! i) (token ! i)) [0..<20]
           in sha1 recovered = stage2)"

record mysql_server =
  ms_username :: string
  ms_password :: string

definition authorize :: "(byte list \<Rightarrow> byte list) \<Rightarrow> mysql_server \<Rightarrow> bool \<Rightarrow> string \<Rightarrow> byte list \<Rightarrow> byte list \<Rightarrow> bool" where
  "authorize sha1 s loopback username auth_resp scramble =
     (if ms_username s \<noteq> [] \<and> username \<noteq> ms_username s then False
      else if ms_password s = [] then loopback
      else verify_native_password sha1 (ms_password s) scramble auth_resp)"

subsection \<open>Results\<close>

text \<open>\<open>makeLengthEncodedString\<close>: one length byte below 251, otherwise a two-byte length.\<close>

definition length_encoded :: "string \<Rightarrow> byte list" where
  "length_encoded s =
     (if length s < 251 then of_nat (length s) # bytes_of s
      else [0xfc, len_byte 0 (length s), len_byte 8 (length s)] @ bytes_of s)"

definition column_definition :: "string \<Rightarrow> string \<Rightarrow> byte list" where
  "column_definition name table =
     length_encoded ''def'' @ length_encoded [] @ length_encoded table @ length_encoded table
     @ length_encoded name @ length_encoded name
     @ [0x0c] @ [0x21, 0x00] @ [0xff, 0xff, 0xff, 0xff] @ [0xfd] @ [0x00, 0x00] @ [0x00] @ [0x00, 0x00]"

definition eof_packet :: "byte list" where
  "eof_packet = [0xfe, 0x00, 0x00, 0x02, 0x00]"

definition send_result :: "string \<Rightarrow> connection \<Rightarrow> connection" where
  "send_result text c =
     (let ls = split_on (char_of (10 :: nat)) (trim_space text);
          c = write_packet eof_packet (write_packet (column_definition ''result'' ''result'') (write_packet [0x01] c));
          c = fold (\<lambda>l. write_packet (length_encoded l)) ls c
      in write_packet eof_packet c)"

subsection \<open>Commands\<close>

type_synonym 's handler = "string \<Rightarrow> 's \<Rightarrow> (string + string) \<times> 's"

definition handle_query :: "'s handler \<Rightarrow> string \<Rightarrow> 's \<Rightarrow> connection \<Rightarrow> 's \<times> connection" where
  "handle_query handler query s c =
     (let query = trim_space query; upper = to_upper query in
      if has_prefix upper ''SELECT @@'' \<or> has_prefix upper ''SET NAMES''
         \<or> has_prefix upper ''SET CHARACTER'' \<or> has_prefix upper ''SET AUTOCOMMIT''
      then (s, send_ok c)
      else case handler query s of
          (Inl e, s) \<Rightarrow> (s, send_error 1064 e c)
        | (Inr result, s) \<Rightarrow> (s, if result = [] then send_ok c else send_result result c))"

text \<open>The result says whether the connection goes on.\<close>

definition handle_command :: "'s handler \<Rightarrow> 's \<Rightarrow> connection \<Rightarrow> bool \<times> 's \<times> connection" where
  "handle_command handler s c =
     (case read_packet (c\<lparr>cn_seq := 0\<rparr>) of
        (Ok (cmd # rest), c) \<Rightarrow>
          if cmd = 0x01 then (False, s, c)
          else if cmd = 0x0e then (True, s, send_ok c)
          else if cmd = 0x03 then (True, handle_query handler (string_of rest) s c)
          else (True, s, send_error 1047 ''Unknown command'' c)
      | (_, c) \<Rightarrow> (False, s, c))"

lemma read_full_shorter: "read_full n c = (r, c') \<Longrightarrow> length (cn_input c') \<le> length (cn_input c)"
  by (auto simp: read_full_def split: if_splits)

lemma read_packet_shorter:
  "read_packet c = (Ok d, c') \<Longrightarrow> length (cn_input c') < length (cn_input c)"
  by (auto simp: read_packet_def read_full_def Let_def split: prod.splits option.splits if_splits)

lemma sending_keeps_input [simp]:
  "cn_input (write_packet d c) = cn_input c" "cn_input (send_ok c) = cn_input c"
  "cn_input (send_error n m c) = cn_input c" "cn_input (send_result t c) = cn_input c"
proof -
  show w: "cn_input (write_packet d c) = cn_input c" for d c by (simp add: write_packet_def)
  then show "cn_input (send_ok c) = cn_input c" "cn_input (send_error n m c) = cn_input c"
    by (simp_all add: send_ok_def send_error_def)
  have "cn_input (fold (\<lambda>l. write_packet (length_encoded l)) ls c) = cn_input c" for ls c
    by (induction ls arbitrary: c) (simp_all add: w)
  then show "cn_input (send_result t c) = cn_input c" by (simp add: send_result_def w Let_def)
qed

lemma handle_query_input [simp]: "cn_input (snd (handle_query h q s c)) = cn_input c"
  by (auto simp: handle_query_def Let_def split: prod.splits sum.splits)

lemma handle_query_frame: "handle_query h q s c = (s', c') \<Longrightarrow> cn_input c' = cn_input c"
  using handle_query_input [of h q s c] by simp

lemma handle_command_shorter:
  "handle_command h s c = (True, s', c') \<Longrightarrow> length (cn_input c') < length (cn_input c)"
  using read_packet_shorter [of "c\<lparr>cn_seq := 0\<rparr>"]
  by (auto simp: handle_command_def dest: handle_query_frame split: prod.splits res.splits list.splits if_splits)

text \<open>The loop ends because every command consumes input.\<close>

function command_loop :: "'s handler \<Rightarrow> 's \<Rightarrow> connection \<Rightarrow> 's \<times> connection" where
  "command_loop handler s c = (case handle_command handler s c of
       (True, s', c') \<Rightarrow> command_loop handler s' c'
     | (False, s', c') \<Rightarrow> (s', c'))"
  by pat_completeness auto

termination
  by (relation "measure (\<lambda>(h, s, c). length (cn_input c))") (auto dest: handle_command_shorter [OF sym])

declare command_loop.simps [simp del]

definition handle_connection :: "(byte list \<Rightarrow> byte list) \<Rightarrow> mysql_server \<Rightarrow> 's handler \<Rightarrow> bool \<Rightarrow> byte list option
    \<Rightarrow> 's \<Rightarrow> connection \<Rightarrow> 's \<times> connection" where
  "handle_connection sha1 srv handler loopback random s c =
     (case random of
        None \<Rightarrow> (s, c)
      | Some scramble \<Rightarrow>
          (case send_handshake scramble c of
             (Ok _, c) \<Rightarrow>
               (case read_handshake_response c of
                  (Ok (username, auth_resp), c) \<Rightarrow>
                    if \<not> authorize sha1 srv loopback username auth_resp scramble
                    then (s, send_error 1045 ''Access denied for user'' c)
                    else command_loop handler s (send_ok c)
                | (_, c) \<Rightarrow> (s, c))
           | (_, c) \<Rightarrow> (s, c)))"

subsection \<open>Properties\<close>

lemma unat_len_byte: "unat (len_byte k n) = n div 2 ^ k mod 256"
  by (simp add: len_byte_def unat_of_nat)

lemma three_bytes:
  assumes "n < 16777216"
  shows "n mod 256 + 256 * (n div 256 mod 256) + 65536 * (n div 65536 mod 256) = (n :: nat)"
proof -
  have d: "n div 65536 = n div 256 div 256" by (simp add: div_mult2_eq [symmetric])
  have "n div 256 div 256 < 256" using assms by (simp add: div_mult2_eq [symmetric] less_mult_imp_div_less)
  then have "n div 65536 mod 256 = n div 256 div 256" by (simp add: d)
  moreover have "256 * (n div 256 div 256) + n div 256 mod 256 = n div 256" by simp
  moreover have "256 * (n div 256) + n mod 256 = n" by simp
  ultimately show ?thesis by linarith
qed

lemma packet_length_packet:
  "length data < 2 ^ 24 \<Longrightarrow> packet_length (take 4 (packet seq data @ rest)) = length data"
  using three_bytes [of "length data"] by (simp add: packet_length_def packet_def unat_len_byte)

lemma read_written_packet:
  assumes "length data < 2 ^ 24" and "cn_input c = packet seq data @ rest"
  shows "read_packet c = (Ok data, c\<lparr>cn_input := rest, cn_seq := seq + 1\<rparr>)"
proof -
  have h: "read_full 4 c = (Some (take 4 (packet seq data @ rest)), c\<lparr>cn_input := data @ rest\<rparr>)"
    using assms(2) by (simp add: read_full_def packet_def)
  have s: "take 4 (packet seq data @ rest) ! 3 = seq" by (simp add: packet_def)
  show ?thesis
    unfolding read_packet_def h using packet_length_packet [OF assms(1), of seq rest] s
    by (simp add: read_full_def Let_def)
qed

text \<open>
  Packets round-trip: a packet written with a sequence number and read back from the
  other end is the same data, leaves exactly the following bytes unread, and moves the
  reader to the next sequence number, for every length that the three length bytes can
  hold.\<close>

theorem packet_roundtrip:
  assumes "length data < 2 ^ 24" and "cn_input c = packet seq data @ rest"
  shows "read_packet c = (Ok data, c\<lparr>cn_input := rest, cn_seq := seq + 1\<rparr>)"
  using assms by (rule read_written_packet)

theorem packet_roundtrip_witness:
  "fst (read_packet \<lparr>cn_input = packet 7 (bytes_of ''PING'') @ [1, 2], cn_output = [], cn_seq = 0\<rparr>) = Ok (bytes_of ''PING'')"
  using packet_roundtrip [of "bytes_of ''PING''" "\<lparr>cn_input = packet 7 (bytes_of ''PING'') @ [1, 2], cn_output = [], cn_seq = 0\<rparr>"
      7 "[1, 2]"] by simp

lemma index_byte_append: "b \<notin> set xs \<Longrightarrow> index_byte b (xs @ b # ys) = Some (length xs)"
  by (induction xs) auto

text \<open>The response a client sends: a fixed header, the user name and the auth response.\<close>

definition client_response :: "byte list \<Rightarrow> string \<Rightarrow> byte list \<Rightarrow> byte list" where
  "client_response header user auth = header @ bytes_of user @ [0] @ [of_nat (length auth)] @ auth"

lemma parse_client_response:
  assumes "length header = 32" and "0 \<notin> set (bytes_of user)" and "length auth < 256"
  shows "parse_handshake_response (client_response header user auth) = Ok (user, auth)"
proof -
  have i: "index_byte 0 (bytes_of user @ 0 # of_nat (length auth) # auth) = Some (length user)"
    using index_byte_append [OF assms(2)] by simp
  have l: "unat (of_nat (length auth) :: byte) = length auth" using assms(3) by (simp add: unat_of_nat)
  show ?thesis
    using assms(1) i l
    by (simp add: parse_handshake_response_def client_response_def byte_slice_def nth_append Let_def)
qed

lemma parse_never_panics: "parse_handshake_response data \<noteq> Panic m"
proof -
  have "index_byte b xs = Some n \<Longrightarrow> n < length xs" for b xs n
    by (induction xs arbitrary: n) (auto split: if_splits)
  then show ?thesis
    by (fastforce simp: parse_handshake_response_def byte_slice_def Let_def split: option.splits if_splits)
qed

text \<open>What a client that knows the password computes.\<close>

definition native_response :: "(byte list \<Rightarrow> byte list) \<Rightarrow> string \<Rightarrow> byte list \<Rightarrow> byte list" where
  "native_response sha1 password scramble =
     map (\<lambda>i. xor (sha1 (bytes_of password) ! i) (sha1 (scramble @ sha1 (sha1 (bytes_of password))) ! i)) [0..<20]"

definition sha1_law :: "(byte list \<Rightarrow> byte list) \<Rightarrow> bool" where
  "sha1_law sha1 \<longleftrightarrow> (\<forall>x. length (sha1 x) = 20)"

lemma xor_twice: "xor (xor a b) b = a" for a b :: byte
  by (simp add: xor.assoc)

text \<open>
  The password check accepts exactly the responses it should: the response computed
  from the password and the scramble is accepted, and a response that is accepted can only
  have been made from a preimage of the double hash, that is from some \<open>x\<close> with
  \<open>SHA1(x) = SHA1(SHA1(password))\<close>, masked with the digest of the scramble.\<close>

theorem native_password_exact:
  assumes law: "sha1_law sha1" and ne: "scramble \<noteq> []" and resp: "resp \<noteq> []"
  shows "verify_native_password sha1 password scramble (native_response sha1 password scramble)
     \<and> (verify_native_password sha1 password scramble resp \<longleftrightarrow>
         (\<exists>x. length x = 20 \<and> sha1 x = sha1 (sha1 (bytes_of password))
            \<and> resp = map (\<lambda>i. xor (x ! i) (sha1 (scramble @ sha1 (sha1 (bytes_of password))) ! i)) [0..<20]))"
proof -
  let ?token = "sha1 (scramble @ sha1 (sha1 (bytes_of password)))"
  let ?mask = "\<lambda>x. map (\<lambda>i. xor (x ! i) (?token ! i)) [0..<20]"
  have twice: "?mask (?mask x) = x" if "length x = 20" for x
    using that by (intro nth_equalityI) (simp_all add: xor_twice)
  have len: "length (sha1 x) = 20" for x using law by (simp add: sha1_law_def)
  have verify: "verify_native_password sha1 password scramble r \<longleftrightarrow>
      length r = 20 \<and> sha1 (?mask r) = sha1 (sha1 (bytes_of password))" if "r \<noteq> []" for r
    using that ne by (simp add: verify_native_password_def Let_def)
  have "verify_native_password sha1 password scramble (?mask (sha1 (bytes_of password)))"
    using twice [OF len] by (subst verify) simp_all
  moreover have "verify_native_password sha1 password scramble resp \<longleftrightarrow>
      (\<exists>x. length x = 20 \<and> sha1 x = sha1 (sha1 (bytes_of password)) \<and> resp = ?mask x)"
    unfolding verify [OF resp]
  proof
    assume "length resp = 20 \<and> sha1 (?mask resp) = sha1 (sha1 (bytes_of password))"
    then show "\<exists>x. length x = 20 \<and> sha1 x = sha1 (sha1 (bytes_of password)) \<and> resp = ?mask x"
      by (intro exI [of _ "?mask resp"]) (simp add: twice)
  next
    assume "\<exists>x. length x = 20 \<and> sha1 x = sha1 (sha1 (bytes_of password)) \<and> resp = ?mask x"
    then show "length resp = 20 \<and> sha1 (?mask resp) = sha1 (sha1 (bytes_of password))"
      by (auto simp only: twice length_map length_upt)
  qed
  ultimately show ?thesis by (simp add: native_response_def)
qed

text \<open>A stand-in digest of 20 bytes: the sum of the bytes, repeated.\<close>

definition toy_sha1 :: "byte list \<Rightarrow> byte list" where
  "toy_sha1 bs = replicate 20 (sum_list bs)"

theorem native_password_exact_witness:
  "verify_native_password toy_sha1 ''secret'' [1, 2] (native_response toy_sha1 ''secret'' [1, 2])"
  using native_password_exact [of toy_sha1 "[1, 2]" "[0]" "''secret''"] by (simp add: sha1_law_def toy_sha1_def)


text \<open>
  C29: A connection that is not authorized executes nothing: if a connection changed the
  command handler's state, then its handshake response parsed to a user name and a
  password response that the server authorizes, and if no password is configured it came
  over the loopback interface.\<close>

theorem only_authorized_connections_execute:
  assumes "fst (handle_connection sha1 srv handler loopback (Some scramble) s c) \<noteq> s"
  shows "\<exists>username auth c'.
      read_handshake_response (snd (send_handshake scramble c)) = (Ok (username, auth), c')
      \<and> authorize sha1 srv loopback username auth scramble
      \<and> (ms_password srv = [] \<longrightarrow> loopback)"
proof -
  obtain r c1 where c0: "send_handshake scramble c = (r, c1)" by (cases "send_handshake scramble c") auto
  have "r = Ok ()" using assms by (cases r) (simp_all add: handle_connection_def c0)
  with c0 have c1: "send_handshake scramble c = (Ok (), c1)" by simp
  obtain r c2 where c0: "read_handshake_response c1 = (r, c2)" by (cases "read_handshake_response c1") auto
  have "\<exists>username auth. r = Ok (username, auth)"
    using assms by (cases r) (simp_all add: handle_connection_def c1 c0)
  with c0 obtain username auth where c2: "read_handshake_response c1 = (Ok (username, auth), c2)" by blast
  have auth: "authorize sha1 srv loopback username auth scramble"
    using assms by (auto simp: handle_connection_def c1 c2 split: if_splits)
  then have "ms_password srv = [] \<longrightarrow> loopback" by (auto simp: authorize_def split: if_splits)
  with c1 c2 auth show ?thesis by simp
qed

text \<open>A handler that remembers the commands it was given.\<close>

definition log_handler :: "string list handler" where
  "log_handler q s = (Inr [], s @ [q])"

theorem only_authorized_connections_execute_witness:
  "fst (handle_connection toy_sha1 \<lparr>ms_username = [], ms_password = []\<rparr> log_handler True (Some (replicate 20 1)) []
     \<lparr>cn_input = packet 1 (client_response (replicate 32 0) ''u'' []) @ packet 0 (3 # bytes_of ''HI''), cn_output = [], cn_seq = 0\<rparr>)
   = [''HI'']
   \<and> (\<exists>username auth. authorize toy_sha1 \<lparr>ms_username = [], ms_password = []\<rparr> True username auth (replicate 20 1))"
proof -
  let ?srv = "\<lparr>ms_username = [], ms_password = []\<rparr>"
  let ?c = "\<lparr>cn_input = packet 1 (client_response (replicate 32 0) ''u'' []) @ packet 0 (3 # bytes_of ''HI''), cn_output = [], cn_seq = 0\<rparr>"
  obtain c1 where c1: "send_handshake (replicate 20 1) ?c = (Ok (), c1)" "cn_input c1 = cn_input ?c"
    by (simp add: send_handshake_def handshake_packet_def byte_slice_def)
  let ?hs = "client_response (replicate 32 0) ''u'' []"
  have "length ?hs < 2 ^ 24" by (simp add: client_response_def)
  then have "read_packet c1 = (Ok ?hs, c1\<lparr>cn_input := packet 0 (3 # bytes_of ''HI''), cn_seq := 1 + 1\<rparr>)"
    using c1(2) by (intro read_written_packet) simp_all
  moreover have "parse_handshake_response ?hs = Ok (''u'', [])"
    by (rule parse_client_response) (simp_all add: bytes_of_def)
  ultimately have c2: "read_handshake_response c1
      = (Ok (''u'', []), c1\<lparr>cn_input := packet 0 (3 # bytes_of ''HI''), cn_seq := 1 + 1\<rparr>)"
    by (simp add: read_handshake_response_def)
  let ?c3 = "send_ok (c1\<lparr>cn_input := packet 0 (3 # bytes_of ''HI''), cn_seq := 1 + 1\<rparr>)"
  have "read_packet (?c3\<lparr>cn_seq := 0\<rparr>) = (Ok (3 # bytes_of ''HI''), ?c3\<lparr>cn_seq := 0, cn_input := [], cn_seq := 0 + 1\<rparr>)"
    by (rule read_written_packet) (simp_all add: send_ok_def write_packet_def)
  moreover have "trim_space ''HI'' = ''HI''" "to_upper ''HI'' = ''HI''" by code_simp+
  ultimately obtain c4 where c4: "handle_command log_handler [] ?c3 = (True, [''HI''], c4)" "cn_input c4 = []"
    by (simp add: handle_command_def handle_query_def log_handler_def Let_def)
  have "fst (command_loop log_handler [''HI''] c4) = [''HI'']"
    using c4(2) by (simp add: command_loop.simps handle_command_def read_packet_def read_full_def)
  then have "fst (command_loop log_handler [] ?c3) = [''HI'']"
    using c4(1) by (simp add: command_loop.simps [of _ "[]"])
  then have run: "fst (handle_connection toy_sha1 ?srv log_handler True (Some (replicate 20 1)) [] ?c) = [''HI'']"
    by (simp add: handle_connection_def c1(1) c2 authorize_def)
  then show ?thesis using only_authorized_connections_execute [of toy_sha1 ?srv log_handler True "replicate 20 1" "[]" ?c]
    by auto
qed

text \<open>What a client reads from the front of a length-encoded string, by the protocol.\<close>

definition decode_length_encoded :: "byte list \<Rightarrow> byte list" where
  "decode_length_encoded bs = (case bs of [] \<Rightarrow> []
     | b # rest \<Rightarrow>
         if b < 251 then take (unat b) rest
         else take (unat (rest ! 0) + 256 * unat (rest ! 1)) (drop 2 rest))"

text \<open>
  Result lines arrive intact below 65536 bytes and truncated above: a client reads
  back exactly the line up to that length, and of a longer line only its length modulo
  65536.\<close>

theorem length_encoded_truncates:
  "decode_length_encoded (length_encoded s) = take (length s mod 65536) (bytes_of s)"
proof (cases "length s < 251")
  case True
  then have "unat (of_nat (length s) :: byte) = length s" by (simp add: unat_of_nat)
  with True show ?thesis by (simp add: decode_length_encoded_def length_encoded_def word_less_nat_alt)
next
  case False
  have "length s mod 256 + 256 * (length s div 256 mod 256) = length s mod 65536"
    using mod_mult2_eq [of "length s" 256 256] by simp
  with False show ?thesis
    by (simp add: decode_length_encoded_def length_encoded_def unat_len_byte word_less_nat_alt)
qed

end
