(* ===== verification/Console.thy ===== *)
theory Console
  imports Mindsql Protocol
begin

section \<open>From the prompt to the console and back\<close>

text \<open>
  The client, the MySQL protocol and the administrator's commands put together: what the
  bytes of an answer mean by the protocol, and what an operator sees of a command's result.
\<close>

subsection \<open>What the bytes of an answer mean\<close>

text \<open>
  The client's side of the wire, by the documentation of the MySQL protocol: the bytes are
  packets; a packet that starts with \<open>0xff\<close> is an error with a code of two bytes, a marker
  and a state of five, one that starts with \<open>0\<close> says that there is no result, and a result
  set of one column is the count, the column, an end marker, the rows and an end marker.
\<close>

function packets_of :: "byte list \<Rightarrow> byte list list" where
  "packets_of bs = (if 4 \<le> length bs \<and> packet_length (take 4 bs) \<le> length bs - 4
     then take (packet_length (take 4 bs)) (drop 4 bs) # packets_of (drop (packet_length (take 4 bs)) (drop 4 bs))
     else [])"
  by pat_completeness auto

termination by (relation "measure length") auto

declare packets_of.simps [simp del]

definition is_eof :: "byte list \<Rightarrow> bool" where
  "is_eof p \<longleftrightarrow> p \<noteq> [] \<and> hd p = 0xfe \<and> length p < 9"

definition row_cell :: "byte list \<Rightarrow> cell" where
  "row_cell p = (if p = [0xfb] then SqlNull else SqlBytes (string_of (decode_length_encoded p)))"

text \<open>The name is the fifth of the length-encoded strings of a column definition.\<close>

definition skip_string :: "byte list \<Rightarrow> byte list" where
  "skip_string bs = (case bs of [] \<Rightarrow> [] | b # rest \<Rightarrow> drop (unat b) rest)"

definition column_name :: "byte list \<Rightarrow> string" where
  "column_name p = string_of (decode_length_encoded ((skip_string ^^ 4) p))"

definition wire_answer :: "byte list \<Rightarrow> string + result_set" where
  "wire_answer bs = (case packets_of bs of
       p # ps \<Rightarrow>
         if p \<noteq> [] \<and> hd p = 0xff then Inl (string_of (drop 9 p))
         else if p = [0x01] then
           (case ps of col # eof # rows \<Rightarrow>
              Inr \<lparr>rs_columns = Inr [column_name col],
                rs_rows = List.map (\<lambda>p. Inr [row_cell p]) (takeWhile (\<lambda>p. \<not> is_eof p) rows)\<rparr>
            | _ \<Rightarrow> Inl ''malformed packet'')
         else Inr \<lparr>rs_columns = Inr [], rs_rows = []\<rparr>
     | [] \<Rightarrow> Inl ''unexpected EOF'')"

lemma packets_of_packet:
  assumes "length data < 2 ^ 24"
  shows "packets_of (packet seq data @ rest) = data # packets_of rest"
  using packet_length_packet [OF assms, of seq rest]
  by (subst packets_of.simps) (simp add: packet_def)

lemma packets_of_Nil [simp]: "packets_of [] = []"
  by (simp add: packets_of.simps)

text \<open>What a connection writes is a sequence of packets.\<close>

lemma write_packet_output: "cn_output (write_packet d c) = cn_output c @ packet (cn_seq c) d"
  by (simp add: write_packet_def)

lemma written_packets:
  assumes "\<And>d. d \<in> set ds \<Longrightarrow> length d < 2 ^ 24"
  shows "\<exists>out. cn_output (fold write_packet ds c) = cn_output c @ out \<and> (\<forall>rest. packets_of (out @ rest) = ds @ packets_of rest)"
  using assms
proof (induction ds arbitrary: c)
  case (Cons d ds)
  from Cons.IH [of "write_packet d c"] Cons.prems
  obtain out where "cn_output (fold write_packet ds (write_packet d c)) = cn_output (write_packet d c) @ out"
    "\<forall>rest. packets_of (out @ rest) = ds @ packets_of rest" by auto
  with Cons.prems show ?case
    by (intro exI [of _ "packet (cn_seq c) d @ out"]) (simp add: write_packet_output packets_of_packet)
qed (simp add: exI [of _ "[]"])

definition result_packets :: "string list \<Rightarrow> byte list list" where
  "result_packets ls = [[0x01], column_definition ''result'' ''result'', eof_packet] @ List.map length_encoded ls @ [eof_packet]"

lemma send_result_packets:
  "send_result text c = fold write_packet (result_packets (split_on (char_of (10 :: nat)) (trim_space text))) c"
  by (simp add: send_result_def result_packets_def Let_def fold_map comp_def)

lemma length_length_encoded: "length (length_encoded s) \<le> length s + 3"
  by (simp add: length_encoded_def)

lemma row_not_eof: "\<not> is_eof (length_encoded s)" "length s < 65536 \<Longrightarrow> row_cell (length_encoded s) = SqlBytes s"
proof -
  have "(of_nat (length s) :: byte) \<noteq> 0xfe \<and> (of_nat (length s) :: byte) \<noteq> 0xfb" if "length s < 251"
  proof -
    have "unat (of_nat (length s) :: byte) < 251" using that by (simp add: unat_of_nat)
    then show ?thesis by auto
  qed
  then show "\<not> is_eof (length_encoded s)" "length s < 65536 \<Longrightarrow> row_cell (length_encoded s) = SqlBytes s"
    using length_encoded_truncates [of s] by (auto simp: is_eof_def row_cell_def length_encoded_def)
qed

lemma column_is_result: "column_name (column_definition ''result'' ''result'') = ''result''"
  by code_simp

text \<open>A result set reads back as its lines, when no line has 65536 bytes or more.\<close>

lemma result_reads_back:
  assumes "\<forall>l \<in> set (split_on (char_of (10 :: nat)) (trim_space text)). length l < 65536" and "cn_output c = []"
  shows "wire_answer (cn_output (send_result text c)) = Inr \<lparr>rs_columns = Inr [''result''],
     rs_rows = List.map (\<lambda>l. Inr [SqlBytes l]) (split_on (char_of (10 :: nat)) (trim_space text))\<rparr>"
proof -
  let ?ls = "split_on (char_of (10 :: nat)) (trim_space text)"
  have "length d < 2 ^ 24" if "d \<in> set (result_packets ?ls)" for d
  proof -
    have "length (length_encoded l) < 2 ^ 24" if "l \<in> set ?ls" for l
      using length_length_encoded [of l] assms(1) that by fastforce
    moreover have "length (column_definition ''result'' ''result'') < 2 ^ 24"
      by (simp add: column_definition_def length_encoded_def)
    ultimately show ?thesis using that by (auto simp: result_packets_def eof_packet_def)
  qed
  from written_packets [of "result_packets ?ls" c, OF this] assms(2)
  obtain out where out: "cn_output (send_result text c) = out" "packets_of out = result_packets ?ls"
    unfolding send_result_packets by (auto dest: spec [of _ "[]"])
  have eof: "is_eof eof_packet" by (simp add: is_eof_def eof_packet_def)
  have "takeWhile (\<lambda>p. \<not> is_eof p) (List.map length_encoded ?ls @ [eof_packet]) = List.map length_encoded ?ls"
    using eof by (subst takeWhile_append2) (auto simp: row_not_eof)
  moreover have "List.map (\<lambda>l. Inr [row_cell (length_encoded l)] :: string + cell list) ?ls
      = List.map (\<lambda>l. Inr [SqlBytes l]) ?ls"
    using assms(1) by (simp add: row_not_eof)
  ultimately show ?thesis
    unfolding wire_answer_def out result_packets_def by (simp add: column_is_result comp_def)
qed

subsection \<open>From the prompt to the console\<close>

text \<open>The handler of the MySQL server is the administrator's \<open>Execute\<close>; its errors are shown as text.\<close>

definition admin_handler :: "world \<Rightarrow> (command_error \<Rightarrow> string) \<Rightarrow> admin handler" where
  "admin_handler w error_text q ad = (case execute w q ad of
       (Ok text, ad') \<Rightarrow> (Inr text, ad')
     | (Err e, ad') \<Rightarrow> (Inl (error_text e), ad')
     | (Panic m, ad') \<Rightarrow> (Inl m, ad'))"

definition over_the_wire :: "'s handler \<Rightarrow> 's database" where
  "over_the_wire handler q s =
     (let (s', c) = handle_query handler q s \<lparr>cn_input = [], cn_output = [], cn_seq = 1\<rparr> in (wire_answer (cn_output c), s'))"

text \<open>The statements the protocol answers by itself.\<close>

definition intercepted :: "string \<Rightarrow> bool" where
  "intercepted q \<longleftrightarrow> list_ex (has_prefix (to_upper q)) [''SELECT @@'', ''SET NAMES'', ''SET CHARACTER'', ''SET AUTOCOMMIT'']"

lemma wire_result:
  assumes "handler (trim_space q) s = (Inr text, s')" and "text \<noteq> []" and "\<not> intercepted (trim_space q)"
    and "\<forall>l \<in> set (split_on (char_of (10 :: nat)) (trim_space text)). length l < 65536"
  shows "over_the_wire handler q s = (Inr \<lparr>rs_columns = Inr [''result''],
     rs_rows = List.map (\<lambda>l. Inr [SqlBytes l]) (split_on (char_of (10 :: nat)) (trim_space text))\<rparr>, s')"
  using assms(1-3) result_reads_back [OF assms(4)]
  by (simp add: over_the_wire_def handle_query_def intercepted_def Let_def)

lemma print_raw_lines: "print_raw (List.map (\<lambda>l. Inr [SqlBytes l]) ls) = List.map println ls"
  by (induction ls) (simp_all add: scan_string_def scan_row_def)

text \<open>
  C37: The operator sees what the command answered: a statement typed into the client, sent
  through the MySQL protocol, executed by the admin console and sent back as a result set
  prints exactly the lines of the command's answer, in their order, and changes the
  administrator's state exactly as the command does, as long as no line has 65536 bytes or
  more.\<close>

theorem operator_sees_the_answer:
  assumes "execute w (trim_space input) ad = (Ok text, ad')" and "text \<noteq> []"
    and "trim_space input \<noteq> []" and "to_upper (trim_space input) \<notin> set (quit_words @ help_words)"
    and "\<not> intercepted (trim_space input)"
    and "\<forall>l \<in> set (split_on (char_of (10 :: nat)) (trim_space text)). length l < 65536"
  shows "execute_command (over_the_wire (admin_handler w error_text)) input ad
     = (List.map println (split_on (char_of (10 :: nat)) (trim_space text)), ad')"
proof -
  have "admin_handler w error_text (trim_space (trim_space input)) ad = (Inr text, ad')"
    using assms(1) by (simp add: admin_handler_def)
  from wire_result [of "admin_handler w error_text" "trim_space input", OF this assms(2) _ assms(6)] assms(3-5) show ?thesis
    by (simp add: execute_command_def print_results_def print_raw_lines Let_def)
qed

theorem operator_sees_the_answer_witness:
  "\<forall>w error_text. fst (execute_command (over_the_wire (admin_handler w error_text)) '' cache clear''
     ((demo_admin [])\<lparr>ad_cache := Some (new_cache default_cache_config)\<rparr>)) = [println ''Query OK, cache cleared'']"
proof (intro allI)
  fix w error_text
  let ?ad = "(demo_admin [])\<lparr>ad_cache := Some (new_cache default_cache_config)\<rparr>"
  let ?answer = "''Query OK, cache cleared'' @ newline"
  have input: "trim_space '' cache clear'' = ''cache clear''" "trim_space ''cache clear'' = ''cache clear''"
    "to_upper ''cache clear'' = ''CACHE CLEAR''" by code_simp+
  have lines: "split_on (char_of (10 :: nat)) (trim_space ?answer) = [''Query OK, cache cleared'']" by code_simp
  have "execute w ''cache clear'' ?ad = (Ok ?answer, ?ad\<lparr>ad_cache := Some (cache_clear (new_cache default_cache_config))\<rparr>)"
    by (simp add: execute_def input Let_def execute_cache_clear_def)
  then show "fst (execute_command (over_the_wire (admin_handler w error_text)) '' cache clear'' ?ad) = [println ''Query OK, cache cleared'']"
    using operator_sees_the_answer [of w "'' cache clear''" ?ad ?answer _ error_text] lines
    by (simp add: input quit_words_def help_words_def intercepted_def)
qed

end
