(* ===== verification/MysqlServer.thy ===== *)
theory MysqlServer
  imports Prelude
begin

section \<open>The life of the MySQL server (pkg/protocol/mysql.go)\<close>

text \<open>
  The goroutines of the admin server: the loop that accepts connections, one handler for
  each connection, and \<open>Start\<close> and \<open>Stop\<close>. What a handler reads and answers is in the
  theory \<open>Protocol\<close>; here it is a step of its client. The steps of the goroutines interleave
  in any order.
\<close>

text \<open>
  The accept loop looks at the quit channel, waits in \<open>Accept\<close>, or has returned; a handler
  shakes hands, looks at the quit channel before the next command, or waits for that
  command; \<open>Stop\<close> was not called, waits for the goroutines, or has returned.
\<close>

datatype accept_phase = AtTop | InAccept | LoopOver
datatype handler_phase = Shaking | Looking | Reading
datatype stop_phase = StopIdle | StopWaiting | StopDone

record life =
  lf_quit :: bool
  lf_listening :: bool
  lf_accept :: accept_phase
  lf_handlers :: "nat \<rightharpoonup> handler_phase"
  lf_wait_group :: int
  lf_stop :: stop_phase

text \<open>\<open>Start\<close>, when the address can be listened on.\<close>

definition start_server :: life where
  "start_server = \<lparr>lf_quit = False, lf_listening = True, lf_accept = AtTop, lf_handlers = Map.empty,
     lf_wait_group = 1, lf_stop = StopIdle\<rparr>"

definition accept_returns :: "life \<Rightarrow> life" where
  "accept_returns s = s\<lparr>lf_accept := LoopOver, lf_wait_group := lf_wait_group s - 1\<rparr>"

definition handler_returns :: "nat \<Rightarrow> life \<Rightarrow> life" where
  "handler_returns c s = s\<lparr>lf_handlers := (lf_handlers s)(c := None), lf_wait_group := lf_wait_group s - 1\<rparr>"

definition stop_called :: "life \<Rightarrow> life" where
  "stop_called s = s\<lparr>lf_quit := True, lf_listening := False, lf_stop := StopWaiting\<rparr>"

text \<open>
  The events: the accept loop looks at the quit channel, gets a connection, or gets an
  error, which a closed listener gives; a client finishes its handshake, has a command
  handled, or goes away; its handler looks at the quit channel; \<open>Stop\<close> is called and returns.
\<close>

datatype life_event =
    LfLook | LfAccept nat | LfAcceptError
  | LfShaken nat | LfLookBack nat | LfCommand nat | LfGone nat
  | LfStop | LfStopped

inductive life_step :: "life \<Rightarrow> life_event \<Rightarrow> life \<Rightarrow> bool" where
  look: "lf_accept s = AtTop \<Longrightarrow>
    life_step s LfLook (if lf_quit s then accept_returns s else s\<lparr>lf_accept := InAccept\<rparr>)"
| accept: "lf_accept s = InAccept \<Longrightarrow> lf_listening s \<Longrightarrow> lf_handlers s c = None \<Longrightarrow>
    life_step s (LfAccept c) (s\<lparr>lf_accept := AtTop, lf_handlers := (lf_handlers s)(c \<mapsto> Shaking),
      lf_wait_group := lf_wait_group s + 1\<rparr>)"
| accept_error: "lf_accept s = InAccept \<Longrightarrow>
    life_step s LfAcceptError (if lf_quit s then accept_returns s else s\<lparr>lf_accept := AtTop\<rparr>)"
| shaken: "lf_handlers s c = Some Shaking \<Longrightarrow>
    life_step s (LfShaken c) (s\<lparr>lf_handlers := (lf_handlers s)(c \<mapsto> Looking)\<rparr>)"
| look_back: "lf_handlers s c = Some Looking \<Longrightarrow>
    life_step s (LfLookBack c)
      (if lf_quit s then handler_returns c s else s\<lparr>lf_handlers := (lf_handlers s)(c \<mapsto> Reading)\<rparr>)"
| command: "lf_handlers s c = Some Reading \<Longrightarrow>
    life_step s (LfCommand c) (s\<lparr>lf_handlers := (lf_handlers s)(c \<mapsto> Looking)\<rparr>)"
| gone: "lf_handlers s c \<in> {Some Shaking, Some Reading} \<Longrightarrow> life_step s (LfGone c) (handler_returns c s)"
| stop: "lf_stop s = StopIdle \<Longrightarrow>
    life_step s LfStop (stop_called s)"
| stopped: "lf_stop s = StopWaiting \<Longrightarrow> lf_wait_group s = 0 \<Longrightarrow> life_step s LfStopped (s\<lparr>lf_stop := StopDone\<rparr>)"

inductive life_run :: "life \<Rightarrow> life_event list \<Rightarrow> life \<Rightarrow> bool" where
  run_empty: "life_run s [] s"
| run_step: "life_step s ev t \<Longrightarrow> life_run t evs u \<Longrightarrow> life_run s (ev # evs) u"

inductive_cases life_stepE: "life_step s ev t"
inductive_simps life_run_simps [simp]: "life_run s [] t" "life_run s (ev # evs) t"

text \<open>The steps as a function: what an event makes of a state in which it can happen.\<close>

fun life_next :: "life_event \<Rightarrow> life \<Rightarrow> life option" where
  "life_next LfLook s = (if lf_accept s \<noteq> AtTop then None
     else Some (if lf_quit s then accept_returns s else s\<lparr>lf_accept := InAccept\<rparr>))"
| "life_next (LfAccept c) s = (if lf_accept s \<noteq> InAccept \<or> \<not> lf_listening s \<or> lf_handlers s c \<noteq> None then None
     else Some (s\<lparr>lf_accept := AtTop, lf_handlers := (lf_handlers s)(c \<mapsto> Shaking), lf_wait_group := lf_wait_group s + 1\<rparr>))"
| "life_next LfAcceptError s = (if lf_accept s \<noteq> InAccept then None
     else Some (if lf_quit s then accept_returns s else s\<lparr>lf_accept := AtTop\<rparr>))"
| "life_next (LfShaken c) s = (if lf_handlers s c \<noteq> Some Shaking then None
     else Some (s\<lparr>lf_handlers := (lf_handlers s)(c \<mapsto> Looking)\<rparr>))"
| "life_next (LfLookBack c) s = (if lf_handlers s c \<noteq> Some Looking then None
     else Some (if lf_quit s then handler_returns c s else s\<lparr>lf_handlers := (lf_handlers s)(c \<mapsto> Reading)\<rparr>))"
| "life_next (LfCommand c) s = (if lf_handlers s c \<noteq> Some Reading then None
     else Some (s\<lparr>lf_handlers := (lf_handlers s)(c \<mapsto> Looking)\<rparr>))"
| "life_next (LfGone c) s = (if lf_handlers s c \<notin> {Some Shaking, Some Reading} then None else Some (handler_returns c s))"
| "life_next LfStop s = (if lf_stop s \<noteq> StopIdle then None else Some (stop_called s))"
| "life_next LfStopped s = (if lf_stop s \<noteq> StopWaiting \<or> lf_wait_group s \<noteq> 0 then None else Some (s\<lparr>lf_stop := StopDone\<rparr>))"

lemma life_step_iff: "life_step s ev t \<longleftrightarrow> life_next ev s = Some t"
  using look [of s] accept_error [of s] look_back [of s]
  by (cases ev) (auto elim: life_stepE intro: life_step.intros split: if_splits)

lemma life_run_append: "life_run s (as @ bs) u \<longleftrightarrow> (\<exists>t. life_run s as t \<and> life_run t bs u)"
  by (induction as arbitrary: s) auto

subsection \<open>The invariant\<close>

text \<open>The wait group counts the goroutines; the listener is closed and quit set by \<open>Stop\<close>.\<close>

definition life_inv :: "life \<Rightarrow> bool" where
  "life_inv s \<longleftrightarrow> finite (dom (lf_handlers s))
     \<and> lf_wait_group s = int (card (dom (lf_handlers s))) + (if lf_accept s = LoopOver then 0 else 1)
     \<and> (lf_quit s \<longleftrightarrow> lf_stop s \<noteq> StopIdle) \<and> (lf_listening s \<longleftrightarrow> lf_stop s = StopIdle)
     \<and> (lf_stop s = StopDone \<longrightarrow> lf_handlers s = Map.empty \<and> lf_accept s = LoopOver)"

lemma card_handlers:
  "finite (dom h) \<Longrightarrow> h c = None \<Longrightarrow> card (dom (h(c \<mapsto> x))) = Suc (card (dom h))"
  "finite (dom h) \<Longrightarrow> h c = Some y \<Longrightarrow> dom (h(c \<mapsto> x)) = dom h"
  "finite (dom h) \<Longrightarrow> h c = Some y \<Longrightarrow> int (card (dom (h(c := None)))) = int (card (dom h)) - 1"
proof -
  assume "finite (dom h)"
  then show "h c = None \<Longrightarrow> card (dom (h(c \<mapsto> x))) = Suc (card (dom h))" by (simp add: domIff)
  show "h c = Some y \<Longrightarrow> dom (h(c \<mapsto> x)) = dom h" by auto
  assume "finite (dom h)" and c: "h c = Some y"
  then have "card (dom h) = Suc (card (dom h - {c}))" by (intro card.remove) auto
  then show "int (card (dom (h(c := None)))) = int (card (dom h)) - 1" by simp
qed

lemma wait_group_empty:
  "life_inv s \<Longrightarrow> lf_wait_group s = 0 \<Longrightarrow> lf_handlers s = Map.empty \<and> lf_accept s = LoopOver"
  by (auto simp: life_inv_def split: if_splits)

lemma start_inv: "life_inv start_server"
  by (simp add: life_inv_def start_server_def)

text \<open>A handler that moves on, and one that returns, keep the count.\<close>

lemma handler_moves:
  assumes "life_inv s" and "lf_handlers s c = Some x"
  shows "life_inv (s\<lparr>lf_handlers := (lf_handlers s)(c \<mapsto> y)\<rparr>)"
proof -
  have "lf_stop s \<noteq> StopDone" using assms by (auto simp: life_inv_def)
  moreover have "dom ((lf_handlers s)(c \<mapsto> y)) = dom (lf_handlers s)" using assms(2) by auto
  ultimately show ?thesis using assms(1) by (simp add: life_inv_def)
qed

lemma handler_ends:
  assumes "life_inv s" and "lf_handlers s c = Some x"
  shows "life_inv (handler_returns c s)"
proof -
  have "lf_stop s \<noteq> StopDone" and fin: "finite (dom (lf_handlers s))" using assms by (auto simp: life_inv_def)
  with assms(1) card_handlers(3) [OF fin assms(2)] show ?thesis by (simp add: life_inv_def handler_returns_def)
qed

lemma life_step_inv:
  assumes "life_step s ev t" and inv: "life_inv s"
  shows "life_inv t"
  using assms(1)
proof cases
  case (accept c)
  then have "life_inv s" "lf_stop s = StopIdle" "lf_handlers s c = None" using inv by (auto simp: life_inv_def)
  with accept card_handlers(1) [of "lf_handlers s" c Shaking] show ?thesis by (simp add: life_inv_def)
next
  case (look_back c)
  with handler_ends [OF inv] handler_moves [OF inv] show ?thesis by simp
next
  case (shaken c)
  with handler_moves [OF inv] show ?thesis by simp
next
  case (command c)
  with handler_moves [OF inv] show ?thesis by simp
next
  case (gone c)
  with handler_ends [OF inv] show ?thesis by blast
next
  case stopped
  with inv wait_group_empty [OF inv] show ?thesis by (simp add: life_inv_def)
qed (use inv in \<open>auto simp: life_inv_def accept_returns_def stop_called_def\<close>)

lemma life_run_inv: "life_run s evs t \<Longrightarrow> life_inv s \<Longrightarrow> life_inv t"
  by (induction rule: life_run.induct) (auto dest: life_step_inv)

subsection \<open>After the call of Stop\<close>

text \<open>Quit is for ever, and a closed listener gives no connection.\<close>

lemma quit_step:
  assumes "life_step s ev t" and "life_inv s" and "lf_quit s"
  shows "lf_quit t \<and> (\<forall>c. ev \<noteq> LfAccept c)"
  using assms
  by cases (auto simp: life_inv_def accept_returns_def handler_returns_def stop_called_def split: if_splits)

text \<open>What a handler may still do: a command at most, then it sees the quit channel.\<close>

fun commands_left :: "handler_phase option \<Rightarrow> nat" where
  "commands_left (Some Reading) = 1"
| "commands_left _ = 0"

lemma quit_step_commands:
  assumes "life_step s ev t" and "lf_quit s" and "life_inv s"
  shows "commands_left (lf_handlers t c) + (if ev = LfCommand c then 1 else 0) \<le> commands_left (lf_handlers s c)"
  using assms(1)
proof cases
  case (accept d)
  with assms(2,3) show ?thesis by (simp add: life_inv_def)
next
  case (gone d)
  then show ?thesis by (auto simp: handler_returns_def)
qed (use assms(2) in \<open>auto simp: accept_returns_def handler_returns_def stop_called_def\<close>)

lemma quit_run:
  assumes "life_run s evs t" and "life_inv s" and "lf_quit s"
  shows "(\<forall>c. LfAccept c \<notin> set evs) \<and> commands_left (lf_handlers t c) + count_list evs (LfCommand c) \<le> commands_left (lf_handlers s c)"
  using assms
proof (induction rule: life_run.induct)
  case (run_step s ev t evs u)
  note q = quit_step [OF run_step(1,4,5)] and inv = life_step_inv [OF run_step(1,4)]
  from run_step.IH inv q quit_step_commands [OF run_step(1,5,4), of c] show ?case by (auto split: if_splits)
qed simp

text \<open>The steps that end the wait of a handler are its client's.\<close>

lemma reading_kept:
  assumes "life_step s ev t" and "lf_handlers s c = Some Reading" and "ev \<noteq> LfCommand c" and "ev \<noteq> LfGone c"
  shows "lf_handlers t c = Some Reading"
  using assms by cases (auto simp: accept_returns_def handler_returns_def stop_called_def split: if_splits)

lemma reading_kept_run:
  "life_run s evs t \<Longrightarrow> lf_handlers s c = Some Reading \<Longrightarrow> LfCommand c \<notin> set evs \<Longrightarrow> LfGone c \<notin> set evs
   \<Longrightarrow> lf_handlers t c = Some Reading"
  by (induction rule: life_run.induct) (auto dest: reading_kept)

text \<open>Without clients, \<open>Stop\<close> returns as soon as the accept loop has seen the closed listener.\<close>

lemma stop_returns:
  assumes "life_inv s" and "lf_stop s = StopWaiting" and "lf_handlers s = Map.empty"
  shows "\<exists>evs t. length evs \<le> 2 \<and> life_run s evs t \<and> lf_stop t = StopDone"
proof (cases "lf_accept s = LoopOver")
  case True
  with assms have "lf_wait_group s = 0" by (simp add: life_inv_def)
  with stopped [OF assms(2)] show ?thesis by (intro exI [of _ "[LfStopped]"] exI) auto
next
  case False
  then obtain ev where ev: "life_step s ev (accept_returns s)"
    using look [of s] accept_error [of s] assms(1,2) by (cases "lf_accept s") (auto simp: life_inv_def)
  have "lf_stop (accept_returns s) = StopWaiting" "lf_wait_group (accept_returns s) = 0"
    using assms False by (simp_all add: life_inv_def accept_returns_def)
  from ev stopped [OF this] show ?thesis by (intro exI [of _ "[ev, LfStopped]"] exI) auto
qed

text \<open>
  Stopping the MySQL server: after the call of \<open>Stop\<close> no connection is accepted, and a
  client executes at most one more command; when \<open>Stop\<close> returns no goroutine is left, and
  with no client left it can return within two steps; but it does not return, however long
  the program runs, while one client stays connected and silent: nothing closes its
  connection.\<close>

theorem stop_waits_for_silent_clients:
  assumes "life_run start_server before s" and "life_run s (LfStop # after) t"
  shows "(\<forall>c. LfAccept c \<notin> set after \<and> count_list after (LfCommand c) \<le> 1)
     \<and> (lf_stop t = StopDone \<longrightarrow> lf_handlers t = Map.empty \<and> lf_accept t = LoopOver)
     \<and> (lf_handlers t = Map.empty \<longrightarrow> lf_stop t = StopWaiting \<longrightarrow>
          (\<exists>evs v. length evs \<le> 2 \<and> life_run t evs v \<and> lf_stop v = StopDone))
     \<and> (lf_handlers s c = Some Reading \<longrightarrow> LfCommand c \<notin> set after \<longrightarrow> LfGone c \<notin> set after \<longrightarrow> lf_stop t \<noteq> StopDone)"
proof -
  obtain u where u: "life_step s LfStop u" and run: "life_run u after t" using assms(2) by auto
  have s: "life_inv s" using life_run_inv [OF assms(1) start_inv] .
  have inv: "life_inv u" "life_inv t" using life_step_inv [OF u s] life_run_inv [OF run] by blast+
  have quit: "lf_quit u" "lf_handlers u = lf_handlers s" using u by (auto simp: stop_called_def elim!: life_stepE)
  have most: "commands_left h \<le> 1" for h by (cases h rule: commands_left.cases) auto
  have "LfAccept c \<notin> set after" "count_list after (LfCommand c) \<le> 1" for c
    using quit_run [OF run inv(1) quit(1), of c] most [of "lf_handlers u c"] by auto
  moreover have "lf_stop t \<noteq> StopDone" if "lf_handlers s c = Some Reading" "LfCommand c \<notin> set after" "LfGone c \<notin> set after"
    using reading_kept_run [OF run _ that(2,3)] that(1) quit(2) inv(2) by (auto simp: life_inv_def)
  ultimately show ?thesis using inv(2) stop_returns [OF inv(2)] by (simp add: life_inv_def)
qed

text \<open>A client connects and stays silent.\<close>

definition demo_reading :: life where
  "demo_reading = \<lparr>lf_quit = False, lf_listening = True, lf_accept = AtTop, lf_handlers = [7 \<mapsto> Reading],
     lf_wait_group = 2, lf_stop = StopIdle\<rparr>"

lemma demo_reading_run: "life_run start_server [LfLook, LfAccept 7, LfShaken 7, LfLookBack 7] demo_reading"
proof -
  let ?a = "start_server\<lparr>lf_accept := InAccept\<rparr>"
  let ?b = "start_server\<lparr>lf_handlers := [7 \<mapsto> Shaking], lf_wait_group := 2\<rparr>"
  let ?c = "start_server\<lparr>lf_handlers := [7 \<mapsto> Looking], lf_wait_group := 2\<rparr>"
  have "life_step start_server LfLook ?a" "life_step ?a (LfAccept 7) ?b" "life_step ?b (LfShaken 7) ?c"
    "life_step ?c (LfLookBack 7) demo_reading"
    using look [of start_server] accept [of ?a 7] shaken [of ?b 7] look_back [of ?c 7]
    by (simp_all add: start_server_def demo_reading_def)
  then show ?thesis by auto
qed

theorem stop_waits_for_silent_clients_witness:
  "lf_stop (demo_reading\<lparr>lf_quit := True, lf_listening := False, lf_stop := StopWaiting, lf_accept := LoopOver, lf_wait_group := 1\<rparr>) \<noteq> StopDone"
proof -
  let ?u = "demo_reading\<lparr>lf_quit := True, lf_listening := False, lf_stop := StopWaiting\<rparr>"
  let ?t = "?u\<lparr>lf_accept := LoopOver, lf_wait_group := 1\<rparr>"
  have "life_step demo_reading LfStop ?u" "life_step ?u LfLook ?t"
    using stop [of demo_reading] look [of ?u] by (simp_all add: demo_reading_def accept_returns_def stop_called_def)
  then have "life_run demo_reading [LfStop, LfLook] ?t" by auto
  from stop_waits_for_silent_clients [OF demo_reading_run this, of 7] show ?thesis by (simp add: demo_reading_def)
qed

end
