(* ===== verification/OpenAI.thy ===== *)
theory OpenAI
  imports Retry
begin

section \<open>The OpenAI data types (api/openai/types.go)\<close>

text \<open>
  The request and response values that the proxy, the providers and the referee pass to
  each other. A field of Go type \<open>any\<close> is a decoded JSON value; the fields that the program
  only passes through to the provider are kept together as one JSON value (\<open>options\<close>).
\<close>

datatype json =
    JNull
  | JBool bool
  | JNum rat
  | JStr string
  | JList "json list"
  | JObj "(string \<times> json) list"

record message =
  mg_role :: string
  mg_content :: json
  mg_options :: json

definition text_message :: "string \<Rightarrow> string \<Rightarrow> message" where
  "text_message role text = \<lparr>mg_role = role, mg_content = JStr text, mg_options = JNull\<rparr>"

record referee_mode =
  rm_enabled :: bool
  rm_referee_model :: string
  rm_providers :: "string list"
  rm_provider_models :: "(string \<times> string) list"
  rm_min_responses :: i64
  rm_timeout_ms :: i64

record chat_request =
  cq_model :: string
  cq_messages :: "message list"
  cq_temperature :: "rat option"
  cq_top_p :: "rat option"
  cq_stream :: bool
  cq_stop :: "string list"
  cq_max_tokens :: "i64 option"
  cq_user :: string
  cq_options :: json
  cq_referee_mode :: "referee_mode option"

record referee_info =
  ri_providers_queried :: i64
  ri_successful_responses :: i64
  ri_failed_providers :: "string list"
  ri_referee_model :: string
  ri_synthesis_latency_ms :: i64

record usage =
  ug_prompt_tokens :: i64
  ug_completion_tokens :: i64
  ug_total_tokens :: i64
  ug_cached_tokens :: "i64 option"

record choice =
  ch_index :: i64
  ch_message :: "message option"
  ch_delta :: "message option"
  ch_finish_reason :: string

record chat_response =
  cs_id :: string
  cs_object :: string
  cs_created :: i64
  cs_model :: string
  cs_choices :: "choice list"
  cs_usage :: "usage option"
  cs_referee_info :: "referee_info option"

record stream_chunk =
  sk_id :: string
  sk_object :: string
  sk_created :: i64
  sk_model :: string
  sk_choices :: "choice list"

record completion_request =
  pq_model :: string
  pq_prompt :: json
  pq_max_tokens :: "i64 option"
  pq_temperature :: "rat option"
  pq_top_p :: "rat option"
  pq_stop :: "string list"
  pq_options :: json

record completion_choice =
  pc_text :: string
  pc_index :: i64
  pc_finish_reason :: string

record completion_response =
  ps_id :: string
  ps_object :: string
  ps_created :: i64
  ps_model :: string
  ps_choices :: "completion_choice list"
  ps_usage :: "usage option"

record embedding_request =
  eq_model :: string
  eq_input :: json
  eq_dimensions :: "i64 option"
  eq_options :: json

record embedding_response =
  es_object :: string
  es_data :: "(i64 \<times> rat list) list"
  es_model :: string
  es_usage :: "(i64 \<times> i64) option"

record model_info =
  mi_id :: string
  mi_object :: string
  mi_owned_by :: string

text \<open>The assertion \<open>content.(string)\<close>.\<close>

fun json_string :: "json \<Rightarrow> string option" where
  "json_string (JStr s) = Some s"
| "json_string _ = None"

text \<open>The fields of a Go value start out zero.\<close>

definition zero_chat_request :: chat_request where
  "zero_chat_request = \<lparr>cq_model = [], cq_messages = [], cq_temperature = None, cq_top_p = None,
     cq_stream = False, cq_stop = [], cq_max_tokens = None, cq_user = [], cq_options = JNull,
     cq_referee_mode = None\<rparr>"

definition assistant_choice :: "string \<Rightarrow> string \<Rightarrow> string \<Rightarrow> choice" where
  "assistant_choice role text finish = \<lparr>ch_index = 0, ch_message = Some (text_message role text),
     ch_delta = None, ch_finish_reason = finish\<rparr>"

definition delta_chunk :: "string \<Rightarrow> i64 \<Rightarrow> string \<Rightarrow> string \<Rightarrow> stream_chunk" where
  "delta_chunk id_text created model text =
     \<lparr>sk_id = id_text, sk_object = ''chat.completion.chunk'', sk_created = created, sk_model = model,
      sk_choices = [\<lparr>ch_index = 0, ch_message = None, ch_delta = Some (text_message [] text),
        ch_finish_reason = []\<rparr>]\<rparr>"

end
