(* ===== verification/Provider.thy ===== *)
theory Provider
  imports OpenAI Storage
begin

section \<open>Provider adapters (internal/provider)\<close>

text \<open>
  The adapters that translate the OpenAI request into each provider's own and its answer
  back: OpenAI (also Groq and custom servers), Anthropic, Ollama, Azure and Google. The
  network is a parameter from the call (method, URL, headers, body) to the answer (status
  and body bytes); the decoding of JSON bodies is the record \<open>codec\<close>. A call's body is the
  Go value that the code marshals.
\<close>

subsection \<open>Calls and answers\<close>

record anthropic_request =
  aq_model :: string
  aq_messages :: "(string \<times> json) list"
  aq_max_tokens :: i64
  aq_temperature :: "rat option"
  aq_top_p :: "rat option"
  aq_system :: "json option"
  aq_stop_sequences :: "string list"
  aq_stream :: bool

record generation_config =
  gc_temperature :: "rat option"
  gc_top_p :: "rat option"
  gc_max_tokens :: "i64 option"
  gc_stop :: "string list"

record gemini_request =
  gq_contents :: "(string \<times> string) list"
  gq_config :: "generation_config option"

record ollama_request =
  oq_model :: string
  oq_messages :: "(string \<times> string) list"
  oq_stream :: bool
  oq_options :: "generation_config option"

datatype call_body =
    NoBody
  | ChatBody chat_request
  | AnthropicBody anthropic_request
  | GeminiBody gemini_request
  | OllamaBody ollama_request
  | OllamaEmbeddingBody string string
  | CompletionBody completion_request
  | EmbeddingBody embedding_request

record provider_call =
  cl_method :: string
  cl_url :: string
  cl_headers :: "(string \<times> string) list"
  cl_body :: call_body

text \<open>A call fails on the network (or on a malformed URL), or is answered.\<close>

datatype answer = NetworkError string | Answer i64 string

type_synonym transport = "provider_call \<Rightarrow> answer"

record anthropic_response =
  as_id :: string
  as_content :: "(string \<times> string) list"
  as_model :: string
  as_stop_reason :: string
  as_input_tokens :: i64
  as_output_tokens :: i64
  as_cache_creation :: i64
  as_cache_read :: i64

record gemini_candidate =
  gd_parts :: "string list"
  gd_finish_reason :: string

record gemini_response =
  gs_candidates :: "gemini_candidate list"
  gs_usage :: "(i64 \<times> i64 \<times> i64) option"

record ollama_response =
  os_role :: string
  os_content :: string
  os_done :: bool
  os_prompt_eval_count :: i64
  os_eval_count :: i64

text \<open>A decoder returns the error of \<open>encoding/json\<close> or the value.\<close>

record codec =
  dc_error :: "string \<Rightarrow> (string \<times> string \<times> string) option"
  dc_chat :: "string \<Rightarrow> string + chat_response"
  dc_completion :: "string \<Rightarrow> string + completion_response"
  dc_embedding :: "string \<Rightarrow> string + embedding_response"
  dc_models :: "string \<Rightarrow> string + model_info list"
  dc_anthropic :: "string \<Rightarrow> string + anthropic_response"
  dc_anthropic_delta :: "string \<Rightarrow> string option"
  dc_gemini :: "string \<Rightarrow> string + gemini_response"
  dc_ollama :: "string \<Rightarrow> string + ollama_response"
  dc_ollama_embedding :: "string \<Rightarrow> string + rat list"
  dc_ollama_tags :: "string \<Rightarrow> string + string list"
  dc_marshal :: "json \<Rightarrow> string"
  dc_chunk :: "stream_chunk \<Rightarrow> string"

subsection \<open>The base provider\<close>

datatype kind = KOpenAI | KAnthropic | KOllama | KAzure | KGroq | KGoogle

record provider =
  pv_kind :: kind
  pv_server :: server
  pv_timeout :: duration

definition new_provider :: "server \<Rightarrow> duration \<Rightarrow> provider" where
  "new_provider srv timeout =
     (let t = to_lower (sv_provider_type srv) in
      \<lparr>pv_kind = (if t = ''openai'' then KOpenAI
          else if t = ''anthropic'' then KAnthropic
          else if t = ''ollama'' then KOllama
          else if t = ''azure'' then KAzure
          else if t = ''groq'' then KGroq
          else if t = ''google'' then KGoogle
          else KOpenAI),
       pv_server = srv, pv_timeout = timeout\<rparr>)"

definition json_header :: "string \<times> string" where
  "json_header = (''Content-Type'', ''application/json'')"

definition do_request :: "transport \<Rightarrow> server \<Rightarrow> string \<Rightarrow> string \<Rightarrow> call_body
    \<Rightarrow> (string \<times> string) list \<Rightarrow> answer" where
  "do_request tr srv verb path body headers =
     tr \<lparr>cl_method = verb, cl_url = trim_suffix (sv_endpoint srv) ''/'' @ path,
         cl_headers = json_header # headers, cl_body = body\<rparr>"

text \<open>The error of an answer: decoded from at most 4096 bytes, or those bytes as the message.\<close>

definition parse_error :: "codec \<Rightarrow> i64 \<Rightarrow> string \<Rightarrow> go_error" where
  "parse_error cd code body =
     (let b = take 4096 body in case dc_error cd b of
        Some (typ, message, c) \<Rightarrow> ProviderError code typ message c
      | None \<Rightarrow> ProviderError code [] b [])"

definition provider_retryable :: "i64 \<Rightarrow> bool" where
  "provider_retryable code \<longleftrightarrow> code = 429 \<or> code = 500 \<or> code = 502 \<or> code = 503 \<or> code = 504"

text \<open>The common end of the calls: the status check and the decoding of the body.\<close>

definition read_answer :: "codec \<Rightarrow> (string \<Rightarrow> string + 'a) \<Rightarrow> answer \<Rightarrow> (go_error, 'a) res" where
  "read_answer cd decode a = (case a of
       NetworkError m \<Rightarrow> Err (Plain m)
     | Answer code body \<Rightarrow>
         if code \<noteq> 200 then Err (parse_error cd code body)
         else (case decode body of
             Inl m \<Rightarrow> Err (Wrap ''failed to decode response: '' (Plain m))
           | Inr v \<Rightarrow> Ok v))"

text \<open>The headers that carry the key.\<close>

definition openai_auth_headers :: "string \<Rightarrow> (string \<times> string) list" where
  "openai_auth_headers key = (if key \<noteq> [] then [(''Authorization'', ''Bearer '' @ key)] else [])"

definition anthropic_auth_headers :: "string \<Rightarrow> (string \<times> string) list" where
  "anthropic_auth_headers key =
     [(''anthropic-version'', ''2023-06-01''), (''anthropic-beta'', ''prompt-caching-2024-07-31'')]
     @ (if key \<noteq> [] then [(''x-api-key'', key)] else [])"

definition azure_auth_headers :: "string \<Rightarrow> (string \<times> string) list" where
  "azure_auth_headers key = (if key \<noteq> [] then [(''api-key'', key)] else [])"

definition google_auth_headers :: "string \<Rightarrow> (string \<times> string) list" where
  "google_auth_headers key = [(''X-goog-api-key'', key)]"

definition api_version :: string where
  "api_version = ''2024-02-15-preview''"

definition azure_url :: "server \<Rightarrow> string \<Rightarrow> string \<Rightarrow> string" where
  "azure_url srv path model =
     (let endpoint = trim_suffix (sv_endpoint srv) ''/'';
          url = (\<lambda>op. endpoint @ ''/openai/deployments/'' @ model @ op @ ''?api-version='' @ api_version) in
      if str_contains path ''chat/completions'' then url ''/chat/completions''
      else if str_contains path ''completions'' then url ''/completions''
      else if str_contains path ''embeddings'' then url ''/embeddings''
      else endpoint @ path)"

definition google_url :: "server \<Rightarrow> string \<Rightarrow> bool \<Rightarrow> string" where
  "google_url srv model stream =
     (let endpoint = trim_suffix (sv_endpoint srv) ''/'';
          endpoint = (if endpoint = [] then ''https://generativelanguage.googleapis.com'' else endpoint)
      in endpoint @ ''/v1beta/models/'' @ model @ '':'' @
         (if stream then ''streamGenerateContent'' else ''generateContent''))"

subsection \<open>Anthropic\<close>

definition min_tokens_for_caching :: nat where
  "min_tokens_for_caching = 1024"

definition estimate_tokens :: "string \<Rightarrow> nat" where
  "estimate_tokens s = length s div 4"

text \<open>A text block marked for prompt caching.\<close>

definition cached_block :: "string \<Rightarrow> json" where
  "cached_block s = JList [JObj [(''type'', JStr ''text''), (''text'', JStr s),
     (''cache_control'', JObj [(''type'', JStr ''ephemeral'')])]]"

definition cache_if_long :: "string \<Rightarrow> json" where
  "cache_if_long s = (if min_tokens_for_caching \<le> estimate_tokens s then cached_block s else JStr s)"

text \<open>The last system message with text content is the system prompt.\<close>

fun system_prompt :: "message list \<Rightarrow> string \<Rightarrow> string" where
  "system_prompt [] s = s"
| "system_prompt (m # ms) s = system_prompt ms
     (if mg_role m = ''system'' then (case json_string (mg_content m) of Some t \<Rightarrow> t | None \<Rightarrow> s) else s)"

text \<open>The loop from the last message backwards: the last user message, if it is a long text.\<close>

fun mark_last_user :: "(string \<times> json) list \<Rightarrow> (string \<times> json) list" where
  "mark_last_user [] = []"
| "mark_last_user ((role, content) # rest) =
     (if role = ''user''
      then (role, case json_string content of Some t \<Rightarrow> cache_if_long t | None \<Rightarrow> content) # rest
      else (role, content) # mark_last_user rest)"

definition convert_to_anthropic :: "chat_request \<Rightarrow> anthropic_request" where
  "convert_to_anthropic q =
     (let sys = system_prompt (cq_messages q) [];
          ms = map (\<lambda>m. (mg_role m, mg_content m)) (filter (\<lambda>m. mg_role m \<noteq> ''system'') (cq_messages q))
      in \<lparr>aq_model = cq_model q, aq_messages = rev (mark_last_user (rev ms)),
          aq_max_tokens = (case cq_max_tokens q of Some n \<Rightarrow> n | None \<Rightarrow> 4096),
          aq_temperature = cq_temperature q, aq_top_p = cq_top_p q,
          aq_system = (if sys \<noteq> [] then Some (cache_if_long sys) else None),
          aq_stop_sequences = cq_stop q, aq_stream = cq_stream q\<rparr>)"

definition anthropic_to_openai :: "time \<Rightarrow> anthropic_response \<Rightarrow> chat_response" where
  "anthropic_to_openai now a =
     (let content = concat (map snd (filter (\<lambda>(t, _). t = ''text'') (as_content a)));
          finish = (if as_stop_reason a = ''max_tokens'' then ''length'' else ''stop'') in
      \<lparr>cs_id = as_id a, cs_object = ''chat.completion'', cs_created = now div second,
       cs_model = as_model a, cs_choices = [assistant_choice ''assistant'' content finish],
       cs_usage = Some \<lparr>ug_prompt_tokens = as_input_tokens a,
         ug_completion_tokens = as_output_tokens a,
         ug_total_tokens = add64 (as_input_tokens a) (as_output_tokens a),
         ug_cached_tokens = (if 0 < as_cache_read a \<or> 0 < as_cache_creation a
           then Some (as_cache_read a) else None)\<rparr>,
       cs_referee_info = None\<rparr>)"

subsection \<open>Google\<close>

text \<open>The text of a content value: the string itself, or its JSON form.\<close>

definition content_text :: "codec \<Rightarrow> json \<Rightarrow> string" where
  "content_text cd c = (case json_string c of Some t \<Rightarrow> t | None \<Rightarrow> dc_marshal cd c)"

definition generation_options :: "chat_request \<Rightarrow> generation_config option" where
  "generation_options q =
     (if cq_temperature q \<noteq> None \<or> cq_top_p q \<noteq> None \<or> cq_max_tokens q \<noteq> None \<or> cq_stop q \<noteq> []
      then Some \<lparr>gc_temperature = cq_temperature q, gc_top_p = cq_top_p q,
        gc_max_tokens = cq_max_tokens q, gc_stop = cq_stop q\<rparr>
      else None)"

definition gemini_role :: "string \<Rightarrow> string" where
  "gemini_role role = (if role = ''assistant'' then ''model'' else role)"

definition convert_to_gemini :: "codec \<Rightarrow> chat_request \<Rightarrow> gemini_request" where
  "convert_to_gemini cd q =
     \<lparr>gq_contents = map (\<lambda>m. (gemini_role (mg_role m), content_text cd (mg_content m)))
        (filter (\<lambda>m. mg_role m \<noteq> ''system'') (cq_messages q)),
      gq_config = generation_options q\<rparr>"

definition gemini_finish :: "string \<Rightarrow> string" where
  "gemini_finish r = (if r = ''STOP'' then ''stop'' else if r = ''MAX_TOKENS'' then ''length''
     else if r = ''SAFETY'' then ''content_filter'' else ''stop'')"

definition gemini_text :: "gemini_candidate list \<Rightarrow> string" where
  "gemini_text cands = (case cands of
       [] \<Rightarrow> []
     | c # _ \<Rightarrow> (case gd_parts c of [] \<Rightarrow> [] | t # _ \<Rightarrow> t))"

definition gemini_to_openai :: "time \<Rightarrow> string \<Rightarrow> gemini_response \<Rightarrow> chat_response" where
  "gemini_to_openai now model g =
     \<lparr>cs_id = ''chatcmpl-google-'' @ itoa now, cs_object = ''chat.completion'',
      cs_created = now div second, cs_model = model,
      cs_choices = [assistant_choice ''assistant'' (gemini_text (gs_candidates g))
        (case gs_candidates g of [] \<Rightarrow> [] | c # _ \<Rightarrow> gemini_finish (gd_finish_reason c))],
      cs_usage = map_option (\<lambda>(p, c, t). \<lparr>ug_prompt_tokens = p, ug_completion_tokens = c,
        ug_total_tokens = t, ug_cached_tokens = None\<rparr>) (gs_usage g),
      cs_referee_info = None\<rparr>"

subsection \<open>Ollama\<close>

definition convert_to_ollama :: "codec \<Rightarrow> chat_request \<Rightarrow> ollama_request" where
  "convert_to_ollama cd q =
     \<lparr>oq_model = cq_model q,
      oq_messages = map (\<lambda>m. (mg_role m, content_text cd (mg_content m))) (cq_messages q),
      oq_stream = cq_stream q, oq_options = generation_options q\<rparr>"

definition ollama_to_openai :: "time \<Rightarrow> string \<Rightarrow> ollama_response \<Rightarrow> chat_response" where
  "ollama_to_openai now model r =
     \<lparr>cs_id = ''chatcmpl-ollama-'' @ itoa now, cs_object = ''chat.completion'',
      cs_created = now div second, cs_model = model,
      cs_choices = [assistant_choice (os_role r) (os_content r) ''stop''],
      cs_usage = Some \<lparr>ug_prompt_tokens = os_prompt_eval_count r, ug_completion_tokens = os_eval_count r,
        ug_total_tokens = add64 (os_prompt_eval_count r) (os_eval_count r), ug_cached_tokens = None\<rparr>,
      cs_referee_info = None\<rparr>"

subsection \<open>Chat completions\<close>

text \<open>A request to a URL that the adapter builds itself (Azure and Google).\<close>

definition post_url :: "transport \<Rightarrow> string \<Rightarrow> call_body \<Rightarrow> (string \<times> string) list \<Rightarrow> answer" where
  "post_url tr url body headers =
     tr \<lparr>cl_method = ''POST'', cl_url = url, cl_headers = json_header # headers, cl_body = body\<rparr>"

fun on_ok :: "('a \<Rightarrow> 'b) \<Rightarrow> ('e, 'a) res \<Rightarrow> ('e, 'b) res" where
  "on_ok f (Ok a) = Ok (f a)"
| "on_ok f (Err e) = Err e"
| "on_ok f (Panic m) = Panic m"

definition openai_chat_completion :: "transport \<Rightarrow> codec \<Rightarrow> server \<Rightarrow> chat_request
    \<Rightarrow> (go_error, chat_response) res" where
  "openai_chat_completion tr cd srv q = read_answer cd (dc_chat cd)
     (do_request tr srv ''POST'' ''/v1/chat/completions'' (ChatBody q) (openai_auth_headers (sv_api_key srv)))"

definition anthropic_chat_completion :: "transport \<Rightarrow> codec \<Rightarrow> time \<Rightarrow> server \<Rightarrow> chat_request
    \<Rightarrow> (go_error, chat_response) res" where
  "anthropic_chat_completion tr cd now srv q = on_ok (anthropic_to_openai now) (read_answer cd (dc_anthropic cd)
     (do_request tr srv ''POST'' ''/v1/messages'' (AnthropicBody (convert_to_anthropic q))
       (anthropic_auth_headers (sv_api_key srv))))"

definition ollama_chat_completion :: "transport \<Rightarrow> codec \<Rightarrow> time \<Rightarrow> server \<Rightarrow> chat_request
    \<Rightarrow> (go_error, chat_response) res" where
  "ollama_chat_completion tr cd now srv q = on_ok (ollama_to_openai now (cq_model q)) (read_answer cd (dc_ollama cd)
     (do_request tr srv ''POST'' ''/api/chat'' (OllamaBody ((convert_to_ollama cd q)\<lparr>oq_stream := False\<rparr>)) []))"

definition azure_chat_completion :: "transport \<Rightarrow> codec \<Rightarrow> server \<Rightarrow> chat_request
    \<Rightarrow> (go_error, chat_response) res" where
  "azure_chat_completion tr cd srv q = read_answer cd (dc_chat cd)
     (post_url tr (azure_url srv ''/chat/completions'' (cq_model q)) (ChatBody q)
       (azure_auth_headers (sv_api_key srv)))"

definition google_chat_completion :: "transport \<Rightarrow> codec \<Rightarrow> time \<Rightarrow> server \<Rightarrow> chat_request
    \<Rightarrow> (go_error, chat_response) res" where
  "google_chat_completion tr cd now srv q = on_ok (gemini_to_openai now (cq_model q)) (read_answer cd (dc_gemini cd)
     (post_url tr (google_url srv (cq_model q) False) (GeminiBody (convert_to_gemini cd q))
       (google_auth_headers (sv_api_key srv))))"

text \<open>The method of the interface; Groq embeds the OpenAI adapter.\<close>

definition chat_completion :: "transport \<Rightarrow> codec \<Rightarrow> time \<Rightarrow> provider \<Rightarrow> chat_request
    \<Rightarrow> (go_error, chat_response) res" where
  "chat_completion tr cd now p q = (let srv = pv_server p in case pv_kind p of
       KOpenAI \<Rightarrow> openai_chat_completion tr cd srv q
     | KGroq \<Rightarrow> openai_chat_completion tr cd srv q
     | KAnthropic \<Rightarrow> anthropic_chat_completion tr cd now srv q
     | KOllama \<Rightarrow> ollama_chat_completion tr cd now srv q
     | KAzure \<Rightarrow> azure_chat_completion tr cd srv q
     | KGoogle \<Rightarrow> google_chat_completion tr cd now srv q)"

subsection \<open>Streams\<close>

text \<open>
  \<open>bufio.Scanner\<close> over a body: the lines without their newline and carriage return, a last
  line only if it is not empty, and at a line that does not fit its buffer of 64 KB the
  error \<open>ErrTooLong\<close>. \<open>broken\<close> is the error that the reading of the body ends with, if any.
\<close>

definition max_line :: nat where
  "max_line = 65535"

definition drop_cr :: "string \<Rightarrow> string" where
  "drop_cr s = (if s \<noteq> [] \<and> last s = char_of (13 :: nat) then butlast s else s)"

definition body_lines :: "string \<Rightarrow> string list" where
  "body_lines body = (let ls = split_on (char_of (10 :: nat)) body in
     if last ls = [] then butlast ls else ls)"

definition scan_lines :: "string option \<Rightarrow> string \<Rightarrow> string list \<times> string option" where
  "scan_lines broken body = (let ls = body_lines body; fit = takeWhile (\<lambda>l. length l \<le> max_line) ls in
     (map drop_cr fit,
      if length fit < length ls then Some ''bufio.Scanner: token too long'' else broken))"

datatype stream_event = EvData string | EvError string | EvDone

definition scan_error :: "string option \<Rightarrow> stream_event list" where
  "scan_error e = (case e of Some m \<Rightarrow> [EvError m] | None \<Rightarrow> [])"

text \<open>Server-sent events of OpenAI and Azure.\<close>

fun read_sse :: "string option \<Rightarrow> string list \<Rightarrow> stream_event list" where
  "read_sse err [] = scan_error err"
| "read_sse err (line # rest) =
     (if has_prefix line ''data: '' then
        (let data = trim_prefix line ''data: '' in
         if data = ''[DONE]'' then [EvDone] else EvData data # read_sse err rest)
      else read_sse err rest)"

text \<open>\<open>clock i\<close> is the time at which line \<open>i\<close> is converted.\<close>

fun read_anthropic_sse :: "codec \<Rightarrow> string \<Rightarrow> string option \<Rightarrow> (nat \<Rightarrow> time) \<Rightarrow> string \<Rightarrow> string list
    \<Rightarrow> stream_event list" where
  "read_anthropic_sse cd model err clock event [] = scan_error err"
| "read_anthropic_sse cd model err clock event (line # rest) =
     (let tick = (\<lambda>i. clock (Suc i)); data = trim_prefix line ''data: '' in
      if has_prefix line ''event: ''
      then read_anthropic_sse cd model err tick (trim_prefix line ''event: '') rest
      else if \<not> has_prefix line ''data: '' then read_anthropic_sse cd model err tick event rest
      else if event = ''content_block_delta'' then
        (case dc_anthropic_delta cd data of
           Some text \<Rightarrow> EvData (dc_chunk cd (delta_chunk ''chatcmpl-anthropic'' (clock 0 div second) model text))
             # read_anthropic_sse cd model err tick event rest
         | None \<Rightarrow> read_anthropic_sse cd model err tick event rest)
      else if event = ''message_stop'' then [EvDone]
      else if event = ''error'' then [EvError (''anthropic stream error: '' @ data)]
      else read_anthropic_sse cd model err tick event rest)"

fun read_ollama_stream :: "codec \<Rightarrow> string \<Rightarrow> string option \<Rightarrow> (nat \<Rightarrow> time) \<Rightarrow> string list
    \<Rightarrow> stream_event list" where
  "read_ollama_stream cd model err clock [] = scan_error err"
| "read_ollama_stream cd model err clock (line # rest) =
     (if line = [] then read_ollama_stream cd model err (\<lambda>i. clock (Suc i)) rest
      else case dc_ollama cd line of
        Inl m \<Rightarrow> [EvError m]
      | Inr r \<Rightarrow>
          if os_done r then [EvDone]
          else EvData (dc_chunk cd (delta_chunk (''chatcmpl-ollama-'' @ itoa (clock 0))
                 (clock 0 div second) model (os_content r)))
               # read_ollama_stream cd model err (\<lambda>i. clock (Suc i)) rest)"

text \<open>The Gemini reader skips what does not decode and always ends with \<open>Done\<close>.\<close>

fun read_gemini_stream :: "codec \<Rightarrow> string \<Rightarrow> (nat \<Rightarrow> time) \<Rightarrow> string list \<Rightarrow> stream_event list" where
  "read_gemini_stream cd model clock [] = [EvDone]"
| "read_gemini_stream cd model clock (line # rest) =
     (let next = read_gemini_stream cd model (\<lambda>i. clock (Suc i)) rest in
      if line \<in> {[], ''['', '']'', '',''} then next
      else case dc_gemini cd (trim_prefix line '','') of
        Inl _ \<Rightarrow> next
      | Inr g \<Rightarrow> (case gs_candidates g of
            [] \<Rightarrow> next
          | c # _ \<Rightarrow> (case gd_parts c of
                [] \<Rightarrow> next
              | text # _ \<Rightarrow> EvData (dc_chunk cd (delta_chunk (''chatcmpl-google-'' @ itoa (clock 0))
                  (clock 0 div second) model text)) # next)))"

text \<open>A stream starts when the status is 200; otherwise the call fails as without streaming.\<close>

definition start_stream :: "codec \<Rightarrow> string option \<Rightarrow> (string option \<Rightarrow> string list \<Rightarrow> stream_event list)
    \<Rightarrow> answer \<Rightarrow> (go_error, stream_event list) res" where
  "start_stream cd broken reader a = (case a of
       NetworkError m \<Rightarrow> Err (Plain m)
     | Answer code body \<Rightarrow>
         if code \<noteq> 200 then Err (parse_error cd code body)
         else (let (ls, err) = scan_lines broken body in Ok (reader err ls)))"

definition accept_events :: "string \<times> string" where
  "accept_events = (''Accept'', ''text/event-stream'')"

definition openai_chat_completion_stream :: "transport \<Rightarrow> codec \<Rightarrow> string option \<Rightarrow> server \<Rightarrow> chat_request
    \<Rightarrow> (go_error, stream_event list) res" where
  "openai_chat_completion_stream tr cd broken srv q = start_stream cd broken read_sse
     (do_request tr srv ''POST'' ''/v1/chat/completions'' (ChatBody (q\<lparr>cq_stream := True\<rparr>))
       (openai_auth_headers (sv_api_key srv) @ [accept_events]))"

definition anthropic_chat_completion_stream :: "transport \<Rightarrow> codec \<Rightarrow> string option \<Rightarrow> (nat \<Rightarrow> time) \<Rightarrow> server
    \<Rightarrow> chat_request \<Rightarrow> (go_error, stream_event list) res" where
  "anthropic_chat_completion_stream tr cd broken clock srv q =
     start_stream cd broken (\<lambda>err. read_anthropic_sse cd (cq_model q) err clock [])
       (do_request tr srv ''POST'' ''/v1/messages'' (AnthropicBody ((convert_to_anthropic q)\<lparr>aq_stream := True\<rparr>))
         (anthropic_auth_headers (sv_api_key srv) @ [accept_events]))"

definition ollama_chat_completion_stream :: "transport \<Rightarrow> codec \<Rightarrow> string option \<Rightarrow> (nat \<Rightarrow> time) \<Rightarrow> server
    \<Rightarrow> chat_request \<Rightarrow> (go_error, stream_event list) res" where
  "ollama_chat_completion_stream tr cd broken clock srv q =
     start_stream cd broken (\<lambda>err. read_ollama_stream cd (cq_model q) err clock)
       (do_request tr srv ''POST'' ''/api/chat'' (OllamaBody ((convert_to_ollama cd q)\<lparr>oq_stream := True\<rparr>)) [])"

definition azure_chat_completion_stream :: "transport \<Rightarrow> codec \<Rightarrow> string option \<Rightarrow> server \<Rightarrow> chat_request
    \<Rightarrow> (go_error, stream_event list) res" where
  "azure_chat_completion_stream tr cd broken srv q = start_stream cd broken read_sse
     (post_url tr (azure_url srv ''/chat/completions'' (cq_model q)) (ChatBody (q\<lparr>cq_stream := True\<rparr>))
       (accept_events # azure_auth_headers (sv_api_key srv)))"

definition google_chat_completion_stream :: "transport \<Rightarrow> codec \<Rightarrow> string option \<Rightarrow> (nat \<Rightarrow> time) \<Rightarrow> server
    \<Rightarrow> chat_request \<Rightarrow> (go_error, stream_event list) res" where
  "google_chat_completion_stream tr cd broken clock srv q =
     start_stream cd broken (\<lambda>err. read_gemini_stream cd (cq_model q) clock)
       (post_url tr (google_url srv (cq_model q) True) (GeminiBody (convert_to_gemini cd q))
         (google_auth_headers (sv_api_key srv)))"

definition chat_completion_stream :: "transport \<Rightarrow> codec \<Rightarrow> string option \<Rightarrow> (nat \<Rightarrow> time) \<Rightarrow> provider
    \<Rightarrow> chat_request \<Rightarrow> (go_error, stream_event list) res" where
  "chat_completion_stream tr cd broken clock p q = (let srv = pv_server p in case pv_kind p of
       KOpenAI \<Rightarrow> openai_chat_completion_stream tr cd broken srv q
     | KGroq \<Rightarrow> openai_chat_completion_stream tr cd broken srv q
     | KAnthropic \<Rightarrow> anthropic_chat_completion_stream tr cd broken clock srv q
     | KOllama \<Rightarrow> ollama_chat_completion_stream tr cd broken clock srv q
     | KAzure \<Rightarrow> azure_chat_completion_stream tr cd broken srv q
     | KGoogle \<Rightarrow> google_chat_completion_stream tr cd broken clock srv q)"

subsection \<open>Completions, embeddings and models\<close>

definition completion_as_chat :: "completion_request \<Rightarrow> chat_request" where
  "completion_as_chat q = zero_chat_request\<lparr>cq_model := pq_model q,
     cq_messages := [\<lparr>mg_role = ''user'', mg_content = pq_prompt q, mg_options = JNull\<rparr>],
     cq_temperature := pq_temperature q, cq_top_p := pq_top_p q,
     cq_max_tokens := pq_max_tokens q, cq_stop := pq_stop q\<rparr>"

definition first_text :: "choice list \<Rightarrow> string" where
  "first_text cs = (case cs of
       [] \<Rightarrow> []
     | c # _ \<Rightarrow> (case ch_message c of
           None \<Rightarrow> []
         | Some m \<Rightarrow> (case json_string (mg_content m) of Some t \<Rightarrow> t | None \<Rightarrow> [])))"

text \<open>The text is read under a length check, the finish reason of \<open>Choices[0]\<close> without one.\<close>

definition chat_as_completion :: "chat_response \<Rightarrow> (go_error, completion_response) res" where
  "chat_as_completion r = (case cs_choices r of
       [] \<Rightarrow> Panic ''index out of range''
     | c # cs \<Rightarrow> Ok \<lparr>ps_id = cs_id r, ps_object = ''text_completion'', ps_created = cs_created r,
         ps_model = cs_model r,
         ps_choices = [\<lparr>pc_text = first_text (c # cs), pc_index = 0,
           pc_finish_reason = ch_finish_reason c\<rparr>],
         ps_usage = cs_usage r\<rparr>)"

text \<open>The adapters without a completion endpoint answer through a chat.\<close>

definition anthropic_completion :: "transport \<Rightarrow> codec \<Rightarrow> time \<Rightarrow> server \<Rightarrow> completion_request
    \<Rightarrow> (go_error, completion_response) res" where
  "anthropic_completion tr cd now srv q =
     res_bind (anthropic_chat_completion tr cd now srv (completion_as_chat q)) chat_as_completion"

definition ollama_completion :: "transport \<Rightarrow> codec \<Rightarrow> time \<Rightarrow> server \<Rightarrow> completion_request
    \<Rightarrow> (go_error, completion_response) res" where
  "ollama_completion tr cd now srv q =
     res_bind (ollama_chat_completion tr cd now srv (completion_as_chat q)) chat_as_completion"

definition google_completion :: "transport \<Rightarrow> codec \<Rightarrow> time \<Rightarrow> server \<Rightarrow> completion_request
    \<Rightarrow> (go_error, completion_response) res" where
  "google_completion tr cd now srv q =
     res_bind (google_chat_completion tr cd now srv (completion_as_chat q)) chat_as_completion"

definition openai_completion :: "transport \<Rightarrow> codec \<Rightarrow> server \<Rightarrow> completion_request
    \<Rightarrow> (go_error, completion_response) res" where
  "openai_completion tr cd srv q = read_answer cd (dc_completion cd)
     (do_request tr srv ''POST'' ''/v1/completions'' (CompletionBody q) (openai_auth_headers (sv_api_key srv)))"

definition azure_completion :: "transport \<Rightarrow> codec \<Rightarrow> server \<Rightarrow> completion_request
    \<Rightarrow> (go_error, completion_response) res" where
  "azure_completion tr cd srv q = read_answer cd (dc_completion cd)
     (post_url tr (azure_url srv ''/completions'' (pq_model q)) (CompletionBody q)
       (azure_auth_headers (sv_api_key srv)))"

definition completion :: "transport \<Rightarrow> codec \<Rightarrow> time \<Rightarrow> provider \<Rightarrow> completion_request
    \<Rightarrow> (go_error, completion_response) res" where
  "completion tr cd now p q = (let srv = pv_server p in case pv_kind p of
       KOpenAI \<Rightarrow> openai_completion tr cd srv q
     | KGroq \<Rightarrow> openai_completion tr cd srv q
     | KAnthropic \<Rightarrow> anthropic_completion tr cd now srv q
     | KOllama \<Rightarrow> ollama_completion tr cd now srv q
     | KAzure \<Rightarrow> azure_completion tr cd srv q
     | KGoogle \<Rightarrow> google_completion tr cd now srv q)"

text \<open>Ollama embeds one text: the input, or the first of a list of inputs if it is a string.\<close>

definition ollama_input :: "json \<Rightarrow> string" where
  "ollama_input v = (case v of
       JStr s \<Rightarrow> s
     | JList (JStr s # _) \<Rightarrow> s
     | _ \<Rightarrow> [])"

definition openai_embedding :: "transport \<Rightarrow> codec \<Rightarrow> server \<Rightarrow> embedding_request
    \<Rightarrow> (go_error, embedding_response) res" where
  "openai_embedding tr cd srv q = read_answer cd (dc_embedding cd)
     (do_request tr srv ''POST'' ''/v1/embeddings'' (EmbeddingBody q) (openai_auth_headers (sv_api_key srv)))"

definition azure_embedding :: "transport \<Rightarrow> codec \<Rightarrow> server \<Rightarrow> embedding_request
    \<Rightarrow> (go_error, embedding_response) res" where
  "azure_embedding tr cd srv q = read_answer cd (dc_embedding cd)
     (post_url tr (azure_url srv ''/embeddings'' (eq_model q)) (EmbeddingBody q)
       (azure_auth_headers (sv_api_key srv)))"

definition ollama_embedding :: "transport \<Rightarrow> codec \<Rightarrow> server \<Rightarrow> embedding_request
    \<Rightarrow> (go_error, embedding_response) res" where
  "ollama_embedding tr cd srv q = on_ok
     (\<lambda>v. \<lparr>es_object = ''list'', es_data = [(0, v)], es_model = eq_model q, es_usage = None\<rparr>)
     (read_answer cd (dc_ollama_embedding cd) (do_request tr srv ''POST'' ''/api/embeddings''
       (OllamaEmbeddingBody (eq_model q) (ollama_input (eq_input q))) []))"

definition embedding :: "transport \<Rightarrow> codec \<Rightarrow> provider \<Rightarrow> embedding_request
    \<Rightarrow> (go_error, embedding_response) res" where
  "embedding tr cd p q = (let srv = pv_server p in case pv_kind p of
       KOpenAI \<Rightarrow> openai_embedding tr cd srv q
     | KGroq \<Rightarrow> openai_embedding tr cd srv q
     | KAnthropic \<Rightarrow> Err (Plain ''anthropic does not support embeddings'')
     | KOllama \<Rightarrow> ollama_embedding tr cd srv q
     | KAzure \<Rightarrow> azure_embedding tr cd srv q
     | KGoogle \<Rightarrow> Err (Plain ''google embeddings not yet implemented''))"

definition model_of :: "string \<Rightarrow> string \<Rightarrow> model_info" where
  "model_of owner name = \<lparr>mi_id = name, mi_object = ''model'', mi_owned_by = owner\<rparr>"

definition anthropic_models :: "string list" where
  "anthropic_models = [''claude-3-opus-20240229'', ''claude-3-sonnet-20240229'',
     ''claude-3-haiku-20240307'', ''claude-2.1'', ''claude-2.0'']"

definition google_models :: "string list" where
  "google_models = [''gemini-1.5-pro'', ''gemini-1.5-flash'', ''gemini-1.0-pro'']"

definition openai_list_models :: "transport \<Rightarrow> codec \<Rightarrow> server \<Rightarrow> (go_error, model_info list) res" where
  "openai_list_models tr cd srv = read_answer cd (dc_models cd)
     (do_request tr srv ''GET'' ''/v1/models'' NoBody (openai_auth_headers (sv_api_key srv)))"

definition ollama_list_models :: "transport \<Rightarrow> codec \<Rightarrow> server \<Rightarrow> (go_error, model_info list) res" where
  "ollama_list_models tr cd srv = on_ok (map (model_of ''ollama''))
     (read_answer cd (dc_ollama_tags cd) (do_request tr srv ''GET'' ''/api/tags'' NoBody []))"

definition list_models :: "transport \<Rightarrow> codec \<Rightarrow> provider \<Rightarrow> (go_error, model_info list) res" where
  "list_models tr cd p = (let srv = pv_server p in case pv_kind p of
       KOpenAI \<Rightarrow> openai_list_models tr cd srv
     | KGroq \<Rightarrow> openai_list_models tr cd srv
     | KAnthropic \<Rightarrow> Ok (map (model_of ''anthropic'') anthropic_models)
     | KOllama \<Rightarrow> ollama_list_models tr cd srv
     | KAzure \<Rightarrow> Ok []
     | KGoogle \<Rightarrow> Ok (map (model_of ''google'') google_models))"

lemmas adapter_defs =
  openai_chat_completion_def anthropic_chat_completion_def ollama_chat_completion_def
  azure_chat_completion_def google_chat_completion_def openai_chat_completion_stream_def
  anthropic_chat_completion_stream_def ollama_chat_completion_stream_def
  azure_chat_completion_stream_def google_chat_completion_stream_def
  openai_completion_def azure_completion_def anthropic_completion_def ollama_completion_def
  google_completion_def openai_embedding_def azure_embedding_def ollama_embedding_def
  openai_list_models_def ollama_list_models_def

definition supports_streaming :: "provider \<Rightarrow> bool" where
  "supports_streaming p = True"

definition supports_embeddings :: "provider \<Rightarrow> bool" where
  "supports_embeddings p \<longleftrightarrow> pv_kind p \<notin> {KAnthropic, KGroq, KGoogle}"

fun provider_name :: "kind \<Rightarrow> string" where
  "provider_name KOpenAI = ''openai''"
| "provider_name KAnthropic = ''anthropic''"
| "provider_name KOllama = ''ollama''"
| "provider_name KAzure = ''azure''"
| "provider_name KGroq = ''groq''"
| "provider_name KGoogle = ''google''"

subsection \<open>Properties\<close>

subsubsection \<open>The Anthropic conversion\<close>

text \<open>What a content says, whether or not it is marked for caching.\<close>

fun uncached :: "json \<Rightarrow> json" where
  "uncached (JList [JObj [(a, b), (c, JStr s), (d, e)]]) =
     (if a = ''type'' \<and> c = ''text'' \<and> d = ''cache_control'' then JStr s
      else JList [JObj [(a, b), (c, JStr s), (d, e)]])"
| "uncached j = j"

lemma uncached_cached_block [simp]: "uncached (cached_block s) = JStr s"
  by (simp add: cached_block_def)

lemma uncached_cache_if_long [simp]: "uncached (cache_if_long s) = JStr s"
  by (simp add: cache_if_long_def)

lemma json_string_Some_iff: "json_string j = Some t \<longleftrightarrow> j = JStr t"
  by (cases j) auto

lemma mark_last_user_texts:
  "map (\<lambda>(r, c). (r, uncached c)) (mark_last_user ms) = map (\<lambda>(r, c). (r, uncached c)) ms"
  by (induction ms rule: mark_last_user.induct)
    (auto split: option.splits simp: json_string_Some_iff)

lemma length_mark_last_user [simp]: "length (mark_last_user ms) = length ms"
  by (induction ms rule: mark_last_user.induct) auto

text \<open>Where the marked list differs, it is at the first user message of the list.\<close>

lemma mark_last_user_diff:
  "i < length ms \<Longrightarrow> mark_last_user ms ! i \<noteq> ms ! i \<Longrightarrow>
   fst (ms ! i) = ''user'' \<and> (\<forall>j < i. fst (ms ! j) \<noteq> ''user'')
   \<and> (\<exists>t. ms ! i = (''user'', JStr t) \<and> 4096 \<le> length t \<and> mark_last_user ms ! i = (''user'', cached_block t))"
proof (induction ms arbitrary: i rule: mark_last_user.induct)
  case (2 role content rest)
  show ?case
  proof (cases "role = ''user''")
    case True
    with 2(2,3) have "i = 0" by (cases i) auto
    with True 2(3) show ?thesis
      by (auto simp: json_string_Some_iff cache_if_long_def min_tokens_for_caching_def
          estimate_tokens_def split: option.splits if_splits)
  next
    case False
    then obtain k where k: "i = Suc k" using 2(3) by (cases i) auto
    with False 2 have ih: "fst (rest ! k) = ''user'' \<and> (\<forall>j < k. fst (rest ! j) \<noteq> ''user'')
       \<and> (\<exists>t. rest ! k = (''user'', JStr t) \<and> 4096 \<le> length t \<and> mark_last_user rest ! k = (''user'', cached_block t))"
      by simp
    then have "\<forall>j < i. fst (((role, content) # rest) ! j) \<noteq> ''user''"
      using False k by (auto simp: less_Suc_eq_0_disj)
    with ih False k show ?thesis by simp
  qed
qed simp

text \<open>The system prompt is the last text among the system messages.\<close>

definition system_texts :: "message list \<Rightarrow> string list" where
  "system_texts ms = List.map_filter (\<lambda>m. if mg_role m = ''system'' then json_string (mg_content m) else None) ms"

lemma system_prompt_last:
  "system_prompt ms s = (if system_texts ms = [] then s else last (system_texts ms))"
  by (induction ms arbitrary: s)
    (auto simp: system_texts_def List.map_filter_simps split: option.splits)

definition plain_messages :: "chat_request \<Rightarrow> (string \<times> json) list" where
  "plain_messages q = map (\<lambda>m. (mg_role m, mg_content m)) (filter (\<lambda>m. mg_role m \<noteq> ''system'') (cq_messages q))"

lemma aq_messages_convert [simp]:
  "aq_messages (convert_to_anthropic q) = rev (mark_last_user (rev (plain_messages q)))"
  by (simp add: convert_to_anthropic_def plain_messages_def Let_def)

abbreviation sent_messages :: "chat_request \<Rightarrow> (string \<times> json) list" where
  "sent_messages q \<equiv> aq_messages (convert_to_anthropic q)"

text \<open>
  C17: Translating a request for Anthropic keeps what it says: the messages that are not
  system messages arrive in the same order with the same role and the same content, up to
  the marking of at most one of them for prompt caching, which is then the last user
  message, a text of at least 4096 bytes; the system field carries the text of the last
  system message, and is absent when that text is empty.\<close>

theorem anthropic_conversion_keeps_messages:
  "map (\<lambda>(r, c). (r, uncached c)) (sent_messages q) = map (\<lambda>(r, c). (r, uncached c)) (plain_messages q)
     \<and> (\<forall>i < length (sent_messages q). sent_messages q ! i = plain_messages q ! i
          \<or> (\<exists>t. plain_messages q ! i = (''user'', JStr t) \<and> sent_messages q ! i = (''user'', cached_block t)
               \<and> 4096 \<le> length t
               \<and> (\<forall>j < length (sent_messages q). i < j \<longrightarrow> fst (plain_messages q ! j) \<noteq> ''user'')))
     \<and> map_option uncached (aq_system (convert_to_anthropic q))
         = (let t = (if system_texts (cq_messages q) = [] then [] else last (system_texts (cq_messages q)))
            in if t = [] then None else Some (JStr t))"
proof (intro conjI allI impI)
  show "map (\<lambda>(r, c). (r, uncached c)) (sent_messages q) = map (\<lambda>(r, c). (r, uncached c)) (plain_messages q)"
    by (simp add: rev_map [symmetric] mark_last_user_texts)
  show "map_option uncached (aq_system (convert_to_anthropic q))
         = (let t = (if system_texts (cq_messages q) = [] then [] else last (system_texts (cq_messages q)))
            in if t = [] then None else Some (JStr t))"
    by (simp add: convert_to_anthropic_def system_prompt_last Let_def)
next
  fix i assume i: "i < length (sent_messages q)"
  let ?p = "plain_messages q" and ?n = "length (plain_messages q)"
  let ?k = "?n - Suc i"
  have len: "length (sent_messages q) = ?n" by (simp add: aq_messages_convert)
  have k: "?k < ?n" and at: "rev ?p ! ?k = ?p ! i" "sent_messages q ! i = mark_last_user (rev ?p) ! ?k"
    using i len by (auto simp: rev_nth)
  show "sent_messages q ! i = ?p ! i \<or> (\<exists>t. ?p ! i = (''user'', JStr t) \<and> sent_messages q ! i = (''user'', cached_block t)
     \<and> 4096 \<le> length t \<and> (\<forall>j < length (sent_messages q). i < j \<longrightarrow> fst (?p ! j) \<noteq> ''user''))"
  proof (cases "sent_messages q ! i = ?p ! i")
    case False
    then have d: "(\<forall>j < ?k. fst (rev ?p ! j) \<noteq> ''user'')
       \<and> (\<exists>t. ?p ! i = (''user'', JStr t) \<and> 4096 \<le> length t \<and> sent_messages q ! i = (''user'', cached_block t))"
      using mark_last_user_diff [of ?k "rev ?p"] k at by auto
    have "fst (?p ! j) \<noteq> ''user''" if "j < length (sent_messages q)" "i < j" for j
    proof -
      have "?n - Suc j < ?k" and "rev ?p ! (?n - Suc j) = ?p ! j"
        using that len by (auto simp: rev_nth)
      with d show ?thesis by metis
    qed
    with d show ?thesis by blast
  qed simp
qed


theorem anthropic_conversion_keeps_messages_witness:
  "map (\<lambda>(r, c). (r, uncached c)) (sent_messages (zero_chat_request\<lparr>cq_messages :=
     [text_message ''system'' ''be brief'', text_message ''user'' ''hello'']\<rparr>)) = [(''user'', JStr ''hello'')]"
  using anthropic_conversion_keeps_messages [of "zero_chat_request\<lparr>cq_messages :=
     [text_message ''system'' ''be brief'', text_message ''user'' ''hello'']\<rparr>"]
  by (simp add: plain_messages_def text_message_def)

subsubsection \<open>The key travels in the headers only\<close>

text \<open>
  C20: The API key of a server is sent in request headers and nowhere else: over a network
  whose answer does not depend on the headers, every operation of every adapter returns the
  same result whatever the key is. So neither the URL nor the body of a call contains it.\<close>

theorem key_only_in_headers:
  assumes "\<And>c headers. tr (c\<lparr>cl_headers := headers\<rparr>) = tr c"
  shows "\<forall>k. let p' = p\<lparr>pv_server := (pv_server p)\<lparr>sv_api_key := k\<rparr>\<rparr> in
       chat_completion tr cd now p' q = chat_completion tr cd now p q
     \<and> chat_completion_stream tr cd broken clock p' q = chat_completion_stream tr cd broken clock p q
     \<and> completion tr cd now p' pq = completion tr cd now p pq
     \<and> embedding tr cd p' eq = embedding tr cd p eq
     \<and> list_models tr cd p' = list_models tr cd p"
proof -
  have strip: "tr \<lparr>cl_method = m, cl_url = u, cl_headers = x # h, cl_body = b\<rparr>
      = tr \<lparr>cl_method = m, cl_url = u, cl_headers = [], cl_body = b\<rparr>" for m u x h b
    using assms [where c = "\<lparr>cl_method = m, cl_url = u, cl_headers = [], cl_body = b\<rparr>"
        and headers = "x # h"] by simp
  have url: "azure_url (s\<lparr>sv_api_key := k\<rparr>) path m = azure_url s path m"
    "google_url (s\<lparr>sv_api_key := k\<rparr>) m stream = google_url s m stream" for s k path m stream
    by (simp_all add: azure_url_def google_url_def)
  note send = adapter_defs do_request_def post_url_def strip url Let_def
  have chat: "chat_completion tr cd now (p\<lparr>pv_server := (pv_server p)\<lparr>sv_api_key := k\<rparr>\<rparr>) q
      = chat_completion tr cd now p q" for k q
    by (simp add: chat_completion_def send split: kind.split)
  moreover have "chat_completion_stream tr cd broken clock (p\<lparr>pv_server := (pv_server p)\<lparr>sv_api_key := k\<rparr>\<rparr>) q
      = chat_completion_stream tr cd broken clock p q" for k
    by (simp add: chat_completion_stream_def send split: kind.split)
  moreover have "completion tr cd now (p\<lparr>pv_server := (pv_server p)\<lparr>sv_api_key := k\<rparr>\<rparr>) pq
      = completion tr cd now p pq" for k
    by (simp add: completion_def send split: kind.split)
  moreover have "embedding tr cd (p\<lparr>pv_server := (pv_server p)\<lparr>sv_api_key := k\<rparr>\<rparr>) eq = embedding tr cd p eq" for k
    by (simp add: embedding_def send split: kind.split)
  moreover have "list_models tr cd (p\<lparr>pv_server := (pv_server p)\<lparr>sv_api_key := k\<rparr>\<rparr>) = list_models tr cd p" for k
    by (simp add: list_models_def send split: kind.split)
  ultimately show ?thesis by (simp add: Let_def)
qed

text \<open>A decoder of nothing, and a server with a key, for the concrete runs.\<close>

definition plain_codec :: codec where
  "plain_codec = \<lparr>dc_error = (\<lambda>_. None), dc_chat = (\<lambda>_. Inl ''no''), dc_completion = (\<lambda>_. Inl ''no''),
     dc_embedding = (\<lambda>_. Inl ''no''), dc_models = (\<lambda>_. Inl ''no''), dc_anthropic = (\<lambda>_. Inl ''no''),
     dc_anthropic_delta = Some, dc_gemini = (\<lambda>_. Inl ''no''),
     dc_ollama = (\<lambda>s. Inr \<lparr>os_role = ''assistant'', os_content = s, os_done = False,
       os_prompt_eval_count = 1, os_eval_count = 1\<rparr>),
     dc_ollama_embedding = (\<lambda>_. Inl ''no''), dc_ollama_tags = (\<lambda>s. Inr [s]),
     dc_marshal = (\<lambda>_. ''null''), dc_chunk = (\<lambda>_. ''chunk'')\<rparr>"

definition keyed_server :: server where
  "keyed_server = \<lparr>sv_id = 1, sv_name = ''one'', sv_provider_type = ''Anthropic'',
     sv_endpoint = ''https://api.example.com/'', sv_api_key = ''secret'', sv_hostgroup = 0, sv_weight = 1,
     sv_max_connections = 100, sv_status = status_online, sv_comment = [], sv_created_at = 0, sv_updated_at = 0\<rparr>"

definition demo_provider :: provider where
  "demo_provider = \<lparr>pv_kind = KAnthropic, pv_server = keyed_server, pv_timeout = 0\<rparr>"

lemma new_provider_keyed: "new_provider keyed_server 0 = demo_provider"
  by code_simp

theorem key_only_in_headers_witness:
  "chat_completion (\<lambda>c. Answer 200 (cl_url c)) plain_codec 0
       (demo_provider\<lparr>pv_server := (pv_server demo_provider)\<lparr>sv_api_key := ''other''\<rparr>\<rparr>) zero_chat_request
     = chat_completion (\<lambda>c. Answer 200 (cl_url c)) plain_codec 0 demo_provider zero_chat_request"
  using key_only_in_headers [where tr = "\<lambda>c. Answer 200 (cl_url c)" and cd = plain_codec
      and now = 0 and p = demo_provider and q = zero_chat_request]
  by (simp add: Let_def)

subsubsection \<open>Outcomes\<close>

lemma read_answer_no_panic [simp]: "read_answer cd decode a \<noteq> Panic m"
  by (simp add: read_answer_def split: answer.splits sum.splits)

lemma on_ok_Panic_iff [simp]: "on_ok f r = Panic m \<longleftrightarrow> r = Panic m"
  by (cases r) auto

lemma on_ok_Ok_iff: "on_ok f r = Ok b \<longleftrightarrow> (\<exists>a. r = Ok a \<and> b = f a)"
  by (cases r) auto

lemma chat_completion_no_panic: "chat_completion tr cd now p q \<noteq> Panic m"
  by (simp add: chat_completion_def adapter_defs Let_def split: kind.split)

text \<open>The adapters that build the answer themselves build exactly one choice.\<close>

lemma converted_has_choice:
  "pv_kind p \<in> {KAnthropic, KOllama, KGoogle} \<Longrightarrow> chat_completion tr cd now p q = Ok r \<Longrightarrow> cs_choices r \<noteq> []"
  by (auto simp: chat_completion_def adapter_defs Let_def on_ok_Ok_iff anthropic_to_openai_def ollama_to_openai_def
      gemini_to_openai_def)

text \<open>
  So the unguarded \<open>Choices[0]\<close> of a completion that is answered through a chat never
  panics.\<close>

lemma completion_no_panic: "completion tr cd now p q \<noteq> Panic m"
proof (cases "pv_kind p \<in> {KAnthropic, KOllama, KGoogle}")
  case True
  let ?chat = "chat_completion tr cd now p (completion_as_chat q)"
  have "completion tr cd now p q = res_bind ?chat chat_as_completion"
    using True by (auto simp: completion_def chat_completion_def anthropic_completion_def
        ollama_completion_def google_completion_def)
  then show ?thesis
    using converted_has_choice [OF True, of tr cd now "completion_as_chat q"]
      chat_completion_no_panic [of tr cd now p "completion_as_chat q"]
    by (cases ?chat) (auto simp: chat_as_completion_def split: list.splits)
next
  case False
  then show ?thesis by (cases "pv_kind p") (simp_all add: completion_def openai_completion_def azure_completion_def Let_def)
qed

text \<open>The status of a failed answer is the status of the error, whatever its body.\<close>

lemma parse_error_status: "\<exists>typ message c. parse_error cd code body = ProviderError code typ message c"
  by (simp add: parse_error_def Let_def split: option.split)

lemma read_answer_bad_status:
  "code \<noteq> 200 \<Longrightarrow> read_answer cd decode (Answer code body) = Err (parse_error cd code body)"
  by (simp add: read_answer_def)

end
