(* ===== verification/Referee.thy ===== *)
theory Referee
  imports Provider Config "HOL-Library.Sublist"
begin

section \<open>Referee mode (internal/referee/referee.go)\<close>

text \<open>
  The engine that sends one request to several providers and lets a referee model merge
  their answers: the choice of the targets, the parallel calls, the prompt of the
  synthesis, and \<open>Execute\<close>. The calls share no state, so their interleaving does not
  matter: call \<open>i\<close> sees the network \<open>re_network i\<close>. A map of the request is an association
  list in the order of its iteration.
\<close>

record referee_env =
  re_network :: "nat \<Rightarrow> transport"
  re_referee_network :: transport
  re_codec :: codec
  re_unseal :: "string \<Rightarrow> string \<Rightarrow> string \<Rightarrow> string option"
  re_db_text :: "db_error \<Rightarrow> string"
  re_start :: time
  re_answered :: "nat \<Rightarrow> time"
  re_synthesis_start :: time
  re_synthesis_end :: time

record provider_result =
  px_name :: string
  px_type :: string
  px_model :: string
  px_response :: "chat_response option"
  px_error :: "go_error option"
  px_latency :: duration

record ref_target =
  rt_server :: server
  rt_model :: string

definition milliseconds :: "duration \<Rightarrow> i64" where
  "milliseconds d = quot64 d millisecond"

text \<open>\<open>strings.EqualFold\<close> on ASCII.\<close>

definition equal_fold :: "string \<Rightarrow> string \<Rightarrow> bool" where
  "equal_fold s t \<longleftrightarrow> to_lower s = to_lower t"

subsection \<open>Targets\<close>

definition read_servers :: "'z referee_env_scheme \<Rightarrow> storage \<Rightarrow> (go_error, server list) res" where
  "read_servers e st = (case get_servers_with_decrypted_keys (re_unseal e) None st of
       Ok ss \<Rightarrow> Ok ss
     | Err x \<Rightarrow> Err (Plain (re_db_text e x))
     | Panic m \<Rightarrow> Panic m)"

definition online_servers :: "server list \<Rightarrow> server list" where
  "online_servers ss = filter (\<lambda>s. sv_status s = status_online) ss"

definition get_servers_for_referee :: "'z referee_env_scheme \<Rightarrow> string list \<Rightarrow> storage
    \<Rightarrow> (go_error, server list) res" where
  "get_servers_for_referee e provider_types st = res_bind (read_servers e st) (\<lambda>ss.
     let active = online_servers ss in
     if provider_types = [] then Ok active
     else Ok (filter (\<lambda>s. to_lower (sv_provider_type s) \<in> set (map to_lower provider_types)) active))"

definition target_for :: "server list \<Rightarrow> string \<times> string \<Rightarrow> ref_target option" where
  "target_for online = (\<lambda>(ptype, model).
     if model = [] then None
     else map_option (\<lambda>s. \<lparr>rt_server = s, rt_model = model\<rparr>)
       (find (\<lambda>s. equal_fold (sv_provider_type s) ptype) online))"

definition build_targets :: "'z referee_env_scheme \<Rightarrow> chat_request \<Rightarrow> referee_mode \<Rightarrow> storage
    \<Rightarrow> (go_error, ref_target list) res" where
  "build_targets e q rm st = res_bind (read_servers e st) (\<lambda>ss.
     if rm_provider_models rm \<noteq> []
     then Ok (List.map_filter (target_for (online_servers ss)) (rm_provider_models rm))
     else res_bind (get_servers_for_referee e (rm_providers rm) st) (\<lambda>servers.
       Ok (map (\<lambda>s. \<lparr>rt_server = s, rt_model = cq_model q\<rparr>) servers)))"

subsection \<open>The calls\<close>

definition provider_request :: "chat_request \<Rightarrow> ref_target \<Rightarrow> chat_request" where
  "provider_request q t = q\<lparr>cq_referee_mode := None, cq_stream := False, cq_model := rt_model t\<rparr>"

definition call_target :: "'z referee_env_scheme \<Rightarrow> chat_request \<Rightarrow> duration \<Rightarrow> nat \<times> ref_target
    \<Rightarrow> provider_result" where
  "call_target e q timeout = (\<lambda>(i, t).
     let r = chat_completion (re_network e i) (re_codec e) (re_answered e i)
           (new_provider (rt_server t) timeout) (provider_request q t) in
     \<lparr>px_name = sv_name (rt_server t), px_type = sv_provider_type (rt_server t), px_model = rt_model t,
      px_response = (case r of Ok v \<Rightarrow> Some v | _ \<Rightarrow> None),
      px_error = (case r of Err x \<Rightarrow> Some x | _ \<Rightarrow> None),
      px_latency = time_sub (re_answered e i) (re_start e)\<rparr>)"

definition execute_parallel :: "'z referee_env_scheme \<Rightarrow> chat_request \<Rightarrow> ref_target list \<Rightarrow> duration
    \<Rightarrow> provider_result list" where
  "execute_parallel e q targets timeout = map (call_target e q timeout) (enumerate 0 targets)"

subsection \<open>Synthesis\<close>

definition nl :: string where "nl = [char_of (10 :: nat)]"

definition first_user_text :: "message list \<Rightarrow> string" where
  "first_user_text msgs =
     (case find (\<lambda>m. mg_role m = ''user'' \<and> json_string (mg_content m) \<noteq> None) msgs of
        None \<Rightarrow> []
      | Some m \<Rightarrow> (case json_string (mg_content m) of Some t \<Rightarrow> t @ nl @ nl | None \<Rightarrow> []))"

definition answer_section :: "nat \<times> provider_result \<Rightarrow> string" where
  "answer_section = (\<lambda>(i, r).
     ''### Response '' @ itoa (int i + 1) @ '' (from '' @ px_model r @ '' via '' @ px_type r @ '')'' @ nl @ nl
     @ (case px_response r of None \<Rightarrow> [] | Some v \<Rightarrow> first_text (cs_choices v)) @ nl @ nl)"

definition synthesis_task :: string where
  "synthesis_task = ''## Your Task'' @ nl @ nl
     @ ''Please analyze all the responses above and create a synthesized answer that:'' @ nl
     @ ''1. Identifies and includes the correct and accurate information from each response'' @ nl
     @ ''2. Resolves any contradictions by determining which response is more accurate'' @ nl
     @ ''3. Combines the best elements from all responses'' @ nl
     @ ''4. Provides a comprehensive and accurate final answer'' @ nl @ nl
     @ ''Do NOT mention that you are synthesizing from multiple sources. ''
     @ ''Simply provide the best answer as if you were answering the original question directly.'' @ nl @ nl
     @ ''## Synthesized Answer'' @ nl @ nl"

definition build_synthesis_prompt :: "chat_request \<Rightarrow> provider_result list \<Rightarrow> string" where
  "build_synthesis_prompt q rs = ''## Original Question'' @ nl @ nl @ first_user_text (cq_messages q)
     @ ''## Responses from Different AI Models'' @ nl @ nl
     @ concat (map answer_section (enumerate 0 rs)) @ synthesis_task"

definition guess_provider_from_model :: "string \<Rightarrow> string" where
  "guess_provider_from_model model = (let m = to_lower model in
     if has_prefix m ''gpt'' \<or> has_prefix m ''o1'' \<or> has_prefix m ''o3'' then ''openai''
     else if has_prefix m ''claude'' then ''anthropic''
     else if has_prefix m ''gemini'' then ''google''
     else if has_prefix m ''llama'' \<or> has_prefix m ''mixtral'' then ''groq''
     else ''openai'')"

definition find_server_for_model :: "'z referee_env_scheme \<Rightarrow> string \<Rightarrow> storage \<Rightarrow> (go_error, server) res" where
  "find_server_for_model e model st = res_bind (read_servers e st) (\<lambda>ss.
     let online = online_servers ss; ptype = guess_provider_from_model model in
     case find (\<lambda>s. equal_fold (sv_provider_type s) ptype) online of
       Some s \<Rightarrow> Ok s
     | None \<Rightarrow> (case online of s # _ \<Rightarrow> Ok s | [] \<Rightarrow> Err (Plain ''no online server found'')))"

definition synthesizer_prompt :: string where
  "synthesizer_prompt = ''You are an expert AI response synthesizer. Your task is to analyze multiple ''
     @ ''AI responses to the same question and produce the best possible answer by combining ''
     @ ''accurate information, resolving contradictions, and eliminating errors.''"

definition synthesis_request :: "chat_request \<Rightarrow> provider_result list \<Rightarrow> string \<Rightarrow> chat_request" where
  "synthesis_request q rs model = zero_chat_request\<lparr>cq_model := model,
     cq_messages := [text_message ''system'' synthesizer_prompt,
       text_message ''user'' (build_synthesis_prompt q rs)],
     cq_temperature := cq_temperature q, cq_max_tokens := cq_max_tokens q\<rparr>"

definition synthesize :: "'z referee_env_scheme \<Rightarrow> chat_request \<Rightarrow> provider_result list \<Rightarrow> string
    \<Rightarrow> duration \<Rightarrow> storage \<Rightarrow> (go_error, chat_response) res" where
  "synthesize e q rs model timeout st =
     (case find_server_for_model e model st of
        Ok srv \<Rightarrow> chat_completion (re_referee_network e) (re_codec e) (re_synthesis_end e)
          (new_provider srv timeout) (synthesis_request q rs model)
      | Err x \<Rightarrow> Err (Wrap (''no server available for referee model '' @ model @ '': '') x)
      | Panic m \<Rightarrow> Panic m)"

subsection \<open>Execute\<close>

definition answered :: "provider_result \<Rightarrow> bool" where
  "answered r \<longleftrightarrow> px_error r = None \<and> px_response r \<noteq> None"

fun words :: "string list \<Rightarrow> string" where
  "words [] = []"
| "words [s] = s"
| "words (s # ss) = s @ '' '' @ words ss"

definition insufficient :: "nat \<Rightarrow> i64 \<Rightarrow> string list \<Rightarrow> go_error" where
  "insufficient got need bad = Plain (''insufficient responses: got '' @ itoa (int got) @ '', need ''
     @ itoa need @ '' (failed: ['' @ words bad @ ''])'')"

text \<open>\<open>targets[:maxProviders]\<close> panics when the bound is negative.\<close>

definition limit_targets :: "i64 \<Rightarrow> ref_target list \<Rightarrow> (go_error, ref_target list) res" where
  "limit_targets n ts = (if int (length ts) \<le> n then Ok ts
     else if n < 0 then Panic ''slice bounds out of range'' else Ok (take (nat n) ts))"

definition referee_timeout_of :: "config \<Rightarrow> referee_mode \<Rightarrow> duration" where
  "referee_timeout_of cfg rm = (if 0 < rm_timeout_ms rm then mul64 (rm_timeout_ms rm) millisecond
     else referee_timeout cfg)"

definition min_responses_of :: "config \<Rightarrow> referee_mode \<Rightarrow> i64" where
  "min_responses_of cfg rm = (if 0 < rm_min_responses rm then rm_min_responses rm
     else referee_min_responses (cf_referee cfg))"

definition referee_model_of :: "config \<Rightarrow> referee_mode \<Rightarrow> string" where
  "referee_model_of cfg rm = (if rm_referee_model rm = [] then referee_default_model (cf_referee cfg)
     else rm_referee_model rm)"

text \<open>The second half of \<open>Execute\<close>, from the answers on.\<close>

definition conclude :: "'z referee_env_scheme \<Rightarrow> config \<Rightarrow> chat_request \<Rightarrow> referee_mode
    \<Rightarrow> provider_result list \<Rightarrow> storage \<Rightarrow> (go_error, chat_response) res" where
  "conclude e cfg q rm rs st =
     (let good = filter answered rs; bad = map px_name (filter (\<lambda>r. \<not> answered r) rs);
          need = min_responses_of cfg rm; model = referee_model_of cfg rm in
      if int (length good) < need then Err (insufficient (length good) need bad)
      else case synthesize e q good model (referee_timeout_of cfg rm) st of
          Err x \<Rightarrow> Err (Wrap ''synthesis failed: '' x)
        | Panic m \<Rightarrow> Panic m
        | Ok v \<Rightarrow> Ok (v\<lparr>cs_referee_info := Some
            \<lparr>ri_providers_queried = int (length rs), ri_successful_responses = int (length good),
             ri_failed_providers = bad, ri_referee_model = model,
             ri_synthesis_latency_ms = milliseconds (time_sub (re_synthesis_end e) (re_synthesis_start e))\<rparr>\<rparr>))"

definition referee_execute :: "'z referee_env_scheme \<Rightarrow> config \<Rightarrow> storage \<Rightarrow> chat_request
    \<Rightarrow> (go_error, chat_response) res" where
  "referee_execute e cfg st q =
     (case cq_referee_mode q of
        None \<Rightarrow> Err (Plain ''referee mode not enabled in request'')
      | Some rm \<Rightarrow>
          if \<not> rm_enabled rm then Err (Plain ''referee mode not enabled in request'')
          else case build_targets e q rm st of
              Err x \<Rightarrow> Err (Wrap ''failed to get servers: '' x)
            | Panic m \<Rightarrow> Panic m
            | Ok targets \<Rightarrow>
                if targets = [] then Err (Plain ''no servers available for referee mode'')
                else res_bind (limit_targets (referee_max_providers (cf_referee cfg)) targets) (\<lambda>targets.
                  conclude e cfg q rm (execute_parallel e q targets (referee_timeout_of cfg rm)) st))"

subsection \<open>Results\<close>

record referee_result =
  rz_response :: "chat_response option"
  rz_provider_results :: "provider_result list"
  rz_total_latency :: duration
  rz_synthesis_latency :: duration

definition summary_entry :: "provider_result \<Rightarrow> (string \<times> json) list" where
  "summary_entry r =
     [(''provider'', JStr (px_name r)), (''type'', JStr (px_type r)), (''model'', JStr (px_model r)),
      (''latency_ms'', JNum (of_int (milliseconds (px_latency r)))), (''success'', JBool (px_error r = None))]
     @ (case px_error r of None \<Rightarrow> [] | Some x \<Rightarrow> [(''error'', JStr (error_text x))])"

definition get_provider_summary :: "referee_result \<Rightarrow> (string \<times> json) list list" where
  "get_provider_summary r = map summary_entry (rz_provider_results r)"

definition marshal_result :: "(chat_response option \<Rightarrow> json) \<Rightarrow> referee_result \<Rightarrow> json" where
  "marshal_result response_json r = JObj
     [(''response'', response_json (rz_response r)),
      (''provider_summary'', JList (map JObj (get_provider_summary r))),
      (''total_latency_ms'', JNum (of_int (milliseconds (rz_total_latency r)))),
      (''synthesis_latency_ms'', JNum (of_int (milliseconds (rz_synthesis_latency r))))]"

subsection \<open>Properties\<close>

lemma res_bind_Panic_iff: "res_bind r f = Panic m \<longleftrightarrow> r = Panic m \<or> (\<exists>a. r = Ok a \<and> f a = Panic m)"
  by (cases r) auto

text \<open>\<open>execute_parallel\<close> answers in the order of the targets.\<close>

lemma execute_parallel_simps [simp]:
  "length (execute_parallel e q ts d) = length ts"
  "map px_name (execute_parallel e q ts d) = map (sv_name \<circ> rt_server) ts"
  "map px_model (execute_parallel e q ts d) = map rt_model ts"
proof -
  show "length (execute_parallel e q ts d) = length ts" by (simp add: execute_parallel_def)
  have "map (f \<circ> snd) (enumerate 0 ts) = map f ts" for f :: "ref_target \<Rightarrow> string"
    by (metis map_map map_snd_enumerate)
  then show "map px_name (execute_parallel e q ts d) = map (sv_name \<circ> rt_server) ts"
    and "map px_model (execute_parallel e q ts d) = map rt_model ts"
    by (auto simp: execute_parallel_def call_target_def Let_def comp_def split_def)
qed

lemma read_servers_online:
  assumes "read_servers e st = Ok ss"
  shows "get_servers_with_decrypted_keys (re_unseal e) None st = Ok ss"
  using assms by (auto simp: read_servers_def split: res.splits)

text \<open>What may be asked: an online server, with its key decrypted, and the model meant for it.\<close>

definition proper_target :: "server list \<Rightarrow> chat_request \<Rightarrow> referee_mode \<Rightarrow> ref_target \<Rightarrow> bool" where
  "proper_target ss q rm t \<longleftrightarrow> rt_server t \<in> set ss \<and> sv_status (rt_server t) = status_online
     \<and> (if rm_provider_models rm \<noteq> []
        then \<exists>ptype. (ptype, rt_model t) \<in> set (rm_provider_models rm) \<and> rt_model t \<noteq> []
               \<and> equal_fold (sv_provider_type (rt_server t)) ptype
        else rt_model t = cq_model q
          \<and> (rm_providers rm = [] \<or> (\<exists>p \<in> set (rm_providers rm). equal_fold (sv_provider_type (rt_server t)) p)))"

lemma target_for_proper:
  assumes "target_for (online_servers ss) (ptype, model) = Some t"
  shows "rt_server t \<in> set ss \<and> sv_status (rt_server t) = status_online \<and> rt_model t = model
     \<and> model \<noteq> [] \<and> equal_fold (sv_provider_type (rt_server t)) ptype"
  using assms by (auto simp: target_for_def online_servers_def find_Some_iff split: if_splits
      dest!: nth_mem)

lemma build_targets_proper:
  assumes "build_targets e q rm st = Ok ts"
  obtains ss where "get_servers_with_decrypted_keys (re_unseal e) None st = Ok ss"
    and "\<forall>t \<in> set ts. proper_target ss q rm t"
proof -
  obtain ss where ss: "read_servers e st = Ok ss"
    using assms by (auto simp: build_targets_def res_bind_Ok_iff)
  have "proper_target ss q rm t" if t: "t \<in> set ts" for t
  proof (cases "rm_provider_models rm = []")
    case True
    then obtain servers where s: "get_servers_for_referee e (rm_providers rm) st = Ok servers"
      and ts: "ts = map (\<lambda>s. \<lparr>rt_server = s, rt_model = cq_model q\<rparr>) servers"
      using assms ss by (auto simp: build_targets_def res_bind_Ok_iff)
    have "\<forall>s \<in> set servers. s \<in> set ss \<and> sv_status s = status_online
        \<and> (rm_providers rm = [] \<or> (\<exists>p \<in> set (rm_providers rm). equal_fold (sv_provider_type s) p))"
      using s ss by (auto simp: get_servers_for_referee_def online_servers_def equal_fold_def Let_def split: if_splits)
    with True t ts show ?thesis by (auto simp: proper_target_def)
  next
    case False
    then have "ts = List.map_filter (target_for (online_servers ss)) (rm_provider_models rm)"
      using assms ss by (auto simp: build_targets_def)
    then obtain ptype model where "(ptype, model) \<in> set (rm_provider_models rm)"
      and "target_for (online_servers ss) (ptype, model) = Some t"
      using t by (auto simp: List.map_filter_def)
    with target_for_proper [OF this(2)] False show ?thesis by (auto simp: proper_target_def)
  qed
  with read_servers_online [OF ss] show ?thesis using that by blast
qed


text \<open>
  What the call number \<open>i\<close> of a referee request is meant to be: the target's own server gets
  the request with the target's own model, not streamed and without referee mode.
\<close>

definition meant_call :: "'z referee_env_scheme \<Rightarrow> chat_request \<Rightarrow> duration \<Rightarrow> nat \<Rightarrow> ref_target
    \<Rightarrow> (go_error, chat_response) res" where
  "meant_call e q timeout i t = chat_completion (re_network e i) (re_codec e) (re_answered e i)
     (new_provider (rt_server t) timeout) (q\<lparr>cq_model := rt_model t, cq_stream := False, cq_referee_mode := None\<rparr>)"

definition meant_successes :: "'z referee_env_scheme \<Rightarrow> chat_request \<Rightarrow> duration \<Rightarrow> ref_target list \<Rightarrow> nat list" where
  "meant_successes e q timeout ts = filter (\<lambda>i. is_Ok (meant_call e q timeout i (ts ! i))) [0..<length ts]"

definition meant_failures :: "'z referee_env_scheme \<Rightarrow> chat_request \<Rightarrow> duration \<Rightarrow> ref_target list \<Rightarrow> nat list" where
  "meant_failures e q timeout ts = filter (\<lambda>i. \<not> is_Ok (meant_call e q timeout i (ts ! i))) [0..<length ts]"

lemma execute_parallel_alt:
  "execute_parallel e q ts d = map (\<lambda>i. call_target e q d (i, ts ! i)) [0..<length ts]"
  by (auto simp: execute_parallel_def nth_enumerate_eq intro: nth_equalityI)

lemma answered_call: "answered (call_target e q d (i, t)) \<longleftrightarrow> is_Ok (meant_call e q d i t)"
proof -
  have "provider_request q t = q\<lparr>cq_model := rt_model t, cq_stream := False, cq_referee_mode := None\<rparr>"
    by (simp add: provider_request_def)
  then show ?thesis
    by (cases "meant_call e q d i t") (simp_all add: answered_def call_target_def meant_call_def Let_def)
qed

lemma conclude_Ok:
  assumes "conclude e cfg q rm (execute_parallel e q ts d) st = Ok v"
  obtains info where "cs_referee_info v = Some info"
    and "ri_providers_queried info = int (length ts)"
    and "ri_successful_responses info = int (length (meant_successes e q d ts))"
    and "ri_failed_providers info = map (\<lambda>i. sv_name (rt_server (ts ! i))) (meant_failures e q d ts)"
    and "min_responses_of cfg rm \<le> ri_successful_responses info"
    and "ri_referee_model info = referee_model_of cfg rm"
proof -
  let ?rs = "execute_parallel e q ts d"
  have name: "px_name (call_target e q d (i, t)) = sv_name (rt_server t)" for i t
    by (simp add: call_target_def Let_def)
  have "length (filter answered ?rs) = length (meant_successes e q d ts)"
    and "map px_name (filter (\<lambda>r. \<not> answered r) ?rs) = map (\<lambda>i. sv_name (rt_server (ts ! i))) (meant_failures e q d ts)"
    by (simp_all add: execute_parallel_alt meant_successes_def meant_failures_def filter_map comp_def answered_call name)
  with assms that show ?thesis
    by (fastforce simp: conclude_def Let_def split: if_splits res.splits)
qed

text \<open>
  C18: A referee answer accounts for its calls. The targets are the first
  \<open>RefereeMaxProviders\<close> of those the request names, each an online server with a model of its
  own (of the request's \<open>provider_models\<close>, or the request's model on a server of a listed
  type), and each is asked the request with that model, not streamed and without referee
  mode. The number queried is the number of targets; the successes reported are the number
  of those calls that gave an answer, and reach the required minimum; the providers named as
  failed are the servers of the other calls, in the order of the targets.\<close>

theorem referee_accounts_for_calls:
  assumes "referee_execute e cfg st q = Ok v"
  shows "\<exists>rm ss targets ts info. cq_referee_mode q = Some rm \<and> rm_enabled rm
     \<and> get_servers_with_decrypted_keys (re_unseal e) None st = Ok ss
     \<and> build_targets e q rm st = Ok targets \<and> (\<forall>t \<in> set targets. proper_target ss q rm t)
     \<and> ts = take (nat (referee_max_providers (cf_referee cfg))) targets
     \<and> cs_referee_info v = Some info
     \<and> ri_providers_queried info = int (length ts)
     \<and> ri_successful_responses info = int (length (meant_successes e q (referee_timeout_of cfg rm) ts))
     \<and> min_responses_of cfg rm \<le> ri_successful_responses info
     \<and> ri_failed_providers info
         = map (\<lambda>i. sv_name (rt_server (ts ! i))) (meant_failures e q (referee_timeout_of cfg rm) ts)"
proof -
  obtain rm targets ts where rm: "cq_referee_mode q = Some rm" "rm_enabled rm"
    and b: "build_targets e q rm st = Ok targets" and ne: "targets \<noteq> []"
    and l: "limit_targets (referee_max_providers (cf_referee cfg)) targets = Ok ts"
    and c: "conclude e cfg q rm (execute_parallel e q ts (referee_timeout_of cfg rm)) st = Ok v"
    using assms by (auto simp: referee_execute_def res_bind_Ok_iff split: option.splits if_splits res.splits)
  obtain ss where ss: "get_servers_with_decrypted_keys (re_unseal e) None st = Ok ss"
    and p: "\<forall>t \<in> set targets. proper_target ss q rm t" by (rule build_targets_proper [OF b])
  have ts: "ts = take (nat (referee_max_providers (cf_referee cfg))) targets"
    using l by (auto simp: limit_targets_def split: if_splits)
  show ?thesis
  proof (rule conclude_Ok [OF c])
    fix info
    assume i: "cs_referee_info v = Some info" "ri_providers_queried info = int (length ts)"
      "ri_successful_responses info = int (length (meant_successes e q (referee_timeout_of cfg rm) ts))"
      "ri_failed_providers info = map (\<lambda>i. sv_name (rt_server (ts ! i))) (meant_failures e q (referee_timeout_of cfg rm) ts)"
      "min_responses_of cfg rm \<le> ri_successful_responses info"
    show ?thesis
      by (rule exI [of _ rm], rule exI [of _ ss], rule exI [of _ targets], rule exI [of _ ts], rule exI [of _ info])
        (intro conjI rm ss b p ts i)
  qed
qed

text \<open>One online Ollama server, asked by a request in referee mode.\<close>

definition ollama_server :: server where
  "ollama_server = keyed_server\<lparr>sv_provider_type := ''ollama'', sv_api_key := []\<rparr>"

definition demo_referee_env :: referee_env where
  "demo_referee_env = \<lparr>re_network = (\<lambda>_ _. Answer 200 ''yes''),
     re_referee_network = (\<lambda>_. Answer 200 ''indeed''), re_codec = plain_codec,
     re_unseal = (\<lambda>_ _ _. None), re_db_text = (\<lambda>_. []), re_start = 0, re_answered = (\<lambda>_. 1),
     re_synthesis_start = 1, re_synthesis_end = 2\<rparr>"

definition demo_mode :: referee_mode where
  "demo_mode = \<lparr>rm_enabled = True, rm_referee_model = ''llama'', rm_providers = [],
     rm_provider_models = [], rm_min_responses = 1, rm_timeout_ms = 0\<rparr>"

definition demo_question :: chat_request where
  "demo_question = zero_chat_request\<lparr>cq_model := ''llama'',
     cq_messages := [text_message ''user'' ''why''], cq_referee_mode := Some demo_mode\<rparr>"

definition demo_store :: storage where
  "demo_store = demo_tables\<lparr>st_servers := [ollama_server]\<rparr>"

lemma demo_referee_answers: "is_Ok (referee_execute demo_referee_env default_settings demo_store demo_question)"
  by code_simp

lemma demo_targets: "build_targets demo_referee_env demo_question demo_mode demo_store
    = Ok [\<lparr>rt_server = ollama_server, rt_model = ''llama''\<rparr>]"
  by code_simp

lemma demo_successes: "meant_successes demo_referee_env demo_question (referee_timeout_of default_settings demo_mode)
     [\<lparr>rt_server = ollama_server, rt_model = ''llama''\<rparr>] = [0]"
  "0 < referee_max_providers (cf_referee default_settings)"
  by code_simp+

theorem referee_accounts_for_calls_witness:
  "\<exists>v info. referee_execute demo_referee_env default_settings demo_store demo_question = Ok v
     \<and> cs_referee_info v = Some info
     \<and> ri_providers_queried info = 1 \<and> ri_successful_responses info = 1"
proof -
  obtain v where v: "referee_execute demo_referee_env default_settings demo_store demo_question = Ok v"
    using demo_referee_answers by (cases "referee_execute demo_referee_env default_settings demo_store demo_question") auto
  have mode: "cq_referee_mode demo_question = Some demo_mode" by (simp add: demo_question_def)
  obtain k where k: "nat (referee_max_providers (cf_referee default_settings)) = Suc k"
    using demo_successes(2) by (metis gr0_implies_Suc zero_less_nat_eq)
  obtain rm targets ts info where rm: "cq_referee_mode demo_question = Some rm"
    and b: "build_targets demo_referee_env demo_question rm demo_store = Ok targets"
    and ts: "ts = take (nat (referee_max_providers (cf_referee default_settings))) targets"
    and info: "cs_referee_info v = Some info" "ri_providers_queried info = int (length ts)"
      "ri_successful_responses info
        = int (length (meant_successes demo_referee_env demo_question (referee_timeout_of default_settings rm) ts))"
    using referee_accounts_for_calls [OF v] by blast
  have "rm = demo_mode" using rm mode by simp
  with b demo_targets have "targets = [\<lparr>rt_server = ollama_server, rt_model = ''llama''\<rparr>]" by simp
  with ts k have "ts = [\<lparr>rt_server = ollama_server, rt_model = ''llama''\<rparr>]" by simp
  with info v \<open>rm = demo_mode\<close> demo_successes(1) show ?thesis by simp
qed

text \<open>
  Referee mode panics exactly for a negative \<open>RefereeMaxProviders\<close>: with targets to
  query, \<open>Execute\<close> slices them by that bound unchecked; with any other bound it returns an
  answer or an error.\<close>

theorem referee_panics_exactly:
  assumes "cq_referee_mode q = Some rm" and "rm_enabled rm"
    and "build_targets e q rm st = Ok targets" and "targets \<noteq> []"
  shows "(\<exists>m. referee_execute e cfg st q = Panic m) \<longleftrightarrow> referee_max_providers (cf_referee cfg) < 0"
proof -
  obtain ss where ss: "read_servers e st = Ok ss"
    using assms(3) by (auto simp: build_targets_def res_bind_Ok_iff)
  have "find_server_for_model e m st \<noteq> Panic x" for m x
    using ss by (auto simp: find_server_for_model_def Let_def split: option.splits list.splits)
  then have "conclude e cfg q rm rs st \<noteq> Panic x" for rs x
    using chat_completion_no_panic by (auto simp: conclude_def synthesize_def Let_def split: res.splits)
  with assms show ?thesis
    by (auto simp: referee_execute_def limit_targets_def res_bind_Panic_iff)
qed


theorem referee_panics_exactly_witness:
  "\<exists>m. referee_execute demo_referee_env
     (default_settings\<lparr>cf_referee := (cf_referee default_settings)\<lparr>referee_max_providers := - 1\<rparr>\<rparr>)
     demo_store demo_question = Panic m"
  using referee_panics_exactly [of demo_question demo_mode demo_referee_env demo_store
      "[\<lparr>rt_server = ollama_server, rt_model = ''llama''\<rparr>]"
      "default_settings\<lparr>cf_referee := (cf_referee default_settings)\<lparr>referee_max_providers := - 1\<rparr>\<rparr>"]
    demo_targets
  by (simp add: demo_question_def demo_mode_def)

end
