(* ===== verification/Proxy.thy ===== *)
theory Proxy
  imports Referee Balancer Router Metrics RateLimit Dedup
begin

section \<open>The proxy (internal/proxy/proxy.go)\<close>

text \<open>
  The HTTP handlers of the OpenAI-compatible API, composed of the components as the code
  composes them: rate limiter, router, balancer, cache, deduplication, retry and the
  provider adapters. A handler maps the request and the state of the \<open>Proxy\<close> value to the
  response and the new state. A panic is recovered by \<open>net/http\<close>, which drops the
  connection: status 0.

  What a request reads from outside is the record \<open>proxy_env\<close>: the network of each attempt,
  the clock, random numbers, hashing, compression, the JSON encoders and decoders, the
  order in which a map is iterated, and what other requests in flight contribute to
  \<open>DeduplicatedCall\<close> (theory Dedup).
\<close>

subsection \<open>State and environment\<close>

record proxy =
  po_config :: config
  po_storage :: storage
  po_balancer :: balancer
  po_router :: router
  po_metrics :: "collector option"
  po_limiter :: "limiter option"
  po_cache :: cache
  po_active :: i64
  po_log_queue :: "request_log list"
  po_metric_log :: "metric list"

record proxy_env = referee_env +
  pe_request_id :: string
  pe_start :: time
  pe_attempt :: "nat \<Rightarrow> time"
  pe_first :: time
  pe_end :: time
  pe_context :: Retry.env
  pe_network :: "nat \<Rightarrow> transport"
  pe_intn :: "nat \<Rightarrow> i64 \<Rightarrow> i64"
  pe_compile :: compiler
  pe_sha :: "string \<Rightarrow> string"
  pe_gzip :: "string \<Rightarrow> string option"
  pe_gunzip :: "string \<Rightarrow> string option"
  pe_messages_json :: "message list \<Rightarrow> string"
  pe_chat_json :: "chat_response \<Rightarrow> string"
  pe_embedding_json :: "embedding_response \<Rightarrow> string"
  pe_read_chat :: "string \<Rightarrow> string + chat_request"
  pe_read_completion :: "string \<Rightarrow> string + completion_request"
  pe_read_embedding :: "string \<Rightarrow> string + embedding_request"
  pe_flight :: "flight_result option"
  pe_broken :: "string option"
  pe_clock :: "nat \<Rightarrow> time"
  pe_flusher :: bool
  pe_model_order :: "(string \<times> model_info) list \<Rightarrow> (string \<times> model_info) list"

record api_request =
  ir_method :: string
  ir_path :: string
  ir_authorization :: string
  ir_x_user :: string
  ir_body :: string

datatype api_body =
    PbError string string
  | PbBytes string
  | PbChat chat_response
  | PbCompletion completion_response
  | PbModels "model_info list"
  | PbStatus "(string \<times> string) list"
  | PbNothing

record api_response =
  ar_status :: i64
  ar_headers :: "(string \<times> string) list"
  ar_body :: api_body

type_synonym outcome = "api_response \<times> proxy"

text \<open>\<open>NewProxy\<close>; \<^const>\<open>get_cache_config\<close> has the fixed settings of its response cache.\<close>

definition new_proxy :: "config \<Rightarrow> storage \<Rightarrow> balancer \<Rightarrow> router \<Rightarrow> collector option \<Rightarrow> limiter option \<Rightarrow> proxy" where
  "new_proxy cfg st bal rtr met rl =
     \<lparr>po_config = cfg, po_storage = st, po_balancer = bal, po_router = rtr, po_metrics = met,
       po_limiter = rl,
       po_cache = new_cache (get_cache_config cfg),
       po_active = 0, po_log_queue = [], po_metric_log = []\<rparr>"

definition active_requests :: "proxy \<Rightarrow> i64" where
  "active_requests p = po_active p"

definition get_cache :: "proxy \<Rightarrow> cache" where
  "get_cache p = po_cache p"

subsection \<open>Small steps\<close>

text \<open>Setting the content type replaces one that was set before.\<close>

definition reply :: "(string \<times> string) list \<Rightarrow> i64 \<Rightarrow> api_body \<Rightarrow> api_response" where
  "reply hdrs code body = \<lparr>ar_status = code, ar_headers = filter (\<lambda>h. fst h \<noteq> ''Content-Type'') hdrs @ [json_header],
     ar_body = body\<rparr>"

definition write_error :: "(string \<times> string) list \<Rightarrow> i64 \<Rightarrow> string \<Rightarrow> string \<Rightarrow> api_response" where
  "write_error hdrs code err_type message = reply hdrs code (PbError err_type message)"

definition aborted :: api_response where
  "aborted = \<lparr>ar_status = 0, ar_headers = [], ar_body = PbNothing\<rparr>"

definition emit :: "(collector \<Rightarrow> metric list) \<Rightarrow> proxy \<Rightarrow> proxy" where
  "emit f p = (case po_metrics p of None \<Rightarrow> p | Some c \<Rightarrow> p\<lparr>po_metric_log := po_metric_log p @ f c\<rparr>)"

definition release :: "time \<Rightarrow> string \<Rightarrow> duration \<Rightarrow> bool \<Rightarrow> proxy \<Rightarrow> proxy" where
  "release now name latency success p = p\<lparr>po_balancer := release_server now name latency success (po_balancer p)\<rparr>"

text \<open>\<open>logRequest\<close> hands the entry to a goroutine, which inserts it later (\<open>flush_log\<close>).\<close>

definition log_request :: "string \<Rightarrow> string \<Rightarrow> string \<Rightarrow> string \<Rightarrow> string \<Rightarrow> i64 \<Rightarrow> i64 \<Rightarrow> duration \<Rightarrow> duration
    \<Rightarrow> i64 \<Rightarrow> string \<Rightarrow> bool \<Rightarrow> time \<Rightarrow> proxy \<Rightarrow> proxy" where
  "log_request request_id username server_name model endpoint prompt_tokens output_tokens latency
       first_byte status_code error_msg streaming now p =
     p\<lparr>po_log_queue := po_log_queue p @ [\<lparr>rl_id = 0, rl_request_id = request_id, rl_username = username,
       rl_server_name = server_name, rl_model = model, rl_endpoint = endpoint,
       rl_prompt_tokens = prompt_tokens, rl_output_tokens = output_tokens,
       rl_total_tokens = add64 prompt_tokens output_tokens, rl_latency_ms = milliseconds latency,
       rl_first_byte_ms = milliseconds first_byte, rl_status_code = status_code,
       rl_error_message = error_msg, rl_streaming = streaming, rl_timestamp = now\<rparr>]\<rparr>"

definition flush_log :: "nat \<Rightarrow> proxy \<Rightarrow> proxy" where
  "flush_log k p = (if k < length (po_log_queue p)
     then p\<lparr>po_storage := snd (insert_request_log (po_log_queue p ! k) (po_storage p)),
            po_log_queue := take k (po_log_queue p) @ drop (Suc k) (po_log_queue p)\<rparr>
     else p)"

definition extract_username :: "api_request \<Rightarrow> string" where
  "extract_username r =
     (if has_prefix (ir_authorization r) ''Bearer '' then ''default''
      else if ir_x_user r \<noteq> [] then ir_x_user r
      else ''anonymous'')"

text \<open>The assertion \<open>err.(*provider.ProviderError)\<close> sees only the error itself.\<close>

definition error_status :: "go_error \<Rightarrow> i64" where
  "error_status err = (case err of ProviderError code _ _ _ \<Rightarrow> code | _ \<Rightarrow> 500)"

definition provider_failed :: "(string \<times> string) list \<Rightarrow> go_error \<Rightarrow> api_response" where
  "provider_failed hdrs err = write_error hdrs (error_status err) ''provider_error'' (error_text err)"

fun bal_error_text :: "bal_error \<Rightarrow> string" where
  "bal_error_text ErrNoServersAvailable = ''no servers available''"
| "bal_error_text ErrServerNotFound = ''server not found''"

definition no_servers :: "(string \<times> string) list \<Rightarrow> bal_error \<Rightarrow> api_response" where
  "no_servers hdrs err = write_error hdrs 503 ''no_servers'' (''No servers available: '' @ bal_error_text err)"

definition prompt_text :: "message list \<Rightarrow> string" where
  "prompt_text msgs = (if msgs = [] then []
     else case json_string (mg_content (last msgs)) of Some t \<Rightarrow> t | None \<Rightarrow> [])"

definition route :: "'z proxy_env_scheme \<Rightarrow> string \<Rightarrow> string \<Rightarrow> string \<Rightarrow> proxy \<Rightarrow> i64" where
  "route e model prompt username p = fst (route_request (pe_compile e) model prompt username 0 (po_router p))"

text \<open>Attempt 0 is the selection of the handler itself.\<close>

definition acquire :: "'z proxy_env_scheme \<Rightarrow> nat \<Rightarrow> time \<Rightarrow> i64 \<Rightarrow> proxy \<Rightarrow> (bal_error, server) res \<times> proxy" where
  "acquire e attempt now hg p = (let (r, b) = select_server (pe_intn e attempt) now hg (po_balancer p)
     in (r, p\<lparr>po_balancer := b\<rparr>))"

definition elapsed :: "'z proxy_env_scheme \<Rightarrow> duration" where
  "elapsed e = time_sub (pe_end e) (pe_start e)"

definition usage_tokens :: "usage option \<Rightarrow> i64 \<times> i64" where
  "usage_tokens u = (case u of None \<Rightarrow> (0, 0) | Some u \<Rightarrow> (ug_prompt_tokens u, ug_completion_tokens u))"

definition count_tokens :: "string \<Rightarrow> i64 \<Rightarrow> proxy \<Rightarrow> proxy" where
  "count_tokens username n p = p\<lparr>po_limiter := map_option (record_tokens username n) (po_limiter p)\<rparr>"

subsection \<open>The rate limit\<close>

text \<open>\<open>d.Round(time.Second)\<close>, and the text of a whole number of seconds.\<close>

definition round_second :: "duration \<Rightarrow> duration" where
  "round_second d = (let r = \<bar>d\<bar> mod second
     in sat64 (sgn d * (\<bar>d\<bar> - r + (if 2 * r < second then 0 else second))))"

definition duration_text :: "duration \<Rightarrow> string" where
  "duration_text d = (let n = nat (\<bar>d\<bar> div second); h = n div 3600; m = n div 60 mod 60 in
     (if d < 0 then ''-'' else []) @ (if 0 < h then dec_digits h @ ''h'' else [])
     @ (if 0 < h \<or> 0 < m then dec_digits m @ ''m'' else []) @ dec_digits (n mod 60) @ ''s'')"

definition limit_headers :: "string \<Rightarrow> time \<Rightarrow> (string \<times> string) list" where
  "limit_headers remaining reset_at = [(''X-RateLimit-Remaining'', remaining),
     (''X-RateLimit-Reset'', itoa (reset_at div second))]"

text \<open>The check either ends the request or gives the headers to go on with.\<close>

definition check_rate_limit :: "'z proxy_env_scheme \<Rightarrow> string \<Rightarrow> proxy
    \<Rightarrow> (api_response + (string \<times> string) list) \<times> proxy" where
  "check_rate_limit e username p = (case po_limiter p of
       None \<Rightarrow> (Inr [], p)
     | Some l \<Rightarrow> (let (r, l) = limiter_allow (pe_start e) username (po_storage p) l;
                      p = p\<lparr>po_limiter := Some l\<rparr> in
         case r of
           Err _ \<Rightarrow> (Inl (write_error [] 500 ''rate_limit_error'' ''Failed to check rate limit''), p)
         | Panic _ \<Rightarrow> (Inl aborted, p)
         | Ok v \<Rightarrow>
             if lr_allowed v then (Inr (limit_headers (itoa (lr_remaining_requests v)) (lr_reset_at v)), p)
             else (Inl (write_error (limit_headers ''0'' (lr_reset_at v)
                    @ [(''Retry-After'', itoa (truncate_rat (seconds (lr_retry_after v))))]) 429
                    ''rate_limit_exceeded''
                    (''Rate limit exceeded. Retry after '' @ duration_text (round_second (lr_retry_after v)))), p)))"

subsection \<open>Chat completions\<close>

text \<open>
  The closure that \<open>retry.Do\<close> calls captures the proxy, the server in use and the number of
  attempts; a panic inside it travels as a value.
\<close>

record attempt_state =
  at_proxy :: proxy
  at_server :: server
  at_count :: i64

type_synonym attempt_result = "(go_error, chat_response) res"

definition provider_retry :: "go_error \<Rightarrow> go_error" where
  "provider_retry err = new_retryable_error err
     (case err of ProviderError code _ _ _ \<Rightarrow> provider_retryable code | _ \<Rightarrow> False)"

definition call_provider :: "'z proxy_env_scheme \<Rightarrow> nat \<Rightarrow> chat_request \<Rightarrow> attempt_state
    \<Rightarrow> (go_error + attempt_result) \<times> attempt_state" where
  "call_provider e attempt q s =
     (case chat_completion (pe_network e attempt) (re_codec e) (pe_attempt e attempt)
         (new_provider (at_server s) (get_model_timeout (cq_model q) (po_config (at_proxy s)))) q of
        Ok r \<Rightarrow> (Inr (Ok r), s)
      | Err err \<Rightarrow> (Inl (provider_retry err), s)
      | Panic m \<Rightarrow> (Inr (Panic m), s))"

definition chat_attempt :: "'z proxy_env_scheme \<Rightarrow> chat_request \<Rightarrow> string \<Rightarrow> nat \<Rightarrow> attempt_state
    \<Rightarrow> (go_error + attempt_result) \<times> attempt_state" where
  "chat_attempt e q username attempt s =
     (let s = s\<lparr>at_count := int attempt + 1\<rparr> in
      if attempt = 0 then call_provider e attempt q s
      else let now = pe_attempt e attempt;
               p = release now (sv_name (at_server s)) (time_sub now (pe_start e)) False (at_proxy s);
               (r, p) = acquire e attempt now (route e (cq_model q) (prompt_text (cq_messages q)) username p) p;
               s = s\<lparr>at_proxy := p\<rparr> in
        case r of
          Ok srv \<Rightarrow> call_provider e attempt q (s\<lparr>at_server := srv\<rparr>)
        | Err err \<Rightarrow> (Inl (new_retryable_error (Plain (bal_error_text err)) False), s)
        | Panic m \<Rightarrow> (Inr (Panic m), s))"

definition chat_retry_config :: "config \<Rightarrow> retry_config" where
  "chat_retry_config cfg = \<lparr>rc_max_retries = max_retries (cf_failover cfg),
     rc_initial_delay = retry_delay cfg, rc_max_delay = retry_max_delay cfg,
     rc_multiplier = retry_multiplier (cf_failover cfg), rc_jitter = 1 / 10\<rparr>"

abbreviation chat_endpoint :: string where "chat_endpoint \<equiv> ''/v1/chat/completions''"

text \<open>After the release of the last server: the failure, or the accounting of the answer.\<close>

definition chat_failed :: "'z proxy_env_scheme \<Rightarrow> chat_request \<Rightarrow> string \<Rightarrow> go_error \<Rightarrow> attempt_state \<Rightarrow> proxy" where
  "chat_failed e q username err s = log_request [] username (sv_name (at_server s)) (cq_model q) chat_endpoint 0 0
     (elapsed e) 0 500 (''after '' @ itoa (at_count s) @ '' attempts: '' @ error_text err) False (pe_end e) (at_proxy s)"

definition chat_succeeded :: "'z proxy_env_scheme \<Rightarrow> chat_request \<Rightarrow> string \<Rightarrow> chat_response \<Rightarrow> attempt_state \<Rightarrow> proxy" where
  "chat_succeeded e q username resp s =
     (let (prompt_tokens, output_tokens) = usage_tokens (cs_usage resp);
          srv = at_server s; name = sv_name srv;
          p = count_tokens username (add64 prompt_tokens output_tokens) (at_proxy s);
          p = log_request [] username name (cq_model q) chat_endpoint prompt_tokens output_tokens
                (elapsed e) 0 200 [] False (pe_end e) p
      in emit (\<lambda>c. record_request name (cq_model q) True (elapsed e) prompt_tokens output_tokens
           @ record_cost name (cq_model q) (sv_provider_type srv) prompt_tokens output_tokens c) p)"

definition release_last :: "'z proxy_env_scheme \<Rightarrow> bool \<Rightarrow> attempt_state \<Rightarrow> attempt_state" where
  "release_last e success s = s\<lparr>at_proxy := release (pe_end e) (sv_name (at_server s)) (elapsed e) success (at_proxy s)\<rparr>"

text \<open>
  A panic inside an attempt skips the release. Without value and without error (a negative
  \<open>MaxRetries\<close>) the response is nil, and reading its usage panics after the release. The
  error of \<open>json.Marshal\<close> has no branch here: it is documented to fail only for channels,
  functions, complex numbers, cycles and numbers that are not finite, and a response is made
  of strings, integers and what \<open>json.Unmarshal\<close> produced.
\<close>

definition execute_chat_completion :: "'z proxy_env_scheme \<Rightarrow> chat_request \<Rightarrow> server \<Rightarrow> string \<Rightarrow> proxy
    \<Rightarrow> (go_error, string) res \<times> proxy" where
  "execute_chat_completion e q srv username p =
     (let (r, s) = retry_do (chat_retry_config (po_config p)) (pe_context e) (chat_attempt e q username)
            \<lparr>at_proxy = p, at_server = srv, at_count = 0\<rparr> in
      case rs_value r of
        Some (Panic m) \<Rightarrow> (Panic m, at_proxy s)
      | v \<Rightarrow> (let s = release_last e (rs_err r = None) s in
          case rs_err r of
            Some err \<Rightarrow> (Err err, chat_failed e q username err s)
          | None \<Rightarrow> (case v of
                Some (Ok resp) \<Rightarrow> (Ok (pe_chat_json e resp), chat_succeeded e q username resp s)
              | _ \<Rightarrow> (Panic ''invalid memory address or nil pointer dereference'', at_proxy s))))"

text \<open>
  \<open>DeduplicatedCall\<close>: join what is in flight for the key, or run the function; a disabled
  cache just runs it.
\<close>

definition count_deduplicated :: "proxy \<Rightarrow> proxy" where
  "count_deduplicated p = (let c = po_cache p; t = ca_stats c in
     p\<lparr>po_cache := c\<lparr>ca_stats := t\<lparr>ct_deduplicated := add64 (ct_deduplicated t) 1\<rparr>\<rparr>\<rparr>)"

definition deduplicated_call :: "'z proxy_env_scheme \<Rightarrow> (proxy \<Rightarrow> (go_error, string) res \<times> proxy) \<Rightarrow> proxy
    \<Rightarrow> (go_error, string) res \<times> bool \<times> proxy" where
  "deduplicated_call e fn p =
     (if \<not> cc_enabled (ca_cfg (po_cache p)) then (let (r, p) = fn p in (r, False, p))
      else case pe_flight e of
          Some (bytes, err) \<Rightarrow>
            (case err of None \<Rightarrow> Ok bytes | Some x \<Rightarrow> Err x, True, count_deduplicated p)
        | None \<Rightarrow> (let (r, p) = fn p in (r, False, p)))"

definition cacheable :: "chat_request \<Rightarrow> bool" where
  "cacheable q \<longleftrightarrow> cq_temperature q = None \<or> cq_temperature q = Some 0"

definition chat_key :: "'z proxy_env_scheme \<Rightarrow> chat_request \<Rightarrow> string" where
  "chat_key e q = generate_chat_key (pe_sha e) (cq_model q) (Some (pe_messages_json e (cq_messages q)))
     (cq_temperature q) (cq_max_tokens q) []"

definition cache_headers :: "'z proxy_env_scheme \<Rightarrow> string \<Rightarrow> (string \<times> string) list" where
  "cache_headers e how = [(''X-Request-ID'', pe_request_id e), (''X-Cache'', how)]"

definition lookup_cache :: "'z proxy_env_scheme \<Rightarrow> string \<Rightarrow> proxy \<Rightarrow> string option \<times> proxy" where
  "lookup_cache e key p = (let (v, c) = cache_get (pe_gunzip e) (pe_start e) key (po_cache p) in
     (v, emit (\<lambda>_. if v = None then record_cache_miss else record_cache_hit) (p\<lparr>po_cache := c\<rparr>)))"

definition store_answer :: "'z proxy_env_scheme \<Rightarrow> string \<Rightarrow> string \<Rightarrow> string \<Rightarrow> string \<Rightarrow> proxy \<Rightarrow> proxy" where
  "store_answer e key bytes model endpoint p =
     p\<lparr>po_cache := cache_set (pe_gzip e) (pe_end e) key bytes model endpoint (po_cache p)\<rparr>"

text \<open>A cache hit releases the server it did not use, as does a deduplicated request.\<close>

definition serve_hit :: "'z proxy_env_scheme \<Rightarrow> (string \<times> string) list \<Rightarrow> string \<Rightarrow> chat_request \<Rightarrow> server
    \<Rightarrow> string \<Rightarrow> proxy \<Rightarrow> outcome" where
  "serve_hit e hdrs data q srv username p =
     (reply (hdrs @ cache_headers e ''HIT'') 200 (PbBytes data),
      release (pe_end e) (sv_name srv) 0 True (log_request (pe_request_id e) username ''cache'' (cq_model q)
        chat_endpoint 0 0 (elapsed e) 0 200 ''cache_hit'' False (pe_end e) p))"

definition note_deduplication :: "'z proxy_env_scheme \<Rightarrow> chat_request \<Rightarrow> server \<Rightarrow> string \<Rightarrow> proxy \<Rightarrow> proxy" where
  "note_deduplication e q srv username p =
     release (pe_end e) (sv_name srv) 0 True (log_request (pe_request_id e) username ''dedupe'' (cq_model q)
       chat_endpoint 0 0 (elapsed e) 0 200 ''deduplicated'' False (pe_end e) (emit (\<lambda>_. record_deduplication) p))"

definition finish_chat :: "'z proxy_env_scheme \<Rightarrow> (string \<times> string) list \<Rightarrow> chat_request
    \<Rightarrow> (go_error, string) res \<Rightarrow> bool \<Rightarrow> proxy \<Rightarrow> outcome" where
  "finish_chat e hdrs q r deduped p = (case r of
       Panic m \<Rightarrow> (aborted, p)
     | Err err \<Rightarrow> (provider_failed hdrs err, p)
     | Ok bytes \<Rightarrow>
         (reply (hdrs @ cache_headers e (if deduped then ''DEDUPE'' else ''MISS'')) 200 (PbBytes bytes),
          if cacheable q \<and> \<not> deduped then store_answer e (chat_key e q) bytes (cq_model q) chat_endpoint p
          else p))"

definition handle_non_streaming_chat :: "'z proxy_env_scheme \<Rightarrow> (string \<times> string) list \<Rightarrow> chat_request
    \<Rightarrow> server \<Rightarrow> string \<Rightarrow> proxy \<Rightarrow> outcome" where
  "handle_non_streaming_chat e hdrs q srv username p =
     (let (hit, p) = (if cacheable q then lookup_cache e (chat_key e q) p else (None, p)) in
      case hit of
        Some data \<Rightarrow> serve_hit e hdrs data q srv username p
      | None \<Rightarrow>
          (let (r, deduped, p) = deduplicated_call e (execute_chat_completion e q srv username) p;
               p = (if deduped then note_deduplication e q srv username p else p)
           in finish_chat e hdrs q r deduped p))"

subsection \<open>Streaming\<close>

definition sse_frame :: "string \<Rightarrow> string" where
  "sse_frame data = ''data: '' @ data @ nl @ nl"

text \<open>What is written for the events, and the error that ends the stream, if any.\<close>

fun relay :: "stream_event list \<Rightarrow> string \<times> string option" where
  "relay [] = ([], None)"
| "relay (EvError m # rest) = ([], Some m)"
| "relay (EvDone # rest) = (sse_frame ''[DONE]'', None)"
| "relay (EvData d # rest) = (let (text, err) = relay rest in (sse_frame d @ text, err))"

definition stream_headers :: "'z proxy_env_scheme \<Rightarrow> (string \<times> string) list" where
  "stream_headers e = [(''Content-Type'', ''text/event-stream''), (''Cache-Control'', ''no-cache''), (''Connection'', ''keep-alive''),
     (''X-Request-ID'', pe_request_id e)]"

definition handle_streaming_chat :: "'z proxy_env_scheme \<Rightarrow> (string \<times> string) list \<Rightarrow> chat_request \<Rightarrow> provider
    \<Rightarrow> server \<Rightarrow> string \<Rightarrow> proxy \<Rightarrow> outcome" where
  "handle_streaming_chat e hdrs q prov srv username p =
     (let name = sv_name srv; lat = elapsed e in
      case chat_completion_stream (pe_network e 0) (re_codec e) (pe_broken e) (pe_clock e) prov q of
        Panic m \<Rightarrow> (aborted, p)
      | Err err \<Rightarrow> (provider_failed hdrs err, release (pe_end e) name lat False p)
      | Ok events \<Rightarrow>
          if \<not> pe_flusher e
          then (write_error (hdrs @ stream_headers e) 500 ''streaming_error'' ''Streaming not supported'',
                release (pe_end e) name lat False p)
          else let (text, err) = relay events;
                   first = (case events of EvData _ # _ \<Rightarrow> time_sub (pe_first e) (pe_start e) | _ \<Rightarrow> 0);
                   resp = \<lparr>ar_status = 200, ar_headers = hdrs @ stream_headers e, ar_body = PbBytes text\<rparr> in
            case err of
              Some m \<Rightarrow> (resp, log_request (pe_request_id e) username name (cq_model q) chat_endpoint 0 0
                  lat first 500 m True (pe_end e) (release (pe_end e) name lat False p))
            | None \<Rightarrow> (resp, emit (\<lambda>_. record_request name (cq_model q) True lat 0 0)
                (log_request (pe_request_id e) username name (cq_model q) chat_endpoint 0 0
                  lat first 200 [] True (pe_end e) (release (pe_end e) name lat True p))))"


subsection \<open>Referee mode\<close>

definition referee_headers :: "'z proxy_env_scheme \<Rightarrow> chat_response \<Rightarrow> (string \<times> string) list" where
  "referee_headers e resp = [(''X-Request-ID'', pe_request_id e), (''X-Referee-Mode'', ''true'')]
     @ (case cs_referee_info resp of None \<Rightarrow> []
        | Some i \<Rightarrow> [(''X-Referee-Providers-Queried'', itoa (ri_providers_queried i)),
            (''X-Referee-Successful-Responses'', itoa (ri_successful_responses i))])"

definition referee_failed :: "'z proxy_env_scheme \<Rightarrow> (string \<times> string) list \<Rightarrow> chat_request \<Rightarrow> string
    \<Rightarrow> go_error \<Rightarrow> proxy \<Rightarrow> outcome" where
  "referee_failed e hdrs q username err p =
     (write_error hdrs 500 ''referee_error'' (error_text err),
      emit (\<lambda>_. record_referee_request False (elapsed e) 0 0)
        (log_request (pe_request_id e) username ''referee'' (cq_model q) chat_endpoint 0 0 (elapsed e) 0 500
          (error_text err) False (pe_end e) p))"

definition referee_succeeded :: "'z proxy_env_scheme \<Rightarrow> (string \<times> string) list \<Rightarrow> chat_request
    \<Rightarrow> referee_mode \<Rightarrow> string \<Rightarrow> chat_response \<Rightarrow> proxy \<Rightarrow> outcome" where
  "referee_succeeded e hdrs q rm username resp p =
     (let (prompt_tokens, output_tokens) = usage_tokens (cs_usage resp);
          p = count_tokens username (add64 prompt_tokens output_tokens) p;
          p = log_request (pe_request_id e) username (''referee:'' @ referee_model_of (po_config p) rm)
                (cq_model q) chat_endpoint prompt_tokens output_tokens (elapsed e) 0 200 [] False (pe_end e) p;
          (queried, good) = (case cs_referee_info resp of None \<Rightarrow> (0, 0)
            | Some i \<Rightarrow> (ri_providers_queried i, ri_successful_responses i))
      in (reply (hdrs @ referee_headers e resp) 200 (PbChat resp),
          emit (\<lambda>_. record_referee_request True (elapsed e) queried good) p))"

definition handle_referee_mode_chat :: "'z proxy_env_scheme \<Rightarrow> (string \<times> string) list \<Rightarrow> chat_request
    \<Rightarrow> referee_mode \<Rightarrow> string \<Rightarrow> proxy \<Rightarrow> outcome" where
  "handle_referee_mode_chat e hdrs q rm username p =
     (if cq_stream q
      then (write_error hdrs 400 ''invalid_request'' ''Referee mode does not support streaming'', p)
      else case referee_execute e (po_config p) (po_storage p) q of
          Panic m \<Rightarrow> (aborted, p)
        | Err err \<Rightarrow> referee_failed e hdrs q username err p
        | Ok resp \<Rightarrow> referee_succeeded e hdrs q rm username resp p)"

subsection \<open>The chat handler\<close>

definition limited_body :: "proxy \<Rightarrow> api_request \<Rightarrow> string" where
  "limited_body p r = take (nat (max_request_body_size (cf_request (po_config p)))) (ir_body r)"

definition bad_request :: "(string \<times> string) list \<Rightarrow> string \<Rightarrow> api_response" where
  "bad_request hdrs m = write_error hdrs 400 ''invalid_request'' (''Failed to parse request: '' @ m)"

definition only :: "string \<Rightarrow> api_response" where
  "only verb = write_error [] 405 ''method_not_allowed'' (''Only '' @ verb @ '' is allowed'')"

definition balanced_chat :: "'z proxy_env_scheme \<Rightarrow> (string \<times> string) list \<Rightarrow> chat_request \<Rightarrow> string
    \<Rightarrow> proxy \<Rightarrow> outcome" where
  "balanced_chat e hdrs q username p =
     (let (r, p) = acquire e 0 (pe_start e) (route e (cq_model q) (prompt_text (cq_messages q)) username p) p in
      case r of
        Panic m \<Rightarrow> (aborted, p)
      | Err err \<Rightarrow> (no_servers hdrs err, p)
      | Ok srv \<Rightarrow>
          if cq_stream q
          then handle_streaming_chat e hdrs q
                 (new_provider srv (get_model_timeout (cq_model q) (po_config p))) srv username p
          else handle_non_streaming_chat e hdrs q srv username p)"

definition handle_chat_completions :: "'z proxy_env_scheme \<Rightarrow> api_request \<Rightarrow> proxy \<Rightarrow> outcome" where
  "handle_chat_completions e r p =
     (if ir_method r \<noteq> ''POST'' then (only ''POST'', p)
      else let username = extract_username r; (limit, p) = check_rate_limit e username p in
        case limit of
          Inl resp \<Rightarrow> (resp, p)
        | Inr hdrs \<Rightarrow>
            (case pe_read_chat e (limited_body p r) of
               Inl m \<Rightarrow> (bad_request hdrs m, p)
             | Inr q \<Rightarrow>
                 (case cq_referee_mode q of
                    Some rm \<Rightarrow>
                      if \<not> rm_enabled rm then balanced_chat e hdrs q username p
                      else if \<not> referee_enabled (cf_referee (po_config p))
                      then (write_error hdrs 400 ''referee_disabled'' ''Referee mode is disabled on this server'', p)
                      else handle_referee_mode_chat e hdrs q rm username p
                  | None \<Rightarrow> balanced_chat e hdrs q username p)))"

subsection \<open>Completions\<close>

definition completion_failed :: "'z proxy_env_scheme \<Rightarrow> completion_request \<Rightarrow> server \<Rightarrow> string
    \<Rightarrow> go_error \<Rightarrow> proxy \<Rightarrow> outcome" where
  "completion_failed e q srv username err p =
     (provider_failed [] err,
      log_request (pe_request_id e) username (sv_name srv) (pq_model q) ''/v1/completions'' 0 0 (elapsed e) 0
        (error_status err) (error_text err) False (pe_end e) p)"

definition completion_succeeded :: "'z proxy_env_scheme \<Rightarrow> completion_request \<Rightarrow> server \<Rightarrow> string
    \<Rightarrow> completion_response \<Rightarrow> proxy \<Rightarrow> outcome" where
  "completion_succeeded e q srv username resp p =
     (let (prompt_tokens, output_tokens) = usage_tokens (ps_usage resp) in
      (reply [(''X-Request-ID'', pe_request_id e)] 200 (PbCompletion resp),
       emit (\<lambda>_. record_request (sv_name srv) (pq_model q) True (elapsed e) prompt_tokens output_tokens)
         (log_request (pe_request_id e) username (sv_name srv) (pq_model q) ''/v1/completions'' prompt_tokens
           output_tokens (elapsed e) 0 200 [] False (pe_end e) p)))"

text \<open>A decoded JSON prompt is never a \<open>[]string\<close>, so a list of prompts routes as no prompt.\<close>

definition handle_completions :: "'z proxy_env_scheme \<Rightarrow> api_request \<Rightarrow> proxy \<Rightarrow> outcome" where
  "handle_completions e r p =
     (if ir_method r \<noteq> ''POST'' then (only ''POST'', p)
      else case pe_read_completion e (limited_body p r) of
        Inl m \<Rightarrow> (bad_request [] m, p)
      | Inr q \<Rightarrow>
          (let username = extract_username r;
               prompt = (case json_string (pq_prompt q) of Some t \<Rightarrow> t | None \<Rightarrow> []);
               (sel, p) = acquire e 0 (pe_start e) (route e (pq_model q) prompt username p) p in
           case sel of
             Panic m \<Rightarrow> (aborted, p)
           | Err err \<Rightarrow> (no_servers [] err, p)
           | Ok srv \<Rightarrow>
               (let resp = completion (pe_network e 0) (re_codec e) (pe_end e)
                      (new_provider srv (request_timeout (po_config p))) q;
                    done = release (pe_end e) (sv_name srv) (elapsed e) (is_Ok resp) p in
                case resp of
                  Panic m \<Rightarrow> (aborted, p)
                | Err err \<Rightarrow> completion_failed e q srv username err done
                | Ok v \<Rightarrow> completion_succeeded e q srv username v done)))"

subsection \<open>Embeddings\<close>

abbreviation embedding_endpoint :: string where "embedding_endpoint \<equiv> ''/v1/embeddings''"

definition embedding_key :: "'z proxy_env_scheme \<Rightarrow> embedding_request \<Rightarrow> string" where
  "embedding_key e q = generate_embedding_key (pe_sha e) (eq_model q) (dc_marshal (re_codec e) (eq_input q))
     (eq_dimensions q)"

definition embed :: "'z proxy_env_scheme \<Rightarrow> provider \<Rightarrow> embedding_request \<Rightarrow> proxy
    \<Rightarrow> (go_error, string) res \<times> proxy" where
  "embed e prov q p = (on_ok (pe_embedding_json e) (embedding (pe_network e 0) (re_codec e) prov q), p)"

definition embedding_tokens :: "'z proxy_env_scheme \<Rightarrow> string \<Rightarrow> i64" where
  "embedding_tokens e bytes = (case dc_embedding (re_codec e) bytes of
       Inr v \<Rightarrow> (case es_usage v of Some (_, n) \<Rightarrow> n | None \<Rightarrow> 0)
     | Inl _ \<Rightarrow> 0)"

definition embedding_answered :: "'z proxy_env_scheme \<Rightarrow> embedding_request \<Rightarrow> server \<Rightarrow> string \<Rightarrow> bool
    \<Rightarrow> string \<Rightarrow> proxy \<Rightarrow> outcome" where
  "embedding_answered e q srv username deduped bytes p =
     (let tokens = embedding_tokens e bytes;
          p = (if deduped then p
               else log_request (pe_request_id e) username (sv_name srv) (eq_model q) embedding_endpoint tokens 0
                 (elapsed e) 0 200 [] False (pe_end e) p);
          p = emit (\<lambda>_. record_request (sv_name srv) (eq_model q) True (elapsed e) tokens 0) p in
      (reply (cache_headers e (if deduped then ''DEDUPE'' else ''MISS'')) 200 (PbBytes bytes),
       if deduped then p else store_answer e (embedding_key e q) bytes (eq_model q) embedding_endpoint p))"

definition embedding_failed :: "'z proxy_env_scheme \<Rightarrow> embedding_request \<Rightarrow> server \<Rightarrow> string
    \<Rightarrow> go_error \<Rightarrow> proxy \<Rightarrow> outcome" where
  "embedding_failed e q srv username err p =
     (provider_failed [] err,
      log_request (pe_request_id e) username (sv_name srv) (eq_model q) embedding_endpoint 0 0 (elapsed e) 0
        (error_status err) (error_text err) False (pe_end e) p)"

definition embedding_call :: "'z proxy_env_scheme \<Rightarrow> embedding_request \<Rightarrow> provider \<Rightarrow> server \<Rightarrow> string
    \<Rightarrow> proxy \<Rightarrow> outcome" where
  "embedding_call e q prov srv username p =
     (let (r, deduped, p) = deduplicated_call e (embed e prov q) p;
          p = (if deduped then log_request (pe_request_id e) username ''dedupe'' (eq_model q) embedding_endpoint
                 0 0 (elapsed e) 0 200 ''deduplicated'' False (pe_end e) (emit (\<lambda>_. record_deduplication) p)
               else p);
          freed = release (pe_end e) (sv_name srv) (elapsed e) (is_Ok r) p in
      case r of
        Panic m \<Rightarrow> (aborted, p)
      | Err err \<Rightarrow> embedding_failed e q srv username err freed
      | Ok bytes \<Rightarrow> embedding_answered e q srv username deduped bytes freed)"

definition embedding_miss :: "'z proxy_env_scheme \<Rightarrow> embedding_request \<Rightarrow> string \<Rightarrow> proxy \<Rightarrow> outcome" where
  "embedding_miss e q username p =
     (let (sel, p) = acquire e 0 (pe_start e) (route e (eq_model q) [] username p) p in
      case sel of
        Panic m \<Rightarrow> (aborted, p)
      | Err err \<Rightarrow> (no_servers [] err, p)
      | Ok srv \<Rightarrow>
          (let prov = new_provider srv (request_timeout (po_config p)) in
           if \<not> supports_embeddings prov
           then (write_error [] 400 ''unsupported'' ''Provider does not support embeddings'',
                 release (pe_start e) (sv_name srv) 0 False p)
           else embedding_call e q prov srv username p))"

definition handle_embeddings :: "'z proxy_env_scheme \<Rightarrow> api_request \<Rightarrow> proxy \<Rightarrow> outcome" where
  "handle_embeddings e r p =
     (if ir_method r \<noteq> ''POST'' then (only ''POST'', p)
      else case pe_read_embedding e (limited_body p r) of
        Inl m \<Rightarrow> (bad_request [] m, p)
      | Inr q \<Rightarrow>
          (let username = extract_username r; (hit, p) = lookup_cache e (embedding_key e q) p in
           case hit of
             Some data \<Rightarrow> (reply (cache_headers e ''HIT'') 200 (PbBytes data),
               log_request (pe_request_id e) username ''cache'' (eq_model q) embedding_endpoint 0 0 (elapsed e) 0
                 200 ''cache_hit'' False (pe_end e) p)
           | None \<Rightarrow> embedding_miss e q username p))"

subsection \<open>Models, health and routing\<close>

text \<open>The models of the online servers that answer, one entry per identifier, the last one.\<close>

fun collect_models :: "'z proxy_env_scheme \<Rightarrow> config \<Rightarrow> (nat \<times> server) list \<Rightarrow> (string \<times> model_info) list
    \<Rightarrow> (string \<times> model_info) list" where
  "collect_models e cfg [] acc = acc"
| "collect_models e cfg ((i, srv) # rest) acc =
     collect_models e cfg rest
       (if sv_status srv \<noteq> status_online then acc
        else case list_models (pe_network e i) (re_codec e) (new_provider srv (request_timeout cfg)) of
            Ok models \<Rightarrow> foldl (\<lambda>a m. AList.update (mi_id m) m a) acc models
          | _ \<Rightarrow> acc)"

definition handle_models :: "'z proxy_env_scheme \<Rightarrow> api_request \<Rightarrow> proxy \<Rightarrow> outcome" where
  "handle_models e r p =
     (if ir_method r \<noteq> ''GET'' then (only ''GET'', p)
      else case get_servers_with_decrypted_keys (re_unseal e) None (po_storage p) of
        Ok servers \<Rightarrow> (reply [] 200 (PbModels (map snd (pe_model_order e
            (collect_models e (po_config p) (enumerate 0 servers) [])))), p)
      | Err _ \<Rightarrow> (write_error [] 500 ''internal_error'' ''Failed to get servers'', p)
      | Panic _ \<Rightarrow> (aborted, p))"

definition handle_health :: "proxy \<Rightarrow> outcome" where
  "handle_health p = (reply [] 200 (PbStatus [(''status'', ''healthy'')]), p)"

definition handle_root :: "api_request \<Rightarrow> proxy \<Rightarrow> outcome" where
  "handle_root r p =
     (if ir_path r \<noteq> ''/'' then (write_error [] 404 ''not_found'' ''Endpoint not found'', p)
      else (reply [] 200 (PbStatus [(''name'', ''MindBalancer''), (''version'', ''1.0.0''), (''status'', ''running'')]), p))"

definition dispatch :: "'z proxy_env_scheme \<Rightarrow> api_request \<Rightarrow> proxy \<Rightarrow> outcome" where
  "dispatch e r p = (let path = ir_path r in
     if path = chat_endpoint then handle_chat_completions e r p
     else if path = ''/v1/completions'' then handle_completions e r p
     else if path = embedding_endpoint then handle_embeddings e r p
     else if path = ''/v1/models'' then handle_models e r p
     else if path = ''/health'' \<or> path = ''/healthz'' then handle_health p
     else handle_root r p)"

text \<open>The counter of the requests in flight; the decrement is deferred, so it survives a panic.\<close>

definition enter :: "proxy \<Rightarrow> proxy" where
  "enter p = p\<lparr>po_active := add64 (po_active p) 1\<rparr>"

definition leave :: "proxy \<Rightarrow> proxy" where
  "leave p = p\<lparr>po_active := sub64 (po_active p) 1\<rparr>"

definition track_active_requests :: "(api_request \<Rightarrow> proxy \<Rightarrow> outcome) \<Rightarrow> api_request \<Rightarrow> proxy \<Rightarrow> outcome" where
  "track_active_requests next r p =
     (if ir_path r \<in> {''/health'', ''/healthz'', ''/''} then next r p
      else let (resp, p) = next r (enter p) in (resp, leave p))"

definition proxy_serve :: "'z proxy_env_scheme \<Rightarrow> api_request \<Rightarrow> proxy \<Rightarrow> outcome" where
  "proxy_serve e = track_active_requests (dispatch e)"

end
