(* ===== verification/ProxyFacts.thy ===== *)
theory ProxyFacts
  imports Proxy
begin

section \<open>What the proxy guarantees\<close>

text \<open>
  The properties of a request through the proxy, across its components: the balance of the
  connections it takes, the answers of failing providers, the requests over their limit, the
  reuse of cached answers and the relay of streams.
\<close>

subsection \<open>Connections\<close>

text \<open>A balancer between two operations: pointers are sound and counters are 64-bit values.\<close>

definition bal_ok :: "balancer \<Rightarrow> bool" where
  "bal_ok b \<longleftrightarrow> bal_inv b \<and> length (bl_heap b) < 2 ^ 64
     \<and> (\<forall>n p. bl_servers b n = Some p \<longrightarrow> in64 (ss_connections (bl_heap b ! p)))"

text \<open>From \<open>b\<close> to \<open>b'\<close> the connections of every server \<open>n\<close> change by \<open>d n\<close>.\<close>

definition shifted :: "(string \<Rightarrow> int) \<Rightarrow> balancer \<Rightarrow> balancer \<Rightarrow> bool" where
  "shifted d b b' \<longleftrightarrow> bl_servers b' = bl_servers b
     \<and> (\<forall>n p. bl_servers b n = Some p \<longrightarrow>
          ss_connections (bl_heap b' ! p) = wrap64 (ss_connections (bl_heap b ! p) + d n))"

definition taken :: "string \<Rightarrow> string \<Rightarrow> int" where
  "taken name n = (if name = n then 1 else 0)"

lemma shifted_refl: "bal_ok b \<Longrightarrow> shifted (\<lambda>_. 0) b b"
  by (simp add: shifted_def bal_ok_def)

lemma shifted_trans: "shifted d b b' \<Longrightarrow> shifted d' b' b'' \<Longrightarrow> shifted (\<lambda>n. d n + d' n) b b''"
  by (simp add: shifted_def add.assoc)

lemma shifted_cong: "shifted d b b' \<Longrightarrow> (\<And>n. d n = d' n) \<Longrightarrow> shifted d' b b'"
  by (simp add: shifted_def)

lemma bal_step_shifted:
  assumes ok: "bal_ok b" and law: "intn_law intn"
  shows "bal_ok (bal_step intn b e) \<and> shifted (\<lambda>n. bal_effect intn n b e) b (bal_step intn b e)"
proof -
  note frame = bal_step_frame [of intn b e]
  have step: "ss_connections (bl_heap (bal_step intn b e) ! p)
      = wrap64 (ss_connections (bl_heap b ! p) + bal_effect intn n b e)" if "bl_servers b n = Some p" for n p
    using bal_step_connections [OF _ law _ that, of e] ok that by (auto simp: bal_ok_def)
  with ok frame show ?thesis
    by (auto simp: bal_ok_def shifted_def intro: bal_step_inv)
qed

lemma release_shifted:
  "bal_ok b \<Longrightarrow> bal_ok (release_server now name latency ok b)
     \<and> shifted (\<lambda>n. - taken name n) b (release_server now name latency ok b)"
  using bal_step_shifted [of b "\<lambda>_. 0" "BalRelease now name latency ok"]
  by (auto simp: intn_law_def taken_def elim: shifted_cong)

lemma release_taken:
  assumes "bal_ok b'" and "shifted (taken name) b b'"
  shows "bal_ok (release_server now name latency ok b') \<and> shifted (\<lambda>_. 0) b (release_server now name latency ok b')"
  using release_shifted [OF assms(1), of now name latency ok]
    shifted_cong [OF shifted_trans [OF assms(2), of "\<lambda>n. - taken name n"], of _ "\<lambda>_. 0"] by auto

lemma select_shifted:
  assumes "bal_ok b" and "intn_law intn" and "select_server intn now hg b = (r, b')"
  shows "bal_ok b' \<and> shifted (\<lambda>n. case r of Ok srv \<Rightarrow> taken (sv_name srv) n | _ \<Rightarrow> 0) b b'"
  using bal_step_shifted [OF assms(1,2), of "BalSelect now hg"] assms(3)
  by (auto simp: taken_def split: res.splits elim: shifted_cong)

text \<open>The steps that leave the balancer or the cache alone.\<close>

lemma proxy_frames [simp]:
  "po_balancer (emit f p) = po_balancer p" "po_cache (emit f p) = po_cache p"
  "po_config (emit f p) = po_config p" "po_limiter (emit f p) = po_limiter p"
  "po_balancer (log_request a b c d f1 g h i j k l m now p) = po_balancer p"
  "po_cache (log_request a b c d f1 g h i j k l m now p) = po_cache p"
  "po_config (log_request a b c d f1 g h i j k l m now p) = po_config p"
  "po_balancer (count_tokens u n p) = po_balancer p" "po_cache (count_tokens u n p) = po_cache p"
  "po_config (count_tokens u n p) = po_config p"
  "po_balancer (store_answer e key bytes model ep p) = po_balancer p"
  "po_config (store_answer e key bytes model ep p) = po_config p"
  "po_cache (release now name lat ok p) = po_cache p" "po_config (release now name lat ok p) = po_config p"
  "po_balancer (release now name lat ok p) = release_server now name lat ok (po_balancer p)"
  by (simp_all add: emit_def log_request_def count_tokens_def store_answer_def release_def split: option.split)

text \<open>
  What a running chat request has of the balancer \<open>b\<close> it started from: one connection of
  the server in use, or none.
\<close>

definition holds :: "balancer \<Rightarrow> attempt_state \<Rightarrow> bool" where
  "holds b s \<longleftrightarrow> bal_ok (po_balancer (at_proxy s))
     \<and> shifted (taken (sv_name (at_server s))) b (po_balancer (at_proxy s))"

definition dropped :: "balancer \<Rightarrow> attempt_state \<Rightarrow> bool" where
  "dropped b s \<longleftrightarrow> bal_ok (po_balancer (at_proxy s)) \<and> shifted (\<lambda>_. 0) b (po_balancer (at_proxy s))"

definition no_retry_server :: go_error where
  "no_retry_server = RetryableError (Plain ''no servers available'') False"

lemma acquire_split:
  "acquire e k now hg p = (r, p') \<Longrightarrow>
   \<exists>b. select_server (pe_intn e k) now hg (po_balancer p) = (r, b) \<and> p' = p\<lparr>po_balancer := b\<rparr>"
  by (auto simp: acquire_def Let_def split: prod.splits)

lemma select_error: "fst (select_server intn now hg b) \<noteq> Err ErrServerNotFound"
  by (auto simp: select_server_def Let_def split: prod.splits res.splits option.splits)

lemma call_provider_effect:
  "(r, s') = call_provider e k q s \<Longrightarrow> s' = s \<and> (\<forall>err. r = Inl err \<longrightarrow> (\<exists>x. err = provider_retry x))"
  by (auto simp: call_provider_def split: res.splits)

text \<open>What one attempt does to the balancer.\<close>

lemma chat_attempt_effect:
  assumes law: "\<And>k. intn_law (pe_intn e k)" and h: "holds b s"
    and run: "chat_attempt e q user k s = (r, s')"
  shows "po_cache (at_proxy s') = po_cache (at_proxy s) \<and> po_config (at_proxy s') = po_config (at_proxy s)
     \<and> (holds b s' \<or> dropped b s' \<and> (r = Inl no_retry_server \<or> (\<exists>m. r = Inr (Panic m))))
     \<and> (\<forall>err. r = Inl err \<longrightarrow> err = no_retry_server \<or> (\<exists>x. err = provider_retry x))"
proof (cases "k = 0")
  case True
  with run have "(r, s') = call_provider e k q (s\<lparr>at_count := int k + 1\<rparr>)" by (simp add: chat_attempt_def)
  from call_provider_effect [OF this] h show ?thesis by (auto simp: holds_def)
next
  case False
  let ?s = "s\<lparr>at_count := int k + 1\<rparr>" and ?now = "pe_attempt e k"
  let ?p = "release ?now (sv_name (at_server s)) (time_sub ?now (pe_start e)) False (at_proxy s)"
  obtain x b' where sel: "select_server (pe_intn e k) ?now
        (route e (cq_model q) (prompt_text (cq_messages q)) user ?p) (po_balancer ?p) = (x, b')"
    and acq: "acquire e k ?now (route e (cq_model q) (prompt_text (cq_messages q)) user ?p) ?p
        = (x, ?p\<lparr>po_balancer := b'\<rparr>)"
    by (metis acquire_split surj_pair)
  let ?t = "?s\<lparr>at_proxy := ?p\<lparr>po_balancer := b'\<rparr>\<rparr>"
  have rel: "bal_ok (po_balancer ?p)" "shifted (\<lambda>_. 0) b (po_balancer ?p)"
    using h release_taken [of "po_balancer (at_proxy s)" "sv_name (at_server s)" b] by (auto simp: holds_def)
  have b': "bal_ok b'" "shifted (\<lambda>n. case x of Ok srv \<Rightarrow> taken (sv_name srv) n | _ \<Rightarrow> 0) b b'"
    using select_shifted [OF rel(1) law sel] shifted_trans [OF rel(2)] by auto
  have run: "(r, s') = (case x of
      Ok srv \<Rightarrow> call_provider e k q (?t\<lparr>at_server := srv\<rparr>)
    | Err err \<Rightarrow> (Inl (new_retryable_error (Plain (bal_error_text err)) False), ?t)
    | Panic m \<Rightarrow> (Inr (Panic m), ?t))"
    using run False acq by (simp add: chat_attempt_def Let_def)
  show ?thesis
  proof (cases x)
    case (Ok srv)
    with run have "(r, s') = call_provider e k q (?t\<lparr>at_server := srv\<rparr>)" by simp
    from call_provider_effect [OF this] b' Ok show ?thesis by (auto simp: holds_def)
  next
    case (Err err)
    then have "err = ErrNoServersAvailable"
      using sel select_error [of "pe_intn e k" ?now _ "po_balancer ?p"] by (cases err) (metis fst_conv)+
    with Err run b' show ?thesis
      by (auto simp: dropped_def no_retry_server_def new_retryable_error_def)
  next
    case (Panic m)
    with run b' show ?thesis by (auto simp: dropped_def)
  qed
qed


text \<open>
  What the environment owes a request: random numbers in range, and errors of a cancelled
  context that are not provider errors.
\<close>

definition env_ok :: "'z proxy_env_scheme \<Rightarrow> bool" where
  "env_ok e \<longleftrightarrow> (\<forall>k. intn_law (pe_intn e k))
     \<and> (\<forall>k err. ctx_before (pe_context e) k = Some err \<or> ctx_sleeping (pe_context e) k = Some err
          \<longrightarrow> (\<exists>m. err = Plain m))"

text \<open>The contract of an attempt: the request started at the proxy \<open>p\<close> with the balancer \<open>b\<close>.\<close>

definition same_rest :: "proxy \<Rightarrow> attempt_state \<Rightarrow> bool" where
  "same_rest p s \<longleftrightarrow> po_cache (at_proxy s) = po_cache p \<and> po_config (at_proxy s) = po_config p"

definition attempt_inv :: "'z proxy_env_scheme \<Rightarrow> proxy \<Rightarrow> balancer \<Rightarrow> attempt_state \<Rightarrow> bool" where
  "attempt_inv e p b s \<longleftrightarrow> env_ok e \<and> holds b s \<and> same_rest p s"

definition attempt_value :: "proxy \<Rightarrow> balancer \<Rightarrow> attempt_result \<Rightarrow> attempt_state \<Rightarrow> bool" where
  "attempt_value p b v s \<longleftrightarrow> same_rest p s \<and> (holds b s \<or> (\<exists>m. v = Panic m))"

definition attempt_error :: "proxy \<Rightarrow> balancer \<Rightarrow> go_error \<Rightarrow> attempt_state \<Rightarrow> bool" where
  "attempt_error p b err s \<longleftrightarrow> same_rest p s \<and> (holds b s \<or> dropped b s \<and> err = no_retry_server)
     \<and> error_status err = 500"

lemma error_status_simps [simp]:
  "error_status (provider_retry x) = 500" "error_status no_retry_server = 500" "error_status (Plain m) = 500"
  by (simp_all add: error_status_def provider_retry_def new_retryable_error_def no_retry_server_def)

lemma no_retry_server_final [simp]: "is_retryable no_retry_server = False"
  by (simp add: no_retry_server_def)

interpretation chat: attempts "chat_attempt e q user" "attempt_inv e p b" "attempt_value p b"
    "attempt_error p b" "pe_context e" for e q user p b
proof
  fix s k v s'
  assume "attempt_inv e p b s" and run: "chat_attempt e q user k s = (Inr v, s')"
  then show "attempt_value p b v s'"
    using chat_attempt_effect [OF _ _ run, of b]
    by (auto simp: attempt_inv_def attempt_value_def env_ok_def same_rest_def)
next
  fix s k err s'
  assume "attempt_inv e p b s" and run: "chat_attempt e q user k s = (Inl err, s')"
  then show "attempt_error p b err s'"
    using chat_attempt_effect [OF _ _ run, of b]
    by (auto simp: attempt_inv_def attempt_error_def env_ok_def same_rest_def)
next
  fix s k err s'
  assume "attempt_inv e p b s" and run: "chat_attempt e q user k s = (Inl err, s')" and "is_retryable err"
  then show "attempt_inv e p b s'"
    using chat_attempt_effect [OF _ _ run, of b]
    by (auto simp: attempt_inv_def env_ok_def same_rest_def)
next
  fix s k err
  assume "attempt_inv e p b s" "ctx_before (pe_context e) k = Some err \<or> ctx_sleeping (pe_context e) k = Some err"
  then show "attempt_error p b err s"
    by (fastforce simp: attempt_inv_def attempt_error_def env_ok_def)
qed

text \<open>The whole call: the connection is given back, unless a retry found no server.\<close>

lemma execute_effect:
  assumes env: "env_ok e" and ok: "bal_ok (po_balancer p)"
    and h: "shifted (taken (sv_name srv)) b (po_balancer p)"
    and run: "execute_chat_completion e q srv user p = (r, p')"
  shows "po_cache p' = po_cache p \<and> po_config p' = po_config p
     \<and> ((\<exists>m. r = Panic m) \<or> (bal_ok (po_balancer p') \<and> (shifted (\<lambda>_. 0) b (po_balancer p')
          \<or> r = Err no_retry_server \<and> (\<exists>name. shifted (\<lambda>n. - taken name n) b (po_balancer p')))))
     \<and> (\<forall>err. r = Err err \<longrightarrow> error_status err = 500)"
proof -
  let ?s = "\<lparr>at_proxy = p, at_server = srv, at_count = 0\<rparr>"
  obtain rr s where do: "retry_do (chat_retry_config (po_config p)) (pe_context e) (chat_attempt e q user) ?s = (rr, s)"
    by fastforce
  have inv: "attempt_inv e p b ?s" using assms by (simp add: attempt_inv_def holds_def same_rest_def)
  let ?t = "release_last e (rs_err rr = None) s"
  have t: "at_proxy ?t = release (pe_end e) (sv_name (at_server s)) (elapsed e) (rs_err rr = None) (at_proxy s)"
    by (simp add: release_last_def)
  have given: "bal_ok (po_balancer (at_proxy ?t)) \<and> shifted (\<lambda>_. 0) b (po_balancer (at_proxy ?t))" if "holds b s"
    using that release_taken [of "po_balancer (at_proxy s)" "sv_name (at_server s)" b]
    unfolding t by (simp add: holds_def)
  have lost: "bal_ok (po_balancer (at_proxy ?t))
      \<and> shifted (\<lambda>n. - taken (sv_name (at_server s)) n) b (po_balancer (at_proxy ?t))" if "dropped b s"
    using that release_shifted [of "po_balancer (at_proxy s)"]
      shifted_trans [of "\<lambda>_. 0" b "po_balancer (at_proxy s)" "\<lambda>n. - taken (sv_name (at_server s)) n"]
    unfolding t by (simp add: dropped_def)
  from chat.run [OF inv do] show ?thesis
  proof (elim disjE)
    assume settled: "settled (attempt_value p b) (attempt_error p b) rr s"
    from settled show ?thesis
      unfolding settled_def
    proof (elim disjE exE conjE)
      fix v assume v: "rs_value rr = Some v" "rs_err rr = None" "attempt_value p b v s"
      with run do given show ?thesis
        by (cases v) (auto simp: execute_chat_completion_def attempt_value_def same_rest_def
            chat_succeeded_def release_last_def Let_def split: prod.splits)
    next
      fix err assume v: "rs_value rr = None" "rs_err rr = Some err" "attempt_error p b err s"
      with run do given lost show ?thesis
        by (auto simp: execute_chat_completion_def attempt_error_def same_rest_def chat_failed_def
            release_last_def Let_def)
    qed
  next
    assume "rs_value rr = None \<and> rs_err rr = None \<and> rc_max_retries (chat_retry_config (po_config p)) < 0 \<and> s = ?s"
    with run do show ?thesis by (auto simp: execute_chat_completion_def release_last_def Let_def)
  qed
qed

lemma deduplicated_split:
  assumes "deduplicated_call e fn p = (r, d, p')"
  shows "d \<and> po_balancer p' = po_balancer p \<or> \<not> d \<and> fn p = (r, p')"
  using assms
  by (auto simp: deduplicated_call_def count_deduplicated_def Let_def split: if_splits option.splits prod.splits)

lemma acquire_effect:
  assumes "env_ok e" and "bal_ok (po_balancer p)" and "acquire e k now hg p = (r, p')"
  shows "bal_ok (po_balancer p') \<and> po_cache p' = po_cache p \<and> po_config p' = po_config p
     \<and> shifted (\<lambda>n. case r of Ok srv \<Rightarrow> taken (sv_name srv) n | _ \<Rightarrow> 0) (po_balancer p) (po_balancer p')"
proof -
  obtain b where "select_server (pe_intn e k) now hg (po_balancer p) = (r, b)" "p' = p\<lparr>po_balancer := b\<rparr>"
    using acquire_split [OF assms(3)] by blast
  with select_shifted [OF assms(2) _ this(1)] assms(1) show ?thesis by (auto simp: env_ok_def)
qed

lemma lookup_frames [simp]:
  "po_balancer (snd (lookup_cache e key p)) = po_balancer p" "po_config (snd (lookup_cache e key p)) = po_config p"
  by (auto simp: lookup_cache_def split: prod.split)

text \<open>The answer that a request gets when a retry finds no server.\<close>

abbreviation stranded :: "api_response \<Rightarrow> bool" where
  "stranded resp \<equiv> ar_body resp = PbError ''provider_error'' ''no servers available''"

lemma stranded_failure: "stranded (provider_failed hdrs no_retry_server)"
  by (simp add: provider_failed_def write_error_def reply_def no_retry_server_def)

text \<open>A handler of a request that holds one connection of the server it was given.\<close>

definition gives_back :: "balancer \<Rightarrow> outcome \<Rightarrow> bool" where
  "gives_back b res \<longleftrightarrow> fst res = aborted \<or> stranded (fst res) \<or> shifted (\<lambda>_. 0) b (po_balancer (snd res))"

lemma streaming_gives_back:
  assumes "bal_ok (po_balancer p)" and "shifted (taken (sv_name srv)) b (po_balancer p)"
  shows "gives_back b (handle_streaming_chat e hdrs q prov srv user p)"
  using release_taken [OF assms]
  by (auto simp: gives_back_def handle_streaming_chat_def Let_def split: res.split prod.split option.split)

lemma non_streaming_gives_back:
  assumes env: "env_ok e" and ok: "bal_ok (po_balancer p)" and h: "shifted (taken (sv_name srv)) b (po_balancer p)"
  shows "gives_back b (handle_non_streaming_chat e hdrs q srv user p)"
proof -
  obtain hit p1 where look: "(if cacheable q then lookup_cache e (chat_key e q) p else (None, p)) = (hit, p1)"
    by fastforce
  then have p1: "po_balancer p1 = po_balancer p" by (auto split: if_splits) (metis lookup_frames(1) snd_conv)
  note given = release_taken [OF ok h]
  show ?thesis
  proof (cases hit)
    case (Some data)
    with look given p1 show ?thesis
      by (simp add: handle_non_streaming_chat_def serve_hit_def gives_back_def)
  next
    case None
    obtain r d p2 where call: "deduplicated_call e (execute_chat_completion e q srv user) p1 = (r, d, p2)"
      by (metis surj_pair)
    have res: "handle_non_streaming_chat e hdrs q srv user p =
        finish_chat e hdrs q r d (if d then note_deduplication e q srv user p2 else p2)"
      using look None call by (simp add: handle_non_streaming_chat_def)
    show ?thesis
      using deduplicated_split [OF call]
    proof (elim disjE conjE)
      assume d: d and "po_balancer p2 = po_balancer p1"
      then have "shifted (\<lambda>_. 0) b (po_balancer (note_deduplication e q srv user p2))"
        using given p1 by (simp add: note_deduplication_def)
      with d show ?thesis
        unfolding res by (cases r) (simp_all add: finish_chat_def gives_back_def)
    next
      assume d: "\<not> d" and run: "execute_chat_completion e q srv user p1 = (r, p2)"
      show ?thesis
        unfolding res using d execute_effect [OF env _ _ run, of b] ok h p1 stranded_failure
        by (cases r) (auto simp: finish_chat_def gives_back_def)
    qed
  qed
qed

lemma balanced_chat_gives_back:
  assumes env: "env_ok e" and ok: "bal_ok (po_balancer p)"
  shows "gives_back (po_balancer p) (balanced_chat e hdrs q user p)"
proof -
  obtain r p1 where acq: "acquire e 0 (pe_start e) (route e (cq_model q) (prompt_text (cq_messages q)) user p) p = (r, p1)"
    by fastforce
  with acquire_effect [OF env ok acq] streaming_gives_back [of p1] non_streaming_gives_back [OF env, of p1]
  show ?thesis
    by (cases r) (auto simp: balanced_chat_def gives_back_def [of _ "(x, y)" for x y])
qed


text \<open>A handler that leaves the balancer alone, and the other handlers.\<close>

lemma gives_back_same:
  "bal_ok b \<Longrightarrow> po_balancer (snd res) = b \<Longrightarrow> gives_back b res"
  by (simp add: gives_back_def shifted_refl)

lemma chat_gives_back:
  assumes env: "env_ok e" and ok: "bal_ok (po_balancer p)"
  shows "gives_back (po_balancer p) (handle_chat_completions e r p)"
proof -
  obtain limit p1 where lim: "check_rate_limit e (extract_username r) p = (limit, p1)" by fastforce
  then have p1: "po_balancer p1 = po_balancer p"
    by (auto simp: check_rate_limit_def Let_def split: option.splits prod.splits res.splits if_splits)
  have ref: "po_balancer (snd (handle_referee_mode_chat e hdrs q rm user p1)) = po_balancer p" for hdrs q rm user
    by (auto simp: handle_referee_mode_chat_def referee_failed_def referee_succeeded_def p1 Let_def split: res.split prod.split)
  have bal: "gives_back (po_balancer p) (balanced_chat e hdrs q user p1)" for hdrs q user
    using balanced_chat_gives_back [OF env, of p1] ok p1 by simp
  show ?thesis
    unfolding handle_chat_completions_def Let_def lim
    by (auto simp: bal ok p1 ref intro!: gives_back_same split: sum.split option.split)
qed

lemma completions_give_back:
  assumes env: "env_ok e" and ok: "bal_ok (po_balancer p)"
  shows "gives_back (po_balancer p) (handle_completions e r p)"
proof (cases "ir_method r = ''POST''")
  case True
  show ?thesis
  proof (cases "pe_read_completion e (limited_body p r)")
    case (Inr q)
    obtain sel p1 where acq: "acquire e 0 (pe_start e) (route e (pq_model q)
        (case json_string (pq_prompt q) of Some t \<Rightarrow> t | None \<Rightarrow> []) (extract_username r) p) p = (sel, p1)"
      by fastforce
    note eff = acquire_effect [OF env ok acq]
    show ?thesis
    proof (cases sel)
      case (Ok srv)
      with eff have "shifted (\<lambda>_. 0) (po_balancer p)
          (release_server (pe_end e) (sv_name srv) (elapsed e) ok' (po_balancer p1))" for ok'
        using release_taken [of "po_balancer p1" "sv_name srv" "po_balancer p"] by simp
      with True Inr acq Ok show ?thesis
        by (auto simp: handle_completions_def gives_back_def completion_failed_def completion_succeeded_def
            Let_def split: res.split prod.split)
    qed (use True Inr acq eff in \<open>auto simp: handle_completions_def gives_back_def Let_def\<close>)
  qed (use True ok in \<open>simp add: handle_completions_def gives_back_same\<close>)
qed (use ok in \<open>simp add: handle_completions_def gives_back_same\<close>)

lemma embedding_call_gives_back:
  assumes ok: "bal_ok (po_balancer p)" and h: "shifted (taken (sv_name srv)) b (po_balancer p)"
  shows "gives_back b (embedding_call e q prov srv user p)"
proof -
  obtain r d p1 where call: "deduplicated_call e (embed e prov q) p = (r, d, p1)" by (metis surj_pair)
  then have "po_balancer p1 = po_balancer p"
    using deduplicated_split [OF call] by (auto simp: embed_def)
  with release_taken [OF ok h] call show ?thesis
    by (auto simp: embedding_call_def gives_back_def embedding_failed_def embedding_answered_def
        Let_def split: res.split)
qed

lemma embeddings_give_back:
  assumes env: "env_ok e" and ok: "bal_ok (po_balancer p)"
  shows "gives_back (po_balancer p) (handle_embeddings e r p)"
proof (cases "ir_method r = ''POST''")
  case True
  show ?thesis
  proof (cases "pe_read_embedding e (limited_body p r)")
    case (Inr q)
    obtain hit p1 where look: "lookup_cache e (embedding_key e q) p = (hit, p1)" by fastforce
    then have p1: "po_balancer p1 = po_balancer p" by (metis lookup_frames(1) snd_conv)
    obtain sel p2 where acq: "acquire e 0 (pe_start e) (route e (eq_model q) [] (extract_username r) p1) p1 = (sel, p2)"
      by fastforce
    have eff: "bal_ok (po_balancer p2) \<and> shifted (\<lambda>n. case sel of Ok srv \<Rightarrow> taken (sv_name srv) n | _ \<Rightarrow> 0)
        (po_balancer p) (po_balancer p2)"
      using acquire_effect [OF env _ acq] ok p1 by simp
    have miss: "gives_back (po_balancer p) (embedding_miss e q (extract_username r) p1)"
    proof (cases sel)
      case (Ok srv)
      with eff acq embedding_call_gives_back [of p2 srv "po_balancer p"]
        release_taken [of "po_balancer p2" "sv_name srv" "po_balancer p"] show ?thesis
        by (auto simp: embedding_miss_def Let_def gives_back_def [of _ "(x, y)" for x y])
    qed (use acq eff in \<open>simp_all add: embedding_miss_def gives_back_def\<close>)
    show ?thesis
      unfolding handle_embeddings_def Let_def using True Inr look miss p1 ok
      by (cases hit) (auto intro: gives_back_same)
  qed (use True ok in \<open>simp add: handle_embeddings_def gives_back_same\<close>)
qed (use ok in \<open>simp add: handle_embeddings_def gives_back_same\<close>)

lemma models_balancer: "po_balancer (snd (handle_models e r p)) = po_balancer p"
  by (simp add: handle_models_def split: res.split)

lemma dispatch_gives_back:
  assumes "env_ok e" and "bal_ok (po_balancer p)"
  shows "gives_back (po_balancer p) (dispatch e r p)"
proof -
  have "gives_back (po_balancer p) (handle_models e r p)" "gives_back (po_balancer p) (handle_health p)"
    "gives_back (po_balancer p) (handle_root r p)"
    using assms(2) by (simp_all add: gives_back_same models_balancer handle_health_def handle_root_def)
  then show ?thesis
    unfolding dispatch_def Let_def
    using chat_gives_back [OF assms] completions_give_back [OF assms] embeddings_give_back [OF assms]
    by (simp only: split: if_split) blast
qed

text \<open>
  C4: Every request gives back the connection it took: for any request to any endpoint,
  whatever the providers, the cache, the deduplication and the retries do with it, every
  server has as many connections after it as before, unless the handler panicked or a retry
  found no server.\<close>

theorem request_gives_connection_back:
  assumes env: "env_ok e" and ok: "bal_ok (po_balancer p)"
    and run: "proxy_serve e r p = (resp, p')"
    and no_panic: "resp \<noteq> aborted" and served: "\<not> stranded resp"
    and srv: "bl_servers (po_balancer p) name = Some k"
  shows "bl_servers (po_balancer p') name = Some k
     \<and> ss_connections (bl_heap (po_balancer p') ! k) = ss_connections (bl_heap (po_balancer p) ! k)"
proof -
  have "gives_back (po_balancer p) (dispatch e r (enter p))" "gives_back (po_balancer p) (dispatch e r p)"
    using dispatch_gives_back [OF env, of p] dispatch_gives_back [OF env, of "enter p"] ok by (simp_all add: enter_def)
  then have "shifted (\<lambda>_. 0) (po_balancer p) (po_balancer p')"
    using run no_panic served
    by (auto simp: proxy_serve_def track_active_requests_def leave_def gives_back_def split: if_splits prod.splits)
  then show ?thesis using srv ok by (simp add: shifted_def bal_ok_def)
qed


text \<open>A proxy in front of one Ollama server whose circuit breaker opens after one failure.\<close>

definition demo_proxy :: proxy where
  "demo_proxy = \<lparr>po_config = default_settings\<lparr>cf_request := \<lparr>request_timeout_ms = 60000, max_request_body_size = 64\<rparr>\<rparr>,
     po_storage = demo_store,
     po_balancer = load_loop [ollama_server] (new_balancer None (Some (new_manager 1 1 minute))),
     po_router = new_router, po_metrics = None, po_limiter = None,
     po_cache = new_cache default_cache_config, po_active = 0, po_log_queue = [], po_metric_log = []\<rparr>"

definition demo_env :: "transport \<Rightarrow> proxy_env" where
  "demo_env net = referee_env.extend demo_referee_env
     \<lparr>pe_request_id = ''id'', pe_start = 0, pe_attempt = (\<lambda>_. 1), pe_first = 1, pe_end = 2,
      pe_context = no_cancel, pe_network = (\<lambda>_. net), pe_intn = (\<lambda>_ _. 0), pe_compile = literal_compiler,
      pe_sha = (\<lambda>_. []), pe_gzip = Some, pe_gunzip = Some, pe_messages_json = (\<lambda>_. ''messages''),
      pe_chat_json = (\<lambda>_. ''{}''), pe_embedding_json = (\<lambda>_. ''[]''),
      pe_read_chat = (\<lambda>s. Inr (zero_chat_request\<lparr>cq_model := s, cq_messages := [text_message ''user'' ''why'']\<rparr>)),
      pe_read_completion = (\<lambda>s. Inr \<lparr>pq_model = s, pq_prompt = JStr ''why'', pq_max_tokens = None,
        pq_temperature = None, pq_top_p = None, pq_stop = [], pq_options = JNull\<rparr>), pe_read_embedding = (\<lambda>_. Inl ''no''), pe_flight = None,
      pe_broken = None, pe_clock = (\<lambda>_. 1), pe_flusher = True, pe_model_order = (\<lambda>ms. ms)\<rparr>"

definition post :: "string \<Rightarrow> api_request" where
  "post path = \<lparr>ir_method = ''POST'', ir_path = path, ir_authorization = [], ir_x_user = [], ir_body = ''llama''\<rparr>"

lemma demo_env_ok: "env_ok (demo_env net)"
  by (simp add: env_ok_def demo_env_def intn_law_def no_cancel_def referee_env.defs)

lemma demo_bal_ok: "bal_ok (po_balancer demo_proxy)"
proof -
  have "bal_inv (load_loop [ollama_server] (new_balancer None (Some (new_manager 1 1 minute))))"
    by (rule bal_inv_load_loop [OF bal_inv_empty]) (simp_all add: new_balancer_def)
  then show ?thesis
    by (simp add: bal_ok_def demo_proxy_def new_balancer_def Let_def new_state_def in64_def
        ollama_server_def keyed_server_def split: if_splits)
qed

lemma demo_serves: "(let resp = fst (proxy_serve (demo_env (\<lambda>_. Answer 200 ''yes'')) (post chat_endpoint) demo_proxy)
   in ar_status resp = 200 \<and> ar_body resp = PbBytes ''{}'')"
  by code_simp

theorem request_gives_connection_back_witness:
  "ss_connections (bl_heap (po_balancer (snd (proxy_serve (demo_env (\<lambda>_. Answer 200 ''yes'')) (post chat_endpoint) demo_proxy))) ! 0)
     = ss_connections (bl_heap (po_balancer demo_proxy) ! 0)"
proof -
  let ?r = "proxy_serve (demo_env (\<lambda>_. Answer 200 ''yes'')) (post chat_endpoint) demo_proxy"
  have "bl_servers (po_balancer demo_proxy) ''one'' = Some 0"
    by (simp add: demo_proxy_def new_balancer_def ollama_server_def keyed_server_def Let_def)
  moreover have "fst ?r \<noteq> aborted" "\<not> stranded (fst ?r)"
    using demo_serves by (auto simp: aborted_def Let_def)
  ultimately show ?thesis
    using request_gives_connection_back [OF demo_env_ok demo_bal_ok surjective_pairing [of ?r]] by blast
qed

text \<open>
  A retry that finds no server gives back a connection it does not hold: the closure has
  already released the failed server, and the end of the call releases it again. The server
  ends with one connection fewer than before the request (and with a second failure counted
  against it).\<close>

theorem stranded_retry_releases_twice:
  assumes env: "env_ok e" and ok: "bal_ok (po_balancer p)"
    and held: "shifted (taken (sv_name srv)) b (po_balancer p)"
    and retries: "0 < max_retries (cf_failover (po_config p))"
    and ctx: "ctx_before (pe_context e) 0 = None" "ctx_sleeping (pe_context e) 0 = None"
      "ctx_before (pe_context e) 1 = None"
    and busy: "chat_completion (pe_network e 0) (re_codec e) (pe_attempt e 0)
        (new_provider srv (get_model_timeout (cq_model q) (po_config p))) q = Err (ProviderError code t m c)"
      "provider_retryable code"
    and p1: "p1 = release (pe_attempt e 1) (sv_name srv) (time_sub (pe_attempt e 1) (pe_start e)) False p"
    and none: "fst (acquire e 1 (pe_attempt e 1) (route e (cq_model q) (prompt_text (cq_messages q)) user p1) p1)
        = Err ErrNoServersAvailable"
  shows "fst (execute_chat_completion e q srv user p) = Err no_retry_server
     \<and> shifted (\<lambda>n. - taken (sv_name srv) n) b (po_balancer (snd (execute_chat_completion e q srv user p)))"
proof -
  let ?cfg = "chat_retry_config (po_config p)" and ?fn = "chat_attempt e q user" and ?now = "pe_attempt e 1"
  let ?s = "\<lparr>at_proxy = p, at_server = srv, at_count = 0\<rparr>"
  let ?hg = "route e (cq_model q) (prompt_text (cq_messages q)) user p1"
  obtain b' where pick: "select_server (pe_intn e 1) ?now ?hg (po_balancer p1) = (Err ErrNoServersAvailable, b')"
    and sel: "acquire e 1 ?now ?hg p1 = (Err ErrNoServersAvailable, p1\<lparr>po_balancer := b'\<rparr>)"
    using none acquire_split [of e 1 ?now ?hg p1] by (cases "acquire e 1 ?now ?hg p1") auto
  let ?t = "\<lparr>at_proxy = p1\<lparr>po_balancer := b'\<rparr>, at_server = srv, at_count = 2\<rparr>"
  have first: "?fn 0 ?s = (Inl (RetryableError (ProviderError code t m c) True), ?s\<lparr>at_count := 1\<rparr>)"
    using busy by (simp add: chat_attempt_def call_provider_def provider_retry_def new_retryable_error_def)
  have second: "?fn 1 (?s\<lparr>at_count := 1\<rparr>) = (Inl no_retry_server, ?t)"
    using sel p1 by (simp add: chat_attempt_def no_retry_server_def new_retryable_error_def Let_def)
  have do: "retry_do ?cfg (pe_context e) ?fn ?s
      = (\<lparr>rs_value = None, rs_attempts = 2, rs_err = Some no_retry_server\<rparr>, ?t)"
    using retries ctx first second
    by (simp add: retry_do_def retry_loop.simps [of _ _ _ 0] retry_loop.simps [of _ _ _ "Suc 0"]
        zero_result_def chat_retry_config_def)
  have rel: "bal_ok (po_balancer p1)" "shifted (\<lambda>_. 0) b (po_balancer p1)"
    using release_taken [OF ok held] p1 by simp_all
  have "bal_ok b' \<and> shifted (\<lambda>_. 0) (po_balancer p1) b'"
    using select_shifted [OF rel(1) _ pick] env by (simp add: env_ok_def)
  then have "bal_ok b'" "shifted (\<lambda>_. 0) b b'" using shifted_trans [OF rel(2)] by auto
  then have "shifted (\<lambda>n. - taken (sv_name srv) n) b (po_balancer (release (pe_end e) (sv_name srv) (elapsed e) False (p1\<lparr>po_balancer := b'\<rparr>)))"
    using release_shifted [of b'] shifted_trans [of "\<lambda>_. 0" b b' "\<lambda>n. - taken (sv_name srv) n"]
    by simp
  with do show ?thesis
    by (simp add: execute_chat_completion_def release_last_def chat_failed_def)
qed


definition busy_network :: transport where
  "busy_network = (\<lambda>_. Answer 503 ''busy'')"

definition demo_chat :: chat_request where
  "demo_chat = zero_chat_request\<lparr>cq_model := ''llama'', cq_messages := [text_message ''user'' ''why'']\<rparr>"

definition demo_selected :: "(bal_error, server) res \<times> proxy" where
  "demo_selected = acquire (demo_env busy_network) 0 0 0 demo_proxy"

lemma demo_selected_server: "fst demo_selected = Ok ollama_server"
  by code_simp

lemma demo_busy: "chat_completion (pe_network (demo_env busy_network) 0) (re_codec (demo_env busy_network))
    (pe_attempt (demo_env busy_network) 0)
    (new_provider ollama_server (get_model_timeout (cq_model demo_chat) (po_config (snd demo_selected)))) demo_chat
  = Err (ProviderError 503 [] ''busy'' [])"
  by code_simp

lemma demo_stranded: "(let e = demo_env busy_network;
    p1 = release (pe_attempt e 1) (sv_name ollama_server) (time_sub (pe_attempt e 1) (pe_start e)) False (snd demo_selected)
  in fst (acquire e 1 (pe_attempt e 1) (route e (cq_model demo_chat) (prompt_text (cq_messages demo_chat)) ''u'' p1) p1)
    = Err ErrNoServersAvailable)"
  by code_simp

theorem stranded_retry_releases_twice_witness:
  "shifted (\<lambda>n. - taken (sv_name ollama_server) n) (po_balancer demo_proxy)
     (po_balancer (snd (execute_chat_completion (demo_env busy_network) demo_chat ollama_server ''u'' (snd demo_selected))))"
proof -
  have sel: "acquire (demo_env busy_network) 0 0 0 demo_proxy = (Ok ollama_server, snd demo_selected)"
    using demo_selected_server by (simp add: demo_selected_def prod_eq_iff)
  note eff = acquire_effect [OF demo_env_ok demo_bal_ok sel]
  have "0 < max_retries (cf_failover (po_config (snd demo_selected)))" by code_simp
  moreover have "ctx_before (pe_context (demo_env busy_network)) k = None"
    "ctx_sleeping (pe_context (demo_env busy_network)) k = None" for k
    by (simp_all add: demo_env_def no_cancel_def referee_env.defs)
  moreover have "provider_retryable 503" by (simp add: provider_retryable_def)
  ultimately show ?thesis
    using stranded_retry_releases_twice [OF demo_env_ok _ _ _ _ _ _ demo_busy, of "po_balancer demo_proxy" _ "''u''"]
      eff demo_stranded
    by (simp add: Let_def)
qed

subsection \<open>Failing providers\<close>

lemma reply_body [simp]: "ar_body (reply hdrs code body) = body" "ar_status (reply hdrs code body) = code"
  by (simp_all add: reply_def)

lemma write_error_body [simp]:
  "ar_body (write_error hdrs code t m) = PbError t m" "ar_status (write_error hdrs code t m) = code"
  by (simp_all add: write_error_def)

lemma streaming_error_status:
  "chat_completion_stream (pe_network e 0) (re_codec e) (pe_broken e) (pe_clock e) prov q = Err err \<Longrightarrow>
   ar_status (fst (handle_streaming_chat e hdrs q prov srv user p)) = error_status err"
  by (simp add: handle_streaming_chat_def provider_failed_def)

text \<open>Whatever makes an execution fail, the error that is left is none with a status of its own.\<close>

lemma attempt_error_status:
  "chat_attempt e q user k s = (Inl err, s') \<Longrightarrow> error_status err = 500"
  by (auto simp: chat_attempt_def call_provider_def error_status_def provider_retry_def new_retryable_error_def Let_def
      split: if_splits res.splits prod.splits)

interpretation failing: attempts "chat_attempt e q user" "\<lambda>_. env_ok e" "\<lambda>_ _. True"
    "\<lambda>err _. error_status err = 500" "pe_context e" for e q user
proof
  fix s k err assume "env_ok e" "ctx_before (pe_context e) k = Some err \<or> ctx_sleeping (pe_context e) k = Some err"
  then show "error_status err = 500" by (fastforce simp: env_ok_def)
qed (auto dest: attempt_error_status)

lemma execute_error_status:
  assumes "env_ok e" and "fst (execute_chat_completion e q srv user p) = Err err"
  shows "error_status err = 500"
proof -
  let ?s = "\<lparr>at_proxy = p, at_server = srv, at_count = 0\<rparr>"
  obtain rr s where do: "retry_do (chat_retry_config (po_config p)) (pe_context e) (chat_attempt e q user) ?s = (rr, s)"
    by fastforce
  from failing.run [OF assms(1) do] assms(2) do show ?thesis
    by (auto simp: settled_def execute_chat_completion_def Let_def split: res.splits)
qed

text \<open>
  What a request may get from another one's flight: the result of an execution, of some
  request in some state (which is what the theory Dedup shows of its callers).
\<close>

definition joins_execution :: "'z proxy_env_scheme \<Rightarrow> bool" where
  "joins_execution e \<longleftrightarrow> (\<forall>bytes err. pe_flight e = Some (bytes, Some err) \<longrightarrow>
     (\<exists>(e' :: proxy_env) q srv user p. env_ok e' \<and> fst (execute_chat_completion e' q srv user p) = Err err))"

lemma non_streaming_error_status:
  assumes env: "env_ok e" and joins: "joins_execution e"
    and res: "ar_body (fst (handle_non_streaming_chat e hdrs q srv user p)) = PbError ''provider_error'' m"
  shows "ar_status (fst (handle_non_streaming_chat e hdrs q srv user p)) = 500"
proof -
  obtain hit p1 where look: "(if cacheable q then lookup_cache e (chat_key e q) p else (None, p)) = (hit, p1)"
    by fastforce
  obtain r d p2 where call: "deduplicated_call e (execute_chat_completion e q srv user) p1 = (r, d, p2)"
    by (metis prod_cases3)
  have "error_status err = 500" if "r = Err err" for err
  proof (cases d)
    case True
    with call that obtain bytes where "pe_flight e = Some (bytes, Some err)"
      by (auto simp: deduplicated_call_def split: if_splits option.splits prod.splits)
    with joins show ?thesis unfolding joins_execution_def using execute_error_status by blast
  next
    case False
    with deduplicated_split [OF call] that have "fst (execute_chat_completion e q srv user p1) = Err err" by simp
    with env show ?thesis by (rule execute_error_status)
  qed
  then show ?thesis
    using res look call
    by (cases hit; cases r)
      (auto simp: handle_non_streaming_chat_def serve_hit_def finish_chat_def provider_failed_def aborted_def)
qed

text \<open>
  C40: A chat that is not streamed never reports a provider's own status: whatever status
  the provider failed with, 401 or 429 as much as 503, the client gets 500, for the error of
  the retry loop is always a \<open>RetryableError\<close> (or the end of the request's context) and the
  handler looks for a bare \<open>ProviderError\<close>. That holds for a request that calls its provider and
  for one that joins the flight of another, whose result is that of such an execution.\<close>

theorem non_streaming_errors_are_500:
  assumes "env_ok e" and "joins_execution e" and "\<not> cq_stream q"
    and "balanced_chat e hdrs q user p = (resp, p')" and "ar_body resp = PbError ''provider_error'' m"
  shows "ar_status resp = 500"
proof -
  obtain r p1 where acq: "acquire e 0 (pe_start e) (route e (cq_model q) (prompt_text (cq_messages q)) user p) p = (r, p1)"
    by fastforce
  with assms(3-5) non_streaming_error_status [OF assms(1,2)]
  show ?thesis by (cases r) (auto simp: balanced_chat_def aborted_def no_servers_def, metis fst_conv)
qed

text \<open>A request whose provider refuses its key, and one that joins its flight.\<close>

definition demo_follower :: proxy_env where
  "demo_follower = (demo_env (\<lambda>_. Answer 200 ''yes''))
     \<lparr>pe_flight := Some ([], Some (RetryableError (ProviderError 401 [] ''who'' []) False))\<rparr>"

lemma demo_refused:
  "fst (execute_chat_completion (demo_env (\<lambda>_. Answer 401 ''who'')) demo_chat ollama_server ''u'' (snd demo_selected))
     = Err (RetryableError (ProviderError 401 [] ''who'' []) False)"
  "ar_body (fst (balanced_chat (demo_env (\<lambda>_. Answer 401 ''who'')) [] demo_chat ''u'' demo_proxy))
     = PbError ''provider_error'' ''provider error (status 401): who''"
  "ar_body (fst (balanced_chat demo_follower [] demo_chat ''v'' demo_proxy))
     = PbError ''provider_error'' ''provider error (status 401): who''"
  by code_simp+

theorem non_streaming_errors_are_500_witness:
  "ar_status (fst (balanced_chat (demo_env (\<lambda>_. Answer 401 ''who'')) [] demo_chat ''u'' demo_proxy)) = 500
   \<and> ar_status (fst (balanced_chat demo_follower [] demo_chat ''v'' demo_proxy)) = 500"
proof
  have stream: "\<not> cq_stream demo_chat" by (simp add: demo_chat_def zero_chat_request_def)
  have "joins_execution (demo_env (\<lambda>_. Answer 401 ''who''))"
    by (simp add: joins_execution_def demo_env_def referee_env.defs)
  from non_streaming_errors_are_500 [OF demo_env_ok this stream prod.collapse [symmetric] demo_refused(2)]
  show "ar_status (fst (balanced_chat (demo_env (\<lambda>_. Answer 401 ''who'')) [] demo_chat ''u'' demo_proxy)) = 500" .
  have "joins_execution demo_follower"
    unfolding joins_execution_def demo_follower_def
    using demo_env_ok [of "\<lambda>_. Answer 401 ''who''"] demo_refused(1) by simp blast
  moreover have "env_ok demo_follower" using demo_env_ok [of "\<lambda>_. Answer 200 ''yes''"] by (simp add: demo_follower_def env_ok_def)
  ultimately show "ar_status (fst (balanced_chat demo_follower [] demo_chat ''v'' demo_proxy)) = 500"
    using non_streaming_errors_are_500 [OF _ _ stream prod.collapse [symmetric] demo_refused(3)] by blast
qed

subsection \<open>Rate limits\<close>

text \<open>
  A request over its limit reaches nothing: it is answered 429 and only the limiter's own
  state changes; no server is selected, no provider called, nothing logged or cached.\<close>

lemma over_limit_request:
  assumes "ir_method r = ''POST''" and "po_limiter p = Some l"
    and "limiter_allow (pe_start e) (extract_username r) (po_storage p) l = (Ok v, l')" and "\<not> lr_allowed v"
  shows "ar_status (fst (handle_chat_completions e r p)) = 429
     \<and> snd (handle_chat_completions e r p) = p\<lparr>po_limiter := Some l'\<rparr>"
  using assms by (simp add: handle_chat_completions_def check_rate_limit_def Let_def)

subsection \<open>Cached answers\<close>

lemma lookup_cache_eq: "po_cache (snd (lookup_cache e key p)) = snd (cache_get (pe_gunzip e) (pe_start e) key (po_cache p))"
  "fst (lookup_cache e key p) = fst (cache_get (pe_gunzip e) (pe_start e) key (po_cache p))"
  by (simp_all add: lookup_cache_def split: prod.split)


text \<open>What a freshly computed answer leaves in the cache.\<close>

lemma miss_stores_answer:
  assumes env: "env_ok e" and ok: "bal_ok (po_balancer p)" and inv: "cache_inv (po_cache p)"
    and h: "shifted (taken (sv_name srv)) b (po_balancer p)" and c: "cacheable q"
    and run: "handle_non_streaming_chat e hdrs q srv user p
        = (reply (hdrs @ cache_headers e ''MISS'') 200 (PbBytes v), p')"
  obtains c0 where "cache_inv c0" and "ca_cfg c0 = ca_cfg (po_cache p)"
    and "po_cache p' = cache_set (pe_gzip e) (pe_end e) (chat_key e q) v (cq_model q) chat_endpoint c0"
proof -
  obtain hit p1 where look: "lookup_cache e (chat_key e q) p = (hit, p1)" by fastforce
  have p1: "po_balancer p1 = po_balancer p" using lookup_frames(1) [of e "chat_key e q" p] look by simp
  have c1: "cache_inv (po_cache p1)" "ca_cfg (po_cache p1) = ca_cfg (po_cache p)"
    using cache_keeps(1) [OF inv] lookup_cache_eq(1) [of e "chat_key e q" p] look by auto
  have none: "hit = None"
    using run look c by (auto simp: handle_non_streaming_chat_def serve_hit_def reply_def cache_headers_def
        split: option.splits prod.splits)
  obtain r d p2 where call: "deduplicated_call e (execute_chat_completion e q srv user) p1 = (r, d, p2)"
    by (metis surj_pair)
  have d: "\<not> d" and r: "r = Ok v" and p': "p' = store_answer e (chat_key e q) v (cq_model q) chat_endpoint p2"
    using run look c none call
    by (auto simp: handle_non_streaming_chat_def finish_chat_def provider_failed_def write_error_def reply_def
        aborted_def cache_headers_def split: res.splits if_splits)
  then have "execute_chat_completion e q srv user p1 = (Ok v, p2)" using deduplicated_split [OF call] by simp
  from execute_effect [OF env _ _ this, of b] ok h p1 have "po_cache p2 = po_cache p1" by simp
  with that [OF c1] p' show ?thesis by (simp add: store_answer_def)
qed

text \<open>
  C11: A deterministic chat is answered once: after a computed answer that caching stores
  (it is enabled, and the answer within the maximal item size), any request with the same
  model, messages, temperature and limit of tokens, by any user and up to the expiry of the
  entry, gets exactly the same bytes from the cache and its provider is not asked (whatever
  \<open>pe_network\<close> would answer), in any later state of the proxy in which caching is enabled and
  that entry is still there: not evicted, removed or overwritten, whatever else the cache
  holds by then. The other options of a request, such as \<open>top_p\<close>, \<open>stop\<close> and the tools, are
  not compared.\<close>

theorem deterministic_answer_is_reused:
  assumes env: "env_ok e" and ok: "bal_ok (po_balancer p)" and inv: "cache_inv (po_cache p)"
    and held: "shifted (taken (sv_name srv)) b (po_balancer p)"
    and law: "gzip_law (pe_gzip e) (pe_gunzip e')"
    and on: "cc_enabled (ca_cfg (po_cache p))" and size: "int (length v) \<le> cc_max_item_size (ca_cfg (po_cache p))"
    and first: "handle_non_streaming_chat e hdrs q srv user p
        = (reply (hdrs @ cache_headers e ''MISS'') 200 (PbBytes v), p')" and c: "cacheable q"
    and same: "cq_model q' = cq_model q" "cq_messages q' = cq_messages q"
      "cq_temperature q' = cq_temperature q" "cq_max_tokens q' = cq_max_tokens q"
      "pe_sha e' = pe_sha e" "pe_messages_json e' = pe_messages_json e"
    and later: "cache_inv (po_cache p'')" "cc_enabled (ca_cfg (po_cache p''))"
    and kept: "stored_for (chat_key e q) (po_cache p'') = stored_for (chat_key e q) (po_cache p')"
    and alive: "pe_start e' \<le> pe_end e + get_ttl (ca_cfg (po_cache p)) (cq_model q) chat_endpoint"
  shows "fst (handle_non_streaming_chat e' hdrs' q' srv' user' p'')
    = reply (hdrs' @ cache_headers e' ''HIT'') 200 (PbBytes v)"
proof -
  obtain c0 where c0: "cache_inv c0" "ca_cfg c0 = ca_cfg (po_cache p)"
    and p': "po_cache p' = cache_set (pe_gzip e) (pe_end e) (chat_key e q) v (cq_model q) chat_endpoint c0"
    by (rule miss_stores_answer [OF env ok inv held c first])
  have key: "chat_key e' q' = chat_key e q" and "cacheable q'"
    using same c by (simp_all add: chat_key_def cacheable_def)
  obtain w z where "stored_for (chat_key e q) (po_cache p'')
      = Some (w, z, pe_end e + get_ttl (ca_cfg (po_cache p)) (cq_model q) chat_endpoint)"
    and "if z then pe_gzip e v = Some w else w = v"
    using stored_after_set [OF c0(1), of v "chat_key e q" "pe_gzip e" "pe_end e" "cq_model q" chat_endpoint 0] on size c0(2)
    unfolding kept p' cache_set_def by auto
  with law alive later have "fst (cache_get (pe_gunzip e') (pe_start e') (chat_key e q) (po_cache p'')) = Some v"
    by (intro cache_get_stored) (auto simp: gzip_law_def)
  then have "fst (lookup_cache e' (chat_key e' q') p'') = Some v" by (simp add: lookup_cache_eq key)
  with \<open>cacheable q'\<close> show ?thesis
    by (cases "lookup_cache e' (chat_key e' q') p''") (simp add: handle_non_streaming_chat_def serve_hit_def)
qed

lemma demo_env_fields [simp]:
  "pe_gzip (demo_env net) = Some" "pe_gunzip (demo_env net) = Some" "pe_start (demo_env net) = 0"
  "pe_end (demo_env net) = 2" "pe_sha (demo_env net) = (\<lambda>_. [])"
  "pe_messages_json (demo_env net) = (\<lambda>_. ''messages'')"
  by (simp_all add: demo_env_def referee_env.defs)

text \<open>The state in which the answer is found again: another one was stored after it.\<close>

definition demo_later :: "proxy \<Rightarrow> proxy" where
  "demo_later p = p\<lparr>po_cache := cache_set Some 3 ''other'' ''{\"x\":1}'' ''llama'' chat_endpoint (po_cache p)\<rparr>"

lemma demo_still_stored:
  "(let e = demo_env (\<lambda>_. Answer 200 ''yes'');
        p = snd (handle_non_streaming_chat e [] demo_chat ollama_server ''u'' (snd demo_selected))
    in stored_for (chat_key e demo_chat) (po_cache (demo_later p)) = stored_for (chat_key e demo_chat) (po_cache p)
       \<and> stored_for ''other'' (po_cache (demo_later p)) \<noteq> None \<and> cc_enabled (ca_cfg (po_cache (demo_later p))))"
  by code_simp

theorem deterministic_answer_is_reused_witness:
  "ar_body (fst (handle_non_streaming_chat (demo_env busy_network) [] (demo_chat\<lparr>cq_top_p := Some (1 / 2)\<rparr>)
      ollama_server ''other'' (demo_later (snd (handle_non_streaming_chat (demo_env (\<lambda>_. Answer 200 ''yes'')) [] demo_chat
        ollama_server ''u'' (snd demo_selected)))))) = PbBytes ''{}''"
proof -
  let ?e = "demo_env (\<lambda>_. Answer 200 ''yes'')" and ?p = "snd demo_selected"
  let ?r = "handle_non_streaming_chat ?e [] demo_chat ollama_server ''u'' ?p"
  have sel: "acquire (demo_env busy_network) 0 0 0 demo_proxy = (Ok ollama_server, ?p)"
    using demo_selected_server by (simp add: demo_selected_def prod_eq_iff)
  note eff = acquire_effect [OF demo_env_ok demo_bal_ok sel]
  have held: "bal_ok (po_balancer ?p)" "shifted (taken (sv_name ollama_server)) (po_balancer demo_proxy) (po_balancer ?p)"
    using eff by simp_all
  have cache: "po_cache ?p = new_cache default_cache_config" using eff by (simp add: demo_proxy_def)
  have inv: "cache_inv (po_cache ?p)" unfolding cache by (rule cache_inv_new) (simp add: default_cache_config_def)
  have cfg: "ca_cfg (po_cache ?p) = default_cache_config"
    unfolding cache by (simp add: new_cache_def default_cache_config_def)
  have c: "cacheable demo_chat" by (simp add: cacheable_def demo_chat_def zero_chat_request_def)
  have "fst ?r = reply ([] @ cache_headers ?e ''MISS'') 200 (PbBytes ''{}'')" by code_simp
  then have r: "?r = (reply ([] @ cache_headers ?e ''MISS'') 200 (PbBytes ''{}''), snd ?r)" by (simp add: prod_eq_iff)
  have ttl: "get_ttl default_cache_config (cq_model demo_chat) chat_endpoint = 5 * minute" by code_simp
  obtain c0 where "cache_inv c0" "po_cache (snd ?r)
      = cache_set (pe_gzip ?e) (pe_end ?e) (chat_key ?e demo_chat) ''{}'' (cq_model demo_chat) chat_endpoint c0"
    by (rule miss_stores_answer [OF demo_env_ok held(1) inv held(2) c r])
  then have later: "cache_inv (po_cache (demo_later (snd ?r)))"
    unfolding demo_later_def cache_set_def by (simp add: cache_keeps)
  have "fst (handle_non_streaming_chat (demo_env busy_network) [] (demo_chat\<lparr>cq_top_p := Some (1 / 2)\<rparr>)
      ollama_server ''other'' (demo_later (snd ?r))) = reply ([] @ cache_headers (demo_env busy_network) ''HIT'') 200 (PbBytes ''{}'')"
  proof (rule deterministic_answer_is_reused [OF demo_env_ok held(1) inv held(2) _ _ _ r c])
    show "pe_start (demo_env busy_network) \<le> pe_end ?e + get_ttl (ca_cfg (po_cache ?p)) (cq_model demo_chat) chat_endpoint"
      using ttl by (simp add: cfg minute_def)
    show "stored_for (chat_key ?e demo_chat) (po_cache (demo_later (snd ?r))) = stored_for (chat_key ?e demo_chat) (po_cache (snd ?r))"
      "cc_enabled (ca_cfg (po_cache (demo_later (snd ?r))))"
      using demo_still_stored by (simp_all add: Let_def)
  qed (simp_all add: later cfg gzip_law_def default_cache_config_def)
  then show ?thesis by simp
qed

subsection \<open>Streams\<close>

text \<open>An event as JSON encoders write it: one line that fits the reader's buffer.\<close>

definition clean_data :: "string \<Rightarrow> bool" where
  "clean_data d \<longleftrightarrow> char_of (10 :: nat) \<notin> set d \<and> (d \<noteq> [] \<longrightarrow> last d \<noteq> char_of (13 :: nat))
     \<and> length d + 6 \<le> max_line \<and> d \<noteq> ''[DONE]''"

lemma line_chars: "(char_of (10 :: nat) :: char) = CHR 0x0A" "(char_of (13 :: nat) :: char) = CHR 0x0D"
  by code_simp+

abbreviation frame_lines :: "string list \<Rightarrow> string list" where
  "frame_lines ds \<equiv> concat (map (\<lambda>d. [''data: '' @ d, []]) ds)"

lemma relay_data: "relay (map EvData ds @ EvDone # rest) = (concat (map sse_frame (ds @ [''[DONE]''])), None)"
  by (induction ds) simp_all

lemma split_on_append: "c \<notin> set s \<Longrightarrow> split_on c (s @ c # rest) = s # split_on c rest"
  by (induction s) auto

lemma split_frames_before:
  "(\<And>d. d \<in> set ds \<Longrightarrow> char_of (10 :: nat) \<notin> set d) \<Longrightarrow>
   split_on (char_of (10 :: nat)) (concat (map sse_frame ds) @ rest) = frame_lines ds @ split_on (char_of (10 :: nat)) rest"
proof (induction ds)
  case (Cons d ds)
  have "char_of (10 :: nat) \<notin> set (''data: '' @ d)" using Cons.prems [of d] by (simp add: line_chars)
  moreover have "concat (map sse_frame (d # ds)) @ rest = (''data: '' @ d) @ char_of (10 :: nat) #
      ([] @ char_of (10 :: nat) # (concat (map sse_frame ds) @ rest))"
    by (simp add: sse_frame_def nl_def)
  moreover have "split_on (char_of (10 :: nat)) (concat (map sse_frame ds) @ rest)
      = frame_lines ds @ split_on (char_of (10 :: nat)) rest"
    using Cons by simp
  ultimately show ?case by (simp only: split_on_append list.set empty_iff not_False_eq_True) simp
qed simp

lemma split_frames:
  "(\<And>d. d \<in> set ds \<Longrightarrow> char_of (10 :: nat) \<notin> set d) \<Longrightarrow>
   split_on (char_of (10 :: nat)) (concat (map sse_frame ds)) = frame_lines ds @ [[]]"
  using split_frames_before [of ds "[]"] by simp

lemma frame_lines_fit:
  assumes "\<And>d. d \<in> set ds \<Longrightarrow> clean_data d \<or> d = ''[DONE]''"
  shows "\<forall>l \<in> set (frame_lines ds). length l \<le> max_line \<and> drop_cr l = l"
  using assms by (fastforce simp: clean_data_def max_line_def drop_cr_def line_chars)

lemma scan_frames:
  assumes "\<And>d. d \<in> set ds \<Longrightarrow> clean_data d \<or> d = ''[DONE]''"
  shows "scan_lines broken (concat (map sse_frame ds)) = (frame_lines ds, broken)"
proof -
  have "split_on (char_of (10 :: nat)) (concat (map sse_frame ds)) = frame_lines ds @ [[]]"
    using assms by (intro split_frames) (fastforce simp: clean_data_def line_chars)
  then have ls: "body_lines (concat (map sse_frame ds)) = frame_lines ds" by (simp add: body_lines_def)
  have "\<forall>l \<in> set (frame_lines ds). length l \<le> max_line \<and> drop_cr l = l"
    using assms by (rule frame_lines_fit)
  then have "takeWhile (\<lambda>l. length l \<le> max_line) (frame_lines ds) = frame_lines ds"
    and "map drop_cr (frame_lines ds) = frame_lines ds"
    by (simp add: takeWhile_eq_all_conv, intro map_idI) blast
  then show ?thesis unfolding scan_lines_def Let_def ls by (simp only: less_irrefl if_False)
qed

lemma split_on_nonempty: "split_on c s \<noteq> []"
  by (induction s) (auto split: list.split)

text \<open>A line that does not fit the reader's buffer ends the scan there, with an error.\<close>

lemma scan_long_line:
  assumes clean: "\<And>d. d \<in> set ds \<Longrightarrow> clean_data d"
    and long: "char_of (10 :: nat) \<notin> set d" "max_line < length d + 6"
  shows "scan_lines broken (concat (map sse_frame (ds @ d # rest))) = (frame_lines ds, Some ''bufio.Scanner: token too long'')"
proof -
  let ?c = "char_of (10 :: nat) :: char"
  let ?r = "?c # concat (map sse_frame rest)"
  have "?c \<notin> set (''data: '' @ d)" using long(1) by (simp add: line_chars)
  moreover have "concat (map sse_frame (ds @ d # rest)) = concat (map sse_frame ds) @ ((''data: '' @ d) @ ?c # ?r)"
    by (simp add: sse_frame_def nl_def)
  moreover have "split_on ?c (concat (map sse_frame ds) @ u) = frame_lines ds @ split_on ?c u" for u
    using clean by (intro split_frames_before) (simp add: clean_data_def)
  ultimately have split: "split_on ?c (concat (map sse_frame (ds @ d # rest)))
      = frame_lines ds @ (''data: '' @ d) # split_on ?c ?r"
    using split_on_append [of ?c "''data: '' @ d" ?r] by (simp only: not_False_eq_True)
  have "body_lines (concat (map sse_frame (ds @ d # rest))) = frame_lines ds @ (''data: '' @ d) #
      (if last (split_on ?c ?r) = [] then butlast (split_on ?c ?r) else split_on ?c ?r)"
    unfolding body_lines_def Let_def split using split_on_nonempty [of ?c ?r]
    by (simp add: butlast_append del: split_on.simps)
  then obtain ls where ls: "body_lines (concat (map sse_frame (ds @ d # rest))) = frame_lines ds @ (''data: '' @ d) # ls"
    by blast
  have fit: "\<forall>l \<in> set (frame_lines ds). length l \<le> max_line \<and> drop_cr l = l"
    using clean by (intro frame_lines_fit) blast
  then have "takeWhile (\<lambda>l. length l \<le> max_line) (frame_lines ds @ (''data: '' @ d) # ls) = frame_lines ds"
    using long(2) by (subst takeWhile_append2) auto
  moreover have "map drop_cr (frame_lines ds) = frame_lines ds" using fit by (intro map_idI) blast
  ultimately show ?thesis unfolding scan_lines_def Let_def ls by simp
qed

lemma read_frames_then:
  "(\<And>d. d \<in> set ds \<Longrightarrow> d \<noteq> ''[DONE]'') \<Longrightarrow> read_sse err (frame_lines ds) = map EvData ds @ scan_error err"
  by (induction ds) (simp_all add: trim_prefix_def)

lemma read_frames:
  "(\<And>d. d \<in> set ds \<Longrightarrow> d \<noteq> ''[DONE]'') \<Longrightarrow>
   read_sse err (frame_lines ds @ frame_lines [''[DONE]'']) = map EvData ds @ [EvDone]"
  by (induction ds) (simp_all add: trim_prefix_def)

text \<open>
  C19: A relayed stream reads back as it was, up to the length of a line. When a provider's
  events are data lines followed by \<open>Done\<close>, each one line without a trailing carriage return,
  not \<open>[DONE]\<close> itself and with its prefix \<open>data: \<close> at most 65535 bytes long, what the proxy
  writes to its client is read by an OpenAI client of the same kind (the adapter of this
  program, so one proxy can stand in front of another) as exactly the same events, none lost,
  split or merged. A longer line is written all the same, but ends that reader's stream:
  it gets the events before it and then the error \<open>token too long\<close>.\<close>

theorem relayed_stream_reads_back:
  assumes "\<forall>d \<in> set ds. clean_data d"
  shows "(let (text, err) = relay (map EvData ds @ [EvDone]); (ls, broken) = scan_lines None text in
     err = None \<and> read_sse broken ls = map EvData ds @ [EvDone])
   \<and> (\<forall>d rest. char_of (10 :: nat) \<notin> set d \<and> max_line < length d + 6 \<longrightarrow>
       (let (text, err) = relay (map EvData (ds @ d # rest) @ [EvDone]); (ls, broken) = scan_lines None text in
        err = None \<and> read_sse broken ls = map EvData ds @ [EvError ''bufio.Scanner: token too long'']))"
proof (intro conjI allI impI)
  have "scan_lines None (concat (map sse_frame (ds @ [''[DONE]'']))) = (frame_lines (ds @ [''[DONE]'']), None)"
    using assms by (intro scan_frames) auto
  then show "let (text, err) = relay (map EvData ds @ [EvDone]); (ls, broken) = scan_lines None text in
     err = None \<and> read_sse broken ls = map EvData ds @ [EvDone]"
    using read_frames [of ds None] assms by (auto simp: relay_data clean_data_def Let_def)
  fix d rest
  assume long: "char_of (10 :: nat) \<notin> set d \<and> max_line < length d + 6"
  have "scan_lines None (concat (map sse_frame (ds @ d # (rest @ [''[DONE]'']))))
      = (frame_lines ds, Some ''bufio.Scanner: token too long'')"
    using assms long by (intro scan_long_line) auto
  moreover have "relay (map EvData (ds @ d # rest) @ [EvDone])
      = (concat (map sse_frame (ds @ d # (rest @ [''[DONE]'']))), None)"
    using relay_data [of "ds @ d # rest" "[]"] by simp
  moreover have "read_sse (Some ''bufio.Scanner: token too long'') (frame_lines ds)
      = map EvData ds @ [EvError ''bufio.Scanner: token too long'']"
    using read_frames_then [of ds] assms by (simp add: clean_data_def scan_error_def)
  ultimately show "let (text, err) = relay (map EvData (ds @ d # rest) @ [EvDone]); (ls, broken) = scan_lines None text in
      err = None \<and> read_sse broken ls = map EvData ds @ [EvError ''bufio.Scanner: token too long'']"
    by simp
qed

theorem relayed_stream_reads_back_witness:
  "(let (text, err) = relay [EvData ''{\"x\":1}'', EvData ''{}'', EvDone]; (ls, broken) = scan_lines None text in
     err = None \<and> read_sse broken ls = [EvData ''{\"x\":1}'', EvData ''{}'', EvDone])
   \<and> (let (text, err) = relay [EvData ''{\"x\":1}'', EvData (replicate 65530 CHR ''x''), EvData ''{}'', EvDone];
          (ls, broken) = scan_lines None text in
     err = None \<and> read_sse broken ls = [EvData ''{\"x\":1}'', EvError ''bufio.Scanner: token too long''])"
proof
  have clean: "clean_data ''{\"x\":1}''" "clean_data ''{}''"
    by (simp_all add: clean_data_def max_line_def line_chars)
  then show "let (text, err) = relay [EvData ''{\"x\":1}'', EvData ''{}'', EvDone]; (ls, broken) = scan_lines None text in
     err = None \<and> read_sse broken ls = [EvData ''{\"x\":1}'', EvData ''{}'', EvDone]"
    using relayed_stream_reads_back [of "[''{\"x\":1}'', ''{}'']"] by simp
  let ?d = "replicate 65530 CHR ''x''"
  have long: "char_of (10 :: nat) \<notin> set ?d" "max_line < length ?d + 6"
    by (simp_all add: max_line_def line_chars)
  have "\<forall>d \<in> set [''{\"x\":1}'']. clean_data d" using clean by simp
  note both = relayed_stream_reads_back [OF this, THEN conjunct2, rule_format, of ?d "[''{}'']"]
  show "let (text, err) = relay [EvData ''{\"x\":1}'', EvData ?d, EvData ''{}'', EvDone];
          (ls, broken) = scan_lines None text in
     err = None \<and> read_sse broken ls = [EvData ''{\"x\":1}'', EvError ''bufio.Scanner: token too long'']"
    using both [OF conjI [OF long]] by (simp only: append.simps list.map)
qed

end
