(* ===== verification/AdminHttp.thy ===== *)
theory AdminHttp
  imports Admin
begin

section \<open>The admin HTTP interface (internal/admin/admin.go)\<close>

text \<open>
  One function per HTTP handler, from the request and the state of the \<open>Admin\<close> value to the
  response and the new state; the routing table of \<open>Handler\<close> with its guarded and its
  public endpoints; and what an anonymous caller can do. Bodies are the Go values that the
  handlers encode as JSON; decoding a request body is a parameter. The scripts
  of the HTML pages are in \<open>Panel\<close> and \<open>Monitoring\<close>, the encoding of the bodies in \<open>AdminJson\<close>; the
  CORS and security headers are not part of the model.
\<close>

subsection \<open>Replies and decoders\<close>

datatype reply =
    RpError string
  | RpStorageError string db_error
  | RpServers "(server \<times> bool \<times> (i64 \<times> duration) option) list"
  | RpServer server
  | RpUsers "user list"
  | RpUser user
  | RpRules "routing_rule list"
  | RpRule routing_rule
  | RpHostgroups "(hostgroup \<times> nat) list"
  | RpHostgroup hostgroup
  | RpVariables "(string \<times> string) list"
  | RpStats balancer_stats
  | RpServerStats "server_stat list"
  | RpLogs "request_log list"
  | RpHealth "string \<Rightarrow> status option"
  | RpCache bool stats_view
  | RpStatus "(string \<times> string) list"
  | RpPage string
  | RpFile string string

record http_world = world +
  hw_bcrypt_ok :: bcrypt_ok
  hw_random :: "string option"
  hw_server :: "string \<Rightarrow> server option"
  hw_user :: "string \<Rightarrow> user option"
  hw_rule :: "string \<Rightarrow> routing_rule option"
  hw_hostgroup :: "string \<Rightarrow> hostgroup option"
  hw_variable :: "string \<Rightarrow> (string \<times> string) option"
  hw_enabled :: "string \<Rightarrow> bool option"
  hw_credentials :: "string \<Rightarrow> (string \<times> string) option"

type_synonym http_result = "reply web_response \<times> admin"

definition write_error :: "int \<Rightarrow> string \<Rightarrow> reply web_response" where
  "write_error code message = respond code (Some (RpError message))"

definition write_json :: "reply \<Rightarrow> reply web_response" where
  "write_json v = respond 200 (Some v)"

abbreviation method_not_allowed :: "reply web_response" where
  "method_not_allowed \<equiv> respond 405 None"

text \<open>
  A failed storage call answers 500 with the error's text; a panic is recovered by
  \<open>net/http\<close>, which drops the connection (status 0).
\<close>

definition failed :: "string \<Rightarrow> (db_error, 'a) res \<Rightarrow> reply web_response" where
  "failed prefix r = (case r of Err e \<Rightarrow> respond 500 (Some (RpStorageError prefix e))
     | Panic m \<Rightarrow> respond 0 None | Ok _ \<Rightarrow> respond 200 None)"

definition read_reply :: "(db_error, 'a) res \<Rightarrow> ('a \<Rightarrow> reply web_response) \<Rightarrow> reply web_response" where
  "read_reply r f = (case r of Ok v \<Rightarrow> f v | _ \<Rightarrow> failed [] r)"

text \<open>A storage call that changes the tables, and the reply to its success.\<close>

definition write_reply :: "(db_error, 'a) res \<times> storage \<Rightarrow> ('a \<Rightarrow> reply web_response) \<Rightarrow> admin \<Rightarrow> http_result" where
  "write_reply p f ad = (case p of (r, st) \<Rightarrow> (read_reply r f, ad\<lparr>ad_storage := st\<rparr>))"

subsection \<open>Pages\<close>

definition content_type_of :: "string \<Rightarrow> string" where
  "content_type_of path =
     (if has_suffix path ''.png'' then ''image/png''
      else if has_suffix path ''.jpg'' \<or> has_suffix path ''.jpeg'' then ''image/jpeg''
      else if has_suffix path ''.svg'' then ''image/svg+xml''
      else if has_suffix path ''.css'' then ''text/css''
      else if has_suffix path ''.js'' then ''application/javascript'' else [])"

definition handle_static :: "web_request \<Rightarrow> admin \<Rightarrow> http_result" where
  "handle_static r ad =
     (let path = trim_prefix (hr_path r) ''/static/'' in
      if str_contains path ''..'' then (respond 404 None, ad)
      else (write_json (RpFile (''web/static/'' @ path) (content_type_of path)), ad))"

definition handle_root :: "web_request \<Rightarrow> admin \<Rightarrow> http_result" where
  "handle_root r ad =
     (if hr_method r = ''OPTIONS'' then (respond 200 None, ad)
      else if has_prefix (hr_path r) ''/api/'' then (write_error 404 ''Endpoint not found'', ad)
      else if hr_path r = ''/'' then (redirect ''/monitoring'', ad)
      else (write_error 404 ''Not found'', ad))"

definition handle_monitoring :: "admin \<Rightarrow> http_result" where
  "handle_monitoring ad = (write_json (RpPage ''monitoring''), ad)"

definition handle_admin_panel :: "'z http_world_scheme \<Rightarrow> web_request \<Rightarrow> admin \<Rightarrow> http_result" where
  "handle_admin_panel w r ad =
     (if has_prefix (hr_path r) ''/admin/login'' \<or> has_prefix (hr_path r) ''/admin/logout''
      then (respond 200 None, ad)
      else case get_session_from_request (wo_now w) r (ad_sessions ad) of
          (None, sm) \<Rightarrow> (redirect ''/admin/login'', ad\<lparr>ad_sessions := sm\<rparr>)
        | (Some _, sm) \<Rightarrow> (write_json (RpPage ''admin''), ad\<lparr>ad_sessions := sm\<rparr>))"

subsection \<open>Login and logout\<close>

definition is_json :: "web_request \<Rightarrow> bool" where
  "is_json r \<longleftrightarrow> str_contains (hr_content_type r) ''application/json''"

text \<open>The credentials of a login: from the JSON body or from the form.\<close>

definition login_credentials :: "'z http_world_scheme \<Rightarrow> web_request \<Rightarrow> (string, string \<times> string) res" where
  "login_credentials w r =
     (if is_json r then
        (case hw_credentials w (hr_body r) of None \<Rightarrow> Err ''Invalid request body'' | Some c \<Rightarrow> Ok c)
      else (case hr_form r of None \<Rightarrow> Err ''Invalid form data''
        | Some f \<Rightarrow> Ok (f ''username'', f ''password'')))"

definition post_login :: "'z http_world_scheme \<Rightarrow> web_request \<Rightarrow> admin \<Rightarrow> http_result" where
  "post_login w r ad =
     (case login_credentials w r of
        Ok (username, password) \<Rightarrow>
          if \<not> authenticate (hw_bcrypt_ok w) (ad_auth ad) username password
          then ((if is_json r then write_error 401 ''Invalid credentials''
                 else redirect ''/admin/login?error=invalid''), ad)
          else (case create_session (hw_random w) (wo_now w) username (ad_sessions ad) of
              (Ok s, sm) \<Rightarrow>
                ((if is_json r then write_json (RpStatus [(''status'', ''ok'')]) else redirect ''/admin'')
                   \<lparr>rs_cookie := Some (session_cookie s sm)\<rparr>, ad\<lparr>ad_sessions := sm\<rparr>)
            | (_, sm) \<Rightarrow> (write_error 500 ''Failed to create session'', ad\<lparr>ad_sessions := sm\<rparr>))
      | Err m \<Rightarrow> (write_error 400 m, ad)
      | Panic m \<Rightarrow> (respond 0 None, ad))"

definition handle_login :: "'z http_world_scheme \<Rightarrow> web_request \<Rightarrow> admin \<Rightarrow> http_result" where
  "handle_login w r ad =
     (if hr_method r = ''GET'' then
        (case get_session_from_request (wo_now w) r (ad_sessions ad) of
           (Some _, sm) \<Rightarrow> (redirect ''/admin'', ad\<lparr>ad_sessions := sm\<rparr>)
         | (None, sm) \<Rightarrow> (write_json (RpPage ''login''), ad\<lparr>ad_sessions := sm\<rparr>))
      else if hr_method r = ''POST'' then post_login w r ad
      else (method_not_allowed, ad))"

definition handle_logout :: "'z http_world_scheme \<Rightarrow> web_request \<Rightarrow> admin \<Rightarrow> http_result" where
  "handle_logout w r ad =
     (let (s, sm) = get_session_from_request (wo_now w) r (ad_sessions ad);
          sm = (case s of Some s \<Rightarrow> delete_session (se_id s) sm | None \<Rightarrow> sm)
      in ((redirect ''/admin/login'')\<lparr>rs_cookie := Some (cleared_cookie sm)\<rparr>, ad\<lparr>ad_sessions := sm\<rparr>))"

subsection \<open>Servers\<close>

definition server_info :: "admin \<Rightarrow> server \<Rightarrow> server \<times> bool \<times> (i64 \<times> duration) option" where
  "server_info ad s = (s, is_healthy (sv_name s) (ad_health ad),
     (case get_server_state (sv_name s) (ad_balancer ad) of
        Ok state \<Rightarrow> Some (ss_connections state, ss_avg_latency state) | _ \<Rightarrow> None))"

text \<open>The defaults of a posted server.\<close>

definition fill_server :: "server \<Rightarrow> server" where
  "fill_server s = s\<lparr>
     sv_provider_type := (if sv_provider_type s = [] then ''openai'' else sv_provider_type s),
     sv_weight := (if sv_weight s = 0 then 1 else sv_weight s),
     sv_max_connections := (if sv_max_connections s = 0 then 100 else sv_max_connections s),
     sv_status := (if sv_status s = [] then status_online else sv_status s)\<rparr>"

definition handle_servers :: "'z http_world_scheme \<Rightarrow> web_request \<Rightarrow> admin \<Rightarrow> http_result" where
  "handle_servers w r ad =
     (if hr_method r = ''GET'' then
        (read_reply (get_servers None (ad_storage ad))
           (\<lambda>ss. write_json (RpServers (map (server_info ad) ss))), ad)
      else if hr_method r = ''POST'' then
        (case hw_server w (hr_body r) of
           None \<Rightarrow> (write_error 400 ''Invalid request body'', ad)
         | Some srv \<Rightarrow>
             if sv_name srv = [] then (write_error 400 ''Server name is required'', ad)
             else if sv_endpoint srv = [] then (write_error 400 ''Endpoint is required'', ad)
             else write_reply (insert_server (wo_seal w) (wo_nonce w) (wo_now w) (fill_server srv) (ad_storage ad))
               (\<lambda>s. respond 201 (Some (RpServer s))) ad)
      else (method_not_allowed, ad))"

definition handle_server_by_name :: "'z http_world_scheme \<Rightarrow> web_request \<Rightarrow> admin \<Rightarrow> http_result" where
  "handle_server_by_name w r ad =
     (let name = trim_prefix (hr_path r) ''/api/servers/'' in
      if hr_method r = ''GET'' then
        (read_reply (get_server_by_name name (ad_storage ad))
           (\<lambda>s. case s of None \<Rightarrow> write_error 404 ''Server not found'' | Some s \<Rightarrow> write_json (RpServer s)), ad)
      else if hr_method r = ''PUT'' then
        (case hw_server w (hr_body r) of
           None \<Rightarrow> (write_error 400 ''Invalid request body'', ad)
         | Some srv \<Rightarrow>
             let srv = srv\<lparr>sv_name := name\<rparr> in
             write_reply (update_server (wo_seal w) (wo_nonce w) (wo_now w) srv (ad_storage ad))
               (\<lambda>_. write_json (RpServer srv)) ad)
      else if hr_method r = ''DELETE'' then
        write_reply (delete_server name (ad_storage ad)) (\<lambda>_. respond 204 None) ad
      else (method_not_allowed, ad))"

subsection \<open>Users\<close>

definition fill_user :: "user \<Rightarrow> user" where
  "fill_user u = u\<lparr>
     us_max_requests_per_minute := (if us_max_requests_per_minute u = 0 then 1000 else us_max_requests_per_minute u),
     us_max_tokens_per_minute := (if us_max_tokens_per_minute u = 0 then 100000 else us_max_tokens_per_minute u),
     us_active := True\<rparr>"

definition handle_users :: "'z http_world_scheme \<Rightarrow> web_request \<Rightarrow> admin \<Rightarrow> http_result" where
  "handle_users w r ad =
     (if hr_method r = ''GET'' then
        (read_reply (get_users (ad_storage ad)) (\<lambda>us. write_json (RpUsers us)), ad)
      else if hr_method r = ''POST'' then
        (case hw_user w (hr_body r) of
           None \<Rightarrow> (write_error 400 ''Invalid request body'', ad)
         | Some u \<Rightarrow>
             if us_username u = [] then (write_error 400 ''Username is required'', ad)
             else write_reply (insert_user (wo_now w) (fill_user u) (ad_storage ad))
               (\<lambda>u. respond 201 (Some (RpUser u))) ad)
      else (method_not_allowed, ad))"

definition handle_user_by_name :: "'z http_world_scheme \<Rightarrow> web_request \<Rightarrow> admin \<Rightarrow> http_result" where
  "handle_user_by_name w r ad =
     (let username = trim_prefix (hr_path r) ''/api/users/'' in
      if hr_method r = ''GET'' then
        (read_reply (get_user_by_username username (ad_storage ad))
           (\<lambda>u. case u of None \<Rightarrow> write_error 404 ''User not found'' | Some u \<Rightarrow> write_json (RpUser u)), ad)
      else if hr_method r = ''PUT'' then
        (case hw_user w (hr_body r) of
           None \<Rightarrow> (write_error 400 ''Invalid request body'', ad)
         | Some u \<Rightarrow>
             let u = u\<lparr>us_username := username\<rparr> in
             write_reply (update_user (wo_now w) u (ad_storage ad)) (\<lambda>_. write_json (RpUser u)) ad)
      else if hr_method r = ''DELETE'' then
        write_reply (delete_user username (ad_storage ad)) (\<lambda>_. respond 204 None) ad
      else (method_not_allowed, ad))"

subsection \<open>Rules, hostgroups and variables\<close>

definition handle_rules :: "'z http_world_scheme \<Rightarrow> web_request \<Rightarrow> admin \<Rightarrow> http_result" where
  "handle_rules w r ad =
     (if hr_method r = ''GET'' then
        (read_reply (get_routing_rules (ad_storage ad)) (\<lambda>rs. write_json (RpRules rs)), ad)
      else if hr_method r = ''POST'' then
        (case hw_rule w (hr_body r) of
           None \<Rightarrow> (write_error 400 ''Invalid request body'', ad)
         | Some rule \<Rightarrow>
             write_reply (insert_routing_rule (wo_now w) (rule\<lparr>rr_active := True\<rparr>) (ad_storage ad))
               (\<lambda>x. respond 201 (Some (RpRule x))) ad)
      else if hr_method r = ''DELETE'' then
        (if hr_query r ''rule_id'' = [] then (write_error 400 ''rule_id is required'', ad)
         else case atoi (hr_query r ''rule_id'') of
             None \<Rightarrow> (write_error 400 ''Invalid rule_id'', ad)
           | Some k \<Rightarrow> write_reply (delete_routing_rule k (ad_storage ad)) (\<lambda>_. respond 204 None) ad)
      else (method_not_allowed, ad))"

definition handle_hostgroups :: "'z http_world_scheme \<Rightarrow> web_request \<Rightarrow> admin \<Rightarrow> http_result" where
  "handle_hostgroups w r ad =
     (if hr_method r = ''GET'' then
        (read_reply (get_hostgroups (ad_storage ad)) (\<lambda>hs. write_json (RpHostgroups
           (map (\<lambda>h. (h, length (get_hostgroup_servers (hg_group_id h) (ad_balancer ad)))) hs))), ad)
      else if hr_method r = ''POST'' then
        (case hw_hostgroup w (hr_body r) of
           None \<Rightarrow> (write_error 400 ''Invalid request body'', ad)
         | Some h \<Rightarrow> write_reply (insert_hostgroup h (ad_storage ad))
             (\<lambda>h. respond 201 (Some (RpHostgroup h))) ad)
      else (method_not_allowed, ad))"

definition handle_variables :: "'z http_world_scheme \<Rightarrow> web_request \<Rightarrow> admin \<Rightarrow> http_result" where
  "handle_variables w r ad =
     (if hr_method r = ''GET'' then
        (write_json (RpVariables (get_all_config_variables (ad_config ad))), ad)
      else if hr_method r = ''PUT'' then
        (case hw_variable w (hr_body r) of
           None \<Rightarrow> (write_error 400 ''Invalid request body'', ad)
         | Some (name, val) \<Rightarrow>
             (case config_set name val (ad_config ad) of
                Inl e \<Rightarrow> (write_error 400 e, ad)
              | Inr c \<Rightarrow> (write_json (RpStatus [(''status'', ''ok'')]), ad\<lparr>ad_config := c\<rparr>)))
      else (method_not_allowed, ad))"

subsection \<open>Statistics, health and reload\<close>

definition handle_stats :: "'z http_world_scheme \<Rightarrow> admin \<Rightarrow> http_result" where
  "handle_stats w ad =
     (write_json (RpStats (balancer_stats_of (wo_server_names w) (ad_balancer ad))), ad)"

definition handle_server_stats :: "'z http_world_scheme \<Rightarrow> admin \<Rightarrow> http_result" where
  "handle_server_stats w ad =
     (read_reply (get_server_stats (wo_recent w) (ad_storage ad)) (\<lambda>s. write_json (RpServerStats s)), ad)"

definition handle_request_stats :: "web_request \<Rightarrow> admin \<Rightarrow> http_result" where
  "handle_request_stats r ad =
     (let limit = (case atoi (hr_query r ''limit'') of
            Some l \<Rightarrow> if 0 < l then l else 100 | None \<Rightarrow> 100)
      in (read_reply (get_recent_logs limit (ad_storage ad)) (\<lambda>l. write_json (RpLogs l)), ad))"

definition handle_health_status :: "admin \<Rightarrow> http_result" where
  "handle_health_status ad = (write_json (RpHealth (get_all_status (ad_health ad))), ad)"

definition handle_reload :: "'z http_world_scheme \<Rightarrow> web_request \<Rightarrow> admin \<Rightarrow> http_result" where
  "handle_reload w r ad =
     (if hr_method r \<noteq> ''POST'' then (method_not_allowed, ad)
      else case load_servers (wo_unseal w) (ad_storage ad) (ad_balancer ad) of
          (Ok _, b) \<Rightarrow>
            let ad = ad\<lparr>ad_balancer := b\<rparr> in
            (case load_rules (wo_compile w) (wo_slice w) (ad_storage ad) (ad_router ad) of
               (Ok _, rt) \<Rightarrow> (write_json (RpStatus [(''status'', ''reloaded'')]), ad\<lparr>ad_router := rt\<rparr>)
             | (e, rt) \<Rightarrow> (failed ''Failed to reload rules: '' e, ad\<lparr>ad_router := rt\<rparr>))
        | (e, b) \<Rightarrow> (failed ''Failed to reload servers: '' e, ad\<lparr>ad_balancer := b\<rparr>))"

subsection \<open>The cache\<close>

definition handle_cache :: "'z http_world_scheme \<Rightarrow> web_request \<Rightarrow> admin \<Rightarrow> http_result" where
  "handle_cache w r ad = (case ad_cache ad of
       None \<Rightarrow> (write_error 503 ''Cache not initialized'', ad)
     | Some c \<Rightarrow>
         if hr_method r = ''GET'' then
           (write_json (RpCache (cache_is_enabled c) (cache_stats_of c)), ad)
         else if hr_method r = ''PUT'' \<or> hr_method r = ''POST'' then
           (case hw_enabled w (hr_body r) of
              None \<Rightarrow> (write_error 400 ''Invalid request body'', ad)
            | Some on \<Rightarrow>
                (write_json (RpStatus [(''status'', ''ok''),
                   (''cache'', if on then ''enabled'' else ''disabled'')]),
                 ad\<lparr>ad_cache := Some (cache_set_enabled on c)\<rparr>))
         else (method_not_allowed, ad))"

definition handle_cache_clear :: "web_request \<Rightarrow> admin \<Rightarrow> http_result" where
  "handle_cache_clear r ad =
     (if hr_method r \<noteq> ''POST'' then (method_not_allowed, ad)
      else case ad_cache ad of
          None \<Rightarrow> (write_error 503 ''Cache not initialized'', ad)
        | Some c \<Rightarrow> (write_json (RpStatus [(''status'', ''ok''), (''message'', ''Cache cleared'')]),
            ad\<lparr>ad_cache := Some (cache_clear c)\<rparr>))"

subsection \<open>The routing table\<close>

datatype endpoint =
    EpStats | EpServerStats | EpRequestStats | EpHealth | EpCache
  | EpServers | EpServerByName | EpUsers | EpUserByName | EpRules | EpHostgroups
  | EpVariables | EpReload | EpCacheClear
  | EpLogin | EpLogout | EpStatic | EpMonitoring | EpAdminPanel | EpRoot

definition routes :: "(string \<times> endpoint) list" where
  "routes =
     [(''/api/stats'', EpStats), (''/api/stats/servers'', EpServerStats),
      (''/api/stats/requests'', EpRequestStats), (''/api/health'', EpHealth),
      (''/api/cache'', EpCache), (''/api/servers'', EpServers), (''/api/servers/'', EpServerByName),
      (''/api/users'', EpUsers), (''/api/users/'', EpUserByName), (''/api/rules'', EpRules),
      (''/api/routing-rules'', EpRules), (''/api/hostgroups'', EpHostgroups),
      (''/api/variables'', EpVariables), (''/api/reload'', EpReload),
      (''/api/cache/clear'', EpCacheClear), (''/admin/login'', EpLogin), (''/admin/logout'', EpLogout),
      (''/static/'', EpStatic), (''/monitoring'', EpMonitoring), (''/admin'', EpAdminPanel),
      (''/admin/'', EpAdminPanel), (''/'', EpRoot)]"

text \<open>
  \<open>http.ServeMux\<close>: a pattern that ends in a slash matches every path below it, another one
  only itself, and the longest pattern that matches wins. The mux redirects paths that are
  not clean before it dispatches; the paths here are the clean ones.
\<close>

definition pattern_matches :: "string \<Rightarrow> string \<Rightarrow> bool" where
  "pattern_matches path p \<longleftrightarrow> (if has_suffix p ''/'' then has_prefix path p else path = p)"

fun longest_match :: "string \<Rightarrow> (string \<times> 'e) list \<Rightarrow> (string \<times> 'e) option" where
  "longest_match path [] = None"
| "longest_match path ((p, e) # rs) = (case longest_match path rs of
       Some (q, f) \<Rightarrow> if pattern_matches path p \<and> length q < length p then Some (p, e) else Some (q, f)
     | None \<Rightarrow> if pattern_matches path p then Some (p, e) else None)"

definition find_route :: "string \<Rightarrow> endpoint option" where
  "find_route path = map_option snd (longest_match path routes)"

fun guarded :: "endpoint \<Rightarrow> bool" where
  "guarded EpServers = True"
| "guarded EpServerByName = True"
| "guarded EpUsers = True"
| "guarded EpUserByName = True"
| "guarded EpRules = True"
| "guarded EpHostgroups = True"
| "guarded EpVariables = True"
| "guarded EpReload = True"
| "guarded EpCacheClear = True"
| "guarded _ = False"

fun handler :: "endpoint \<Rightarrow> 'z http_world_scheme \<Rightarrow> web_request \<Rightarrow> admin \<Rightarrow> http_result" where
  "handler EpStats w r ad = handle_stats w ad"
| "handler EpServerStats w r ad = handle_server_stats w ad"
| "handler EpRequestStats w r ad = handle_request_stats r ad"
| "handler EpHealth w r ad = handle_health_status ad"
| "handler EpCache w r ad = handle_cache w r ad"
| "handler EpServers w r ad = handle_servers w r ad"
| "handler EpServerByName w r ad = handle_server_by_name w r ad"
| "handler EpUsers w r ad = handle_users w r ad"
| "handler EpUserByName w r ad = handle_user_by_name w r ad"
| "handler EpRules w r ad = handle_rules w r ad"
| "handler EpHostgroups w r ad = handle_hostgroups w r ad"
| "handler EpVariables w r ad = handle_variables w r ad"
| "handler EpReload w r ad = handle_reload w r ad"
| "handler EpCacheClear w r ad = handle_cache_clear r ad"
| "handler EpLogin w r ad = handle_login w r ad"
| "handler EpLogout w r ad = handle_logout w r ad"
| "handler EpStatic w r ad = handle_static r ad"
| "handler EpMonitoring w r ad = handle_monitoring ad"
| "handler EpAdminPanel w r ad = handle_admin_panel w r ad"
| "handler EpRoot w r ad = handle_root r ad"

definition unauthorized :: reply where
  "unauthorized = RpError ''Unauthorized. Please login at /admin/login''"

definition serve :: "'z http_world_scheme \<Rightarrow> web_request \<Rightarrow> admin \<Rightarrow> http_result" where
  "serve w r ad = (case find_route (hr_path r) of
       None \<Rightarrow> (respond 404 None, ad)
     | Some e \<Rightarrow>
         if guarded e
         then auth_api_middleware unauthorized (wo_now w) r (\<lambda>sm. ad\<lparr>ad_sessions := sm\<rparr>)
           (handler e w r) (ad_sessions ad)
         else handler e w r ad)"

subsection \<open>What an anonymous caller can do\<close>

lemma longest_match_sound:
  "longest_match path rs = Some (p, e) \<Longrightarrow> (p, e) \<in> set rs \<and> pattern_matches path p"
  by (induction rs arbitrary: p e rule: longest_match.induct) (auto split: option.splits if_splits)

lemma route_pattern:
  "find_route path = Some e \<Longrightarrow> \<exists>p. (p, e) \<in> set routes \<and> pattern_matches path p"
  by (auto simp: find_route_def dest: longest_match_sound)

lemma route_to_cache: "find_route path = Some EpCache \<Longrightarrow> path = ''/api/cache''"
proof -
  assume "find_route path = Some EpCache"
  then obtain p where "(p, EpCache) \<in> set routes" "pattern_matches path p" using route_pattern by blast
  moreover from this(1) have "p = ''/api/cache''" by (simp add: routes_def)
  ultimately show ?thesis by (simp add: pattern_matches_def has_suffix_def)
qed

lemma route_to_login: "find_route path = Some EpLogin \<Longrightarrow> path = ''/admin/login''"
proof -
  assume "find_route path = Some EpLogin"
  then obtain p where "(p, EpLogin) \<in> set routes" "pattern_matches path p" using route_pattern by blast
  moreover from this(1) have "p = ''/admin/login''" by (simp add: routes_def)
  ultimately show ?thesis by (simp add: pattern_matches_def has_suffix_def)
qed

text \<open>Everything in the state but the sessions and the cache.\<close>

definition core :: "admin \<Rightarrow> config \<times> storage \<times> balancer \<times> checker \<times> router \<times> authenticator" where
  "core ad = (ad_config ad, ad_storage ad, ad_balancer ad, ad_health ad, ad_router ad, ad_auth ad)"

lemma core_sessions [simp]: "core (ad\<lparr>ad_sessions := sm\<rparr>) = core ad"
  by (simp add: core_def)

lemma core_cache [simp]: "core (ad\<lparr>ad_cache := c\<rparr>) = core ad"
  by (simp add: core_def)

definition fewer_sessions :: "session_manager \<Rightarrow> session_manager \<Rightarrow> bool" where
  "fewer_sessions sm sm' \<longleftrightarrow> (\<forall>sid. sm_sessions sm' sid = None \<or> sm_sessions sm' sid = sm_sessions sm sid)"

lemma fewer_sessions_refl [simp]: "fewer_sessions sm sm"
  by (simp add: fewer_sessions_def)

lemma fewer_sessions_delete [simp]: "fewer_sessions sm (delete_session sid sm)"
  by (simp add: fewer_sessions_def delete_session_def)

lemma fewer_sessions_trans: "fewer_sessions a b \<Longrightarrow> fewer_sessions b c \<Longrightarrow> fewer_sessions a c"
  unfolding fewer_sessions_def by metis

lemma fewer_sessions_request: "fewer_sessions sm (snd (get_session_from_request now r sm))"
  by (simp add: get_session_from_request_def get_session_def split: option.splits)

lemmas page_defs = handle_static_def handle_root_def handle_monitoring_def handle_stats_def
  handle_server_stats_def handle_request_stats_def handle_health_status_def

lemma pages_read_only:
  "snd (handle_static r ad) = ad" "snd (handle_root r ad) = ad" "snd (handle_monitoring ad) = ad"
  "snd (handle_stats w ad) = ad" "snd (handle_server_stats w ad) = ad"
  "snd (handle_request_stats r ad) = ad" "snd (handle_health_status ad) = ad"
  by (simp_all add: page_defs Let_def)

lemma admin_panel_state:
  "snd (handle_admin_panel w r ad) = ad \<or> snd (handle_admin_panel w r ad) =
     ad\<lparr>ad_sessions := snd (get_session_from_request (wo_now w) r (ad_sessions ad))\<rparr>"
  by (simp add: handle_admin_panel_def split: prod.split option.split)

lemma logout_state:
  "core (snd (handle_logout w r ad)) = core ad \<and> ad_cache (snd (handle_logout w r ad)) = ad_cache ad
   \<and> fewer_sessions (ad_sessions ad) (ad_sessions (snd (handle_logout w r ad)))"
proof -
  obtain s sm where g: "get_session_from_request (wo_now w) r (ad_sessions ad) = (s, sm)" by fastforce
  then have f: "fewer_sessions (ad_sessions ad) sm"
    using fewer_sessions_request [of "ad_sessions ad" "wo_now w" r] by simp
  show ?thesis
  proof (cases s)
    case None
    then show ?thesis using f by (simp add: handle_logout_def g)
  next
    case (Some x)
    then show ?thesis using fewer_sessions_trans [OF f fewer_sessions_delete]
      by (simp add: handle_logout_def g Let_def)
  qed
qed

lemma login_state:
  "core (snd (handle_login w r ad)) = core ad \<and> ad_cache (snd (handle_login w r ad)) = ad_cache ad"
proof -
  have "core (snd (post_login w r ad)) = core ad \<and> ad_cache (snd (post_login w r ad)) = ad_cache ad"
    by (simp add: post_login_def split: prod.split res.split)
  then show ?thesis by (simp add: handle_login_def split: prod.split option.split)
qed

lemma cache_state: "snd (handle_cache w r ad) = ad \<or>
    (\<exists>b c. ad_cache ad = Some c \<and> snd (handle_cache w r ad) = ad\<lparr>ad_cache := Some (cache_set_enabled b c)\<rparr>)"
  by (auto simp: handle_cache_def split: option.splits)

lemma guarded_refused:
  assumes "find_route (hr_path r) = Some e" and "guarded e"
    and "fst (get_session_from_request (wo_now w) r (ad_sessions ad)) = None"
  shows "serve w r ad = (respond 401 (Some unauthorized),
    ad\<lparr>ad_sessions := snd (get_session_from_request (wo_now w) r (ad_sessions ad))\<rparr>)"
  using assms by (cases "get_session_from_request (wo_now w) r (ad_sessions ad)")
    (simp add: serve_def auth_api_middleware_def)

lemma public_handler_effect:
  assumes "\<not> guarded e"
  shows "core (snd (handler e w r ad)) = core ad
    \<and> (e \<noteq> EpCache \<longrightarrow> ad_cache (snd (handler e w r ad)) = ad_cache ad)
    \<and> (e \<noteq> EpLogin \<longrightarrow> fewer_sessions (ad_sessions ad) (ad_sessions (snd (handler e w r ad))))"
proof (cases e)
  case EpCache
  then show ?thesis using cache_state [of w r ad] by auto
next
  case EpLogin
  then show ?thesis using login_state [of w r ad] by auto
next
  case EpLogout
  then show ?thesis using logout_state [of w r ad] by auto
next
  case EpAdminPanel
  then show ?thesis using admin_panel_state [of w r ad]
    fewer_sessions_request [of "ad_sessions ad" "wo_now w" r] by auto
qed (use assms in \<open>simp_all add: pages_read_only\<close>)

text \<open>
  C14: What a caller without a live session can change. Whatever the request, the
  configuration, the tables, the balancer, the health table, the routing rules and the
  credentials stay as they are; no session appears except on the login page; and the cache
  changes only through \<open>/api/cache\<close>.
\<close>

theorem anonymous_request_effect:
  assumes "fst (get_session_from_request (wo_now w) r (ad_sessions ad)) = None"
  defines "ad' \<equiv> snd (serve w r ad)"
  shows "core ad' = core ad
    \<and> (hr_path r \<noteq> ''/api/cache'' \<longrightarrow> ad_cache ad' = ad_cache ad)
    \<and> (hr_path r \<noteq> ''/admin/login'' \<longrightarrow> fewer_sessions (ad_sessions ad) (ad_sessions ad'))"
proof (cases "find_route (hr_path r)")
  case None
  then show ?thesis by (simp add: ad'_def serve_def)
next
  case (Some e)
  show ?thesis
  proof (cases "guarded e")
    case True
    then show ?thesis unfolding ad'_def guarded_refused [OF Some True assms(1)]
      by (simp add: fewer_sessions_request)
  next
    case False
    then have "ad' = snd (handler e w r ad)" using Some by (simp add: ad'_def serve_def)
    moreover have "e \<noteq> EpCache" if "hr_path r \<noteq> ''/api/cache''" using Some route_to_cache that by auto
    moreover have "e \<noteq> EpLogin" if "hr_path r \<noteq> ''/admin/login''" using Some route_to_login that by auto
    ultimately show ?thesis using public_handler_effect [OF False, of w r ad] by simp
  qed
qed

definition demo_web :: http_world where
  "demo_web = \<lparr>wo_now = 0, wo_seal = (\<lambda>_ _ s. s), wo_nonce = None, wo_unseal = (\<lambda>_ _ s. Some s),
     wo_compile = literal_compiler, wo_slice = id, wo_server_names = [], wo_health_names = [],
     wo_variable_order = id, wo_recent = (\<lambda>_. True), wo_clock_text = (\<lambda>_. []),
     hw_bcrypt_ok = (\<lambda>h p. h = p), hw_random = Some ''random'', hw_server = (\<lambda>_. None),
     hw_user = (\<lambda>_. None), hw_rule = (\<lambda>_. None), hw_hostgroup = (\<lambda>_. None),
     hw_variable = (\<lambda>_. None), hw_enabled = (\<lambda>b. Some (b = ''on'')), hw_credentials = (\<lambda>_. None)\<rparr>"

lemma demo_anonymous:
  "fst (get_session_from_request now (demo_request path sid) (ad_sessions (demo_admin servers))) = None"
  by (simp add: get_session_from_request_def get_session_def demo_request_def demo_admin_def
    request_cookie_def new_session_manager_def)

theorem anonymous_request_effect_witness:
  "ad_storage (snd (serve demo_web ((demo_request ''/api/servers/prod'' ''x'')\<lparr>hr_method := ''DELETE''\<rparr>)
     (demo_admin [inserted_row ''prod'' [] [] [] 0 1])))
   = ad_storage (demo_admin [inserted_row ''prod'' [] [] [] 0 1])"
proof -
  let ?r = "(demo_request ''/api/servers/prod'' ''x'')\<lparr>hr_method := ''DELETE''\<rparr>"
  have "fst (get_session_from_request (wo_now demo_web) ?r
      (ad_sessions (demo_admin [inserted_row ''prod'' [] [] [] 0 1]))) = None"
    by (simp add: get_session_from_request_def get_session_def demo_request_def demo_admin_def
      request_cookie_def new_session_manager_def)
  from anonymous_request_effect [OF this] show ?thesis by (simp add: core_def)
qed

text \<open>
  The one hole in the guard: \<open>/api/cache\<close> is registered among the public monitoring
  endpoints although it also writes. Anyone can switch the response cache off (or on) with
  a PUT or POST, without a cookie.
\<close>

theorem anyone_can_disable_cache:
  assumes "ad_cache ad = Some c" and "hw_enabled w body = Some False"
  defines "r \<equiv> \<lparr>hr_method = ''PUT'', hr_path = ''/api/cache'', hr_content_type = [], hr_cookies = [],
    hr_query = (\<lambda>_. []), hr_form = None, hr_body = body\<rparr>"
  shows "rs_status (fst (serve w r ad)) = 200 \<and>
    snd (serve w r ad) = ad\<lparr>ad_cache := Some (cache_set_enabled False c)\<rparr>"
proof -
  have "find_route ''/api/cache'' = Some EpCache" by code_simp
  then show ?thesis using assms
    by (simp add: serve_def handle_cache_def write_json_def respond_def)
qed

theorem anyone_can_disable_cache_witness:
  "map_option cache_is_enabled (ad_cache (snd (serve demo_web
      \<lparr>hr_method = ''PUT'', hr_path = ''/api/cache'', hr_content_type = [], hr_cookies = [],
       hr_query = (\<lambda>_. []), hr_form = None, hr_body = ''off''\<rparr> (demo_admin [])))) = Some False"
  using anyone_can_disable_cache [of "demo_admin []" _ demo_web "''off''"]
  by (simp add: demo_admin_def demo_web_def cache_is_enabled_def cache_set_enabled_def)

subsection \<open>Login\<close>

lemma serve_guarded_with_session:
  assumes "find_route (hr_path r) = Some e" and "guarded e"
    and "get_session_from_request (wo_now w) r (ad_sessions ad) = (Some s, sm)"
  shows "serve w r ad = handler e w r ad"
proof -
  have "sm = ad_sessions ad" using request_session_Some [OF assms(3)] get_session_Some by blast
  with assms show ?thesis by (simp add: serve_def auth_api_middleware_def)
qed

text \<open>
  C16: Logging in. A POST with credentials that do not authenticate changes nothing and sets
  no cookie; with the right ones it sets a cookie that opens every guarded endpoint for 24
  hours, whose handlers then run as if there were no guard.
\<close>

theorem login_contract:
  assumes "hr_method r = ''POST''" and "login_credentials w r = Ok (u, p)" and "hw_random w = Some b"
    and "sm_ttl (ad_sessions ad) = 24 * hour"
  defines "reply \<equiv> fst (handle_login w r ad)" and "ad' \<equiv> snd (handle_login w r ad)"
  shows "if authenticate (hw_bcrypt_ok w) (ad_auth ad) u p
    then \<exists>ck. rs_cookie reply = Some ck \<and> (\<forall>r' w' e. find_route (hr_path r') = Some e \<and> guarded e \<and>
        request_cookie (ck_name ck) r' = Some (ck_value ck) \<and> wo_now w' \<le> wo_now w + 24 * hour
        \<longrightarrow> serve w' r' ad' = handler e w' r' ad')
    else ad' = ad \<and> rs_cookie reply = None"
proof (cases "authenticate (hw_bcrypt_ok w) (ad_auth ad) u p")
  case False
  then show ?thesis using assms(1,2)
    by (simp add: reply_def ad'_def handle_login_def post_login_def write_error_def respond_def redirect_def)
next
  case True
  obtain s sm where c: "create_session (Some b) (wo_now w) u (ad_sessions ad) = (Ok s, sm)"
    by (simp add: create_session_def Let_def)
  have ck: "rs_cookie reply = Some (session_cookie s sm)" and ad': "ad' = ad\<lparr>ad_sessions := sm\<rparr>"
    using True assms(1-3) c by (simp_all add: reply_def ad'_def handle_login_def post_login_def)
  have "serve w' r' ad' = handler e w' r' ad'"
    if "find_route (hr_path r') = Some e" "guarded e" "wo_now w' \<le> wo_now w + 24 * hour"
      and "request_cookie (ck_name (session_cookie s sm)) r' = Some (ck_value (session_cookie s sm))"
    for r' w' e
  proof (rule serve_guarded_with_session [OF that(1,2)])
    show "get_session_from_request (wo_now w') r' (ad_sessions ad') = (Some s, sm)"
      using that(3,4) c assms(4)
      by (auto simp: ad' create_session_def Let_def session_cookie_def get_session_from_request_def
        get_session_def time_after_def)
  qed
  with True ck show ?thesis by auto
qed

theorem login_contract_witness:
  "rs_cookie (fst (handle_login demo_web
      ((demo_request ''/admin/login'' [])\<lparr>hr_method := ''POST'',
        hr_form := Some (\<lambda>k. if k = ''username'' then ''admin'' else ''hash'')\<rparr>) (demo_admin []))) \<noteq> None"
proof -
  let ?r = "(demo_request ''/admin/login'' [])\<lparr>hr_method := ''POST'',
        hr_form := Some (\<lambda>k. if k = ''username'' then ''admin'' else ''hash'')\<rparr>"
  have "login_credentials demo_web ?r = Ok (''admin'', ''hash'')"
    by (simp add: login_credentials_def is_json_def demo_request_def str_contains_def)
  from login_contract [OF _ this, of "''random''" "demo_admin []"] show ?thesis
    by (auto simp: demo_request_def demo_web_def demo_admin_def new_session_manager_def
      authenticate_def split: if_splits)
qed

end
