(* ===== verification/Pool.thy ===== *)
theory Pool
  imports Prelude
begin

section \<open>HTTP client pool (internal/pool/pool.go)\<close>

text \<open>
  The pool that hands out one HTTP client per timeout, all on one transport. Clients are
  pointers, that is indices into \<open>pl_heap\<close>. \<open>GetClientWithTimeout\<close> takes a read lock, then a
  write lock; its callers are a step relation with one step per locked section. The map is
  keyed by \<open>timeout.String()\<close>, which is different for different durations, so by the
  duration itself.
\<close>

record pool_config =
  pc_max_idle_conns :: i64
  pc_max_idle_conns_per_host :: i64
  pc_max_conns_per_host :: i64
  pc_idle_conn_timeout :: duration
  pc_tls_handshake_timeout :: duration
  pc_response_timeout :: duration
  pc_keep_alive :: duration

definition default_pool_config :: pool_config where
  "default_pool_config = \<lparr>pc_max_idle_conns = 200, pc_max_idle_conns_per_host = 20,
     pc_max_conns_per_host = 100, pc_idle_conn_timeout = 90 * second,
     pc_tls_handshake_timeout = 10 * second, pc_response_timeout = 120 * second,
     pc_keep_alive = 30 * second\<rparr>"

text \<open>What the transport is built with; TLS below version 1.2 is refused.\<close>

record http_transport =
  ht_dial_timeout :: duration
  ht_keep_alive :: duration
  ht_max_idle_conns :: i64
  ht_max_idle_conns_per_host :: i64
  ht_max_conns_per_host :: i64
  ht_idle_conn_timeout :: duration
  ht_tls_handshake_timeout :: duration
  ht_expect_continue_timeout :: duration
  ht_min_tls :: string

record client =
  ct_transport :: http_transport
  ct_timeout :: duration

record pool =
  pl_cfg :: pool_config
  pl_client :: client
  pl_heap :: "client list"
  pl_clients :: "duration \<Rightarrow> nat option"

definition new_pool :: "pool_config \<Rightarrow> pool" where
  "new_pool cfg =
     \<lparr>pl_cfg = cfg,
      pl_client = \<lparr>ct_transport = \<lparr>ht_dial_timeout = 30 * second, ht_keep_alive = pc_keep_alive cfg,
          ht_max_idle_conns = pc_max_idle_conns cfg,
          ht_max_idle_conns_per_host = pc_max_idle_conns_per_host cfg,
          ht_max_conns_per_host = pc_max_conns_per_host cfg,
          ht_idle_conn_timeout = pc_idle_conn_timeout cfg,
          ht_tls_handshake_timeout = pc_tls_handshake_timeout cfg,
          ht_expect_continue_timeout = second, ht_min_tls = ''TLS12''\<rparr>,
        ct_timeout = pc_response_timeout cfg\<rparr>,
      pl_heap = [], pl_clients = (\<lambda>_. None)\<rparr>"

definition get_client :: "pool \<Rightarrow> client" where
  "get_client p = pl_client p"

text \<open>The read-locked part, and the part under the write lock with its second look.\<close>

definition look_up :: "duration \<Rightarrow> pool \<Rightarrow> nat option" where
  "look_up d p = pl_clients p d"

definition look_up_or_create :: "duration \<Rightarrow> pool \<Rightarrow> nat \<times> pool" where
  "look_up_or_create d p = (case pl_clients p d of
       Some i \<Rightarrow> (i, p)
     | None \<Rightarrow> (let i = length (pl_heap p) in
         (i, p\<lparr>pl_heap := pl_heap p @ [\<lparr>ct_transport = ct_transport (pl_client p), ct_timeout = d\<rparr>],
               pl_clients := (pl_clients p)(d := Some i)\<rparr>)))"

definition get_client_with_timeout :: "duration \<Rightarrow> pool \<Rightarrow> nat \<times> pool" where
  "get_client_with_timeout d p = (case look_up d p of Some i \<Rightarrow> (i, p) | None \<Rightarrow> look_up_or_create d p)"

record pool_stats =
  pst_max_idle_conns :: i64
  pst_max_idle_conns_per_host :: i64
  pst_max_conns_per_host :: i64
  pst_idle_conn_timeout :: duration

definition pool_stats_of :: "pool \<Rightarrow> pool_stats" where
  "pool_stats_of p = \<lparr>pst_max_idle_conns = pc_max_idle_conns (pl_cfg p),
     pst_max_idle_conns_per_host = pc_max_idle_conns_per_host (pl_cfg p),
     pst_max_conns_per_host = pc_max_conns_per_host (pl_cfg p),
     pst_idle_conn_timeout = pc_idle_conn_timeout (pl_cfg p)\<rparr>"

text \<open>The global pool: \<open>InitGlobalPool\<close> replaces it, a first use without it creates a default one.\<close>

definition init_global_pool :: "pool_config \<Rightarrow> pool option \<Rightarrow> pool option" where
  "init_global_pool cfg g = Some (new_pool cfg)"

definition global_pool :: "pool option \<Rightarrow> pool" where
  "global_pool g = (case g of Some p \<Rightarrow> p | None \<Rightarrow> new_pool default_pool_config)"

subsection \<open>Concurrent callers\<close>

text \<open>A caller that found nothing under the read lock still waits for the write lock.\<close>

datatype pool_caller = PcIdle | PcMissed duration | PcGot duration nat

record pool_state =
  ps_pool :: pool
  ps_callers :: "nat \<Rightarrow> pool_caller"

inductive pool_step :: "pool_state \<Rightarrow> pool_state \<Rightarrow> bool" where
  pool_hit: "ps_callers s c = PcIdle \<Longrightarrow> look_up d (ps_pool s) = Some i \<Longrightarrow>
    pool_step s (s\<lparr>ps_callers := (ps_callers s)(c := PcGot d i)\<rparr>)"
| pool_miss: "ps_callers s c = PcIdle \<Longrightarrow> look_up d (ps_pool s) = None \<Longrightarrow>
    pool_step s (s\<lparr>ps_callers := (ps_callers s)(c := PcMissed d)\<rparr>)"
| pool_create: "ps_callers s c = PcMissed d \<Longrightarrow> look_up_or_create d (ps_pool s) = (i, p) \<Longrightarrow>
    pool_step s (s\<lparr>ps_pool := p, ps_callers := (ps_callers s)(c := PcGot d i)\<rparr>)"

inductive pool_reach :: "pool_state \<Rightarrow> pool_state \<Rightarrow> bool" for s where
  pool_refl: "pool_reach s s"
| pool_more: "pool_reach s t \<Longrightarrow> pool_step t u \<Longrightarrow> pool_reach s u"

inductive_cases pool_stepE: "pool_step s t"

definition pool_inv :: "client \<Rightarrow> pool_state \<Rightarrow> bool" where
  "pool_inv base s \<longleftrightarrow> pl_client (ps_pool s) = base
     \<and> (\<forall>d i. pl_clients (ps_pool s) d = Some i \<longrightarrow> i < length (pl_heap (ps_pool s))
          \<and> pl_heap (ps_pool s) ! i = \<lparr>ct_transport = ct_transport base, ct_timeout = d\<rparr>)
     \<and> (\<forall>c d i. ps_callers s c = PcGot d i \<longrightarrow> pl_clients (ps_pool s) d = Some i)"

lemma look_up_or_create_keeps:
  assumes "look_up_or_create d p = (i, p')"
  shows "pl_clients p' d = Some i \<and> pl_client p' = pl_client p
     \<and> (\<forall>e j. pl_clients p e = Some j \<longrightarrow> pl_clients p' e = Some j)
     \<and> (\<forall>e j. pl_clients p' e = Some j \<longrightarrow> pl_clients p e = Some j
          \<or> e = d \<and> j = length (pl_heap p) \<and> pl_heap p' = pl_heap p @
              [\<lparr>ct_transport = ct_transport (pl_client p), ct_timeout = d\<rparr>])
     \<and> (\<forall>j < length (pl_heap p). pl_heap p' ! j = pl_heap p ! j) \<and> length (pl_heap p) \<le> length (pl_heap p')"
  using assms by (auto simp: look_up_or_create_def Let_def nth_append split: option.splits if_splits)

lemma pool_step_inv:
  assumes inv: "pool_inv base s" and "pool_step s t"
  shows "pool_inv base t"
  using assms(2)
proof cases
  case (pool_create c d i p)
  note keep = look_up_or_create_keeps [OF pool_create(3)]
  have "j < length (pl_heap p) \<and> pl_heap p ! j = \<lparr>ct_transport = ct_transport base, ct_timeout = e\<rparr>"
    if e: "pl_clients p e = Some j" for e j
  proof (cases "pl_clients (ps_pool s) e = Some j")
    case True
    with inv have "j < length (pl_heap (ps_pool s))"
      and "pl_heap (ps_pool s) ! j = \<lparr>ct_transport = ct_transport base, ct_timeout = e\<rparr>"
      unfolding pool_inv_def by blast+
    with keep show ?thesis by simp
  next
    case False
    with keep e have "e = d" "j = length (pl_heap (ps_pool s))"
      and "pl_heap p = pl_heap (ps_pool s) @ [\<lparr>ct_transport = ct_transport (pl_client (ps_pool s)), ct_timeout = d\<rparr>]"
      by blast+
    with inv show ?thesis by (simp add: pool_inv_def)
  qed
  moreover have "pl_clients p e = Some j" if "ps_callers t c' = PcGot e j" for c' e j
    using that pool_create(1) keep inv by (cases "c' = c") (auto simp: pool_inv_def)
  ultimately show ?thesis using inv keep pool_create(1) by (simp add: pool_inv_def)
qed (use inv in \<open>auto simp: pool_inv_def look_up_def split: if_splits\<close>)

lemma pool_reach_inv: "pool_reach s t \<Longrightarrow> pool_inv base s \<Longrightarrow> pool_inv base t"
  by (induction rule: pool_reach.induct) (auto intro: pool_step_inv)

text \<open>
  One client per timeout, however the callers of \<open>GetClientWithTimeout\<close> interleave: two
  that asked for the same timeout hold the same client, which has exactly that timeout and
  shares the transport of the pool.\<close>

theorem one_client_per_timeout:
  assumes "pool_reach \<lparr>ps_pool = new_pool cfg, ps_callers = (\<lambda>_. PcIdle)\<rparr> s"
    and "ps_callers s c = PcGot d i" and "ps_callers s c' = PcGot d j"
  shows "i = j \<and> i < length (pl_heap (ps_pool s)) \<and> ct_timeout (pl_heap (ps_pool s) ! i) = d
     \<and> ct_transport (pl_heap (ps_pool s) ! i) = ct_transport (get_client (new_pool cfg))"
proof -
  have "pool_inv (pl_client (new_pool cfg)) s"
    by (rule pool_reach_inv [OF assms(1)]) (simp add: pool_inv_def new_pool_def)
  with assms(2,3) have "pl_clients (ps_pool s) d = Some i" "pl_clients (ps_pool s) d = Some j"
    and "i < length (pl_heap (ps_pool s))"
    and "pl_heap (ps_pool s) ! i = \<lparr>ct_transport = ct_transport (pl_client (new_pool cfg)), ct_timeout = d\<rparr>"
    unfolding pool_inv_def by blast+
  then show ?thesis by (simp add: get_client_def)
qed

text \<open>Two callers that both miss before either creates the client.\<close>

theorem one_client_per_timeout_witness:
  "\<exists>(s :: pool_state) i. ps_callers s 0 = PcGot second i \<and> ps_callers s 1 = PcGot second i
     \<and> ct_timeout (pl_heap (ps_pool s) ! i) = second"
proof -
  let ?s0 = "\<lparr>ps_pool = new_pool default_pool_config, ps_callers = (\<lambda>_. PcIdle)\<rparr>"
  let ?s1 = "?s0\<lparr>ps_callers := (ps_callers ?s0)(0 := PcMissed second)\<rparr>"
  let ?s2 = "?s1\<lparr>ps_callers := (ps_callers ?s1)(1 := PcMissed second)\<rparr>"
  obtain i p where p: "look_up_or_create second (ps_pool ?s2) = (i, p)" by fastforce
  let ?s3 = "?s2\<lparr>ps_pool := p, ps_callers := (ps_callers ?s2)(0 := PcGot second i)\<rparr>"
  obtain j p' where p': "look_up_or_create second (ps_pool ?s3) = (j, p')" by fastforce
  let ?s4 = "?s3\<lparr>ps_pool := p', ps_callers := (ps_callers ?s3)(1 := PcGot second j)\<rparr>"
  have 1: "pool_step ?s0 ?s1" and 2: "pool_step ?s1 ?s2"
    by (rule pool_miss; simp add: look_up_def new_pool_def)+
  have 3: "pool_step ?s2 ?s3" by (rule pool_create [OF _ p]) simp
  have 4: "pool_step ?s3 ?s4" by (rule pool_create [OF _ p']) simp
  have reach: "pool_reach ?s0 ?s4"
    by (rule pool_more [OF pool_more [OF pool_more [OF pool_more [OF pool_refl 1] 2] 3] 4])
  have callers: "ps_callers ?s4 0 = PcGot second i" "ps_callers ?s4 1 = PcGot second j" by simp_all
  have "\<exists>(s :: pool_state) i. ps_callers s 0 = PcGot second i \<and> ps_callers s 1 = PcGot second i
      \<and> ct_timeout (pl_heap (ps_pool s) ! i) = second"
    if "pool_reach ?s0 s" "ps_callers s 0 = PcGot second i" "ps_callers s 1 = PcGot second j" for s i j
    using one_client_per_timeout [OF that] that by blast
  from this [OF reach callers] show ?thesis .
qed

end
