(* ===== verification/Frames.thy ===== *)
theory Frames
  imports ProxyFacts AdminHttp Pool
begin

section \<open>What the operations of the running program keep\<close>

text \<open>
  Two frames that the composition of the program rests on: what every request through the
  proxy keeps, proved once for any relation that the small steps of a request respect (the
  locale \<open>proxy_steps\<close>), and what every operation of the administrator keeps; between them
  what a reload of the servers does to the balancer.
\<close>

subsection \<open>Relations that every step of a request respects\<close>

text \<open>
  A reflexive and transitive relation between proxies that the small steps respect holds
  between the proxy before a request and after it, whichever way the request takes.
\<close>

locale proxy_steps =
  fixes R :: "proxy \<Rightarrow> proxy \<Rightarrow> bool" and e :: "'z proxy_env_scheme"
  assumes same: "R p p"
    and chain: "R p p' \<Longrightarrow> R p' p'' \<Longrightarrow> R p p''"
    and releases: "R p (release now name latency success p)"
    and acquires: "acquire e k now hg p = (sel, p') \<Longrightarrow> R p p'"
    and emits: "(\<And>c. list_all request_update (f c)) \<Longrightarrow> R p (emit f p)"
    and logs: "R p (log_request i1 i2 i3 i4 i5 n1 n2 d1 d2 n3 i6 streaming now p)"
    and counts: "R p (count_tokens user n p)"
    and stores: "R p (store_answer e key bytes model ep p)"
    and looks_up: "cache_get (pe_gunzip e) (pe_start e) key (po_cache p) = (v, c) \<Longrightarrow> R p (p\<lparr>po_cache := c\<rparr>)"
    and joins: "R p (count_deduplicated p)"
    and limits: "check_rate_limit e user p = (verdict, p') \<Longrightarrow> R p p'"
begin

text \<open>The same steps after others, for backward chaining.\<close>

lemma after:
  "R p q \<Longrightarrow> R p (release now name latency success q)"
  "R p q \<Longrightarrow> (\<And>c. list_all request_update (f c)) \<Longrightarrow> R p (emit f q)"
  "R p q \<Longrightarrow> R p (log_request a b c d f1 g h i j k l m now q)"
  "R p q \<Longrightarrow> R p (count_tokens user n q)"
  "R p q \<Longrightarrow> R p (store_answer e key bytes model ep q)"
  by (blast intro: chain releases emits logs counts stores)+

lemma lookup_step: "lookup_cache e key p = (hit, p') \<Longrightarrow> R p p'"
  by (auto simp: lookup_cache_def split: prod.splits if_splits intro: after(2) [OF looks_up])

lemma provider_step: "call_provider e k q s = (r, s') \<Longrightarrow> at_proxy s' = at_proxy s"
  by (auto simp: call_provider_def split: res.splits)

lemma attempt_step:
  assumes "chat_attempt e q user k s = (r, s')"
  shows "R (at_proxy s) (at_proxy s')"
proof (cases "k = 0")
  case True
  with assms have "at_proxy s' = at_proxy s" by (auto simp: chat_attempt_def dest: provider_step)
  then show ?thesis by (simp add: same)
next
  case False
  let ?now = "pe_attempt e k"
  let ?p = "release ?now (sv_name (at_server s)) (time_sub ?now (pe_start e)) False (at_proxy s)"
  obtain x p' where acq: "acquire e k ?now (route e (cq_model q) (prompt_text (cq_messages q)) user ?p) ?p = (x, p')"
    by fastforce
  with False assms have "at_proxy s' = p'"
    by (auto simp: chat_attempt_def Let_def dest: provider_step split: res.splits)
  with chain [OF releases acquires [OF acq]] show ?thesis by simp
qed

lemma loop_step:
  "retry_loop cfg ctx (chat_attempt e q user) k r l s = (r', s') \<Longrightarrow> R (at_proxy s) (at_proxy s')"
proof (induction cfg ctx "chat_attempt e q user" k r l s rule: retry_loop.induct)
  case (1 cfg ctx k r l s)
  obtain x t where f: "chat_attempt e q user k s = (x, t)" by fastforce
  show ?case
  proof (cases "retry_loop cfg ctx (chat_attempt e q user) k r l s = (r', s') \<and> s' = s \<or> s' = t")
    case True
    then show ?thesis using attempt_step [OF f] same by auto
  next
    case False
    then show ?thesis
      using 1 f chain [OF attempt_step [OF f]] unfolding retry_loop.simps [of cfg ctx _ k]
      by (auto simp: Let_def split: if_splits option.splits sum.splits)
  qed
qed

lemma retry_step: "retry_do cfg ctx (chat_attempt e q user) s = (r, s') \<Longrightarrow> R (at_proxy s) (at_proxy s')"
  unfolding retry_do_def by (rule loop_step)

lemma execute_step: "execute_chat_completion e q srv user p = (r, p') \<Longrightarrow> R p p'"
proof -
  assume run: "execute_chat_completion e q srv user p = (r, p')"
  obtain x s where retry: "retry_do (chat_retry_config (po_config p)) (pe_context e) (chat_attempt e q user)
      \<lparr>at_proxy = p, at_server = srv, at_count = 0\<rparr> = (x, s)" by fastforce
  from retry_step [OF this] have s: "R p (at_proxy s)" by simp
  have last: "R p (at_proxy (release_last e success s))" for success
    using s by (simp add: release_last_def after)
  then have "R p (chat_failed e q user err (release_last e success s))"
    "R p (chat_succeeded e q user resp (release_last e success s))" for err resp success
    by (simp_all add: chat_failed_def chat_succeeded_def Let_def after split: prod.split)
  with run retry s last show ?thesis
    by (auto simp: execute_chat_completion_def Let_def split: option.splits res.splits)
qed

lemma deduplicated_step:
  assumes "\<And>r p'. fn p = (r, p') \<Longrightarrow> R p p'" and "deduplicated_call e fn p = (r, deduped, p')"
  shows "R p p'"
  using assms joins [of p]
  by (auto simp: deduplicated_call_def count_deduplicated_def Let_def split: if_splits option.splits prod.splits)

lemma hit_step: "R p p' \<Longrightarrow> R p (snd (serve_hit e hdrs data q srv user p'))"
  by (simp add: serve_hit_def after)

lemma finish_step: "R p p' \<Longrightarrow> R p (snd (finish_chat e hdrs q r deduped p'))"
  by (auto simp: finish_chat_def after split: res.split)

lemma non_streaming_step: "R p (snd (handle_non_streaming_chat e hdrs q srv user p))"
proof -
  obtain hit p1 where hit: "(if cacheable q then lookup_cache e (chat_key e q) p else (None, p)) = (hit, p1)" by fastforce
  then have p1: "R p p1" using lookup_step same by (auto split: if_splits)
  obtain r deduped p2 where call: "deduplicated_call e (execute_chat_completion e q srv user) p1 = (r, deduped, p2)"
    by (metis prod_cases3)
  from chain [OF p1 deduplicated_step [OF _ this]] execute_step have p2: "R p p2" by blast
  then have "R p (if deduped then note_deduplication e q srv user p2 else p2)"
    by (simp add: note_deduplication_def after)
  with hit call p1 show ?thesis
    by (auto simp: handle_non_streaming_chat_def hit_step finish_step split: option.split)
qed

lemma streaming_step: "R p (snd (handle_streaming_chat e hdrs q prov srv user p))"
  by (auto simp: handle_streaming_chat_def Let_def after same split: res.split option.split prod.split)

lemma balanced_step: "R p (snd (balanced_chat e hdrs q user p))"
  unfolding balanced_chat_def
  by (auto simp: Let_def split: prod.split res.split
      intro: acquires chain [OF acquires streaming_step] chain [OF acquires non_streaming_step])

lemma referee_step: "R p (snd (handle_referee_mode_chat e hdrs q rm user p))"
  by (auto simp: handle_referee_mode_chat_def referee_failed_def referee_succeeded_def Let_def after same
      split: res.split prod.split option.split)

lemma chat_step: "R p (snd (handle_chat_completions e r p))"
proof (cases "check_rate_limit e (extract_username r) p")
  case (Pair verdict p')
  note p' = limits [OF Pair]
  with Pair show ?thesis
    by (auto simp: handle_chat_completions_def Let_def same split: sum.split option.split
        intro: chain [OF p' balanced_step] chain [OF p' referee_step])
qed

lemma completion_step: "R p (snd (handle_completions e r p))"
proof -
  have ends: "R p p' \<Longrightarrow> R p (snd (completion_failed e q srv user err p'))"
    "R p p' \<Longrightarrow> R p (snd (completion_succeeded e q srv user resp p'))" for p' q srv user err resp
    by (simp_all add: completion_failed_def completion_succeeded_def Let_def after split: prod.split)
  show ?thesis
    by (auto simp: handle_completions_def Let_def same split: sum.split res.split prod.split
        intro: acquires after ends)
qed

lemma embedding_call_step: "R p (snd (embedding_call e q prov srv user p))"
proof -
  obtain r deduped p' where call: "deduplicated_call e (embed e prov q) p = (r, deduped, p')" by (metis prod_cases3)
  have "R p p'" by (rule deduplicated_step [OF _ call]) (simp add: embed_def same)
  moreover have "R p p' \<Longrightarrow> R p (snd (embedding_failed e q srv user err p'))"
    "R p p' \<Longrightarrow> R p (snd (embedding_answered e q srv user d bytes p'))" for err d bytes p'
    by (simp_all add: embedding_failed_def embedding_answered_def Let_def after)
  ultimately show ?thesis by (auto simp: embedding_call_def call Let_def after split: res.split)
qed

lemma embedding_step: "R p (snd (handle_embeddings e r p))"
proof -
  have miss: "R p (snd (embedding_miss e q user p))" for q user p
    unfolding embedding_miss_def
    by (auto simp: Let_def split: prod.split res.split
        intro: acquires after(1) chain [OF acquires embedding_call_step])
  show ?thesis
    unfolding handle_embeddings_def
    by (auto simp: Let_def same split: prod.split sum.split option.split
        intro: lookup_step after(3) [OF lookup_step] chain [OF lookup_step miss])
qed

lemma dispatch_step: "R p (snd (dispatch e r p))"
proof -
  have "R p (snd (handle_models e r p))" "R p (snd (handle_health p))" "R p (snd (Proxy.handle_root r p))"
    by (simp_all add: handle_models_def handle_health_def Proxy.handle_root_def same split: res.split)
  with chat_step completion_step embedding_step show ?thesis by (simp add: dispatch_def Let_def)
qed

end

subsection \<open>What every request leaves alone\<close>

text \<open>The breakers of a manager have the settings the manager was made with.\<close>

definition breaker_settings :: "breaker \<Rightarrow> i64 \<times> i64 \<times> duration" where
  "breaker_settings b = (br_threshold b, br_success_threshold b, br_timeout b)"

definition mgr_settings :: "manager \<Rightarrow> i64 \<times> i64 \<times> duration" where
  "mgr_settings m = (mg_threshold m, mg_success_threshold m, mg_timeout m)"

definition mgr_ok :: "manager \<Rightarrow> bool" where
  "mgr_ok m \<longleftrightarrow> (\<forall>n b. mg_breakers m n = Some b \<longrightarrow> breaker_settings b = mgr_settings m)"

lemma breaker_settings_kept [simp]:
  "breaker_settings (snd (breaker_allow now b)) = breaker_settings b"
  "breaker_settings (record_success now b) = breaker_settings b"
  "breaker_settings (record_failure now b) = breaker_settings b"
  "breaker_settings (new_breaker now n th sth to) = (th, sth, to)"
  by (simp_all add: breaker_settings_def breaker_ops new_breaker_def Let_def split: cb_state.split)

lemma mgr_keeps:
  "mgr_settings (snd (mgr_allow now n m)) = mgr_settings m" "mgr_ok m \<Longrightarrow> mgr_ok (snd (mgr_allow now n m))"
  "mgr_settings (mgr_success now n m) = mgr_settings m" "mgr_ok m \<Longrightarrow> mgr_ok (mgr_success now n m)"
  "mgr_settings (mgr_failure now n m) = mgr_settings m" "mgr_ok m \<Longrightarrow> mgr_ok (mgr_failure now n m)"
proof -
  note defs = mgr_allow_def mgr_success_def mgr_failure_def mgr_get_def
  show "mgr_settings (snd (mgr_allow now n m)) = mgr_settings m" "mgr_settings (mgr_success now n m) = mgr_settings m"
    "mgr_settings (mgr_failure now n m) = mgr_settings m"
    by (simp_all add: defs mgr_settings_def Let_def split: prod.split option.split)
  have allow: "breaker_settings b' = breaker_settings b" if "breaker_allow now b = (ok, b')" for b ok b'
    using breaker_settings_kept(1) [of now b] that by simp
  assume ok: "mgr_ok m"
  then show "mgr_ok (mgr_success now n m)" "mgr_ok (mgr_failure now n m)" "mgr_ok (snd (mgr_allow now n m))"
    by (auto simp: defs mgr_ok_def mgr_settings_def Let_def dest!: allow split: prod.split option.split)
qed

definition circuits_keep :: "manager option \<Rightarrow> manager option \<Rightarrow> bool" where
  "circuits_keep mo mo' \<longleftrightarrow> map_option mgr_settings mo' = map_option mgr_settings mo
     \<and> (pred_option mgr_ok mo \<longrightarrow> pred_option mgr_ok mo')"

lemma circuits_keep_refl: "circuits_keep mo mo"
  by (simp add: circuits_keep_def)

lemma circuits_keep_trans: "circuits_keep a b \<Longrightarrow> circuits_keep b c \<Longrightarrow> circuits_keep a c"
  by (simp add: circuits_keep_def)

lemma circuits_keep_map:
  assumes "\<And>m. mgr_settings (f m) = mgr_settings m" and "\<And>m. mgr_ok m \<Longrightarrow> mgr_ok (f m)"
  shows "circuits_keep mo (map_option f mo)"
  using assms by (cases mo) (simp_all add: circuits_keep_def)

lemma circuits_allow_keep: "circuits_keep mo (snd (circuits_allow now n mo))"
  by (cases mo) (simp_all add: circuits_keep_def circuits_allow_def mgr_keeps case_prod_beta Let_def)

lemma gate_filter_keep:
  "circuits_keep mo (snd (gate_filter (circuits_allow now) nm healthy online ss mo))"
proof (induction ss arbitrary: mo)
  case (Cons s ss)
  obtain ok mo' where a: "circuits_allow now (nm s) mo = (ok, mo')" by fastforce
  with circuits_allow_keep [of mo now "nm s"] have k: "circuits_keep mo mo'" by simp
  from circuits_keep_trans [OF k Cons.IH] Cons.IH a show ?case
    by (auto simp: Let_def split: prod.split)
qed (simp add: circuits_keep_refl)

text \<open>
  What a request may do to the balancer: move counters and breakers, nothing that a reload
  decides.
\<close>

definition bal_keeps :: "balancer \<Rightarrow> balancer \<Rightarrow> bool" where
  "bal_keeps b b' \<longleftrightarrow> bl_servers b' = bl_servers b \<and> bl_hostgroups b' = bl_hostgroups b
     \<and> bl_health b' = bl_health b \<and> bl_algorithm b' = bl_algorithm b
     \<and> (\<forall>p. ss_server (bl_heap b' ! p) = ss_server (bl_heap b ! p))
     \<and> circuits_keep (bl_circuits b) (bl_circuits b') \<and> (bal_ok b \<longrightarrow> bal_ok b')"

lemma bal_keeps_refl: "bal_keeps b b"
  by (simp add: bal_keeps_def circuits_keep_refl)

lemma bal_keeps_trans: "bal_keeps a b \<Longrightarrow> bal_keeps b c \<Longrightarrow> bal_keeps a c"
  unfolding bal_keeps_def by (auto intro: circuits_keep_trans)

lemma in64_update:
  "in64 (ss_connections (h ! p)) \<Longrightarrow> in64 (ss_connections (h[q := count_selection (h ! q)] ! p))"
  "in64 (ss_connections (h ! p)) \<Longrightarrow> in64 (ss_connections (h[q := count_release now l ok (h ! q)] ! p))"
  by (cases "p < length h"; cases "p = q";
      simp add: count_selection_def count_release_def add64_def sub64_def list_update_beyond)+

lemma release_keeps: "bal_keeps b (release_server now n l ok b)"
proof -
  have "bal_ok (release_server now n l ok b)" if "bal_ok b" using release_shifted [OF that] by blast
  moreover have "circuits_keep (bl_circuits b) (map_option
      (\<lambda>m. if ok then mgr_success now n m else mgr_failure now n m) (bl_circuits b))"
    by (rule circuits_keep_map) (simp_all add: mgr_keeps)
  ultimately show ?thesis
    by (auto simp: bal_keeps_def release_server_def circuits_keep_refl split: option.splits)
qed

lemma select_keeps:
  assumes "select_server intn now hg b = (r, b')"
  shows "bal_keeps b b'"
proof -
  have step: "b' = bal_step intn b (BalSelect now hg)" using assms by simp
  have circuits: "circuits_keep (bl_circuits b) (bl_circuits b')" and rest: "bl_health b' = bl_health b" "bl_algorithm b' = bl_algorithm b"
    and counters: "\<exists>q. bl_heap b' = (bl_heap b)[q := count_selection (bl_heap b ! q)] \<or> bl_heap b' = bl_heap b"
    using assms gate_filter_keep [of "bl_circuits b" now "name_at b" "\<lambda>p. healthy_in (bl_health b) (name_at b p)"
        "online_at b" "candidates hg b"]
    by (auto simp: select_server_def Let_def circuits_keep_refl available_def
        split: prod.splits if_splits res.splits option.splits)
  have "bal_ok b'" if ok: "bal_ok b"
  proof -
    have "in64 (ss_connections (bl_heap b' ! p))" if "bl_servers b n = Some p" for n p
      using counters ok that in64_update(1) [of "bl_heap b" p] by (auto simp: bal_ok_def)
    with ok show ?thesis
      using bal_step_inv [of b intn "BalSelect now hg"] bal_step_frame [of intn b "BalSelect now hg"]
      unfolding step [symmetric] by (auto simp: bal_ok_def)
  qed
  with circuits rest show ?thesis
    using bal_step_frame [of intn b "BalSelect now hg"] unfolding step [symmetric] by (simp add: bal_keeps_def)
qed

definition limiter_settings :: "limiter \<Rightarrow> bool \<times> limits" where
  "limiter_settings l = (lm_enabled l, lm_defaults l)"

lemma limiter_settings_kept [simp]:
  "limiter_settings (snd (limiter_allow now n st l)) = limiter_settings l"
  "limiter_settings (record_tokens n k l) = limiter_settings l"
  "limiter_settings (limiter_cleanup now l) = limiter_settings l"
  by (auto simp: limiter_settings_def limiter_allow_def record_tokens_def limiter_cleanup_def
      split: res.split prod.split option.split)

text \<open>
  A request never changes the configuration, the tables, the rules, or what the limiter and
  the breakers were set up with, and it keeps the cache and the balancer consistent.
\<close>

definition request_keeps :: "proxy \<Rightarrow> proxy \<Rightarrow> bool" where
  "request_keeps p p' \<longleftrightarrow> po_config p' = po_config p \<and> po_storage p' = po_storage p \<and> po_router p' = po_router p
     \<and> po_active p' = po_active p
     \<and> map_option limiter_settings (po_limiter p') = map_option limiter_settings (po_limiter p)
     \<and> bal_keeps (po_balancer p) (po_balancer p')
     \<and> ca_cfg (po_cache p') = ca_cfg (po_cache p) \<and> (cache_inv (po_cache p) \<longrightarrow> cache_inv (po_cache p'))"

lemma request_keeps_refl: "request_keeps p p"
  by (simp add: request_keeps_def bal_keeps_refl)

lemma request_keeps_trans: "request_keeps p q \<Longrightarrow> request_keeps q r \<Longrightarrow> request_keeps p r"
  unfolding request_keeps_def by (auto intro: bal_keeps_trans)

interpretation request: proxy_steps request_keeps e for e :: "'z proxy_env_scheme"
proof
  fix p p' p'' f user n name latency success now k hg key bytes model ep c i1 i2 i3 i4 i5 n1 n2 d1 d2 n3 i6 streaming
    and sel :: "(bal_error, server) res" and v :: "string option" and verdict :: "api_response + (string \<times> string) list"
  show "request_keeps p p" by (rule request_keeps_refl)
  show "request_keeps p p' \<Longrightarrow> request_keeps p' p'' \<Longrightarrow> request_keeps p p''" by (rule request_keeps_trans)
  show "request_keeps p (release now name latency success p)"
    by (simp add: request_keeps_def release_def release_keeps)
  show "acquire e k now hg p = (sel, p') \<Longrightarrow> request_keeps p p'"
    by (auto simp: request_keeps_def acquire_def dest: select_keeps split: prod.splits)
  show "request_keeps p (log_request i1 i2 i3 i4 i5 n1 n2 d1 d2 n3 i6 streaming now p)"
    by (simp add: request_keeps_def log_request_def bal_keeps_refl)
  show "(\<And>c. list_all request_update (f c)) \<Longrightarrow> request_keeps p (emit f p)" for f :: "collector \<Rightarrow> metric list"
    by (simp add: request_keeps_def emit_def bal_keeps_refl split: option.split)
  show "request_keeps p (count_tokens user n p)"
    by (simp add: request_keeps_def count_tokens_def bal_keeps_refl option.map_comp comp_def)
  show "request_keeps p (store_answer e key bytes model ep p)"
    by (simp add: request_keeps_def store_answer_def cache_set_def bal_keeps_refl cache_keeps)
  show "cache_get (pe_gunzip e) (pe_start e) key (po_cache p) = (v, c) \<Longrightarrow> request_keeps p (p\<lparr>po_cache := c\<rparr>)"
    using cache_keeps(1) [of "po_cache p" "pe_gunzip e" "pe_start e" key]
      cache_cfg_kept(1) [of "pe_gunzip e" "pe_start e" key "po_cache p"]
    by (simp add: request_keeps_def bal_keeps_refl)
  show "request_keeps p (count_deduplicated p)"
    by (simp add: request_keeps_def count_deduplicated_def bal_keeps_refl Let_def)
  have "limiter_settings l' = limiter_settings l" if "limiter_allow (pe_start e) user (po_storage p) l = (v, l')" for v l l'
    using limiter_settings_kept(1) that by (metis snd_conv)
  then show "check_rate_limit e user p = (verdict, p') \<Longrightarrow> request_keeps p p'"
    by (auto simp: request_keeps_def check_rate_limit_def Let_def bal_keeps_refl
        split: option.splits prod.splits res.splits if_splits)
qed

subsection \<open>What every request reports\<close>

text \<open>
  A request sends its updates to the collector the proxy was made with, and only updates
  that the registry takes.
\<close>

definition reports_well :: "proxy \<Rightarrow> proxy \<Rightarrow> bool" where
  "reports_well p p' \<longleftrightarrow> po_metrics p' = po_metrics p
     \<and> (\<exists>us. po_metric_log p' = po_metric_log p @ us \<and> list_all request_update us)"

lemma reports_nothing:
  "po_metrics p' = po_metrics p \<and> po_metric_log p' = po_metric_log p \<Longrightarrow> reports_well p p'"
  by (simp add: reports_well_def)

lemma reports_chain: "reports_well p q \<Longrightarrow> reports_well q r \<Longrightarrow> reports_well p r"
  unfolding reports_well_def by force

lemma emit_reports: "(\<And>c. list_all request_update (f c)) \<Longrightarrow> reports_well p (emit f p)"
  by (simp add: reports_well_def emit_def split: option.split)

interpretation report: proxy_steps reports_well e for e :: "'z proxy_env_scheme"
proof
  fix p p' p'' f user n name latency success now k hg key bytes model ep c i1 i2 i3 i4 i5 n1 n2 d1 d2 n3 i6 streaming
    and sel :: "(bal_error, server) res" and v :: "string option" and verdict :: "api_response + (string \<times> string) list"
  show "reports_well p p' \<Longrightarrow> reports_well p' p'' \<Longrightarrow> reports_well p p''" by (rule reports_chain)
  show "(\<And>c. list_all request_update (f c)) \<Longrightarrow> reports_well p (emit f p)" for f :: "collector \<Rightarrow> metric list"
    by (rule emit_reports)
  show "acquire e k now hg p = (sel, p') \<Longrightarrow> reports_well p p'"
    by (rule reports_nothing) (auto simp: acquire_def split: prod.splits)
  show "cache_get (pe_gunzip e) (pe_start e) key (po_cache p) = (v, c) \<Longrightarrow> reports_well p (p\<lparr>po_cache := c\<rparr>)"
    by (rule reports_nothing) simp
  show "check_rate_limit e user p = (verdict, p') \<Longrightarrow> reports_well p p'"
    by (rule reports_nothing)
      (auto simp: check_rate_limit_def Let_def split: option.splits prod.splits res.splits if_splits)
qed (rule reports_nothing, simp add: release_def count_tokens_def store_answer_def log_request_def
    count_deduplicated_def Let_def)+

subsection \<open>The handlers as sequences of atomic operations\<close>

text \<open>
  The operations that the proxy's components run under their own locks, as one relation: what
  a handler does to the shared state, each time it does something. Between two of them the
  operations of other handlers, of the administrator and of the background goroutines run.
\<close>

inductive small_step :: "proxy \<Rightarrow> proxy \<Rightarrow> bool" where
  small_release: "small_step p (release now name latency success p)"
| small_acquire: "acquire (e :: proxy_env) k now hg p = (sel, p') \<Longrightarrow> small_step p p'"
| small_emit: "(\<And>c. list_all request_update (f c)) \<Longrightarrow> small_step p (emit f p)"
| small_log: "small_step p (log_request i1 i2 i3 i4 i5 n1 n2 d1 d2 n3 i6 streaming now p)"
| small_count: "small_step p (count_tokens user n p)"
| small_store: "small_step p (store_answer (e :: proxy_env) key bytes model ep p)"
| small_lookup: "cache_get gunzip now key (po_cache p) = (v, c) \<Longrightarrow> small_step p (p\<lparr>po_cache := c\<rparr>)"
| small_join: "small_step p (count_deduplicated p)"
| small_limit: "check_rate_limit (e :: proxy_env) user p = (verdict, p') \<Longrightarrow> small_step p p'"

text \<open>A whole handler is a chain of them, whichever way the request takes.\<close>

interpretation small: proxy_steps "small_step\<^sup>*\<^sup>*" e for e :: proxy_env
  by unfold_locales (auto intro: rtranclp_trans small_step.intros r_into_rtranclp)

lemma handler_is_small_steps: "small_step\<^sup>*\<^sup>* p (snd (dispatch (e :: proxy_env) r p))"
  by (rule small.dispatch_step)

lemma small_step_keeps:
  assumes "small_step p p'"
  shows "request_keeps p p' \<and> reports_well p p'"
  using assms
proof cases
  case small_release
  then show ?thesis using request.releases report.releases by blast
next
  case small_acquire
  then show ?thesis using request.acquires report.acquires by blast
next
  case small_emit
  then show ?thesis using request.emits report.emits by blast
next
  case small_log
  then show ?thesis by (simp add: request.logs report.logs)
next
  case small_count
  then show ?thesis using request.counts report.counts by blast
next
  case small_store
  then show ?thesis using request.stores report.stores by blast
next
  case (small_lookup gunzip now key v c)
  then have "request_keeps p p'"
    using cache_keeps(1) [of "po_cache p" gunzip now key] cache_cfg_kept(1) [of gunzip now key "po_cache p"]
    by (simp add: request_keeps_def bal_keeps_refl)
  with small_lookup show ?thesis by (simp add: reports_nothing)
next
  case small_join
  then show ?thesis using request.joins report.joins by blast
next
  case small_limit
  then show ?thesis using request.limits report.limits by blast
qed

subsection \<open>Reloading the servers\<close>

text \<open>A row without its key, which is all that the reload looks at.\<close>

definition row_of :: "server \<Rightarrow> string \<times> string \<times> i64" where
  "row_of s = (sv_name s, sv_status s, sv_hostgroup s)"

lemma decrypt_servers_rows: "decrypt_servers unseal e ss = Ok ts \<Longrightarrow> map row_of ts = map row_of ss"
  by (induction ss arbitrary: ts)
    (auto simp: row_of_def res_bind_Ok_iff split: if_splits res.splits)

lemma loaded_rows:
  assumes "get_servers_with_decrypted_keys unseal None st = Ok ts"
  shows "mset (map row_of ts) = mset (map row_of (st_servers st))"
proof -
  have "decrypt_servers unseal (st_encryptor st) (sort_key server_key_of (st_servers st)) = Ok ts"
    using assms by (auto simp: get_servers_with_decrypted_keys_def get_servers_def split: if_splits)
  from decrypt_servers_rows [OF this] show ?thesis by (metis mset_map mset_sort)
qed

lemma loaded_names:
  assumes "get_servers_with_decrypted_keys unseal None st = Ok ts"
  shows "mset (map sv_name ts) = mset (map sv_name (st_servers st))" and "length ts = length (st_servers st)"
proof -
  have "mset (map (fst \<circ> row_of) ts) = mset (map (fst \<circ> row_of) (st_servers st))"
    using loaded_rows [OF assms] by (metis map_map mset_map)
  then show "mset (map sv_name ts) = mset (map sv_name (st_servers st))" by (simp add: row_of_def comp_def)
  show "length ts = length (st_servers st)" using arg_cong [OF loaded_rows [OF assms], of size] by simp
qed

lemma load_loop_frame:
  "bl_health (load_loop ss b) = bl_health b" "bl_circuits (load_loop ss b) = bl_circuits b"
  "bl_algorithm (load_loop ss b) = bl_algorithm b"
  by (induction ss arbitrary: b) (simp_all add: Let_def)

lemma load_loop_heap: "length (bl_heap (load_loop ss b)) \<le> length (bl_heap b) + length ss"
proof (induction ss arbitrary: b)
  case (Cons s ss)
  show ?case
  proof (cases "sv_status s = status_offline")
    case True
    then show ?thesis using Cons.IH [of b] by simp
  next
    case False
    show ?thesis unfolding load_loop.simps Let_def if_not_P [OF False] by (rule order_trans [OF Cons.IH]) simp
  qed
qed simp

lemma load_loop_servers:
  "bl_servers (load_loop ss b) n \<noteq> None \<longleftrightarrow>
     bl_servers b n \<noteq> None \<or> (\<exists>s \<in> set ss. sv_name s = n \<and> sv_status s \<noteq> status_offline)"
  by (induction ss arbitrary: b) (auto simp: Let_def)

lemma load_servers_frame [simp]:
  "bl_health (snd (load_servers unseal st b)) = bl_health b"
  "bl_circuits (snd (load_servers unseal st b)) = bl_circuits b"
  "bl_algorithm (snd (load_servers unseal st b)) = bl_algorithm b"
  by (simp_all add: load_servers_def load_loop_frame split: res.split)

lemma load_servers_ok:
  assumes "bal_ok b" and "st_inv st" and "length (st_servers st) < 2 ^ 64"
  shows "bal_ok (snd (load_servers unseal st b))"
proof (cases "get_servers_with_decrypted_keys unseal None st")
  case (Ok ts)
  let ?b = "b\<lparr>bl_heap := [], bl_servers := (\<lambda>_. None), bl_hostgroups := (\<lambda>_. [])\<rparr>"
  have "distinct (map sv_name ts)"
    using loaded_names(1) [OF Ok] assms(2) by (metis st_inv_def mset_eq_imp_distinct_iff)
  then have "bal_inv (load_loop ts ?b)" by (intro bal_inv_load_loop bal_inv_empty) simp_all
  moreover have "length (bl_heap (load_loop ts ?b)) < 2 ^ 64"
    using load_loop_heap [of ts ?b] loaded_names(2) [OF Ok] assms(3) by simp
  moreover have "ss_connections (bl_heap (load_loop ts ?b) ! p) = 0" if "bl_servers (load_loop ts ?b) n = Some p" for n p
    using load_loop_fresh [OF _ that] by simp
  ultimately show ?thesis using Ok by (simp add: load_servers_def bal_ok_def in64_def)
qed (use assms in \<open>simp_all add: load_servers_def\<close>)

text \<open>After a reload the balancer knows exactly the servers whose row is not OFFLINE.\<close>

lemma load_servers_exact:
  assumes "fst (load_servers unseal st b) = Ok ()"
  shows "bl_servers (snd (load_servers unseal st b)) n \<noteq> None \<longleftrightarrow>
    (\<exists>s \<in> set (st_servers st). sv_name s = n \<and> sv_status s \<noteq> status_offline)"
proof -
  obtain ts where ts: "get_servers_with_decrypted_keys unseal None st = Ok ts"
    using assms by (auto simp: load_servers_def split: res.splits)
  have "row_of ` set ts = row_of ` set (st_servers st)"
    using arg_cong [OF loaded_rows [OF ts], of set_mset] by simp
  then have "(\<exists>r \<in> row_of ` set ts. fst r = n \<and> fst (snd r) \<noteq> status_offline) \<longleftrightarrow>
      (\<exists>r \<in> row_of ` set (st_servers st). fst r = n \<and> fst (snd r) \<noteq> status_offline)" by (simp only:)
  then have "(\<exists>s \<in> set ts. sv_name s = n \<and> sv_status s \<noteq> status_offline) \<longleftrightarrow>
      (\<exists>s \<in> set (st_servers st). sv_name s = n \<and> sv_status s \<noteq> status_offline)"
    by (simp add: row_of_def)
  with ts show ?thesis by (simp add: load_servers_def load_loop_servers del: not_None_eq)
qed

lemma load_servers_fresh:
  assumes "fst (load_servers unseal st b) = Ok ()" and "bl_servers (snd (load_servers unseal st b)) n = Some p"
  shows "ss_connections (bl_heap (snd (load_servers unseal st b)) ! p) = 0"
proof -
  obtain ts where ts: "get_servers_with_decrypted_keys unseal None st = Ok ts"
    using assms(1) by (auto simp: load_servers_def split: res.splits)
  let ?b = "b\<lparr>bl_heap := [], bl_servers := (\<lambda>_. None), bl_hostgroups := (\<lambda>_. [])\<rparr>"
  have "ss_connections (bl_heap (load_loop ts ?b) ! p) = 0" if "bl_servers (load_loop ts ?b) n = Some p"
    using load_loop_fresh [OF _ that] by simp
  with assms(2) ts show ?thesis by (simp add: load_servers_def)
qed

subsection \<open>Connections over reloads\<close>

text \<open>
  Everything that touches the balancer of the running program, in whatever order: selections
  and releases of the requests in flight, and between them reloads, each from the tables as
  they are then. What a successful reload replaces starts at zero, so the balance of a server
  is counted from the last one.
\<close>

datatype fleet_op =
    FleetOp bal_op
  | FleetReload "string \<Rightarrow> string \<Rightarrow> string \<Rightarrow> string option" storage

fun fleet_step :: "(i64 \<Rightarrow> i64) \<Rightarrow> balancer \<Rightarrow> fleet_op \<Rightarrow> balancer" where
  "fleet_step intn b (FleetOp e) = bal_step intn b e"
| "fleet_step intn b (FleetReload unseal st) = snd (load_servers unseal st b)"

fun pending :: "(i64 \<Rightarrow> i64) \<Rightarrow> string \<Rightarrow> int \<Rightarrow> balancer \<Rightarrow> fleet_op list \<Rightarrow> int" where
  "pending intn n k b [] = k"
| "pending intn n k b (e # es) = pending intn n
     (case e of
        FleetOp (BalSelect now hg) \<Rightarrow>
          (case fst (select_server intn now hg b) of Ok srv \<Rightarrow> if sv_name srv = n then k + 1 else k | _ \<Rightarrow> k)
      | FleetOp (BalRelease now m latency ok) \<Rightarrow> (if m = n then k - 1 else k)
      | FleetOp _ \<Rightarrow> k
      | FleetReload unseal st \<Rightarrow> (if fst (load_servers unseal st b) = Ok () then 0 else k))
     (fleet_step intn b e) es"

definition readable :: "fleet_op \<Rightarrow> bool" where
  "readable e \<longleftrightarrow> (case e of FleetOp _ \<Rightarrow> True
     | FleetReload unseal st \<Rightarrow> st_inv st \<and> length (st_servers st) < 2 ^ 64)"

lemma fleet_step_ok:
  assumes "bal_ok b" and "intn_law intn" and "readable e"
  shows "bal_ok (fleet_step intn b e)"
proof (cases e)
  case (FleetOp x)
  with bal_step_shifted [OF assms(1,2)] show ?thesis by simp
next
  case (FleetReload unseal st)
  with load_servers_ok [OF assms(1)] assms(3) show ?thesis by (simp add: readable_def)
qed

lemma failed_load: "fst (load_servers unseal st b) \<noteq> Ok () \<Longrightarrow> snd (load_servers unseal st b) = b"
  by (simp add: load_servers_def split: res.splits)

lemma pending_step:
  assumes ok: "bal_ok b" and law: "intn_law intn"
    and k: "\<And>p. bl_servers b n = Some p \<Longrightarrow> ss_connections (bl_heap b ! p) = wrap64 k"
    and p: "bl_servers (fleet_step intn b e) n = Some p"
  shows "ss_connections (bl_heap (fleet_step intn b e) ! p) = wrap64 (pending intn n k b [e])"
proof (cases e)
  case (FleetOp x)
  with p have "bl_servers b n = Some p" by (simp add: bal_step_frame)
  with bal_step_shifted [OF ok law, of x] k FleetOp
  have "ss_connections (bl_heap (fleet_step intn b e) ! p) = wrap64 (k + bal_effect intn n b x)"
    by (simp add: shifted_def)
  with FleetOp show ?thesis by (cases x) (auto split: res.split)
next
  case (FleetReload unseal st)
  with p k load_servers_fresh [of unseal st b n p] failed_load [of unseal st b] show ?thesis
    by (auto simp: in64_def)
qed

text \<open>
  C5: Connections balance, whatever is interleaved: at every moment the connection counter of
  a server that the balancer knows is, in 64-bit arithmetic, the number of times the server
  was selected minus the number of times it was released since the last successful reload
  (or the start). So a server whose requests of that period have all been released is at
  zero, and one that a request releases which was selected before the reload is below it.
  The tables that the reloads read have unique names, as their schema demands, and fewer
  than \<open>2 ^ 64\<close> rows.\<close>

theorem connections_balance:
  assumes law: "intn_law intn" and rows: "list_all readable es"
    and p: "bl_servers (foldl (fleet_step intn) (new_balancer h m) es) n = Some p"
  shows "ss_connections (bl_heap (foldl (fleet_step intn) (new_balancer h m) es) ! p)
       = wrap64 (pending intn n 0 (new_balancer h m) es)"
proof -
  have run: "ss_connections (bl_heap (foldl (fleet_step intn) b es) ! p) = wrap64 (pending intn n k b es)"
    if "bal_ok b" "list_all readable es" "\<And>p. bl_servers b n = Some p \<Longrightarrow> ss_connections (bl_heap b ! p) = wrap64 k"
      "bl_servers (foldl (fleet_step intn) b es) n = Some p" for b k
    using that
  proof (induction es arbitrary: b k)
    case (Cons e es)
    from Cons.IH [OF fleet_step_ok [OF Cons.prems(1) law] _ pending_step [OF Cons.prems(1) law Cons.prems(3), where e = e]]
    show ?case using Cons.prems(2,4) by simp
  qed simp
  have "bal_ok (new_balancer h m)" by (simp add: bal_ok_def bal_inv_empty new_balancer_def)
  from run [OF this rows _ p] show ?thesis by (simp add: new_balancer_def)
qed

definition demo_life :: "fleet_op list" where
  "demo_life = [FleetReload toy_unseal (demo_tables\<lparr>st_servers := [demo_server]\<rparr>),
     FleetOp (BalSelect 5 0), FleetOp (BalSelect 6 0), FleetOp (BalRelease 8 ''a'' 1 True)]"

lemma demo_life_facts:
  "bl_servers (foldl (fleet_step (\<lambda>_. 0)) (new_balancer None None) demo_life) ''a'' = Some 0"
  "bl_servers (foldl (fleet_step (\<lambda>_. 0)) (new_balancer None None)
     (demo_life @ [hd demo_life, FleetOp (BalRelease 9 ''a'' 1 True)])) ''a'' = Some 0"
  "pending (\<lambda>_. 0) ''a'' 0 (new_balancer None None) demo_life = 1"
  "pending (\<lambda>_. 0) ''a'' 0 (new_balancer None None)
     (demo_life @ [hd demo_life, FleetOp (BalRelease 9 ''a'' 1 True)]) = - 1"
  by code_simp+

theorem connections_balance_witness:
  "ss_connections (bl_heap (foldl (fleet_step (\<lambda>_. 0)) (new_balancer None None) demo_life) ! 0) = 1
   \<and> ss_connections (bl_heap (foldl (fleet_step (\<lambda>_. 0)) (new_balancer None None)
       (demo_life @ [hd demo_life, FleetOp (BalRelease 9 ''a'' 1 True)])) ! 0) = - 1"
proof -
  have "intn_law (\<lambda>_. 0)" "list_all readable demo_life" "readable (hd demo_life)"
    by (simp_all add: intn_law_def demo_life_def readable_def st_inv_def demo_tables_def empty_tables_def)
  then show ?thesis
    using connections_balance [where es = demo_life and n = "''a''" and h = None and m = None]
      connections_balance [where es = "demo_life @ [hd demo_life, FleetOp (BalRelease 9 ''a'' 1 True)]"
        and n = "''a''" and h = None and m = None]
      demo_life_facts by (simp add: in64_def readable_def)
qed

subsection \<open>What every administrative operation keeps\<close>

definition reload_of :: "admin \<Rightarrow> admin \<Rightarrow> bool" where
  "reload_of ad ad' \<longleftrightarrow> (\<exists>unseal. ad_balancer ad' = snd (load_servers unseal (ad_storage ad) (ad_balancer ad)))
     \<and> ad_storage ad' = ad_storage ad"

text \<open>
  The checker and the credentials stay, the tables and the cache stay consistent, and the
  balancer changes by a reload only.
\<close>

definition admin_keeps :: "admin \<Rightarrow> admin \<Rightarrow> bool" where
  "admin_keeps ad ad' \<longleftrightarrow> ad_health ad' = ad_health ad \<and> ad_auth ad' = ad_auth ad
     \<and> (st_inv (ad_storage ad) \<longrightarrow> st_inv (ad_storage ad'))
     \<and> (ad_cache ad' = None \<longleftrightarrow> ad_cache ad = None)
     \<and> (pred_option cache_inv (ad_cache ad) \<longrightarrow> pred_option cache_inv (ad_cache ad'))
     \<and> (ad_balancer ad' = ad_balancer ad \<or> reload_of ad ad')"

lemma admin_keeps_refl [simp]: "admin_keeps ad ad"
  by (simp add: admin_keeps_def)

lemma admin_keeps_parts [simp]:
  "admin_keeps ad (ad\<lparr>ad_sessions := sm\<rparr>)" "admin_keeps ad (ad\<lparr>ad_config := c\<rparr>)"
  "admin_keeps ad (ad\<lparr>ad_router := rt\<rparr>)"
  by (simp_all add: admin_keeps_def)

lemma admin_keeps_sessions: "admin_keeps (ad\<lparr>ad_sessions := sm\<rparr>) ad' = admin_keeps ad ad'"
  by (simp add: admin_keeps_def reload_of_def)

lemma admin_keeps_storage: "(st_inv (ad_storage ad) \<Longrightarrow> st_inv st) \<Longrightarrow> admin_keeps ad (ad\<lparr>ad_storage := st\<rparr>)"
  by (simp add: admin_keeps_def)

lemma admin_keeps_cache:
  "ad_cache ad = Some c \<Longrightarrow> (cache_inv c \<Longrightarrow> cache_inv c') \<Longrightarrow> admin_keeps ad (ad\<lparr>ad_cache := Some c'\<rparr>)"
  by (simp add: admin_keeps_def)

lemma admin_keeps_reload:
  "load_servers unseal (ad_storage ad) (ad_balancer ad) = (r, b) \<Longrightarrow> admin_keeps ad (ad\<lparr>ad_balancer := b\<rparr>)"
  "load_servers unseal (ad_storage ad) (ad_balancer ad) = (r, b) \<Longrightarrow>
    admin_keeps ad (ad\<lparr>ad_balancer := b, ad_router := rt\<rparr>)"
  by (auto simp: admin_keeps_def reload_of_def intro!: exI [of _ unseal])

lemma write_reply_keeps:
  "(st_inv (ad_storage ad) \<Longrightarrow> st_inv (snd r)) \<Longrightarrow> admin_keeps ad (snd (write_reply r f ad))"
  by (auto simp: write_reply_def intro: admin_keeps_storage split: prod.split)

lemmas st_inv_ops = st_inv_servers st_inv_users st_inv_others st_inv_set_variable

lemma table_handlers_keep:
  "admin_keeps ad (snd (handle_servers w r ad))" "admin_keeps ad (snd (handle_server_by_name w r ad))"
  "admin_keeps ad (snd (handle_users w r ad))" "admin_keeps ad (snd (handle_user_by_name w r ad))"
  "admin_keeps ad (snd (handle_rules w r ad))" "admin_keeps ad (snd (handle_hostgroups w r ad))"
  by (auto simp: handle_servers_def handle_server_by_name_def handle_users_def handle_user_by_name_def
      handle_rules_def handle_hostgroups_def Let_def st_inv_ops intro!: write_reply_keeps split: option.split)

lemma other_handlers_keep:
  "admin_keeps ad (snd (handle_variables w r ad))" "admin_keeps ad (snd (handle_reload w r ad))"
  "admin_keeps ad (snd (handle_cache w r ad))" "admin_keeps ad (snd (handle_cache_clear r ad))"
  "admin_keeps ad (snd (handle_login w r ad))" "admin_keeps ad (snd (handle_logout w r ad))"
  "admin_keeps ad (snd (handle_admin_panel w r ad))"
proof -
  show "admin_keeps ad (snd (handle_variables w r ad))"
    by (auto simp: handle_variables_def split: option.split sum.split)
  show "admin_keeps ad (snd (handle_reload w r ad))"
    by (auto simp: handle_reload_def Let_def intro: admin_keeps_reload split: prod.split res.split)
  show "admin_keeps ad (snd (handle_cache w r ad))" "admin_keeps ad (snd (handle_cache_clear r ad))"
    by (auto simp: handle_cache_def handle_cache_clear_def cache_keeps intro!: admin_keeps_cache split: option.split)
  show "admin_keeps ad (snd (handle_login w r ad))" "admin_keeps ad (snd (handle_logout w r ad))"
    "admin_keeps ad (snd (handle_admin_panel w r ad))"
    by (auto simp: handle_login_def post_login_def handle_logout_def handle_admin_panel_def Let_def
        split: prod.split option.split res.split)
qed

lemma handler_keeps: "admin_keeps ad (snd (handler ep w r ad))"
  by (cases ep) (simp_all add: table_handlers_keep other_handlers_keep pages_read_only)

lemma serve_keeps: "admin_keeps ad (snd (serve w r ad))"
  using handler_keeps [where r = r and w = w] admin_keeps_sessions
  by (auto simp: serve_def auth_api_middleware_def split: option.split prod.split)
    (metis admin_keeps_sessions handler_keeps)

lemma execute_keeps: "admin_keeps ad (snd (execute w q ad))"
proof -
  have "admin_keeps ad (snd (execute_cache_enable on ad))" "admin_keeps ad (snd (execute_cache_clear ad))"
    "admin_keeps ad (snd (execute_load_servers w ad))" "admin_keeps ad (snd (execute_load_rules w ad))"
    "admin_keeps ad (snd (execute_set cmd ad))" "admin_keeps ad (snd (execute_insert_server w cmd ad))"
    "admin_keeps ad (snd (execute_delete_server cmd ad))" for on cmd
  proof -
    show "admin_keeps ad (snd (execute_cache_enable on ad))" "admin_keeps ad (snd (execute_cache_clear ad))"
      by (auto simp: execute_cache_enable_def execute_cache_clear_def cache_keeps intro!: admin_keeps_cache split: option.split)
    show "admin_keeps ad (snd (execute_load_servers w ad))" "admin_keeps ad (snd (execute_load_rules w ad))"
      by (auto simp: execute_load_servers_def execute_load_rules_def intro: admin_keeps_reload split: prod.split res.split)
    show "admin_keeps ad (snd (execute_set cmd ad))"
      by (auto simp: execute_set_def Let_def split: list.split sum.split)
    show "admin_keeps ad (snd (execute_insert_server w cmd ad))" "admin_keeps ad (snd (execute_delete_server cmd ad))"
      by (auto simp: execute_insert_server_def execute_delete_server_def Let_def intro!: admin_keeps_storage
          dest: st_inv_ops [of "ad_storage ad"] dest!: arg_cong [where f = snd]
          split: option.split list.split prod.split res.split)
  qed
  then show ?thesis by (simp add: execute_def Let_def)
qed

end
