(* ===== verification/System.thy ===== *)
theory System
  imports Frames Protocol MysqlServer
begin

section \<open>The running program (cmd/mindbalancer/main.go)\<close>

text \<open>
  How \<open>main\<close> builds the components, what it shares between the proxy, the admin interface,
  the MySQL server and the background goroutines, and the events that change the shared
  state: requests, administrative operations, probes, the signals and the shutdown. The
  handler of a request runs in the atomic operations of the components it calls
  (\<open>small_step\<close>, of which every handler is a chain): between two of them everything else can
  happen, reloads included. What concurrent identical requests do is in the theory Dedup.
\<close>

subsection \<open>Starting\<close>

text \<open>
  What \<open>main\<close> shares between the servers: the proxy (with configuration, tables, balancer,
  rules, cache and limiter), the health checker, the sessions and credentials of the admin
  interface, the credentials of the MySQL server and its goroutines, the HTTP client pool, the
  accepted connections of the proxy and the requests in flight by connection, whether the
  goroutine that sweeps the cache runs, the phase of the main loop (serving, waiting for the
  requests in flight, waiting for the MySQL server) and, during the shutdown, the HTTP server
  that its goroutine shuts down.
\<close>

datatype phase = Serving | Draining | Closing | Exited | Crashed
datatype shut_stage = ShutIdle | ShutMetrics | ShutAdmin | ShutProxy | ShutDone

record system =
  sy_proxy :: proxy
  sy_checker :: checker
  sy_sessions :: session_manager
  sy_auth :: authenticator
  sy_mysql :: mysql_server
  sy_server :: life
  sy_pool :: "Pool.pool option"
  sy_conns :: "nat set"
  sy_inflight :: "nat \<Rightarrow> api_request option"
  sy_sweeper :: bool
  sy_phase :: phase
  sy_shutdown :: shut_stage

text \<open>What the start reads from outside; a database is what the file at its path holds.\<close>

record boot_world =
  bw_stat :: "string \<Rightarrow> bool"
  bw_read :: "string \<Rightarrow> string + ini"
  bw_home :: string
  bw_database :: "string \<Rightarrow> storage"
  bw_sha :: "string \<Rightarrow> string"
  bw_unseal :: "string \<Rightarrow> string \<Rightarrow> string \<Rightarrow> string option"
  bw_compile :: compiler
  bw_slice :: "compiled_rule list \<Rightarrow> compiled_rule list"
  bw_bcrypt :: bcrypt_hash
  bw_random :: "string option"
  bw_salt :: "string option"

definition pool_settings :: "config \<Rightarrow> Pool.pool_config" where
  "pool_settings cfg = \<lparr>pc_max_idle_conns = 200,
     pc_max_idle_conns_per_host = max_connections_per_server (cf_pool cfg),
     pc_max_conns_per_host = max_connections_per_server (cf_pool cfg),
     pc_idle_conn_timeout = ms (idle_timeout_ms (cf_pool cfg)), pc_tls_handshake_timeout = 10 * second,
     pc_response_timeout = ms (request_timeout_ms (cf_request cfg)), pc_keep_alive = 30 * second\<rparr>"

record http_listener =
  hl_addr :: string
  hl_read_timeout :: duration
  hl_write_timeout :: duration

definition listen_addr :: "string \<Rightarrow> i64 \<Rightarrow> string" where
  "listen_addr host port = host @ '':'' @ itoa port"

definition proxy_listener :: "config \<Rightarrow> http_listener" where
  "proxy_listener cfg = \<lparr>hl_addr = listen_addr (proxy_bind_address (cf_network cfg)) (proxy_port (cf_network cfg)),
     hl_read_timeout = ms (request_timeout_ms (cf_request cfg)),
     hl_write_timeout = ms (request_timeout_ms (cf_request cfg))\<rparr>"

definition admin_listener :: "config \<Rightarrow> http_listener" where
  "admin_listener cfg = \<lparr>hl_addr = listen_addr (admin_bind_address (cf_network cfg)) (admin_http_port (cf_network cfg)),
     hl_read_timeout = 30 * second, hl_write_timeout = 30 * second\<rparr>"

text \<open>The Prometheus endpoint listens on every interface, without timeouts.\<close>

definition metrics_listener :: "config \<Rightarrow> http_listener option" where
  "metrics_listener cfg = (if prometheus_enabled (cf_prometheus cfg)
     then Some \<lparr>hl_addr = listen_addr [] (prometheus_port (cf_prometheus cfg)), hl_read_timeout = 0, hl_write_timeout = 0\<rparr>
     else None)"

definition mysql_addr :: "config \<Rightarrow> string" where
  "mysql_addr cfg = listen_addr (admin_bind_address (cf_network cfg)) (admin_port (cf_network cfg))"

text \<open>Without a configured password the MySQL server takes the generated one, if there is one.\<close>

definition mysql_credentials :: "config \<Rightarrow> authenticator \<Rightarrow> mysql_server" where
  "mysql_credentials cfg auth = \<lparr>ms_username = admin_username (cf_security cfg),
     ms_password = (let pw = admin_password (cf_security cfg) in
       if pw = [] then au_generated_password auth else pw)\<rparr>"

text \<open>The construction of the components, in the order of \<open>main\<close>.\<close>

definition assemble :: "boot_world \<Rightarrow> config \<Rightarrow> storage \<Rightarrow> system" where
  "assemble w cfg st =
     (let circuits = new_manager (cb_threshold (cf_breaker cfg)) (cb_success_threshold (cf_breaker cfg))
            (circuit_breaker_timeout cfg);
          checker = set_update_callback (new_checker (health_check_interval cfg) (health_check_timeout cfg));
          bal = new_balancer (Some checker) (Some circuits);
          limiter = new_limiter (rate_limit_enabled (cf_limit cfg)) (default_requests_per_minute (cf_limit cfg))
            (default_tokens_per_minute (cf_limit cfg));
          ad = new_admin (bw_bcrypt w) (bw_random w) (bw_salt w) cfg st bal checker new_router
      in \<lparr>sy_proxy = new_proxy cfg st bal new_router (Some new_collector) (Some limiter),
          sy_checker = checker, sy_sessions = ad_sessions ad, sy_auth = ad_auth ad,
          sy_mysql = mysql_credentials cfg (ad_auth ad), sy_server = start_server,
          sy_pool = init_global_pool (pool_settings cfg) None,
          sy_conns = {}, sy_inflight = (\<lambda>_. None), sy_sweeper = cache_on (cf_cache cfg), sy_phase = Serving,
          sy_shutdown = ShutIdle\<rparr>)"

text \<open>
  Loading the servers and the rules only warns about an error. The first thing the health
  checker does is \<open>time.NewTicker\<close>, which panics on an interval that is not positive, in a
  goroutine of its own: that ends the process.
\<close>

definition load_initial :: "boot_world \<Rightarrow> system \<Rightarrow> (string, system) res" where
  "load_initial w s =
     (let p = sy_proxy s; (r, bal) = load_servers (bw_unseal w) (po_storage p) (po_balancer p);
          (q, rules) = load_rules (bw_compile w) (bw_slice w) (po_storage p) (po_router p) in
      case (r, q) of
        (Panic m, _) \<Rightarrow> Panic m
      | (_, Panic m) \<Rightarrow> Panic m
      | _ \<Rightarrow> Ok (s\<lparr>sy_proxy := p\<lparr>po_balancer := bal, po_router := rules\<rparr>\<rparr>))"

definition start_checker :: "checker \<Rightarrow> (string, unit) res" where
  "start_checker c = (if hc_interval c \<le> 0 then Panic ''non-positive interval for NewTicker'' else Ok ())"

definition boot :: "boot_world \<Rightarrow> string \<Rightarrow> (string, system) res" where
  "boot w path =
     (case load_config (bw_stat w) (bw_read w) (bw_home w) path of
        Inl e \<Rightarrow> Err (''Failed to load config: '' @ e)
      | Inr cfg \<Rightarrow>
          (case new_with_encryption (bw_sha w) (bw_database w (db_path cfg)) (api_key_encryption_key (cf_security cfg)) of
             Err _ \<Rightarrow> Err ''Failed to initialize storage''
           | Panic m \<Rightarrow> Panic m
           | Ok st \<Rightarrow> res_bind (load_initial w (assemble w cfg st)) (\<lambda>s.
               res_bind (start_checker (sy_checker s)) (\<lambda>_. Ok s))))"

subsection \<open>Events\<close>

text \<open>The admin interface works on the same components; its changes are written back.\<close>

definition admin_of :: "system \<Rightarrow> admin" where
  "admin_of s = (let p = sy_proxy s in
     \<lparr>ad_config = po_config p, ad_storage = po_storage p, ad_balancer = po_balancer p,
      ad_health = sy_checker s, ad_router = po_router p, ad_cache = Some (get_cache p),
      ad_sessions = sy_sessions s, ad_auth = sy_auth s\<rparr>)"

definition put_admin :: "admin \<Rightarrow> system \<Rightarrow> system" where
  "put_admin ad s = s\<lparr>sy_sessions := ad_sessions ad,
     sy_proxy := (sy_proxy s)\<lparr>po_config := ad_config ad, po_storage := ad_storage ad,
       po_balancer := ad_balancer ad, po_router := ad_router ad,
       po_cache := (case ad_cache ad of Some c \<Rightarrow> c | None \<Rightarrow> po_cache (sy_proxy s))\<rparr>\<rparr>"

text \<open>The balancer and the admin interface hold the pointer to one checker.\<close>

definition put_checker :: "checker \<Rightarrow> system \<Rightarrow> system" where
  "put_checker c s = s\<lparr>sy_checker := c,
     sy_proxy := (sy_proxy s)\<lparr>po_balancer := (po_balancer (sy_proxy s))\<lparr>bl_health := Some c\<rparr>\<rparr>\<rparr>"

text \<open>
  A request arrives on an accepted connection, which counts it, and leaves when its handler
  returns; in between the handler operates on the proxy, step by step. \<open>answer\<close> is a handler
  that runs from its start to its end while nothing else happens. What a reload by signal
  copies are five fields.
\<close>

definition tracked :: "api_request \<Rightarrow> bool" where
  "tracked r \<longleftrightarrow> ir_path r \<notin> {''/health'', ''/healthz'', ''/''}"

definition arrive :: "nat \<Rightarrow> api_request \<Rightarrow> system \<Rightarrow> system" where
  "arrive c r s = s\<lparr>sy_inflight := (sy_inflight s)(c := Some r),
     sy_proxy := (if tracked r then enter (sy_proxy s) else sy_proxy s)\<rparr>"

definition answer :: "nat \<Rightarrow> api_request \<Rightarrow> proxy_env \<Rightarrow> system \<Rightarrow> api_response \<times> system" where
  "answer c r e s = (let (resp, p) = dispatch e r (sy_proxy s) in
     (resp, s\<lparr>sy_inflight := (sy_inflight s)(c := None), sy_proxy := (if tracked r then leave p else p)\<rparr>))"

definition depart :: "nat \<Rightarrow> system \<Rightarrow> system" where
  "depart c s = (case sy_inflight s c of None \<Rightarrow> s
     | Some r \<Rightarrow> s\<lparr>sy_inflight := (sy_inflight s)(c := None),
         sy_proxy := (if tracked r then leave (sy_proxy s) else sy_proxy s)\<rparr>)"

definition hangup :: "boot_world \<Rightarrow> string \<Rightarrow> system \<Rightarrow> system" where
  "hangup w path s = (case load_config (bw_stat w) (bw_read w) (bw_home w) path of
       Inl _ \<Rightarrow> s
     | Inr new \<Rightarrow> s\<lparr>sy_proxy := (sy_proxy s)\<lparr>po_config := (let c = po_config (sy_proxy s) in c\<lparr>
         cf_logging := (cf_logging c)\<lparr>log_level := log_level (cf_logging new)\<rparr>,
         cf_failover := (cf_failover c)\<lparr>max_retries := max_retries (cf_failover new)\<rparr>,
         cf_breaker := (cf_breaker c)\<lparr>cb_threshold := cb_threshold (cf_breaker new)\<rparr>,
         cf_limit := (cf_limit c)\<lparr>default_requests_per_minute := default_requests_per_minute (cf_limit new),
           default_tokens_per_minute := default_tokens_per_minute (cf_limit new)\<rparr>\<rparr>)\<rparr>\<rparr>)"

text \<open>
  A round of probes reports to the balancer's callback. A panic in the goroutine of a probe,
  or of a MySQL connection, ends the process; \<open>net/http\<close> recovers those of its handlers.
\<close>

definition probe_round :: "(string \<Rightarrow> string \<Rightarrow> string \<Rightarrow> string option) \<Rightarrow> http_client \<Rightarrow> time \<Rightarrow> time \<Rightarrow> system \<Rightarrow> system" where
  "probe_round unseal client start now s =
     (case check_all unseal client start now (po_storage (sy_proxy s)) (sy_checker s) of
        Ok (changes, c) \<Rightarrow> (let s = put_checker c s; p = sy_proxy s in
          s\<lparr>sy_proxy := p\<lparr>po_balancer := fold (\<lambda>(n, h). on_health_change n h) changes (po_balancer p)\<rparr>\<rparr>)
      | _ \<Rightarrow> s\<lparr>sy_phase := Crashed\<rparr>)"

definition run_query :: "world \<Rightarrow> string \<Rightarrow> system \<Rightarrow> system" where
  "run_query w q s = (case execute w q (admin_of s) of
       (Panic _, ad) \<Rightarrow> (put_admin ad s)\<lparr>sy_phase := Crashed\<rparr>
     | (_, ad) \<Rightarrow> put_admin ad s)"

text \<open>
  The goroutines of the MySQL server go their way; a connection that has a command handled
  goes back to the top of its loop. The program ends when \<open>Stop\<close> has returned.
\<close>

definition mysql_event :: "life_event \<Rightarrow> system \<Rightarrow> system" where
  "mysql_event ev s = (case life_next ev (sy_server s) of
       None \<Rightarrow> s
     | Some l \<Rightarrow> s\<lparr>sy_server := l, sy_phase := (if ev = LfStopped then Exited else sy_phase s)\<rparr>)"

text \<open>
  The goroutine of the shutdown shuts the servers down one after the other: for metrics, for
  administration, the proxy. The listener of a server is closed when its turn comes, and the
  next turn when all its requests are answered, or the context of 30 seconds has ended.
\<close>

fun next_stage :: "shut_stage \<Rightarrow> shut_stage" where
  "next_stage ShutMetrics = ShutAdmin"
| "next_stage ShutAdmin = ShutProxy"
| "next_stage ShutProxy = ShutDone"
| "next_stage x = x"

definition proxy_open :: "system \<Rightarrow> bool" where
  "proxy_open s \<longleftrightarrow> sy_shutdown s \<in> {ShutIdle, ShutMetrics, ShutAdmin}"

text \<open>
  The loop that waits for the requests in flight: it ends at its deadline, when all servers
  are shut down, or at a tick that finds no active request. Then the MySQL server is stopped.
\<close>

datatype drain_event = DrainTimeout | DrainTick | ShutdownDone

definition drain :: "drain_event \<Rightarrow> system \<Rightarrow> system" where
  "drain d s = (if d = DrainTick \<and> active_requests (sy_proxy s) \<noteq> 0 then s
     else s\<lparr>sy_phase := Closing, sy_server := stop_called (sy_server s)\<rparr>)"

datatype sys_event =
    SyConnect nat
  | SyDisconnect nat
  | SyArrive nat api_request
  | SyWork nat proxy
  | SyLeave nat
  | SyAnswer nat proxy_env
  | SyAdmin http_world web_request
  | SyQuery nat world string
  | SyMysql life_event
  | SyProbe "string \<Rightarrow> string \<Rightarrow> string \<Rightarrow> string option" http_client time time
  | SyHangup boot_world string
  | SyFlush nat
  | SySweepLimiter time
  | SySweepCache time
  | SySweepSessions time
  | SyStop
  | SyShut bool
  | SyDrain drain_event

fun react :: "sys_event \<Rightarrow> system \<Rightarrow> system" where
  "react (SyConnect c) s = s\<lparr>sy_conns := insert c (sy_conns s)\<rparr>"
| "react (SyDisconnect c) s = s\<lparr>sy_conns := sy_conns s - {c}\<rparr>"
| "react (SyArrive c r) s = arrive c r s"
| "react (SyWork c p) s = s\<lparr>sy_proxy := p\<rparr>"
| "react (SyLeave c) s = depart c s"
| "react (SyAnswer c e) s = (case sy_inflight s c of Some r \<Rightarrow> snd (answer c r e s) | None \<Rightarrow> s)"
| "react (SyAdmin w r) s = put_admin (snd (serve w r (admin_of s))) s"
| "react (SyQuery c w q) s = mysql_event (LfCommand c) (run_query w q s)"
| "react (SyMysql ev) s = mysql_event ev s"
| "react (SyProbe unseal client start now) s = probe_round unseal client start now s"
| "react (SyHangup w path) s = hangup w path s"
| "react (SyFlush k) s = s\<lparr>sy_proxy := flush_log k (sy_proxy s)\<rparr>"
| "react (SySweepLimiter now) s =
     s\<lparr>sy_proxy := (sy_proxy s)\<lparr>po_limiter := map_option (limiter_cleanup now) (po_limiter (sy_proxy s))\<rparr>\<rparr>"
| "react (SySweepCache now) s =
     s\<lparr>sy_proxy := (sy_proxy s)\<lparr>po_cache := cache_cleanup now (po_cache (sy_proxy s))\<rparr>\<rparr>"
| "react (SySweepSessions now) s = s\<lparr>sy_sessions := cleanup_expired now (sy_sessions s)\<rparr>"
| "react SyStop s = s\<lparr>sy_phase := Draining, sy_shutdown := ShutMetrics\<rparr>"
| "react (SyShut timed_out) s = s\<lparr>sy_shutdown := next_stage (sy_shutdown s)\<rparr>"
| "react (SyDrain d) s = drain d s"

text \<open>
  When an event can happen. Until the program ends, the handlers of what was accepted go on,
  on all servers, and so do the goroutines that sweep; the main loop listens to signals (and
  to the errors of the servers, which stop it as well) while it serves, and the health
  checker is stopped first. A statement needs a connection that waits for a command.

  The listener of the proxy accepts connections while it is open. A connection it has accepted
  delivers one request after the other, also when the listener is closed: \<open>Shutdown\<close> of
  \<open>net/http\<close> closes the connections that are idle at its own pace, so which of them deliver
  another request before they end is left open. \<open>SyWork\<close> is the next atomic operation of the
  handler of a request in flight.
\<close>

definition alive :: "system \<Rightarrow> bool" where
  "alive s \<longleftrightarrow> sy_phase s \<in> {Serving, Draining, Closing}"

fun enabled :: "sys_event \<Rightarrow> system \<Rightarrow> bool" where
  "enabled (SyConnect c) s \<longleftrightarrow> alive s \<and> proxy_open s \<and> c \<notin> sy_conns s"
| "enabled (SyDisconnect c) s \<longleftrightarrow> alive s \<and> c \<in> sy_conns s \<and> sy_inflight s c = None"
| "enabled (SyArrive c r) s \<longleftrightarrow> alive s \<and> c \<in> sy_conns s \<and> sy_inflight s c = None"
| "enabled (SyWork c p) s \<longleftrightarrow> alive s \<and> sy_inflight s c \<noteq> None \<and> small_step (sy_proxy s) p"
| "enabled (SyLeave c) s \<longleftrightarrow> alive s \<and> sy_inflight s c \<noteq> None"
| "enabled (SyAnswer c e) s \<longleftrightarrow> alive s \<and> sy_inflight s c \<noteq> None"
| "enabled (SyAdmin w r) s \<longleftrightarrow> alive s"
| "enabled (SyQuery c w q) s \<longleftrightarrow> alive s \<and> lf_handlers (sy_server s) c = Some Reading"
| "enabled (SyMysql ev) s \<longleftrightarrow> alive s \<and> ev \<noteq> LfStop \<and> life_next ev (sy_server s) \<noteq> None"
| "enabled (SyFlush k) s \<longleftrightarrow> alive s"
| "enabled (SySweepLimiter now) s \<longleftrightarrow> alive s"
| "enabled (SySweepCache now) s \<longleftrightarrow> alive s \<and> sy_sweeper s"
| "enabled (SySweepSessions now) s \<longleftrightarrow> alive s"
| "enabled (SyShut timed_out) s \<longleftrightarrow> alive s \<and> sy_shutdown s \<in> {ShutMetrics, ShutAdmin, ShutProxy}
     \<and> (sy_shutdown s = ShutProxy \<longrightarrow> timed_out \<or> sy_inflight s = (\<lambda>_. None))"
| "enabled (SyDrain d) s \<longleftrightarrow> sy_phase s = Draining \<and> (d = ShutdownDone \<longrightarrow> sy_shutdown s = ShutDone)"
| "enabled e s \<longleftrightarrow> sy_phase s = Serving"

text \<open>What the events of the MySQL server and of the shutdown leave alone.\<close>

lemma mysql_event_frame [simp]:
  "sy_proxy (mysql_event ev s) = sy_proxy s" "sy_checker (mysql_event ev s) = sy_checker s"
  "sy_inflight (mysql_event ev s) = sy_inflight s" "sy_shutdown (mysql_event ev s) = sy_shutdown s"
  "sy_conns (mysql_event ev s) = sy_conns s"
  by (simp_all add: mysql_event_def split: option.split)

lemma drain_frame [simp]:
  "sy_proxy (drain d s) = sy_proxy s" "sy_checker (drain d s) = sy_checker s" "sy_inflight (drain d s) = sy_inflight s"
  "sy_shutdown (drain d s) = sy_shutdown s" "sy_conns (drain d s) = sy_conns s"
  by (simp_all add: drain_def)

text \<open>No machine holds \<open>2 ^ 64\<close> rows or requests.\<close>

definition fits :: "system \<Rightarrow> bool" where
  "fits s \<longleftrightarrow> length (st_servers (po_storage (sy_proxy s))) < 2 ^ 64
     \<and> finite (dom (sy_inflight s)) \<and> card (dom (sy_inflight s)) < 2 ^ 64"

inductive sys_step :: "system \<Rightarrow> sys_event \<Rightarrow> system \<Rightarrow> bool" where
  happens: "enabled ev s \<Longrightarrow> fits s \<Longrightarrow> t = react ev s \<Longrightarrow> sys_step s ev t"

text \<open>A run all of whose steps satisfy a condition.\<close>

inductive sys_run :: "(system \<Rightarrow> sys_event \<Rightarrow> bool) \<Rightarrow> system \<Rightarrow> system \<Rightarrow> bool" for P s where
  run_start: "sys_run P s s"
| run_more: "sys_run P s t \<Longrightarrow> sys_step t ev u \<Longrightarrow> P t ev \<Longrightarrow> sys_run P s u"

abbreviation any_step :: "system \<Rightarrow> sys_event \<Rightarrow> bool" where
  "any_step \<equiv> \<lambda>_ _. True"

inductive_cases sys_stepE: "sys_step s ev t"

subsection \<open>The invariant of the running program\<close>

definition tracked_flights :: "system \<Rightarrow> nat set" where
  "tracked_flights s = {c. \<exists>r. sy_inflight s c = Some r \<and> tracked r}"

text \<open>What the components were set up with: the breakers, the limiter, the checker, the algorithm.\<close>

definition settings_of :: "system \<Rightarrow> (i64 \<times> i64 \<times> duration) option \<times> (bool \<times> limits) option \<times> (duration \<times> duration) \<times> algorithm" where
  "settings_of s = (map_option mgr_settings (bl_circuits (po_balancer (sy_proxy s))),
     map_option limiter_settings (po_limiter (sy_proxy s)),
     (hc_interval (sy_checker s), hc_timeout (sy_checker s)), bl_algorithm (po_balancer (sy_proxy s)))"

definition sys_inv :: "system \<Rightarrow> bool" where
  "sys_inv s \<longleftrightarrow> st_inv (po_storage (sy_proxy s)) \<and> bal_ok (po_balancer (sy_proxy s))
     \<and> pred_option mgr_ok (bl_circuits (po_balancer (sy_proxy s)))
     \<and> bl_health (po_balancer (sy_proxy s)) = Some (sy_checker s)
     \<and> cache_inv (po_cache (sy_proxy s))
     \<and> po_active (sy_proxy s) = wrap64 (int (card (tracked_flights s)))"

lemma bal_ok_fields [simp]:
  "bal_ok (b\<lparr>bl_health := h\<rparr>) = bal_ok b"
  by (simp add: bal_ok_def bal_inv_def name_at_def)

lemma bal_ok_new [simp]: "bal_ok (new_balancer h c)"
  by (simp add: bal_ok_def new_balancer_def bal_inv_empty)

lemma tracked_subset: "tracked_flights s \<subseteq> dom (sy_inflight s)"
  by (auto simp: tracked_flights_def)

lemma tracked_finite: "fits s \<Longrightarrow> finite (tracked_flights s) \<and> card (tracked_flights s) < 2 ^ 64"
  using tracked_subset [of s] by (auto simp: fits_def intro: finite_subset order.strict_trans1 [OF card_mono])

text \<open>An answer is the proxy's reaction to a request, and leaves everything else alone.\<close>

lemma answer_keeps:
  "request_keeps (sy_proxy s) (snd (dispatch e r (sy_proxy s)))"
  by (rule request.dispatch_step)

lemma answer_after_arrival:
  "sy_proxy (snd (answer c r e (arrive c r s))) = snd (proxy_serve e r (sy_proxy s))"
  by (auto simp: answer_def arrive_def proxy_serve_def track_active_requests_def tracked_def Let_def split: prod.split)

lemma set_difference_update:
  "tracked_flights (s\<lparr>sy_inflight := (sy_inflight s)(c := None), sy_proxy := p\<rparr>) = tracked_flights s - {c}"
  by (auto simp: tracked_flights_def)

lemma wrap64_wrap64_diff: "wrap64 (wrap64 x - y) = wrap64 (x - y)"
  using wrap64_wrap64_add [of x "- y"] by simp

lemma work_inv:
  assumes inv: "sys_inv s" and k: "request_keeps (sy_proxy s) p"
  shows "sys_inv (s\<lparr>sy_proxy := p\<rparr>) \<and> settings_of (s\<lparr>sy_proxy := p\<rparr>) = settings_of s"
proof -
  have parts: "po_storage p = po_storage (sy_proxy s)" "po_active p = po_active (sy_proxy s)"
    "map_option limiter_settings (po_limiter p) = map_option limiter_settings (po_limiter (sy_proxy s))"
    "bl_health (po_balancer p) = bl_health (po_balancer (sy_proxy s))"
    "bl_algorithm (po_balancer p) = bl_algorithm (po_balancer (sy_proxy s))"
    "map_option mgr_settings (bl_circuits (po_balancer p)) = map_option mgr_settings (bl_circuits (po_balancer (sy_proxy s)))"
    and ok: "bal_ok (po_balancer p)" "pred_option mgr_ok (bl_circuits (po_balancer p))" "cache_inv (po_cache p)"
    using k inv unfolding request_keeps_def bal_keeps_def circuits_keep_def sys_inv_def by blast+
  then show ?thesis using inv by (simp add: sys_inv_def settings_of_def tracked_flights_def)
qed

lemma depart_inv:
  assumes inv: "sys_inv s" and r: "sy_inflight s c = Some r" and fits: "fits s"
  shows "sys_inv (depart c s) \<and> settings_of (depart c s) = settings_of s"
proof -
  have active: "wrap64 (int (card (tracked_flights s)) - (if tracked r then 1 else 0))
      = wrap64 (int (card (tracked_flights s - {c})))"
  proof (cases "tracked r")
    case True
    then have "c \<in> tracked_flights s" using r by (simp add: tracked_flights_def)
    then have "card (tracked_flights s) = Suc (card (tracked_flights s - {c}))"
      by (rule card.remove [OF tracked_finite [OF fits, THEN conjunct1]])
    with True show ?thesis by simp
  next
    case False
    then have "c \<notin> tracked_flights s" using r by (simp add: tracked_flights_def)
    with False show ?thesis by simp
  qed
  show ?thesis
    using inv active r unfolding depart_def sys_inv_def settings_of_def
    by (simp add: set_difference_update leave_def sub64_def wrap64_wrap64_diff split: if_splits)
qed

text \<open>A handler that nothing interrupts is its work and its departure.\<close>

lemma answer_alt:
  "sy_inflight s c = Some r \<Longrightarrow>
   snd (answer c r e s) = depart c (s\<lparr>sy_proxy := snd (dispatch e r (sy_proxy s))\<rparr>)"
  by (simp add: answer_def depart_def split: prod.split)

lemma small_steps_keep: "small_step\<^sup>*\<^sup>* p p' \<Longrightarrow> request_keeps p p'"
  by (induction rule: rtranclp_induct)
    (auto intro: request_keeps_refl request_keeps_trans dest: small_step_keeps)

lemma work_run:
  assumes "small_step\<^sup>*\<^sup>* (sy_proxy s) p" and "alive s" and "sy_inflight s c \<noteq> None" and "fits s"
  shows "sys_run (\<lambda>_ ev. \<exists>q. ev = SyWork c q) s (s\<lparr>sy_proxy := p\<rparr>)"
  using assms(1)
proof (induction rule: rtranclp_induct)
  case base
  then show ?case by (simp add: run_start)
next
  case (step p q)
  let ?s = "s\<lparr>sy_proxy := p\<rparr>"
  have "fits ?s" using small_steps_keep [OF step(1)] assms(4) by (simp add: fits_def request_keeps_def)
  moreover have "enabled (SyWork c q) ?s" using step(2) assms(2,3) by (simp add: alive_def)
  ultimately have "sys_step ?s (SyWork c q) (s\<lparr>sy_proxy := q\<rparr>)" by (intro happens) simp_all
  with step.IH show ?case by (rule run_more) simp
qed

lemma answer_is_work:
  assumes "sy_inflight s c = Some r" and "alive s" and "fits s"
  shows "sys_run (\<lambda>_ ev. (\<exists>q. ev = SyWork c q) \<or> ev = SyLeave c) s (snd (answer c r e s))"
proof -
  let ?s = "s\<lparr>sy_proxy := snd (dispatch e r (sy_proxy s))\<rparr>"
  have "sys_run (\<lambda>_ ev. \<exists>q. ev = SyWork c q) s ?s"
    using assms by (intro work_run handler_is_small_steps) simp_all
  then have "sys_run (\<lambda>_ ev. (\<exists>q. ev = SyWork c q) \<or> ev = SyLeave c) s ?s"
    by (induction rule: sys_run.induct) (auto intro: run_start run_more)
  moreover have "fits ?s" using assms(3) answer_keeps [of s e r] by (simp add: fits_def request_keeps_def)
  then have "sys_step ?s (SyLeave c) (snd (answer c r e s))"
    using assms(1,2) by (intro happens) (simp_all add: answer_alt alive_def)
  ultimately show ?thesis by (rule run_more) simp
qed

lemma answer_inv:
  assumes "sys_inv s" and "sy_inflight s c = Some r" and "fits s"
  shows "sys_inv (snd (answer c r e s)) \<and> settings_of (snd (answer c r e s)) = settings_of s"
proof -
  let ?s = "s\<lparr>sy_proxy := snd (dispatch e r (sy_proxy s))\<rparr>"
  have "fits ?s" using assms(3) answer_keeps [of s e r] by (simp add: fits_def request_keeps_def)
  then show ?thesis
    using depart_inv [of ?s c r] work_inv [OF assms(1) answer_keeps [of s e r]] assms(2)
    by (simp add: answer_alt)
qed

text \<open>An administrative operation on the shared components.\<close>

lemma put_admin_inv:
  assumes inv: "sys_inv s" and fits: "fits s" and keeps: "admin_keeps (admin_of s) ad"
  shows "sys_inv (put_admin ad s) \<and> settings_of (put_admin ad s) = settings_of s"
proof -
  let ?b = "po_balancer (sy_proxy s)" and ?st = "po_storage (sy_proxy s)"
  have rows: "st_inv ?st" "length (st_servers ?st) < 2 ^ 64" and ok: "bal_ok ?b"
    using inv fits by (simp_all add: sys_inv_def fits_def)
  obtain unseal where b: "ad_balancer ad = ?b \<or> ad_balancer ad = snd (load_servers unseal ?st ?b)"
    using keeps by (auto simp: admin_keeps_def reload_of_def admin_of_def Let_def)
  have "bal_ok (ad_balancer ad)" using b ok load_servers_ok [OF ok rows] by auto
  moreover have "bl_circuits (ad_balancer ad) = bl_circuits ?b" "bl_health (ad_balancer ad) = bl_health ?b"
    "bl_algorithm (ad_balancer ad) = bl_algorithm ?b"
    using b by auto
  moreover have "cache_inv (case ad_cache ad of Some c \<Rightarrow> c | None \<Rightarrow> po_cache (sy_proxy s))" "st_inv (ad_storage ad)"
    using keeps inv by (auto simp: admin_keeps_def admin_of_def sys_inv_def get_cache_def Let_def split: option.split)
  ultimately show ?thesis
    using inv by (simp add: sys_inv_def settings_of_def put_admin_def tracked_flights_def)
qed

lemma checker_frame:
  "hc_interval (snd (record_check start now n h m c)) = hc_interval c"
  "hc_timeout (snd (record_check start now n h m c)) = hc_timeout c"
  by (simp_all add: record_check_def Let_def)

lemma check_each_frame:
  "check_each client start now ss c = Ok (ns, c') \<Longrightarrow> hc_interval c' = hc_interval c \<and> hc_timeout c' = hc_timeout c"
proof (induction ss arbitrary: c ns)
  case (Cons x ss)
  then show ?case
    by (auto simp: res_bind_Ok_iff check_server_def checker_frame split: if_splits
        dest!: arg_cong [of _ _ snd])
qed simp

lemma callbacks_do_nothing [simp]: "fold (\<lambda>(n, h). on_health_change n h) ns b = b"
  by (induction ns) (auto simp: on_health_change_def)

lemma probe_inv:
  assumes "sys_inv s"
  shows "sys_inv (probe_round unseal client start now s) \<and> settings_of (probe_round unseal client start now s) = settings_of s"
proof (cases "check_all unseal client start now (po_storage (sy_proxy s)) (sy_checker s)")
  case (Ok out)
  then obtain ns c where out: "check_all unseal client start now (po_storage (sy_proxy s)) (sy_checker s) = Ok (ns, c)"
    by (cases out) auto
  then have frame: "hc_interval c = hc_interval (sy_checker s)" "hc_timeout c = hc_timeout (sy_checker s)"
    using check_each_frame by (auto simp: check_all_def split: res.splits)
  with out have "probe_round unseal client start now s = put_checker c s"
    by (simp add: probe_round_def Let_def put_checker_def)
  with assms frame show ?thesis
    by (simp add: put_checker_def sys_inv_def settings_of_def tracked_flights_def)
qed (use assms in \<open>simp_all add: probe_round_def sys_inv_def settings_of_def tracked_flights_def\<close>)

lemma flush_inv: "sys_inv s \<Longrightarrow> sys_inv (s\<lparr>sy_proxy := flush_log k (sy_proxy s)\<rparr>)
    \<and> settings_of (s\<lparr>sy_proxy := flush_log k (sy_proxy s)\<rparr>) = settings_of s"
  by (simp add: flush_log_def sys_inv_def settings_of_def tracked_flights_def st_inv_others)

lemma arrive_inv:
  assumes inv: "sys_inv s" and fits: "fits s" and new: "sy_inflight s c = None"
  shows "sys_inv (arrive c r s) \<and> settings_of (arrive c r s) = settings_of s"
proof -
  have flights: "tracked_flights (s\<lparr>sy_inflight := (sy_inflight s)(c := Some r), sy_proxy := p\<rparr>)
      = (if tracked r then insert c (tracked_flights s) else tracked_flights s)" for p
    using new by (auto simp: tracked_flights_def)
  have "c \<notin> tracked_flights s" using new by (simp add: tracked_flights_def)
  then have "int (card (insert c (tracked_flights s))) = int (card (tracked_flights s)) + 1"
    using tracked_finite [OF fits] by simp
  with inv flights show ?thesis
    by (simp add: arrive_def sys_inv_def settings_of_def enter_def add64_def)
qed

lemma step_inv:
  assumes step: "sys_step s ev t" and inv: "sys_inv s"
  shows "sys_inv t \<and> settings_of t = settings_of s"
proof -
  have on: "enabled ev s" and fits: "fits s" and t: "t = react ev s" using step by (auto elim: sys_stepE)
  show ?thesis
  proof (cases ev)
    case (SyArrive c r)
    with on t arrive_inv [OF inv fits] show ?thesis by simp
  next
    case (SyAnswer c e)
    with on t answer_inv [OF inv _ fits] show ?thesis by auto
  next
    case (SyWork c p)
    with on t work_inv [OF inv] small_step_keeps show ?thesis by simp
  next
    case (SyLeave c)
    with on t depart_inv [OF inv _ fits] show ?thesis by auto
  next
    case (SyAdmin w r)
    with t put_admin_inv [OF inv fits serve_keeps] show ?thesis by simp
  next
    case (SyQuery c w q)
    with t put_admin_inv [OF inv fits execute_keeps, of w q] show ?thesis
      by (auto simp: run_query_def sys_inv_def settings_of_def tracked_flights_def split: prod.split res.split)
  next
    case (SyProbe unseal client start now)
    with t probe_inv [OF inv] show ?thesis by simp
  next
    case (SyHangup w path)
    with t inv show ?thesis
      by (auto simp: hangup_def sys_inv_def settings_of_def tracked_flights_def split: sum.split)
  next
    case (SyFlush k)
    with t flush_inv [OF inv] show ?thesis by simp
  next
    case (SySweepLimiter now)
    with t inv show ?thesis
      by (simp add: sys_inv_def settings_of_def tracked_flights_def option.map_comp comp_def)
  next
    case (SySweepCache now)
    with t inv show ?thesis
      by (simp add: sys_inv_def settings_of_def tracked_flights_def cache_keeps)
  qed (use t inv in \<open>simp_all add: sys_inv_def settings_of_def tracked_flights_def drain_def\<close>)
qed

lemma sys_run_inv: "sys_run P s t \<Longrightarrow> sys_inv s \<Longrightarrow> sys_inv t \<and> settings_of t = settings_of s"
  by (induction rule: sys_run.induct) (auto dest: step_inv)

text \<open>The start establishes the invariant on a consistent database.\<close>

definition database_ok :: "boot_world \<Rightarrow> bool" where
  "database_ok w \<longleftrightarrow> (\<forall>p. st_inv (bw_database w p) \<and> length (st_servers (bw_database w p)) < 2 ^ 64)"

lemma opened_database:
  assumes "new_with_encryption sha file key = Ok st" and "st_inv file"
  shows "st_inv st \<and> st_servers st = st_servers file"
  using assms by (auto simp: new_with_encryption_def migrate_def st_inv_def split: res.splits if_splits)

lemma assemble_inv:
  assumes "st_inv st"
  shows "sys_inv (assemble w cfg st)"
proof -
  have "cache_inv (new_cache (get_cache_config cfg))" by (simp add: cache_inv_new get_cache_config_def Let_def)
  with assms show ?thesis
    by (simp add: sys_inv_def assemble_def Let_def new_proxy_def tracked_flights_def in64_def)
      (simp add: new_balancer_def mgr_ok_def new_manager_def set_update_callback_def)
qed

definition settings_at_start :: "config \<Rightarrow> (i64 \<times> i64 \<times> duration) option \<times> (bool \<times> limits) option \<times> (duration \<times> duration) \<times> algorithm" where
  "settings_at_start cfg =
     (Some (cb_threshold (cf_breaker cfg), cb_success_threshold (cf_breaker cfg), circuit_breaker_timeout cfg),
      Some (rate_limit_enabled (cf_limit cfg), \<lparr>lim_requests = default_requests_per_minute (cf_limit cfg),
        lim_tokens = default_tokens_per_minute (cf_limit cfg)\<rparr>),
      (health_check_interval cfg, health_check_timeout cfg), alg_weighted_round_robin)"

lemma assemble_settings: "settings_of (assemble w cfg st) = settings_at_start cfg"
  by (simp add: settings_of_def settings_at_start_def assemble_def Let_def new_proxy_def new_balancer_def
      new_manager_def mgr_settings_def new_limiter_def limiter_settings_def set_update_callback_def new_checker_def)

lemma load_initial_inv:
  assumes "load_initial w s = Ok t" and inv: "sys_inv s" and "length (st_servers (po_storage (sy_proxy s))) < 2 ^ 64"
  shows "sys_inv t \<and> settings_of t = settings_of s"
proof -
  let ?b = "snd (load_servers (bw_unseal w) (po_storage (sy_proxy s)) (po_balancer (sy_proxy s)))"
  have "bal_ok ?b" using assms(3) inv by (intro load_servers_ok) (simp_all add: sys_inv_def)
  moreover obtain rules where "t = s\<lparr>sy_proxy := (sy_proxy s)\<lparr>po_balancer := ?b, po_router := rules\<rparr>\<rparr>"
    using assms(1) by (auto simp: load_initial_def Let_def split: prod.splits res.splits)
  ultimately show ?thesis
    using inv by (simp add: sys_inv_def settings_of_def tracked_flights_def)
qed

lemma boot_inv:
  assumes db: "database_ok w" and boot: "boot w path = Ok s"
  shows "\<exists>cfg. load_config (bw_stat w) (bw_read w) (bw_home w) path = Inr cfg \<and> 0 < health_check_interval cfg
     \<and> sys_inv s \<and> settings_of s = settings_at_start cfg"
proof -
  obtain cfg st where cfg: "load_config (bw_stat w) (bw_read w) (bw_home w) path = Inr cfg"
    and st: "new_with_encryption (bw_sha w) (bw_database w (db_path cfg)) (api_key_encryption_key (cf_security cfg)) = Ok st"
    and load: "load_initial w (assemble w cfg st) = Ok s" and start: "start_checker (sy_checker s) = Ok ()"
    using boot by (auto simp: boot_def res_bind_Ok_iff split: sum.splits res.splits)
  have rows: "st_inv st" "length (st_servers st) < 2 ^ 64"
    using opened_database [OF st] db by (simp_all add: database_ok_def)
  have "po_storage (sy_proxy (assemble w cfg st)) = st" by (simp add: assemble_def Let_def new_proxy_def)
  with load_initial_inv [OF load assemble_inv [OF rows(1)]] rows(2)
  have "sys_inv s" and settings: "settings_of s = settings_at_start cfg" by (simp_all add: assemble_settings)
  moreover from settings have "hc_interval (sy_checker s) = health_check_interval cfg"
    by (simp add: settings_of_def settings_at_start_def)
  with start have "0 < health_check_interval cfg" by (simp add: start_checker_def split: if_splits)
  ultimately show ?thesis using cfg by blast
qed

subsection \<open>The start\<close>

lemma boot_serving:
  assumes "boot w path = Ok s"
  shows "sy_phase s = Serving \<and> sy_inflight s = (\<lambda>_. None) \<and> sy_conns s = {}"
proof -
  obtain cfg st where load: "load_initial w (assemble w cfg st) = Ok s"
    using assms by (auto simp: boot_def res_bind_Ok_iff split: sum.splits res.splits)
  then show ?thesis
    by (auto simp: load_initial_def Let_def assemble_def split: prod.splits res.splits)
qed

subsection \<open>Reloads\<close>

definition reloads :: "sys_event \<Rightarrow> bool" where
  "reloads ev \<longleftrightarrow> (case ev of
       SyAdmin w r \<Rightarrow> find_route (hr_path r) = Some EpReload
     | SyQuery c w q \<Rightarrow> has_prefix (to_upper (trim_space q)) ''LOAD AI SERVERS TO RUNTIME''
     | _ \<Rightarrow> False)"

lemma write_reply_balancer [simp]: "ad_balancer (snd (write_reply r f ad)) = ad_balancer ad"
  by (simp add: write_reply_def split: prod.split)

lemma handler_balancer:
  assumes "ep \<noteq> EpReload"
  shows "ad_balancer (snd (handler ep w r ad)) = ad_balancer ad"
proof -
  have "ad_balancer (snd (handle_servers w r ad)) = ad_balancer ad" "ad_balancer (snd (handle_server_by_name w r ad)) = ad_balancer ad"
    "ad_balancer (snd (handle_users w r ad)) = ad_balancer ad" "ad_balancer (snd (handle_user_by_name w r ad)) = ad_balancer ad"
    "ad_balancer (snd (handle_rules w r ad)) = ad_balancer ad" "ad_balancer (snd (handle_hostgroups w r ad)) = ad_balancer ad"
    by (simp_all add: handle_servers_def handle_server_by_name_def handle_users_def handle_user_by_name_def
        handle_rules_def handle_hostgroups_def Let_def split: option.split)
  moreover have "ad_balancer (snd (handle_variables w r ad)) = ad_balancer ad" "ad_balancer (snd (handle_cache_clear r ad)) = ad_balancer ad"
    "ad_balancer (snd (handle_cache w r ad)) = ad_balancer ad"
    by (simp_all add: handle_variables_def handle_cache_def handle_cache_clear_def split: option.split sum.split)
  moreover have "ad_balancer (snd (handle_login w r ad)) = ad_balancer ad" "ad_balancer (snd (handle_logout w r ad)) = ad_balancer ad"
    "ad_balancer (snd (handle_admin_panel w r ad)) = ad_balancer ad"
    by (auto simp: handle_login_def post_login_def handle_logout_def handle_admin_panel_def Let_def
        split: prod.split option.split res.split)
  ultimately show ?thesis using assms by (cases ep) (simp_all add: pages_read_only)
qed

lemma serve_balancer:
  "find_route (hr_path r) \<noteq> Some EpReload \<Longrightarrow> ad_balancer (snd (serve w r ad)) = ad_balancer ad"
  by (auto simp: serve_def auth_api_middleware_def handler_balancer split: option.split prod.split)

lemma execute_balancer:
  assumes "\<not> has_prefix (to_upper (trim_space q)) ''LOAD AI SERVERS TO RUNTIME''"
  shows "ad_balancer (snd (execute w q ad)) = ad_balancer ad"
proof -
  have "ad_balancer (snd (execute_cache_enable on ad)) = ad_balancer ad" "ad_balancer (snd (execute_cache_clear ad)) = ad_balancer ad"
    "ad_balancer (snd (execute_load_rules w ad)) = ad_balancer ad" "ad_balancer (snd (execute_set cmd ad)) = ad_balancer ad"
    "ad_balancer (snd (execute_insert_server w cmd ad)) = ad_balancer ad" "ad_balancer (snd (execute_delete_server cmd ad)) = ad_balancer ad"
    for on cmd
    by (auto simp: execute_cache_enable_def execute_cache_clear_def execute_load_rules_def execute_set_def
        execute_insert_server_def execute_delete_server_def Let_def
        split: option.split prod.split res.split list.split sum.split)
  with assms show ?thesis by (simp add: execute_def Let_def)
qed

text \<open>The servers the balancer knows change with a reload only.\<close>

lemma servers_kept:
  assumes "sys_step s ev t" and "\<not> reloads ev"
  shows "bl_servers (po_balancer (sy_proxy t)) = bl_servers (po_balancer (sy_proxy s))"
proof -
  have on: "enabled ev s" and t: "t = react ev s" using assms(1) by (auto elim: sys_stepE)
  show ?thesis
  proof (cases ev)
    case (SyAnswer c e)
    with on obtain r where r: "sy_inflight s c = Some r" by auto
    from answer_keeps [of s e r] r SyAnswer t show ?thesis
      by (auto simp: answer_def Let_def leave_def request_keeps_def bal_keeps_def split: prod.split)
  next
    case (SyWork c p)
    with on t small_step_keeps [of "sy_proxy s" p] show ?thesis by (simp add: request_keeps_def bal_keeps_def)
  next
    case (SyLeave c)
    with t show ?thesis by (auto simp: depart_def leave_def split: option.split)
  next
    case (SyAdmin w r)
    with t assms(2) serve_balancer [of r w "admin_of s"] show ?thesis
      by (simp add: put_admin_def reloads_def) (simp add: admin_of_def Let_def)
  next
    case (SyQuery c w q)
    with assms(2) execute_balancer [of q w "admin_of s"]
    have "ad_balancer (snd (execute w q (admin_of s))) = po_balancer (sy_proxy s)"
      by (simp add: reloads_def) (simp add: admin_of_def Let_def)
    with SyQuery t show ?thesis
      by (auto simp: run_query_def put_admin_def split: prod.split res.split)
  next
    case (SyProbe unseal client start now)
    with t show ?thesis
      by (auto simp: probe_round_def put_checker_def Let_def split: res.split)
  qed (use t in \<open>auto simp: arrive_def enter_def hangup_def flush_log_def drain_def split: sum.split\<close>)
qed

lemma servers_kept_run:
  "sys_run (\<lambda>_ ev. \<not> reloads ev) s t \<Longrightarrow>
   bl_servers (po_balancer (sy_proxy t)) = bl_servers (po_balancer (sy_proxy s))"
  by (induction rule: sys_run.induct) (auto dest: servers_kept)

lemma reload_reply:
  assumes "find_route (hr_path r) = Some EpReload" and "rs_status (fst (serve w r ad)) = 200"
  shows "fst (load_servers (wo_unseal w) (ad_storage ad) (ad_balancer ad)) = Ok ()
     \<and> ad_balancer (snd (serve w r ad)) = snd (load_servers (wo_unseal w) (ad_storage ad) (ad_balancer ad))"
  using assms
  by (auto simp: serve_def auth_api_middleware_def handle_reload_def failed_def respond_def Let_def
      split: prod.splits option.splits res.splits if_splits)

lemma selected_is_known:
  assumes "bal_ok b" and "intn_law intn" and "select_server intn now hg b = (Ok srv, b')"
  shows "bl_servers b (sv_name srv) \<noteq> None"
  using selected_pointer [OF _ assms(2) _ assms(3)] candidate_facts [of b _ hg] assms(1)
  by (auto simp: bal_ok_def available_filter name_at_def)

subsection \<open>Reported metrics\<close>

text \<open>Only the handlers of requests report anything.\<close>

lemma reported_step:
  assumes "sys_step s ev t"
  shows "reports_well (sy_proxy s) (sy_proxy t)"
proof -
  have on: "enabled ev s" and t: "t = react ev s" using assms(1) by (auto elim: sys_stepE)
  show ?thesis
  proof (cases ev)
    case (SyAnswer c e)
    with on obtain r where r: "sy_inflight s c = Some r" by auto
    obtain resp p where d: "dispatch e r (sy_proxy s) = (resp, p)" by fastforce
    with report.dispatch_step [of "sy_proxy s" e r] have "reports_well (sy_proxy s) p" by simp
    with r SyAnswer t d show ?thesis by (simp add: answer_def reports_well_def leave_def)
  next
    case (SyWork c p)
    with on t small_step_keeps [of "sy_proxy s" p] show ?thesis by simp
  next
    case (SyLeave c)
    with t show ?thesis by (auto simp: depart_def leave_def reports_nothing split: option.split)
  next
    case (SyAdmin w r)
    with t show ?thesis by (simp add: reports_nothing put_admin_def)
  next
    case (SyQuery c w q)
    with t show ?thesis by (auto simp: reports_nothing run_query_def put_admin_def split: prod.split res.split)
  next
    case (SyProbe unseal client start now)
    with t show ?thesis by (auto simp: reports_nothing probe_round_def put_checker_def Let_def split: res.split)
  qed (use t in \<open>auto simp: reports_nothing arrive_def enter_def hangup_def flush_log_def drain_def split: sum.split\<close>)
qed

lemma reported_run: "sys_run P s t \<Longrightarrow> reports_well (sy_proxy s) (sy_proxy t)"
  by (induction rule: sys_run.induct) (auto intro: reports_nothing reports_chain reported_step)

lemma boot_metrics:
  assumes "boot w path = Ok s"
  shows "po_metrics (sy_proxy s) = Some new_collector \<and> po_metric_log (sy_proxy s) = []"
proof -
  obtain cfg st where load: "load_initial w (assemble w cfg st) = Ok s"
    using assms by (auto simp: boot_def res_bind_Ok_iff split: sum.splits res.splits)
  then show ?thesis
    by (auto simp: load_initial_def Let_def assemble_def new_proxy_def split: prod.splits res.splits)
qed

lemma run_weaken: "sys_run P s t \<Longrightarrow> sys_run any_step s t"
  by (induction rule: sys_run.induct) (auto intro: run_start run_more)

subsection \<open>The MySQL server in the running program\<close>

definition main_ok :: "system \<Rightarrow> bool" where
  "main_ok s \<longleftrightarrow> life_inv (sy_server s)
     \<and> (sy_phase s \<in> {Serving, Draining} \<longrightarrow> lf_stop (sy_server s) = StopIdle)
     \<and> (sy_phase s = Exited \<longrightarrow> lf_stop (sy_server s) = StopDone)
     \<and> (sy_phase s = Serving \<longrightarrow> sy_shutdown s = ShutIdle)"

lemma stop_phase_kept:
  "life_next ev l = Some l' \<Longrightarrow> ev \<noteq> LfStop \<Longrightarrow> lf_stop l' = (if ev = LfStopped then StopDone else lf_stop l)"
  by (cases ev) (auto simp: accept_returns_def handler_returns_def split: if_splits)

lemma mysql_event_ok:
  assumes "main_ok s" and "alive s" and "ev \<noteq> LfStop"
  shows "main_ok (mysql_event ev s)"
proof (cases "life_next ev (sy_server s)")
  case (Some l)
  then have "life_inv l" using assms(1) life_step_inv by (auto simp: life_step_iff main_ok_def)
  with Some stop_phase_kept [OF Some assms(3)] assms(1,2) show ?thesis
    by (auto simp: main_ok_def mysql_event_def alive_def)
qed (simp add: mysql_event_def assms(1))

text \<open>The other events leave the server alone, and the program running.\<close>

lemma server_kept:
  assumes "enabled ev s" and "\<forall>c w q. ev \<noteq> SyQuery c w q" and "\<forall>e. ev \<noteq> SyMysql e" and "\<forall>d. ev \<noteq> SyDrain d"
  shows "sy_server (react ev s) = sy_server s \<and> sy_phase (react ev s) \<noteq> Exited
     \<and> (sy_phase (react ev s) \<in> {Serving, Draining} \<longrightarrow> sy_phase s \<in> {Serving, Draining})
     \<and> (sy_phase (react ev s) = Serving \<longrightarrow> sy_phase s = Serving \<and> (sy_shutdown s = ShutIdle \<longrightarrow> sy_shutdown (react ev s) = ShutIdle))"
  using assms
  by (cases ev) (auto simp: alive_def arrive_def depart_def answer_def put_admin_def probe_round_def put_checker_def hangup_def
      Let_def split: option.splits prod.splits res.splits sum.splits)

lemma query_server:
  "sy_server (run_query w q s) = sy_server s \<and> sy_phase (run_query w q s) \<in> {sy_phase s, Crashed}
     \<and> sy_shutdown (run_query w q s) = sy_shutdown s"
  by (auto simp: run_query_def put_admin_def split: prod.split res.split)

lemma main_ok_step:
  assumes "sys_step s ev t" and ok: "main_ok s"
  shows "main_ok t"
proof -
  have on: "enabled ev s" and t: "t = react ev s" using assms(1) by (auto elim: sys_stepE)
  consider (query) c w q where "ev = SyQuery c w q" | (mysql) e where "ev = SyMysql e" | (drain) d where "ev = SyDrain d"
    | (other) "\<forall>c w q. ev \<noteq> SyQuery c w q" "\<forall>e. ev \<noteq> SyMysql e" "\<forall>d. ev \<noteq> SyDrain d" by blast
  then show ?thesis
  proof cases
    case query
    let ?u = "run_query w q s"
    have "main_ok ?u" using query_server [of w q s] ok by (auto simp: main_ok_def)
    moreover have "life_next (LfCommand c) (sy_server ?u) = Some (sy_server (mysql_event (LfCommand c) ?u))"
      "sy_phase (mysql_event (LfCommand c) ?u) = sy_phase ?u"
      using on query query_server [of w q s] by (simp_all add: mysql_event_def)
    ultimately show ?thesis
      using t query life_step_inv [of "sy_server ?u" "LfCommand c"] stop_phase_kept [of "LfCommand c" "sy_server ?u"]
      by (auto simp: main_ok_def life_step_iff)
  next
    case mysql
    with on t mysql_event_ok [OF ok] show ?thesis by simp
  next
    case drain
    with on ok have "life_step (sy_server s) LfStop (stop_called (sy_server s))"
      by (intro stop) (simp add: main_ok_def)
    from life_step_inv [OF this] ok t drain show ?thesis by (auto simp: main_ok_def drain_def)
  next
    case other
    from server_kept [OF on this] t ok show ?thesis by (auto simp: main_ok_def)
  qed
qed

lemma main_ok_run: "sys_run P s t \<Longrightarrow> main_ok s \<Longrightarrow> main_ok t"
  by (induction rule: sys_run.induct) (auto intro: main_ok_step)

lemma boot_main: "boot w path = Ok s \<Longrightarrow> main_ok s \<and> sy_shutdown s = ShutIdle \<and> sy_server s = start_server"
proof -
  assume "boot w path = Ok s"
  then obtain cfg st where "load_initial w (assemble w cfg st) = Ok s"
    by (auto simp: boot_def res_bind_Ok_iff split: sum.splits res.splits)
  then have "sy_shutdown s = ShutIdle \<and> sy_server s = start_server \<and> sy_phase s = Serving"
    by (auto simp: load_initial_def Let_def assemble_def split: prod.splits res.splits)
  then show ?thesis by (simp add: main_ok_def start_inv) (simp add: start_server_def)
qed

text \<open>A client that is waited for and does nothing is waited for.\<close>

definition silent :: "nat \<Rightarrow> sys_event \<Rightarrow> bool" where
  "silent c ev \<longleftrightarrow> (\<forall>w q. ev \<noteq> SyQuery c w q) \<and> ev \<notin> {SyMysql (LfCommand c), SyMysql (LfGone c)}"

lemma silent_step:
  assumes "sys_step s ev t" and "silent c ev" and "lf_handlers (sy_server s) c = Some Reading"
  shows "lf_handlers (sy_server t) c = Some Reading"
proof -
  have on: "enabled ev s" and t: "t = react ev s" using assms(1) by (auto elim: sys_stepE)
  have mysql': "lf_handlers (sy_server (mysql_event e u)) c = Some Reading"
    if "lf_handlers (sy_server u) c = Some Reading" "e \<noteq> LfCommand c" "e \<noteq> LfGone c" for e u
    using reading_kept [of "sy_server u" e _ c] that by (auto simp: mysql_event_def life_step_iff split: option.split)
  consider (query) d w q where "ev = SyQuery d w q" | (mysql) e where "ev = SyMysql e" | (drain) d where "ev = SyDrain d"
    | (other) "\<forall>c w q. ev \<noteq> SyQuery c w q" "\<forall>e. ev \<noteq> SyMysql e" "\<forall>d. ev \<noteq> SyDrain d" by blast
  then show ?thesis
  proof cases
    case query
    then have "d \<noteq> c" using assms(2) by (auto simp: silent_def)
    with query t assms(3) show ?thesis by (simp add: mysql' query_server)
  next
    case (mysql e)
    with t mysql' [OF assms(3)] assms(2) show ?thesis by (simp add: silent_def)
  next
    case drain
    with t assms(3) show ?thesis by (simp add: drain_def stop_called_def)
  next
    case other
    from server_kept [OF on this] t assms(3) show ?thesis by simp
  qed
qed

subsection \<open>The listener of the proxy\<close>

text \<open>Once it is closed no connection is accepted.\<close>

lemma closed_step:
  assumes "sys_step s ev t" and "main_ok s" and "\<not> proxy_open s"
  shows "\<not> proxy_open t \<and> sy_conns t \<subseteq> sy_conns s"
proof -
  have on: "enabled ev s" and t: "t = react ev s" using assms(1) by (auto elim: sys_stepE)
  show ?thesis
  proof (cases ev)
    case (SyQuery c w q)
    with t assms(3) show ?thesis
      by (auto simp: run_query_def put_admin_def proxy_open_def split: prod.split res.split)
  next
    case (SyShut timed_out)
    with t assms(3) show ?thesis by (cases "sy_shutdown s") (auto simp: proxy_open_def)
  next
    case SyStop
    with on assms(2,3) show ?thesis by (simp add: proxy_open_def main_ok_def)
  qed (use on t assms(3) in \<open>auto simp: proxy_open_def arrive_def depart_def answer_def put_admin_def probe_round_def
      put_checker_def hangup_def Let_def split: option.splits prod.splits res.splits sum.splits\<close>)
qed

lemma closed_run:
  "sys_run P s t \<Longrightarrow> main_ok s \<Longrightarrow> \<not> proxy_open s \<Longrightarrow> \<not> proxy_open t \<and> sy_conns t \<subseteq> sy_conns s"
proof (induction rule: sys_run.induct)
  case (run_more t ev u)
  then have "main_ok t" by (blast intro: main_ok_run)
  with closed_step [OF run_more(2)] run_more show ?case by blast
qed simp

text \<open>A request in flight is on an accepted connection, on which it arrived.\<close>

definition flights_connected :: "system \<Rightarrow> bool" where
  "flights_connected s \<longleftrightarrow> (\<forall>c. sy_inflight s c \<noteq> None \<longrightarrow> c \<in> sy_conns s)"

lemma flights_after:
  "sy_inflight (react ev s) = (case ev of SyArrive c r \<Rightarrow> (sy_inflight s)(c := Some r)
     | SyLeave c \<Rightarrow> (sy_inflight s)(c := None) | SyAnswer c e \<Rightarrow> (sy_inflight s)(c := None) | _ \<Rightarrow> sy_inflight s)"
  by (cases ev)
    (simp_all add: arrive_def depart_def answer_def put_admin_def run_query_def probe_round_def put_checker_def
      hangup_def Let_def fun_upd_idem split: option.split prod.split res.split sum.split)

lemma conns_after:
  "sy_conns (react ev s) = (case ev of SyConnect c \<Rightarrow> insert c (sy_conns s)
     | SyDisconnect c \<Rightarrow> sy_conns s - {c} | _ \<Rightarrow> sy_conns s)"
  by (cases ev)
    (simp_all add: arrive_def depart_def answer_def put_admin_def run_query_def probe_round_def put_checker_def
      hangup_def Let_def split: option.split prod.split res.split sum.split)

lemma connected_step:
  assumes "sys_step s ev t" and "flights_connected s"
  shows "flights_connected t"
proof -
  have "enabled ev s" and "t = react ev s" using assms(1) by (auto elim: sys_stepE)
  with assms(2) show ?thesis unfolding flights_connected_def
    by (cases ev) (simp_all add: flights_after conns_after del: react.simps, auto)
qed

lemma untracked_step:
  assumes "sys_step s ev t" and "\<forall>r. tracked r \<longrightarrow> ev \<noteq> SyArrive c r" and "c \<notin> tracked_flights s"
  shows "c \<notin> tracked_flights t"
proof -
  have "t = react ev s" using assms(1) by (auto elim: sys_stepE)
  with assms(2,3) show ?thesis
    by (cases ev) (auto simp: tracked_flights_def flights_after simp del: react.simps)
qed

lemma untracked_run:
  "sys_run (\<lambda>_ ev. \<forall>r. tracked r \<longrightarrow> ev \<noteq> SyArrive c r) s t \<Longrightarrow> c \<notin> tracked_flights s \<Longrightarrow> c \<notin> tracked_flights t"
  by (induction rule: sys_run.induct) (simp, metis untracked_step)

lemma connected_run: "sys_run P s t \<Longrightarrow> flights_connected s \<Longrightarrow> flights_connected t"
  by (induction rule: sys_run.induct) (auto intro: connected_step)

lemma silent_run:
  "sys_run (\<lambda>_. silent c) s t \<Longrightarrow> lf_handlers (sy_server s) c = Some Reading \<Longrightarrow>
   lf_handlers (sy_server t) c = Some Reading"
  by (induction rule: sys_run.induct) (auto intro: silent_step)

end
