(* ===== verification/SystemFacts.thy ===== *)
theory SystemFacts
  imports System
begin

section \<open>What the running program guarantees\<close>

text \<open>
  Properties of every state that a run of the program reaches from its start, with a start
  on a small database that the witnesses run.
\<close>

subsection \<open>An example start\<close>

lemma wrap64_zero: "wrap64 (int k) = 0 \<Longrightarrow> k < 2 ^ 64 \<Longrightarrow> k = 0"
proof -
  assume k: "wrap64 (int k) = 0" "k < 2 ^ 64"
  show "k = 0"
  proof (cases "in64 (int k)")
    case False
    then have "in64 (int k - 2 ^ 64)" using k(2) by (auto simp: in64_def)
    moreover have "wrap64 (int k - 2 ^ 64) = wrap64 (int k)"
      using minus_mod_self2 [of "int k + 9223372036854775808" 18446744073709551616]
      by (simp add: wrap64_def algebra_simps)
    ultimately show ?thesis using k by simp
  qed (use k in simp)
qed

text \<open>A start with one Ollama server in the database, a small body limit and a stored password hash.\<close>

definition demo_ini :: ini where
  "demo_ini = \<lparr>must_string = (\<lambda>k d. if k = ''admin_password_hash'' then ''hash'' else d),
     must_int = (\<lambda>k d. if k = ''max_request_body_size'' then 64 else d), must_bool = (\<lambda>k d. d), must_float = (\<lambda>k d. d)\<rparr>"

definition demo_world_at_start :: boot_world where
  "demo_world_at_start = \<lparr>bw_stat = (\<lambda>_. False), bw_read = (\<lambda>_. Inr demo_ini), bw_home = [],
     bw_database = (\<lambda>_. demo_store), bw_sha = (\<lambda>s. s), bw_unseal = (\<lambda>_ _ _. None),
     bw_compile = literal_compiler, bw_slice = (\<lambda>r. r), bw_bcrypt = (\<lambda>_ p. Some p),
     bw_random = Some ''random'', bw_salt = None\<rparr>"

definition demo_system :: system where
  "demo_system = (case boot demo_world_at_start ''mindbalancer.cnf'' of Ok s \<Rightarrow> s)"

lemma demo_boot_facts: "case boot demo_world_at_start ''mindbalancer.cnf'' of
     Ok s \<Rightarrow> length (st_servers (po_storage (sy_proxy s))) = 1 \<and> bl_servers (po_balancer (sy_proxy s)) ''one'' = Some 0
   | _ \<Rightarrow> False"
  by code_simp

lemma demo_answer: "let (resp, s) = answer 0 (post chat_endpoint) (demo_env (\<lambda>_. Answer 200 ''yes'')) (arrive 0 (post chat_endpoint) demo_system)
    in ar_status resp = 200 \<and> ar_body resp = PbBytes ''{}''"
  by code_simp

definition demo_login :: web_request where
  "demo_login = (demo_request ''/admin/login'' [])\<lparr>hr_method := ''POST'',
     hr_form := Some (\<lambda>k. if k = ''username'' then ''admin'' else ''hash'')\<rparr>"

definition demo_logged_in :: system where
  "demo_logged_in = react (SyAdmin demo_web demo_login) demo_system"

definition demo_reload :: web_request where
  "demo_reload = (demo_request ''/api/reload'' (b64_url ''random''))\<lparr>hr_method := ''POST''\<rparr>"

lemma demo_reload_ok: "rs_status (fst (serve demo_web demo_reload (admin_of demo_logged_in))) = 200"
  by code_simp

lemma run_first: "sys_step s ev t \<Longrightarrow> P s ev \<Longrightarrow> sys_run P t u \<Longrightarrow> sys_run P s u"
  by (rotate_tac 2, induction rule: sys_run.induct) (blast intro: run_start run_more)+

lemma run_react:
  "sys_run P s t \<Longrightarrow> enabled ev t \<Longrightarrow> fits t \<Longrightarrow> P t ev \<Longrightarrow> sys_run P s (react ev t)"
  by (blast intro: run_more happens)

abbreviation demo_path :: string where "demo_path \<equiv> ''mindbalancer.cnf''"

lemma demo_boot: "boot demo_world_at_start demo_path = Ok demo_system"
  and demo_rows: "length (st_servers (po_storage (sy_proxy demo_system))) = 1"
  and demo_known: "bl_servers (po_balancer (sy_proxy demo_system)) ''one'' = Some 0"
  using demo_boot_facts by (auto simp: demo_system_def split: res.splits)

lemma demo_database: "database_ok demo_world_at_start"
  by (simp add: database_ok_def demo_world_at_start_def demo_store_def demo_tables_def st_inv_def empty_tables_def)

lemma demo_serving: "sy_phase demo_system = Serving" "sy_inflight demo_system = (\<lambda>_. None)"
  "sy_shutdown demo_system = ShutIdle" "sy_server demo_system = start_server" "sy_conns demo_system = {}"
  using boot_serving [OF demo_boot] boot_main [OF demo_boot] by simp_all

lemmas open_defs [simp] = alive_def proxy_open_def

lemma demo_fits: "fits demo_system"
  by (simp add: fits_def demo_rows demo_serving)

definition demo_connected :: system where
  "demo_connected = react (SyConnect 0) demo_system"

lemma demo_connection: "P demo_system (SyConnect 0) \<Longrightarrow> sys_run P demo_system demo_connected"
  by (rule run_more [OF run_start happens [OF _ demo_fits]])
    (simp_all add: demo_connected_def demo_serving)

lemma demo_connected_facts: "sy_phase demo_connected = Serving" "sy_inflight demo_connected = (\<lambda>_. None)"
  "sy_shutdown demo_connected = ShutIdle" "sy_server demo_connected = start_server" "sy_conns demo_connected = {0}"
  "sy_proxy demo_connected = sy_proxy demo_system" "fits demo_connected"
  using demo_fits by (simp_all add: demo_connected_def demo_serving fits_def)

definition demo_arrived :: "api_request \<Rightarrow> system" where
  "demo_arrived r = react (SyArrive 0 r) demo_connected"

lemma demo_arrival: "sys_run any_step demo_system (demo_arrived r)"
  unfolding demo_arrived_def
  by (rule run_react [OF demo_connection]) (simp_all add: demo_connected_facts)

lemma demo_arrived_fits: "fits (demo_arrived r)"
  by (simp add: fits_def demo_arrived_def arrive_def enter_def demo_rows demo_connected_facts)

subsection \<open>Properties\<close>

text \<open>
  C6: The running program is well formed in every state it reaches, whatever requests,
  administrative operations, queries, probes, signals and background work come in whatever
  order: the unique columns of the tables are unique, the balancer's pointers are sound and
  its counters are 64-bit values, it asks the same checker that the probes write, every
  shard of the cache is consistent, and the counter of active requests is the number of the
  requests in flight.\<close>

theorem running_system_well_formed:
  assumes "database_ok w" and "boot w path = Ok s" and "sys_run any_step s t"
  shows "st_inv (po_storage (sy_proxy t)) \<and> bal_ok (po_balancer (sy_proxy t))
     \<and> bl_health (po_balancer (sy_proxy t)) = Some (sy_checker t) \<and> cache_inv (po_cache (sy_proxy t))
     \<and> active_requests (sy_proxy t) = wrap64 (int (card (tracked_flights t)))"
proof -
  have "sys_inv t" using sys_run_inv [OF assms(3)] boot_inv [OF assms(1,2)] by blast
  then show ?thesis by (simp add: sys_inv_def active_requests_def)
qed

theorem running_system_well_formed_witness:
  "active_requests (sy_proxy (demo_arrived (post chat_endpoint)))
     = wrap64 (int (card (tracked_flights (demo_arrived (post chat_endpoint)))))"
  using running_system_well_formed [OF demo_database demo_boot demo_arrival] by simp

definition demo_answered :: system where
  "demo_answered = snd (answer 0 (post chat_endpoint) (demo_env (\<lambda>_. Answer 200 ''yes'')) (demo_arrived (post chat_endpoint)))"

lemma demo_answered_run: "sys_run any_step demo_system demo_answered"
proof (rule run_more [OF demo_arrival happens [OF _ demo_arrived_fits]])
  let ?ev = "SyAnswer 0 (demo_env (\<lambda>_. Answer 200 ''yes''))" and ?r = "post chat_endpoint"
  have r: "sy_inflight (demo_arrived ?r) 0 = Some ?r" "sy_phase (demo_arrived ?r) = Serving"
    by (simp_all add: demo_arrived_def arrive_def demo_connected_facts)
  then show "enabled ?ev (demo_arrived ?r)" "demo_answered = react ?ev (demo_arrived ?r)"
    by (simp_all add: demo_answered_def)
qed simp

text \<open>
  C7: A reload decides which servers get requests. After a POST to \<open>/api/reload\<close> that was
  answered with 200, and until the next reload, whatever else happens, only servers are
  selected whose row was not OFFLINE when the reload read it; and the balancer knows exactly
  those.\<close>

theorem reload_decides_servers:
  assumes "database_ok w" and "boot w path = Ok s" and "sys_run any_step s t"
    and "sys_step t (SyAdmin v r) u" and "hr_path r = ''/api/reload''" and "rs_status (fst (serve v r (admin_of t))) = 200"
    and "sys_run (\<lambda>_ ev. \<not> reloads ev) u x"
  shows "(bl_servers (po_balancer (sy_proxy x)) name \<noteq> None \<longleftrightarrow>
      (\<exists>row \<in> set (st_servers (po_storage (sy_proxy t))). sv_name row = name \<and> sv_status row \<noteq> status_offline))
     \<and> (intn_law intn \<longrightarrow> fst (select_server intn now hg (po_balancer (sy_proxy x))) = Ok srv \<longrightarrow>
      (\<exists>row \<in> set (st_servers (po_storage (sy_proxy t))). sv_name row = sv_name srv \<and> sv_status row \<noteq> status_offline))"
proof -
  have route: "find_route (hr_path r) = Some EpReload" using assms(5) by (simp add: find_route_def routes_def pattern_matches_def has_suffix_def has_prefix_def)
  let ?ad = "admin_of t"
  let ?l = "load_servers (wo_unseal v) (ad_storage ?ad) (ad_balancer ?ad)"
  have u: "u = put_admin (snd (serve v r ?ad)) t" using assms(4) by (auto elim: sys_stepE)
  from reload_reply [OF route assms(6)] have load: "fst ?l = Ok ()"
    and b: "po_balancer (sy_proxy u) = snd ?l" by (simp_all add: u put_admin_def)
  have st: "ad_storage ?ad = po_storage (sy_proxy t)" by (simp add: admin_of_def Let_def)
  have known: "bl_servers (po_balancer (sy_proxy x)) n \<noteq> None \<longleftrightarrow>
      (\<exists>row \<in> set (st_servers (po_storage (sy_proxy t))). sv_name row = n \<and> sv_status row \<noteq> status_offline)" for n
    using load_servers_exact [OF load] unfolding servers_kept_run [OF assms(7)] b st .
  have "sys_inv x"
    using sys_run_inv [OF assms(7)] step_inv [OF assms(4)] sys_run_inv [OF assms(3)] boot_inv [OF assms(1,2)] by blast
  then have ok: "bal_ok (po_balancer (sy_proxy x))" by (simp add: sys_inv_def)
  have "bl_servers (po_balancer (sy_proxy x)) (sv_name srv) \<noteq> None"
    if "intn_law intn" "fst (select_server intn now hg (po_balancer (sy_proxy x))) = Ok srv"
    using selected_is_known [OF ok that(1)] that(2) by (metis surjective_pairing)
  with known show ?thesis by blast
qed

lemma demo_logged_in_step: "sys_step demo_system (SyAdmin demo_web demo_login) demo_logged_in"
  by (rule happens [OF _ demo_fits]) (simp_all add: demo_logged_in_def demo_serving)

lemma demo_logged_in_rows: "length (st_servers (po_storage (sy_proxy demo_logged_in))) = 1"
proof -
  have "find_route ''/admin/login'' = Some EpLogin" by code_simp
  then have "serve demo_web demo_login (admin_of demo_system) = handle_login demo_web demo_login (admin_of demo_system)"
    by (simp add: serve_def demo_login_def demo_request_def)
  with login_state [of demo_web demo_login "admin_of demo_system"] demo_rows show ?thesis
    by (simp add: demo_logged_in_def put_admin_def core_def) (simp add: admin_of_def Let_def)
qed

lemma demo_reload_step: "sys_step demo_logged_in (SyAdmin demo_web demo_reload) (react (SyAdmin demo_web demo_reload) demo_logged_in)"
  by (rule happens)
    (simp_all add: fits_def demo_logged_in_rows, simp_all add: demo_logged_in_def put_admin_def demo_serving)

theorem reload_decides_servers_witness:
  "bl_servers (po_balancer (sy_proxy (react (SyAdmin demo_web demo_reload) demo_logged_in))) ''one'' \<noteq> None \<longleftrightarrow>
    (\<exists>row \<in> set (st_servers (po_storage (sy_proxy demo_logged_in))). sv_name row = ''one'' \<and> sv_status row \<noteq> status_offline)"
  using reload_decides_servers [OF demo_database demo_boot run_more [OF run_start demo_logged_in_step] demo_reload_step
      _ demo_reload_ok run_start]
  by (simp add: demo_reload_def demo_request_def)

text \<open>
  C8: The settings of the breakers, the limiter and the health checker are those of the
  configuration at the start for as long as the program runs: neither SIGHUP nor SET nor a
  PUT of a variable reaches them, although all three change the configuration. And the
  algorithm is always the weighted round robin, as nothing sets another one.\<close>

theorem settings_fixed_at_start:
  assumes "database_ok w" and "boot w path = Ok s"
    and "load_config (bw_stat w) (bw_read w) (bw_home w) path = Inr cfg" and "sys_run any_step s t"
  shows "\<exists>m l. bl_circuits (po_balancer (sy_proxy t)) = Some m \<and> po_limiter (sy_proxy t) = Some l
     \<and> (\<forall>n b. mg_breakers m n = Some b \<longrightarrow> br_threshold b = cb_threshold (cf_breaker cfg)
          \<and> br_success_threshold b = cb_success_threshold (cf_breaker cfg) \<and> br_timeout b = circuit_breaker_timeout cfg)
     \<and> lm_enabled l = rate_limit_enabled (cf_limit cfg)
     \<and> lm_defaults l = \<lparr>lim_requests = default_requests_per_minute (cf_limit cfg), lim_tokens = default_tokens_per_minute (cf_limit cfg)\<rparr>
     \<and> hc_interval (sy_checker t) = health_check_interval cfg \<and> hc_timeout (sy_checker t) = health_check_timeout cfg
     \<and> bl_algorithm (po_balancer (sy_proxy t)) = alg_weighted_round_robin"
proof -
  have inv: "sys_inv t" and same: "settings_of t = settings_at_start cfg"
    using sys_run_inv [OF assms(4)] boot_inv [OF assms(1,2)] assms(3) by auto
  from same obtain m l where "bl_circuits (po_balancer (sy_proxy t)) = Some m" "po_limiter (sy_proxy t) = Some l"
    by (auto simp: settings_of_def settings_at_start_def)
  with same inv show ?thesis
    by (auto simp: settings_of_def settings_at_start_def mgr_settings_def limiter_settings_def sys_inv_def mgr_ok_def
        breaker_settings_def)
qed

definition demo_hangup :: sys_event where
  "demo_hangup = SyHangup (demo_world_at_start\<lparr>bw_read := (\<lambda>_. Inr (demo_ini\<lparr>must_int := (\<lambda>_ _. 7)\<rparr>))\<rparr>) demo_path"

lemma demo_load: "load_config (bw_stat demo_world_at_start) (bw_read demo_world_at_start) (bw_home demo_world_at_start) demo_path
    = Inr (load_policy demo_ini (load_service demo_ini default_settings))"
  by (simp add: load_config_def demo_world_at_start_def Let_def)

theorem settings_fixed_at_start_witness:
  "\<exists>l. po_limiter (sy_proxy (react demo_hangup demo_system)) = Some l \<and> lim_requests (lm_defaults l) = 1000"
proof -
  have "sys_run any_step demo_system (react demo_hangup demo_system)"
    by (rule run_react [OF run_start _ demo_fits]) (simp_all add: demo_hangup_def demo_serving)
  from settings_fixed_at_start [OF demo_database demo_boot demo_load this] show ?thesis
    by (auto simp: load_policy_def load_service_def demo_ini_def default_settings_def)
qed

text \<open>
  C9: A shutdown that ends at a tick drops nothing that had arrived: when the loop finds no
  active request, none but health checks are in flight, and from there on until the program
  ends a connection has another request in flight only if it arrives on it later; if the
  listener of the proxy is closed by then, only on the connections it had accepted, of which
  no new ones come.\<close>

theorem drained_means_idle:
  assumes "database_ok w" and "boot w path = Ok s" and "sys_run any_step s t"
    and "sys_step t (SyDrain DrainTick) u" and "sy_phase u = Closing"
  shows "tracked_flights u = {}
     \<and> (\<forall>x c. sys_run (\<lambda>_ ev. \<forall>r. tracked r \<longrightarrow> ev \<noteq> SyArrive c r) u x \<longrightarrow> c \<notin> tracked_flights x)
     \<and> (\<forall>x. \<not> proxy_open u \<longrightarrow> sys_run any_step u x \<longrightarrow> tracked_flights x \<subseteq> sy_conns x \<and> sy_conns x \<subseteq> sy_conns u)"
proof (intro conjI allI impI)
  have on: "sy_phase t = Draining" and fits: "fits t" and u: "u = drain DrainTick t"
    using assms(4) by (auto elim: sys_stepE)
  have "active_requests (sy_proxy t) = 0" using u on assms(5) by (auto simp: drain_def split: if_splits)
  moreover have "sys_inv t" using sys_run_inv [OF assms(3)] boot_inv [OF assms(1,2)] by blast
  ultimately have "wrap64 (int (card (tracked_flights t))) = 0" by (simp add: sys_inv_def active_requests_def)
  then have "card (tracked_flights t) = 0" using tracked_finite [OF fits] by (simp add: wrap64_zero del: card_eq_0_iff)
  then have "tracked_flights t = {}" using tracked_finite [OF fits] by simp
  then show idle: "tracked_flights u = {}" by (simp add: u tracked_flights_def)
  fix x c
  show "c \<notin> tracked_flights x" if "sys_run (\<lambda>_ ev. \<forall>r. tracked r \<longrightarrow> ev \<noteq> SyArrive c r) u x"
    using untracked_run [OF that] idle by simp
next
  fix x assume closed: "\<not> proxy_open u" and run: "sys_run any_step u x"
  have "flights_connected s" using boot_serving [OF assms(2)] by (simp add: flights_connected_def)
  then have "flights_connected x"
    using connected_run [OF run] connected_step [OF assms(4)] connected_run [OF assms(3)] by blast
  then show "tracked_flights x \<subseteq> sy_conns x" using tracked_subset [of x] by (auto simp: flights_connected_def)
  have "main_ok u"
    using main_ok_step [OF assms(4) main_ok_run [OF assms(3)]] boot_main [OF assms(2)] by blast
  from closed_run [OF run this closed] show "sy_conns x \<subseteq> sy_conns u" by simp
qed

text \<open>
  A shutdown with a health check in flight and the listener closed, until the program waits
  for the MySQL server.
\<close>

abbreviation demo_check :: api_request where "demo_check \<equiv> post ''/health''"

definition demo_draining :: system where
  "demo_draining = react (SyShut False) (react (SyShut False) (react SyStop (demo_arrived demo_check)))"

definition demo_closing :: system where
  "demo_closing = react (SyDrain DrainTick) demo_draining"

lemma demo_active: "active_requests (sy_proxy (demo_arrived demo_check)) = 0"
proof -
  have "sys_inv demo_system" using boot_inv [OF demo_database demo_boot] by blast
  then show ?thesis
    by (simp add: sys_inv_def tracked_flights_def demo_serving demo_arrived_def arrive_def tracked_def post_def
        active_requests_def in64_def demo_connected_facts)
qed

lemma demo_drained:
  "sys_run any_step demo_system demo_draining" "sys_step demo_draining (SyDrain DrainTick) demo_closing"
  "sy_phase demo_closing = Closing" "\<not> proxy_open demo_closing" "sy_conns demo_closing = {0}" "fits demo_closing"
  "sy_inflight demo_closing 0 = Some demo_check" "sy_server demo_closing = stop_called start_server"
proof -
  let ?a = "demo_arrived demo_check"
  have at: "sy_phase ?a = Serving" "sy_shutdown ?a = ShutIdle" "sy_conns ?a = {0}"
      "sy_inflight ?a 0 = Some demo_check" "sy_server ?a = start_server"
    by (simp_all add: demo_arrived_def arrive_def demo_connected_facts)
  have fits: "fits ?a" "fits (react SyStop ?a)" "fits (react (SyShut False) (react SyStop ?a))" "fits demo_draining"
    using demo_arrived_fits [of demo_check] by (simp_all add: fits_def demo_draining_def)
  note run = run_react [OF run_react [OF run_react [OF demo_arrival _ fits(1)] _ fits(2)] _ fits(3)]
  show "sys_run any_step demo_system demo_draining"
    unfolding demo_draining_def by (rule run) (simp_all add: at)
  show "sys_step demo_draining (SyDrain DrainTick) demo_closing"
    unfolding demo_closing_def by (rule happens [OF _ fits(4)]) (simp_all add: demo_draining_def at)
  show "sy_phase demo_closing = Closing" "\<not> proxy_open demo_closing" "sy_conns demo_closing = {0}"
    "sy_inflight demo_closing 0 = Some demo_check" "sy_server demo_closing = stop_called start_server"
    using demo_active by (simp_all add: demo_closing_def demo_draining_def drain_def at)
  then show "fits demo_closing"
    using fits(4) by (simp add: demo_closing_def fits_def)
qed

theorem drained_means_idle_witness: "tracked_flights demo_closing = {}"
  using drained_means_idle [OF demo_database demo_boot demo_drained(1-3)] by blast

text \<open>
  The program does not wait for what arrives later. Even with the listener closed: a connection
  that was accepted before and whose health check was in flight at the tick delivers a chat
  request after it, and the program ends without answering.\<close>

lemma late_request_is_dropped:
  "\<exists>t. sys_run any_step demo_closing t \<and> sy_phase t = Exited \<and> sy_inflight t 0 = Some (post chat_endpoint)"
proof -
  let ?r = "post chat_endpoint"
  let ?b = "react (SyLeave 0) demo_closing"
  let ?c = "react (SyArrive 0 ?r) ?b"
  let ?d = "react (SyMysql LfLook) ?c"
  let ?e = "react (SyMysql LfStopped) ?d"
  note at = demo_drained(3-5,7,8)
  have b: "sy_phase ?b = Closing" "sy_server ?b = stop_called start_server" "sy_inflight ?b 0 = None" "sy_conns ?b = {0}"
    by (simp_all add: depart_def at)
  have c: "sy_phase ?c = Closing" "sy_server ?c = stop_called start_server" "sy_inflight ?c 0 = Some ?r"
    using b by (simp_all add: arrive_def)
  have d: "sy_phase ?d = Closing" "sy_server ?d = accept_returns (stop_called start_server)" "sy_inflight ?d 0 = Some ?r"
    using c by (simp_all add: mysql_event_def stop_called_def start_server_def)
  have e: "sy_phase ?e = Exited" "sy_inflight ?e 0 = Some ?r"
    using d by (simp_all add: mysql_event_def stop_called_def start_server_def accept_returns_def)
  have rows: "po_storage (sy_proxy demo_closing) = po_storage (sy_proxy demo_system)" "sy_inflight demo_closing = [0 \<mapsto> demo_check]"
    by (simp_all add: demo_closing_def demo_draining_def demo_arrived_def arrive_def enter_def demo_connected_facts)
  have fits: "fits ?b" "fits ?c" "fits ?d"
    by (simp_all add: fits_def depart_def leave_def arrive_def enter_def rows demo_rows)
  moreover have "enabled (SyLeave 0) demo_closing" "enabled (SyArrive 0 ?r) ?b" using at b by simp_all
  moreover have "enabled (SyMysql LfLook) ?c" "enabled (SyMysql LfStopped) ?d"
    unfolding enabled.simps alive_def c d by (simp_all add: stop_called_def start_server_def accept_returns_def)
  ultimately have "sys_run any_step demo_closing ?e"
    by (intro run_react [OF run_react [OF run_react [OF run_react [OF run_start]]]] demo_drained(6)) simp_all
  with e show ?thesis by blast
qed

text \<open>
  C38: The return of \<open>main\<close> waits for the clients of the MySQL server: the program comes to its
  regular end only when every connection is gone, and not while a client whose handler waits
  for its next command sends nothing and stays; the deadlines of the shutdown do not reach
  it. Only a panic that ends the process (the phase \<open>Crashed\<close>) ends it all the same.\<close>

theorem exit_waits_for_mysql_clients:
  assumes "boot w path = Ok s" and "sys_run any_step s t"
    and "lf_handlers (sy_server t) c = Some Reading" and "sys_run (\<lambda>_. silent c) t x" and "sys_run any_step x y"
  shows "sy_phase x \<in> {Serving, Draining, Closing, Crashed}
     \<and> (sy_phase y = Exited \<longrightarrow> lf_handlers (sy_server y) = Map.empty)"
proof -
  have "main_ok t" using main_ok_run [OF assms(2)] boot_main [OF assms(1)] by blast
  then have ok: "main_ok x" "main_ok y" using main_ok_run assms(4,5) by blast+
  have "lf_handlers (sy_server x) c = Some Reading" using silent_run [OF assms(4,3)] .
  with ok have "sy_phase x \<noteq> Exited" and "sy_phase y = Exited \<longrightarrow> lf_handlers (sy_server y) = Map.empty"
    by (auto simp: main_ok_def life_inv_def)
  then show ?thesis by (cases "sy_phase x") simp_all
qed

text \<open>A run of the MySQL server's goroutines is a run of the program.\<close>

lemma mysql_run:
  assumes "life_run (sy_server s) evs l" and "alive s" and "fits s" and "set evs \<inter> {LfStop, LfStopped} = {}"
  shows "sys_run any_step s (s\<lparr>sy_server := l\<rparr>)"
  using assms
proof (induction "sy_server s" evs l arbitrary: s rule: life_run.induct)
  case run_empty
  then show ?case by (simp add: run_start)
next
  case (run_step ev l' evs l)
  let ?s = "s\<lparr>sy_server := l'\<rparr>"
  have next_state: "life_next ev (sy_server s) = Some l'" and "ev \<noteq> LfStop" "ev \<noteq> LfStopped"
    using run_step(1,6) by (auto simp: life_step_iff)
  then have "react (SyMysql ev) s = ?s" "enabled (SyMysql ev) s"
    using run_step(4) by (auto simp: mysql_event_def)
  then have "sys_step s (SyMysql ev) ?s" using happens [of "SyMysql ev" s] run_step(5) by simp
  moreover have "sys_run any_step ?s (?s\<lparr>sy_server := l\<rparr>)"
    using run_step(3) [of ?s] run_step(4-6) by (simp add: fits_def)
  ultimately show ?case by (simp add: run_first)
qed

definition demo_client :: system where
  "demo_client = demo_system\<lparr>sy_server := demo_reading\<rparr>"

theorem exit_waits_for_mysql_clients_witness: "sy_phase (react (SyDrain DrainTimeout) (react SyStop demo_client)) \<noteq> Exited"
proof -
  have "life_run (sy_server demo_system) [LfLook, LfAccept 7, LfShaken 7, LfLookBack 7] demo_reading"
    using demo_reading_run by (simp only: demo_serving)
  from mysql_run [OF this _ demo_fits] have client: "sys_run any_step demo_system demo_client"
    by (simp add: demo_client_def demo_serving)
  have fits: "fits demo_client" "fits (react SyStop demo_client)"
    using demo_fits by (simp_all add: demo_client_def fits_def)
  have "sys_run (\<lambda>_. silent 7) demo_client (react (SyDrain DrainTimeout) (react SyStop demo_client))"
    by (rule run_react [OF run_react [OF run_start _ fits(1)] _ fits(2)])
      (simp_all add: demo_client_def demo_serving silent_def)
  from exit_waits_for_mysql_clients [OF demo_boot client _ this run_start] show ?thesis
    by (auto simp: demo_client_def demo_reading_def)
qed

text \<open>
  C10: The collector never panics (apart from client_golang's check that label values are valid
  UTF-8, as bytes are characters here), and never tells about half of what it registers: in every
  state the running program reaches, each update that was sent to it names a registered
  metric of the kind the update is for, has a value for each of its labels, and lets no
  counter fall; none is an update of the gauges for servers, breakers, connections and
  requests in flight, of the error counter, or of the cache's evictions and memory.\<close>

theorem updates_are_accepted:
  assumes "boot w path = Ok s" and "sys_run any_step s t"
  shows "\<exists>c. po_metrics (sy_proxy t) = Some c \<and> must_register [] (co_registry c) = Ok (co_registry c)
     \<and> list_all (\<lambda>u. accepted (co_registry c) u \<and> metric_name u \<notin> set silent_metrics) (po_metric_log (sy_proxy t))"
proof -
  have "po_metrics (sy_proxy t) = Some new_collector" "list_all request_update (po_metric_log (sy_proxy t))"
    using reported_run [OF assms(2)] boot_metrics [OF assms(1)] by (auto simp: reports_well_def)
  moreover have "request_update u \<Longrightarrow> accepted registered u \<and> metric_name u \<notin> set silent_metrics" for u
    using registered_metrics_split(2) by (auto simp: request_update_def)
  ultimately show ?thesis
    by (auto simp: new_collector_def registration_succeeds list_all_iff)
qed

theorem updates_are_accepted_witness:
  "list_all (\<lambda>u. metric_name u \<notin> set silent_metrics) (po_metric_log (sy_proxy demo_answered))"
  using updates_are_accepted [OF demo_boot demo_answered_run] by (auto simp: list_all_iff)

text \<open>
  With the default settings the write deadline of the connection is shorter than the time
  that a request for a slow model may take: the answer of an \<open>o1\<close> model that needs more than
  two minutes cannot be written.\<close>

lemma slow_models_outlive_the_connection:
  "hl_write_timeout (proxy_listener default_settings) < get_model_timeout ''o1'' default_settings"
  by (simp add: proxy_listener_def get_model_timeout_def default_settings_def ms_def mul64_def wrap64_def time_simps)

text \<open>A health check interval of zero ends the program at its start, even with the checks disabled.\<close>

lemma zero_interval_panics:
  assumes "load_config (bw_stat w) (bw_read w) (bw_home w) path = Inr cfg" and "check_interval_ms (cf_check cfg) = 0"
  shows "\<not> is_Ok (boot w path)"
proof -
  have "0 < hc_interval (sy_checker s)" if "boot w path = Ok s" for s
    using that by (auto simp: boot_def res_bind_Ok_iff start_checker_def split: sum.splits res.splits if_splits)
  moreover have "hc_interval (sy_checker s) = 0" if "boot w path = Ok s" for s
    using that assms
    by (auto simp: boot_def res_bind_Ok_iff load_initial_def assemble_def Let_def set_update_callback_def
        new_checker_def health_check_interval_def ms_def mul64_def in64_def split: res.splits prod.splits)
  ultimately show ?thesis by (cases "boot w path") force+
qed

end
