(* ===== verification/Html.thy ===== *)
theory Html
  imports OpenAI
begin

section \<open>HTML and JavaScript of the admin pages (internal/admin/admin_panel.go, monitoring.go)\<close>

text \<open>
  The helper functions that both admin pages define, on JSON values as a script sees them
  (a missing property is \<^const>\<open>None\<close>), and the reader against which they are judged: how a
  browser takes a piece of HTML apart, what a table shows, and which calls its buttons make.
\<close>

subsection \<open>Values of a script\<close>

definition prop_of :: "json \<Rightarrow> string \<Rightarrow> json option" where
  "prop_of v k = (case v of JObj fs \<Rightarrow> map_of fs k | _ \<Rightarrow> None)"

definition truthy :: "json option \<Rightarrow> bool" where
  "truthy v = (case v of None \<Rightarrow> False | Some JNull \<Rightarrow> False | Some (JBool b) \<Rightarrow> b
     | Some (JNum q) \<Rightarrow> q \<noteq> 0 | Some (JStr s) \<Rightarrow> s \<noteq> [] | Some _ \<Rightarrow> True)"

text \<open>\<open>v || w\<close>.\<close>

definition or_else :: "json option \<Rightarrow> json \<Rightarrow> json" where
  "or_else v w = (if truthy v then the v else w)"

text \<open>
  \<open>String(v)\<close>. An integer is printed in decimal; how a fraction is printed is an argument.
  (Integers beyond \<open>2 ^ 53\<close>, which \<open>JSON.parse\<close> rounds, are not rounded here; the properties
  that depend on their digits exclude them.)
\<close>

definition number_text :: "(rat \<Rightarrow> string) \<Rightarrow> rat \<Rightarrow> string" where
  "number_text fl q = (if q = of_int \<lfloor>q\<rfloor> then itoa \<lfloor>q\<rfloor> else fl q)"

fun js_text :: "(rat \<Rightarrow> string) \<Rightarrow> json \<Rightarrow> string" where
  "js_text fl JNull = ''null''"
| "js_text fl (JBool b) = (if b then ''true'' else ''false'')"
| "js_text fl (JNum q) = number_text fl q"
| "js_text fl (JStr s) = s"
| "js_text fl (JList vs) = concat (map (\<lambda>(i, t). if i = 0 then t else CHR '','' # t)
     (zip [0..<length vs] (map (\<lambda>v. if v = JNull then [] else js_text fl v) vs)))"
| "js_text fl (JObj fs) = ''[object Object]''"

definition js_string :: "(rat \<Rightarrow> string) \<Rightarrow> json option \<Rightarrow> string" where
  "js_string fl v = (case v of None \<Rightarrow> ''undefined'' | Some w \<Rightarrow> js_text fl w)"

text \<open>
  Fields that the Go encoder always writes as numbers are read as numbers, and 0 stands for
  a missing one, which \<open>x || 0\<close> makes of it.
\<close>

definition num :: "json option \<Rightarrow> rat" where
  "num v = (case v of Some (JNum q) \<Rightarrow> q | _ \<Rightarrow> 0)"

lemma number_text_int [simp]: "number_text fl (of_int i) = itoa i"
  by (simp add: number_text_def)

subsection \<open>Formatting\<close>

text \<open>\<open>x.toFixed(k)\<close> (the larger of two equally near numbers) and \<open>Math.round\<close>.\<close>

definition to_fixed :: "nat \<Rightarrow> rat \<Rightarrow> string" where
  "to_fixed k q =
     (let n = nat \<lfloor>\<bar>q\<bar> * 10 ^ k + 1 / 2\<rfloor>; frac = dec_digits (n mod 10 ^ k)
      in (if q < 0 then ''-'' else []) @ dec_digits (n div 10 ^ k) @
         (if k = 0 then [] else CHR ''.'' # replicate (k - length frac) CHR ''0'' @ frac))"

definition math_round :: "rat \<Rightarrow> int" where
  "math_round q = \<lfloor>q + 1 / 2\<rfloor>"

definition format_number :: "(rat \<Rightarrow> string) \<Rightarrow> rat \<Rightarrow> string" where
  "format_number fl q =
     (if 1000000 \<le> q then to_fixed 1 (q / 1000000) @ ''M''
      else if 1000 \<le> q then to_fixed 1 (q / 1000) @ ''K''
      else number_text fl q)"

definition format_bytes :: "(rat \<Rightarrow> string) \<Rightarrow> rat \<Rightarrow> string" where
  "format_bytes fl q =
     (if 1073741824 \<le> q then to_fixed 1 (q / 1073741824) @ '' GB''
      else if 1048576 \<le> q then to_fixed 1 (q / 1048576) @ '' MB''
      else if 1024 \<le> q then to_fixed 1 (q / 1024) @ '' KB''
      else number_text fl q @ '' B'')"

definition percent :: "nat \<Rightarrow> rat \<Rightarrow> string" where
  "percent k q = to_fixed k (q * 100) @ ''%''"

text \<open>
  How a person reads such figures, which does not depend on how they are written: a decimal
  number with an optional sign and fraction, behind it perhaps K or M for thousands and
  millions, a percent sign, or ms.
\<close>

definition read_unsigned :: "string \<Rightarrow> rat option" where
  "read_unsigned s = Option.bind (parse_dec (takeWhile is_digit s)) (\<lambda>n. case dropWhile is_digit s of [] \<Rightarrow> Some (of_nat n)
     | c # f \<Rightarrow> if c = CHR ''.'' then map_option (\<lambda>k. of_nat n + of_nat k / 10 ^ length f) (parse_dec f) else None)"

definition read_decimal :: "string \<Rightarrow> rat option" where
  "read_decimal s = (case s of [] \<Rightarrow> None
     | c # t \<Rightarrow> if c = CHR ''-'' then map_option uminus (read_unsigned t) else read_unsigned s)"

definition read_unit :: "string \<Rightarrow> string \<Rightarrow> rat option" where
  "read_unit u s = (if length u \<le> length s \<and> drop (length s - length u) s = u
     then read_decimal (take (length s - length u) s) else None)"

definition read_figure :: "string \<Rightarrow> rat option" where
  "read_figure s = (if s \<noteq> [] \<and> last s = CHR ''M'' then map_option (\<lambda>v. 1000000 * v) (read_decimal (butlast s))
     else if s \<noteq> [] \<and> last s = CHR ''K'' then map_option (\<lambda>v. 1000 * v) (read_decimal (butlast s))
     else read_decimal s)"

text \<open>
  What the figures are to say: a number below a thousand exactly, a larger one to the nearest
  hundred, from a million on to the nearest hundred thousand; the share of the requests
  without an error to the nearest tenth of a percent; a latency (given in nanoseconds) to the
  nearest millisecond. Where there is no request, or no half millisecond, a dash.
\<close>

definition shows_number :: "string \<Rightarrow> rat \<Rightarrow> bool" where
  "shows_number s q = (case read_figure s of None \<Rightarrow> False
     | Some v \<Rightarrow> \<bar>v - q\<bar> \<le> (if q < 1000 then 0 else if q < 1000000 then 50 else 50000))"

definition shows_success :: "string \<Rightarrow> rat \<Rightarrow> rat \<Rightarrow> bool" where
  "shows_success s reqs errors = (if 0 < reqs then (case read_unit ''%'' s of None \<Rightarrow> False
       | Some v \<Rightarrow> \<bar>v - 100 * (reqs - errors) / reqs\<bar> \<le> 1 / 20) else s = ''-'')"

definition shows_latency :: "string \<Rightarrow> rat \<Rightarrow> bool" where
  "shows_latency s l = (if 500000 \<le> l then (case read_unit ''ms'' s of None \<Rightarrow> False
       | Some v \<Rightarrow> \<bar>v - l / 1000000\<bar> \<le> 1 / 2) else s = ''-'')"

lemma digits_span [simp]:
  "\<not> is_digit c \<Longrightarrow> takeWhile is_digit (dec_digits n @ c # s) = dec_digits n"
  "\<not> is_digit c \<Longrightarrow> dropWhile is_digit (dec_digits n @ c # s) = c # s"
  "takeWhile is_digit (dec_digits n) = dec_digits n" "dropWhile is_digit (dec_digits n) = []"
  using dec_digits_digits [of n]
  by (auto simp: list_all_iff takeWhile_append2 dropWhile_append2 takeWhile_eq_all_conv)

lemma digits_Cons: obtains c cs where "dec_digits n = c # cs" and "is_digit c" and "c \<noteq> CHR ''-''"
proof -
  obtain c cs where d: "dec_digits n = c # cs" and c: "is_digit c"
    using dec_digits_digits [of n] by (cases "dec_digits n") auto
  from c have "c \<noteq> CHR ''-''" by (auto simp: is_digit_def)
  with d c show thesis by (rule that)
qed

lemma read_digits_sign [simp]: "read_decimal (dec_digits n @ s) = read_unsigned (dec_digits n @ s)"
  by (rule digits_Cons [of n]) (simp add: read_decimal_def)

lemma read_itoa [simp]: "read_decimal (itoa i) = Some (of_int i)"
proof -
  have u: "read_unsigned (dec_digits n) = Some (of_nat n)" for n by (simp add: read_unsigned_def)
  have "read_decimal (dec_digits n) = Some (of_nat n)" for n using read_digits_sign [of n "[]"] by (simp add: u)
  then show ?thesis by (simp add: itoa_def) (simp add: read_decimal_def u)
qed

lemma to_fixed_reads: "\<exists>v. read_decimal (to_fixed 1 q) = Some v \<and> \<bar>v - q\<bar> \<le> 1 / 20"
proof -
  define n where "n = nat \<lfloor>\<bar>q\<bar> * 10 + 1 / 2\<rfloor>"
  have u: "read_unsigned (dec_digits (n div 10) @ CHR ''.'' # dec_digits (n mod 10)) = Some (of_nat n / 10)"
  proof -
    have "n = 10 * (n div 10) + n mod 10" by simp
    then have "(of_nat n :: rat) = 10 * of_nat (n div 10) + of_nat (n mod 10)" by (metis of_nat_add of_nat_mult of_nat_numeral)
    moreover have "length (dec_digits (n mod 10)) = 1" by (simp add: dec_digits.simps)
    ultimately show ?thesis by (simp add: read_unsigned_def is_digit_def)
  qed
  have len: "length (dec_digits (n mod 10)) = 1" by (simp add: dec_digits.simps)
  have t: "to_fixed 1 q = (if q < 0 then ''-'' else []) @ dec_digits (n div 10) @ CHR ''.'' # dec_digits (n mod 10)"
    by (simp add: to_fixed_def Let_def n_def [symmetric] len)
  have r: "read_decimal (to_fixed 1 q) = Some (if q < 0 then - (of_nat n / 10) else of_nat n / 10)"
    unfolding t by (cases "q < 0") (simp_all add: u, simp add: read_decimal_def u)
  have "(of_nat n :: rat) = of_int \<lfloor>\<bar>q\<bar> * 10 + 1 / 2\<rfloor>" by (simp add: n_def)
  then have "\<bar>of_nat n - \<bar>q\<bar> * 10\<bar> \<le> 1 / 2" by linarith
  with r show ?thesis by (auto simp: abs_if split: if_splits)
qed

lemma read_unit_append [simp]: "read_unit u (s @ u) = read_decimal s"
  by (simp add: read_unit_def)

lemma itoa_last: "itoa i \<noteq> []" "is_digit (last (itoa i))"
proof -
  have "is_digit (last (dec_digits n))" "dec_digits n \<noteq> []" for n
    using dec_digits_digits [of n] by (auto simp: list_all_iff)
  then show "itoa i \<noteq> []" "is_digit (last (itoa i))" by (simp_all add: itoa_def)
qed

lemma read_figure_simps [simp]:
  "read_figure (itoa i) = Some (of_int i)"
  "read_figure (s @ ''M'') = map_option (\<lambda>v. 1000000 * v) (read_decimal s)"
  "read_figure (s @ ''K'') = map_option (\<lambda>v. 1000 * v) (read_decimal s)"
  using itoa_last [of i] by (auto simp: read_figure_def is_digit_def butlast_append)

lemma format_number_shows [simp]: "shows_number (format_number fl (of_int i)) (of_int i)"
proof -
  let ?q = "of_int i :: rat"
  obtain v where v: "read_decimal (to_fixed 1 (?q / 1000000)) = Some v" "\<bar>v - ?q / 1000000\<bar> \<le> 1 / 20"
    using to_fixed_reads by blast
  obtain k where k: "read_decimal (to_fixed 1 (?q / 1000)) = Some k" "\<bar>k - ?q / 1000\<bar> \<le> 1 / 20"
    using to_fixed_reads by blast
  have "\<bar>1000000 * v - ?q\<bar> \<le> 50000" "\<bar>1000 * k - ?q\<bar> \<le> 50" using v(2) k(2) by linarith+
  then show ?thesis
    by (simp add: shows_number_def format_number_def v(1) [simplified] k(1) [simplified])
qed

lemma percent_shows: "\<exists>v. read_unit ''%'' (percent 1 q) = Some v \<and> \<bar>v - 100 * q\<bar> \<le> 1 / 20"
  using to_fixed_reads [of "q * 100"] by (simp add: percent_def mult.commute)

text \<open>
  \<open>parseInt\<close>: the number at the start of the text, or none (NaN). Its result is a double:
  integers up to \<open>2 ^ 53\<close> are exact; what becomes of a larger one, and that the largest are
  infinite, is an argument, the number that \<open>JSON.stringify\<close> writes for it (none for an
  infinite one, for which it writes null as it does for NaN).
\<close>

definition js_exact :: "int \<Rightarrow> bool" where
  "js_exact i \<longleftrightarrow> \<bar>i\<bar> \<le> 2 ^ 53"

definition double_of :: "(int \<Rightarrow> rat option) \<Rightarrow> int \<Rightarrow> rat option" where
  "double_of wide i = (if js_exact i then Some (of_int i) else wide i)"

definition parse_int :: "(int \<Rightarrow> rat option) \<Rightarrow> string \<Rightarrow> rat option" where
  "parse_int wide s = (let t = dropWhile is_space s;
       (neg, u) = (case t of c # cs \<Rightarrow> if c = CHR ''-'' then (True, cs)
          else if c = CHR ''+'' then (False, cs) else (False, t) | [] \<Rightarrow> (False, []))
     in Option.bind (parse_dec (takeWhile is_digit u)) (\<lambda>n. double_of wide (if neg then - int n else int n)))"

text \<open>What a script writes for the result: \<open>JSON.stringify\<close> makes null of NaN.\<close>

definition int_json :: "rat option \<Rightarrow> json" where
  "int_json i = (case i of None \<Rightarrow> JNull | Some q \<Rightarrow> JNum q)"

lemma parse_int_itoa [simp]: "parse_int wide (itoa i) = double_of wide i"
proof -
  obtain c cs where d: "dec_digits (nat i) = c # cs" and c: "is_digit c"
    using dec_digits_digits [of "nat i"] by (cases "dec_digits (nat i)") auto
  have sign: "c \<noteq> CHR ''-''" "c \<noteq> CHR ''+''" "\<not> is_space c"
    using c by (auto simp: is_digit_def is_space_def Let_def)
  have "\<not> is_space CHR ''-''" by (simp add: is_space_def)
  moreover have "takeWhile is_digit (c # cs) = c # cs" "parse_dec (c # cs) = Some (nat i)"
    using digits_span(3) [of "nat i"] parse_dec_digits [of "nat i"] d by simp_all
  ultimately show ?thesis
    using sign by (cases "i < 0") (auto simp: parse_int_def itoa_def d)
qed

subsection \<open>Escaping\<close>

definition replace_char :: "char \<Rightarrow> string \<Rightarrow> string \<Rightarrow> string" where
  "replace_char d t s = concat (map (\<lambda>c. if c = d then t else [c]) s)"

definition html_escaped :: "string \<Rightarrow> string" where
  "html_escaped s = replace_char CHR 0x27 ''&#39;'' (replace_char CHR 0x22 ''&quot;''
     (replace_char CHR ''>'' ''&gt;'' (replace_char CHR ''<'' ''&lt;''
       (replace_char CHR ''&'' ''&amp;'' s))))"

text \<open>\<open>String(value == null ? '' : value)\<close>, which both functions start from.\<close>

definition or_empty :: "(rat \<Rightarrow> string) \<Rightarrow> json option \<Rightarrow> string" where
  "or_empty fl v = (if v = None \<or> v = Some JNull then [] else js_string fl v)"

definition escape_html :: "(rat \<Rightarrow> string) \<Rightarrow> json option \<Rightarrow> string" where
  "escape_html fl v = html_escaped (or_empty fl v)"

definition script_escaped :: "string \<Rightarrow> string" where
  "script_escaped s = replace_char CHR 0x27 [CHR 0x5C, CHR 0x27] (replace_char CHR 0x5C [CHR 0x5C, CHR 0x5C] s)"

definition escape_attr :: "(rat \<Rightarrow> string) \<Rightarrow> json option \<Rightarrow> string" where
  "escape_attr fl v = html_escaped (script_escaped (or_empty fl v))"

lemma or_empty_JStr [simp]: "or_empty fl (Some (JStr s)) = s"
  by (simp add: or_empty_def js_string_def)

text \<open>Both chains of replacements work character by character.\<close>

definition html_char :: "char \<Rightarrow> string" where
  "html_char c = (if c = CHR ''&'' then ''&amp;'' else if c = CHR ''<'' then ''&lt;''
     else if c = CHR ''>'' then ''&gt;'' else if c = CHR 0x22 then ''&quot;''
     else if c = CHR 0x27 then ''&#39;'' else [c])"

definition script_char :: "char \<Rightarrow> string" where
  "script_char c = (if c = CHR 0x5C then [CHR 0x5C, CHR 0x5C]
     else if c = CHR 0x27 then [CHR 0x5C, CHR 0x27] else [c])"

lemma replace_char_Nil [simp]: "replace_char d t [] = []"
  by (simp add: replace_char_def)

lemma replace_char_append [simp]: "replace_char d t (a @ b) = replace_char d t a @ replace_char d t b"
  by (simp add: replace_char_def)

lemma replace_char_Cons [simp]: "replace_char d t (c # s) = (if c = d then t else [c]) @ replace_char d t s"
  by (simp add: replace_char_def)

lemma html_escaped_append [simp]: "html_escaped (a @ b) = html_escaped a @ html_escaped b"
  by (simp add: html_escaped_def)

lemma html_escaped_Nil [simp]: "html_escaped [] = []"
  by (simp add: html_escaped_def)

lemma html_escaped_Cons [simp]: "html_escaped (c # s) = html_char c @ html_escaped s"
  by (simp add: html_escaped_def html_char_def)

lemma script_escaped_Nil [simp]: "script_escaped [] = []"
  by (simp add: script_escaped_def)

lemma script_escaped_Cons [simp]: "script_escaped (c # s) = script_char c @ script_escaped s"
  by (simp add: script_escaped_def script_char_def)

text \<open>An escaped text holds no character that means something to the HTML reader.\<close>

lemma html_escaped_plain: "set (html_escaped s) \<inter> {CHR ''<'', CHR ''>'', CHR 0x22} = {}"
  by (induction s) (auto simp: html_char_def)

lemmas html_escaped_free = html_escaped_plain [unfolded disjoint_iff, rule_format, simplified]

subsection \<open>How a browser reads HTML\<close>

text \<open>
  A piece of HTML is taken apart into texts and tags; a tag ends at the first \<open>>\<close> outside a
  double-quoted attribute value (the pages quote their attributes so). The accumulator is
  reversed. An empty text is kept between adjacent tags.
\<close>

datatype mode = Data | InTag | InValue

datatype token = Text string | Tag string

type_synonym lexer = "mode \<times> string \<times> token list"

fun lex_char :: "lexer \<Rightarrow> char \<Rightarrow> lexer" where
  "lex_char (Data, acc, out) c =
     (if c = CHR ''<'' then (InTag, [], out @ [Text (rev acc)]) else (Data, c # acc, out))"
| "lex_char (InTag, acc, out) c =
     (if c = CHR ''>'' then (Data, [], out @ [Tag (rev acc)])
      else (if c = CHR 0x22 then InValue else InTag, c # acc, out))"
| "lex_char (InValue, acc, out) c = (if c = CHR 0x22 then InTag else InValue, c # acc, out)"

abbreviation lex :: "lexer \<Rightarrow> string \<Rightarrow> lexer" where
  "lex \<equiv> foldl lex_char"

definition tokens :: "string \<Rightarrow> token list" where
  "tokens s = (case lex (Data, [], []) s of (m, acc, out) \<Rightarrow>
     if m = Data then out @ [Text (rev acc)] else out)"

text \<open>The character references that the pages write.\<close>

definition references :: "(string \<times> char) list" where
  "references = [(''&amp;'', CHR ''&''), (''&lt;'', CHR ''<''), (''&gt;'', CHR ''>''),
     (''&quot;'', CHR 0x22), (''&#39;'', CHR 0x27)]"

fun html_decode :: "string \<Rightarrow> string" where
  "html_decode [] = []"
| "html_decode (c # cs) = (case find (\<lambda>(r, d). has_prefix (c # cs) r) references of
       Some (r, d) \<Rightarrow> d # html_decode (drop (length r - 1) cs)
     | None \<Rightarrow> c # html_decode cs)"

text \<open>The texts in the order of the page, without the empty ones.\<close>

fun token_text :: "token \<Rightarrow> string" where
  "token_text (Text t) = html_decode t"
| "token_text (Tag t) = []"

definition html_texts :: "string \<Rightarrow> string list" where
  "html_texts s = filter (\<lambda>t. t \<noteq> []) (map token_text (tokens s))"

text \<open>The name of a tag: what stands before the first space.\<close>

fun tag_name :: "token \<Rightarrow> string" where
  "tag_name (Tag t) = takeWhile (\<lambda>c. c \<noteq> CHR '' '') t"
| "tag_name (Text t) = []"

definition tag_names :: "string \<Rightarrow> string list" where
  "tag_names s = filter (\<lambda>t. t \<noteq> []) (map tag_name (tokens s))"

text \<open>The rows of a table, each a list of cells: what is read in a row and between two cells.\<close>

fun cell_step :: "string list list \<Rightarrow> token \<Rightarrow> string list list" where
  "cell_step rows (Tag t) =
     (if t = ''tr'' then [] # rows
      else if tag_name (Tag t) = ''td'' then (case rows of r # rs \<Rightarrow> ([] # r) # rs | [] \<Rightarrow> [])
      else rows)"
| "cell_step rows (Text t) = (case rows of (c # r) # rs \<Rightarrow> ((c @ html_decode t) # r) # rs | _ \<Rightarrow> rows)"

definition read_table :: "string \<Rightarrow> string list list" where
  "read_table s = rev (map rev (foldl cell_step [] (tokens s)))"

subsection \<open>What a button calls\<close>

text \<open>A string literal in single quotes; an escape that the pages do not write is not read.\<close>

fun read_literal :: "string \<Rightarrow> string \<Rightarrow> (string \<times> string) option" where
  "read_literal acc [] = None"
| "read_literal acc (c # cs) =
     (if c = CHR 0x27 then Some (rev acc, cs)
      else if c = CHR 0x0A \<or> c = CHR 0x0D then None
      else if c \<noteq> CHR 0x5C then read_literal (c # acc) cs
      else case cs of [] \<Rightarrow> None
        | d # ds \<Rightarrow> if d \<in> {CHR 0x5C, CHR 0x27, CHR 0x22} then read_literal (d # acc) ds else None)"

definition read_argument :: "string \<Rightarrow> (string \<times> string) option" where
  "read_argument s = (case s of [] \<Rightarrow> None
     | c # cs \<Rightarrow> if c = CHR 0x27 then read_literal [] cs
         else Some (takeWhile (\<lambda>c. c \<notin> {CHR '','', CHR '')''}) s,
           dropWhile (\<lambda>c. c \<notin> {CHR '','', CHR '')''}) s))"

text \<open>The functions that buttons call have at most two parameters.\<close>

definition read_arguments :: "string \<Rightarrow> string list option" where
  "read_arguments s = (case read_argument s of None \<Rightarrow> None
     | Some (a, r) \<Rightarrow>
         if r = '')'' then Some [a]
         else if has_prefix r '', '' then
           (case read_argument (drop 2 r) of Some (b, r') \<Rightarrow> if r' = '')'' then Some [a, b] else None
            | None \<Rightarrow> None)
         else None)"

type_synonym call = "string \<times> string list"

definition read_call :: "string \<Rightarrow> call option" where
  "read_call s = (let f = takeWhile (\<lambda>c. c \<noteq> CHR ''('') s in
     map_option (\<lambda>args. (f, args)) (read_arguments (drop (length f + 1) s)))"

fun attribute :: "string \<Rightarrow> string list \<Rightarrow> string option" where
  "attribute name (p # v # ps) =
     (if has_suffix p ('' '' @ name @ ''='') then Some (html_decode v) else attribute name ps)"
| "attribute name ps = None"

text \<open>The handler of a tag: the text of its attribute \<open>onclick\<close>, and the call it is.\<close>

fun token_handler :: "token \<Rightarrow> string option" where
  "token_handler (Tag t) = attribute ''onclick'' (split_on CHR 0x22 t)"
| "token_handler (Text t) = None"

definition handlers :: "string \<Rightarrow> call option list" where
  "handlers s = map read_call (List.map_filter token_handler (tokens s))"

subsection \<open>What is escaped reads back\<close>

lemma html_decode_Cons: "html_decode (html_char c @ s) = c # html_decode s"
  by (simp add: html_char_def references_def)

lemma html_decode_escaped [simp]: "html_decode (html_escaped s) = s"
  by (induction s) (simp_all add: html_decode_Cons)

lemma html_decode_escaped_append [simp]: "html_decode (html_escaped s @ t) = s @ html_decode t"
  by (induction s) (simp_all add: html_decode_Cons)

lemma read_literal_escaped:
  assumes "CHR 0x0A \<notin> set s" and "CHR 0x0D \<notin> set s"
  shows "read_literal acc (script_escaped s @ CHR 0x27 # r) = Some (rev acc @ s, r)"
  using assms by (induction s arbitrary: acc) (auto simp: script_char_def)

lemma read_literal_broken:
  "CHR 0x0A \<in> set s \<or> CHR 0x0D \<in> set s \<Longrightarrow> read_literal acc (script_escaped s @ r) = None"
  by (induction s arbitrary: acc) (auto simp: script_char_def)

lemma lex_Data: "CHR ''<'' \<notin> set s \<Longrightarrow> lex (Data, acc, out) s = (Data, rev s @ acc, out)"
  by (induction s arbitrary: acc) auto

lemma lex_InValue: "CHR 0x22 \<notin> set s \<Longrightarrow> lex (InValue, acc, out) s = (InValue, rev s @ acc, out)"
  by (induction s arbitrary: acc) auto

lemma lex_Data_escaped [simp]: "lex (Data, acc, out) (html_escaped s) = (Data, rev (html_escaped s) @ acc, out)"
  using lex_Data html_escaped_free by blast

lemma lex_InValue_escaped [simp]:
  "lex (InValue, acc, out) (html_escaped s) = (InValue, rev (html_escaped s) @ acc, out)"
  using lex_InValue html_escaped_free by blast

text \<open>A piece can be lexed on its own, whatever was read before it.\<close>

lemma lex_output: "lex (m, acc, out @ out') s = (case lex (m, acc, out') s of (n, b, o') \<Rightarrow> (n, b, out @ o'))"
proof (induction s arbitrary: m acc out')
  case (Cons c s)
  then show ?case by (cases m) auto
qed simp

lemma lex_piece: "lex (Data, acc, []) p = (m, b, ts) \<Longrightarrow> lex (Data, acc, out) p = (m, b, out @ ts)"
  using lex_output [of Data acc out "[]" p] by simp

subsection \<open>Plain text\<close>

text \<open>Text without a character that HTML or a string literal gives a meaning to.\<close>

declare html_decode.simps(2) [simp del]

lemma table_step_Text [simp]: "cell_step rows (Text []) = rows"
  "cell_step ((c # r) # rs) (Text t) = ((c @ html_decode t) # r) # rs" by (simp_all split: list.split)

declare cell_step.simps(2) [simp del]

lemma html_decode_other [simp]: "c \<noteq> CHR ''&'' \<Longrightarrow> html_decode (c # s) = c # html_decode s"
  by (simp add: html_decode.simps references_def)

lemma map_filter_append [simp]: "List.map_filter f (xs @ ys) = List.map_filter f xs @ List.map_filter f ys"
  by (simp add: List.map_filter_def)

definition plain :: "string \<Rightarrow> bool" where
  "plain s \<longleftrightarrow> set s \<inter> {CHR ''<'', CHR ''>'', CHR ''&'', CHR 0x22, CHR 0x27, CHR 0x5C} = {}"

lemma plain_append [simp]: "plain (a @ b) \<longleftrightarrow> plain a \<and> plain b"
  by (auto simp: plain_def)

lemma plain_Nil [simp]: "plain []" by (simp add: plain_def)

lemma plain_Cons [simp]: "plain (c # s) \<longleftrightarrow> c \<notin> {CHR ''<'', CHR ''>'', CHR ''&'', CHR 0x22, CHR 0x27, CHR 0x5C} \<and> plain s"
  by (auto simp: plain_def)

lemma plain_escaped [simp]: "plain s \<Longrightarrow> html_escaped s = s"
  by (induction s) (auto simp: html_char_def)

lemma plain_script [simp]: "plain s \<Longrightarrow> script_escaped s = s"
  by (induction s) (auto simp: script_char_def)

lemma plain_decode [simp]: "plain s \<Longrightarrow> html_decode s = s"
  using html_decode_escaped [of s] by simp

lemma lex_plain [simp]: "plain s \<Longrightarrow> lex (Data, acc, out) s = (Data, rev s @ acc, out)"
  by (rule lex_Data) (auto simp: plain_def)

lemma is_digit_plain: "is_digit c \<Longrightarrow> c \<notin> {CHR ''<'', CHR ''>'', CHR ''&'', CHR 0x22, CHR 0x27, CHR 0x5C}"
  by (auto simp: is_digit_def)

lemma plain_digits: "list_all is_digit s \<Longrightarrow> plain s"
  by (induction s) (auto dest: is_digit_plain)

lemma plain_dec_digits [simp]: "plain (dec_digits n)"
  using dec_digits_digits plain_digits by blast

lemma plain_itoa [simp]: "plain (itoa i)"
  by (simp add: itoa_def)

lemma plain_to_fixed [simp]: "plain (to_fixed k q)"
proof -
  have "plain (replicate n CHR ''0'')" for n by (induction n) auto
  then show ?thesis by (simp add: to_fixed_def Let_def)
qed

lemma plain_format_number [simp]: "plain (format_number fl (of_int i))"
  by (simp add: format_number_def)

lemma html_decode_plain_append: "plain a \<Longrightarrow> html_decode (a @ s) = a @ html_decode s"
  using html_decode_escaped_append [of a s] by simp

lemma split_on_free: "d \<notin> set a \<Longrightarrow> split_on d (a @ d # b) = a # split_on d b"
  by (induction a) auto

subsection \<open>Rows of a table\<close>

lemma map_filter_handlers [simp]: "List.map_filter token_handler (Text t # ts) = List.map_filter token_handler ts"
  "List.map_filter token_handler (Tag t # ts) = (case token_handler (Tag t) of None \<Rightarrow> [] | Some h \<Rightarrow> [h]) @ List.map_filter token_handler ts"
  "List.map_filter token_handler [] = []"
  by (simp_all add: List.map_filter_def split: option.split)

text \<open>Tokens that a table does not see.\<close>

fun inert :: "token \<Rightarrow> bool" where
  "inert (Tag t) = (t \<noteq> ''tr'' \<and> tag_name (Tag t) \<noteq> ''td'')"
| "inert (Text t) = (t = [])"

lemma table_step_inert: "inert t \<Longrightarrow> cell_step rows t = rows"
  by (cases t) auto

lemma table_inert: "list_all inert ts \<Longrightarrow> foldl cell_step rows ts = rows"
  by (induction ts) (simp_all add: table_step_inert)

text \<open>
  A row of a table as it is read: its cells, its handlers, its tags, whatever came before.
\<close>

definition row_reads :: "string \<Rightarrow> string list \<Rightarrow> string list \<Rightarrow> string list \<Rightarrow> bool" where
  "row_reads html cells hs names \<longleftrightarrow> (\<exists>ts. lex (Data, [], []) html = (Data, [], ts)
     \<and> (\<forall>rows. foldl cell_step rows ts = rev cells # rows)
     \<and> List.map_filter token_handler ts = hs \<and> filter (\<lambda>t. t \<noteq> []) (map tag_name ts) = names)"

lemma rows_lex:
  assumes "\<And>x. x \<in> set xs \<Longrightarrow> row_reads (row x) (cells x) (hs x) (names x)"
  shows "\<exists>ts. lex (Data, [], out) (concat (map row xs)) = (Data, [], out @ ts)
     \<and> (\<forall>rows. foldl cell_step rows ts = rev (map (rev \<circ> cells) xs) @ rows)
     \<and> List.map_filter token_handler ts = concat (map hs xs)
     \<and> filter (\<lambda>t. t \<noteq> []) (map tag_name ts) = concat (map names xs)"
  using assms
proof (induction xs arbitrary: out)
  case (Cons x xs)
  obtain t where t: "lex (Data, [], []) (row x) = (Data, [], t)"
    "\<forall>rows. foldl cell_step rows t = rev (cells x) # rows"
    "List.map_filter token_handler t = hs x" "filter (\<lambda>t. t \<noteq> []) (map tag_name t) = names x"
    using Cons.prems [of x] by (auto simp: row_reads_def)
  obtain ts where ts: "lex (Data, [], out @ t) (concat (map row xs)) = (Data, [], (out @ t) @ ts)"
    "\<forall>rows. foldl cell_step rows ts = rev (map (rev \<circ> cells) xs) @ rows"
    "List.map_filter token_handler ts = concat (map hs xs)"
    "filter (\<lambda>t. t \<noteq> []) (map tag_name ts) = concat (map names xs)"
    using Cons.IH [of "out @ t"] Cons.prems by auto
  show ?case by (rule exI [of _ "t @ ts"]) (use t ts lex_piece [OF t(1), of out] in simp)
qed (simp add: List.map_filter_def)

lemma read_rows:
  assumes "\<And>x. x \<in> set xs \<Longrightarrow> row_reads (row x) (cells x) (hs x) (names x)"
  shows "read_table (concat (map row xs)) = map cells xs"
    and "handlers (concat (map row xs)) = map read_call (concat (map hs xs))"
    and "tag_names (concat (map row xs)) = concat (map names xs)"
proof -
  obtain ts where ts: "lex (Data, [], []) (concat (map row xs)) = (Data, [], ts)"
    "\<forall>rows. foldl cell_step rows ts = rev (map (rev \<circ> cells) xs) @ rows"
    "List.map_filter token_handler ts = concat (map hs xs)"
    "filter (\<lambda>t. t \<noteq> []) (map tag_name ts) = concat (map names xs)"
    using rows_lex [of xs row cells hs names "[]"] assms by auto
  then have "tokens (concat (map row xs)) = ts @ [Text []]" by (simp add: tokens_def)
  then show "read_table (concat (map row xs)) = map cells xs"
    and "handlers (concat (map row xs)) = map read_call (concat (map hs xs))"
    and "tag_names (concat (map row xs)) = concat (map names xs)"
    using ts by (simp_all add: read_table_def handlers_def tag_names_def rev_map [symmetric] List.map_filter_def)
qed

end
