(* ===== verification/AdminJson.thy ===== *)
theory AdminJson
  imports AdminHttp Html "HOL-Library.Monad_Syntax"
begin

section \<open>The JSON of the admin interface (internal/admin/admin.go, internal/storage/storage.go)\<close>

text \<open>
  What \<open>encoding/json\<close> makes of the values that the handlers write, by the tags of the Go
  structs, and what it makes of the bodies that they read. A nil slice is null; a field
  without a tag has its Go name; a field with \<open>omitempty\<close> is left out when it is empty.
\<close>

subsection \<open>Replies\<close>

text \<open>
  How Go prints a time, a duration and an error of the database, and the order in which a
  script enumerates the names of an object, are arguments.
\<close>

record encoding =
  en_time :: "time \<Rightarrow> string"
  en_duration :: "duration \<Rightarrow> string"
  en_db_error :: "db_error \<Rightarrow> string"
  en_health_names :: "string list"
  en_order :: "string list \<Rightarrow> string list"

abbreviation int_num :: "int \<Rightarrow> json" where
  "int_num i \<equiv> JNum (of_int i)"

definition omit_empty :: "string \<Rightarrow> string \<Rightarrow> (string \<times> json) list" where
  "omit_empty k s = (if s = [] then [] else [(k, JStr s)])"

definition json_slice :: "('a \<Rightarrow> json) \<Rightarrow> 'a list \<Rightarrow> json" where
  "json_slice f xs = (if xs = [] then JNull else JList (map f xs))"

definition server_fields :: "encoding \<Rightarrow> server \<Rightarrow> (string \<times> json) list" where
  "server_fields en s =
     [(''id'', int_num (sv_id s)), (''name'', JStr (sv_name s)),
      (''provider_type'', JStr (sv_provider_type s)), (''endpoint'', JStr (sv_endpoint s))]
     @ omit_empty ''api_key_encrypted'' (sv_api_key s)
     @ [(''hostgroup'', int_num (sv_hostgroup s)), (''weight'', int_num (sv_weight s)),
        (''max_connections'', int_num (sv_max_connections s)), (''status'', JStr (sv_status s))]
     @ omit_empty ''comment'' (sv_comment s)
     @ [(''created_at'', JStr (en_time en (sv_created_at s))), (''updated_at'', JStr (en_time en (sv_updated_at s)))]"

definition server_info_json :: "encoding \<Rightarrow> server \<times> bool \<times> (i64 \<times> duration) option \<Rightarrow> json" where
  "server_info_json en x = (case x of (s, healthy, state) \<Rightarrow> JObj (server_fields en s
     @ [(''healthy'', JBool healthy),
        (''connections'', int_num (case state of Some (n, l) \<Rightarrow> n | None \<Rightarrow> 0)),
        (''avg_latency'', JStr (case state of Some (n, l) \<Rightarrow> en_duration en l | None \<Rightarrow> []))]))"

definition user_json :: "encoding \<Rightarrow> user \<Rightarrow> json" where
  "user_json en u = JObj ([(''id'', int_num (us_id u)), (''username'', JStr (us_username u))]
     @ omit_empty ''password_hash'' (us_password_hash u)
     @ [(''active'', JBool (us_active u)), (''default_hostgroup'', int_num (us_default_hostgroup u)),
        (''max_requests_per_minute'', int_num (us_max_requests_per_minute u)),
        (''max_tokens_per_minute'', int_num (us_max_tokens_per_minute u))]
     @ omit_empty ''comment'' (us_comment u)
     @ [(''created_at'', JStr (en_time en (us_created_at u))), (''updated_at'', JStr (en_time en (us_updated_at u)))])"

definition rule_json :: "encoding \<Rightarrow> routing_rule \<Rightarrow> json" where
  "rule_json en r = JObj ([(''id'', int_num (rr_id r)), (''rule_id'', int_num (rr_rule_id r)),
      (''active'', JBool (rr_active r))]
     @ omit_empty ''match_model'' (rr_match_model r) @ omit_empty ''match_pattern'' (rr_match_pattern r)
     @ omit_empty ''match_user'' (rr_match_user r)
     @ [(''destination_hostgroup'', int_num (rr_destination_hostgroup r))]
     @ (case rr_mirror_hostgroup r of Some m \<Rightarrow> [(''mirror_hostgroup'', int_num m)] | None \<Rightarrow> [])
     @ [(''priority'', int_num (rr_priority r))]
     @ omit_empty ''comment'' (rr_comment r)
     @ [(''created_at'', JStr (en_time en (rr_created_at r))), (''updated_at'', JStr (en_time en (rr_updated_at r)))])"

text \<open>\<open>Hostgroup\<close> and \<open>RequestLog\<close>, the status of a server and the statistics have no tags.\<close>

definition hostgroup_fields :: "hostgroup \<Rightarrow> (string \<times> json) list" where
  "hostgroup_fields h = [(''ID'', int_num (hg_id h)), (''GroupID'', int_num (hg_group_id h)),
     (''Name'', JStr (hg_name h)), (''Comment'', JStr (hg_comment h))]"

definition hostgroup_info_json :: "hostgroup \<times> nat \<Rightarrow> json" where
  "hostgroup_info_json x = (case x of (h, n) \<Rightarrow>
     JObj (hostgroup_fields h @ [(''server_count'', int_num (int n))]))"

definition log_json :: "encoding \<Rightarrow> request_log \<Rightarrow> json" where
  "log_json en l = JObj [(''ID'', int_num (rl_id l)), (''RequestID'', JStr (rl_request_id l)),
     (''Username'', JStr (rl_username l)), (''ServerName'', JStr (rl_server_name l)),
     (''Model'', JStr (rl_model l)), (''Endpoint'', JStr (rl_endpoint l)),
     (''PromptTokens'', int_num (rl_prompt_tokens l)), (''OutputTokens'', int_num (rl_output_tokens l)),
     (''TotalTokens'', int_num (rl_total_tokens l)), (''LatencyMS'', int_num (rl_latency_ms l)),
     (''FirstByteMS'', int_num (rl_first_byte_ms l)), (''StatusCode'', int_num (rl_status_code l)),
     (''ErrorMessage'', JStr (rl_error_message l)), (''Streaming'', JBool (rl_streaming l)),
     (''Timestamp'', JStr (en_time en (rl_timestamp l)))]"

definition status_json :: "encoding \<Rightarrow> status \<Rightarrow> json" where
  "status_json en s = JObj [(''Healthy'', JBool (hs_healthy s)),
     (''LastCheck'', JStr (en_time en (hs_last_check s))), (''LastSuccess'', JStr (en_time en (hs_last_success s))),
     (''LastError'', JStr (hs_last_error s)), (''Latency'', int_num (hs_latency s)),
     (''ConsecFails'', int_num (hs_consec_fails s)), (''ConsecSuccess'', int_num (hs_consec_success s))]"

definition server_stats_json :: "server_stats \<Rightarrow> json" where
  "server_stats_json s = JObj [(''Name'', JStr (sst_name s)), (''Hostgroup'', int_num (sst_hostgroup s)),
     (''Weight'', int_num (sst_weight s)), (''Connections'', int_num (sst_connections s)),
     (''TotalReqs'', int_num (sst_total_reqs s)), (''Errors'', int_num (sst_errors s)),
     (''AvgLatency'', int_num (sst_avg_latency s))]"

text \<open>The sizes of the hostgroups, which no script reads, are left out.\<close>

definition stats_json :: "balancer_stats \<Rightarrow> json" where
  "stats_json s = JObj [(''Algorithm'', JStr (bst_algorithm s)),
     (''TotalServers'', int_num (int (bst_total_servers s))),
     (''HealthyServers'', int_num (int (bst_healthy_servers s))),
     (''ServerStats'', JList (map server_stats_json (bst_server_stats s)))]"

definition cache_json :: "bool \<Rightarrow> stats_view \<Rightarrow> json" where
  "cache_json on s = JObj [(''enabled'', JBool on), (''hits'', int_num (cv_hits s)),
     (''misses'', int_num (cv_misses s)), (''hit_rate'', JNum (cv_hit_rate s)),
     (''evictions'', int_num (cv_evictions s)), (''deduplicated_reqs'', int_num (cv_deduplicated s)),
     (''compression_saved'', int_num (cv_saved s)), (''memory_used_bytes'', int_num (cv_memory_used s)),
     (''item_count'', int_num (int (cv_item_count s))), (''avg_item_size'', JNum (cv_avg_item_size s))]"

text \<open>The columns of the statement that \<open>GetServerStats\<close> selects.\<close>

definition server_stat_json :: "encoding \<Rightarrow> server_stat \<Rightarrow> json" where
  "server_stat_json en s = JObj [(''server_name'', JStr (sx_server_name s)),
     (''total_requests'', int_num (int (sx_total_requests s))),
     (''success_count'', int_num (int (sx_success_count s))), (''error_count'', int_num (int (sx_error_count s))),
     (''avg_latency_ms'', JNum (sx_avg_latency_ms s)), (''total_tokens'', int_num (sx_total_tokens s)),
     (''last_request'', JStr (en_time en (sx_last_request s)))]"

text \<open>The members of an object that was a Go map, in the order a script enumerates them.\<close>

definition json_map :: "encoding \<Rightarrow> (string \<times> json) list \<Rightarrow> json" where
  "json_map en kvs = JObj (map (\<lambda>k. (k, the (map_of kvs k))) (en_order en (map fst kvs)))"

text \<open>A page is not JSON, and neither is an empty body.\<close>

fun reply_json :: "encoding \<Rightarrow> reply \<Rightarrow> json option" where
  "reply_json en (RpError m) = Some (JObj [(''error'', JStr m)])"
| "reply_json en (RpStorageError m e) = Some (JObj [(''error'', JStr (m @ en_db_error en e))])"
| "reply_json en (RpServers ss) = Some (JList (map (server_info_json en) ss))"
| "reply_json en (RpServer s) = Some (JObj (server_fields en s))"
| "reply_json en (RpUsers us) = Some (json_slice (user_json en) us)"
| "reply_json en (RpUser u) = Some (user_json en u)"
| "reply_json en (RpRules rs) = Some (json_slice (rule_json en) rs)"
| "reply_json en (RpRule r) = Some (rule_json en r)"
| "reply_json en (RpHostgroups hs) = Some (JList (map hostgroup_info_json hs))"
| "reply_json en (RpHostgroup h) = Some (JObj (hostgroup_fields h))"
| "reply_json en (RpVariables kvs) = Some (json_map en (map (\<lambda>(k, v). (k, JStr v)) kvs))"
| "reply_json en (RpStats s) = Some (stats_json s)"
| "reply_json en (RpServerStats ss) = Some (json_slice (server_stat_json en) ss)"
| "reply_json en (RpLogs ls) = Some (json_slice (log_json en) ls)"
| "reply_json en (RpHealth f) = Some (json_map en (List.map_filter
     (\<lambda>n. map_option (\<lambda>s. (n, status_json en s)) (f n)) (en_health_names en)))"
| "reply_json en (RpCache on s) = Some (cache_json on s)"
| "reply_json en (RpStatus kvs) = Some (JObj (map (\<lambda>(k, v). (k, JStr v)) kvs))"
| "reply_json en (RpPage p) = None"
| "reply_json en (RpFile p t) = None"

subsection \<open>Bodies\<close>

text \<open>
  Decoding into a struct: a member belongs to the field whose tag (or, without one, whose
  name) it equals up to case. A missing member or null leaves the field at zero, a value of
  another kind is an error, as is a number that is not a 64-bit integer.
\<close>

definition member :: "json \<Rightarrow> string \<Rightarrow> json option" where
  "member v k = (case v of JObj fs \<Rightarrow> map_option snd (find (\<lambda>(n, _). to_lower n = to_lower k) fs) | _ \<Rightarrow> None)"

definition read_str :: "json \<Rightarrow> string \<Rightarrow> string option" where
  "read_str v k = (case member v k of None \<Rightarrow> Some [] | Some JNull \<Rightarrow> Some []
     | Some (JStr s) \<Rightarrow> Some s | Some _ \<Rightarrow> None)"

definition read_bool :: "json \<Rightarrow> string \<Rightarrow> bool option" where
  "read_bool v k = (case member v k of None \<Rightarrow> Some False | Some JNull \<Rightarrow> Some False
     | Some (JBool b) \<Rightarrow> Some b | Some _ \<Rightarrow> None)"

definition read_int :: "json \<Rightarrow> string \<Rightarrow> i64 option" where
  "read_int v k = (case member v k of None \<Rightarrow> Some 0 | Some JNull \<Rightarrow> Some 0
     | Some (JNum q) \<Rightarrow> if q = of_int \<lfloor>q\<rfloor> then fit64 \<lfloor>q\<rfloor> else None | Some _ \<Rightarrow> None)"

definition is_struct :: "json \<Rightarrow> bool" where
  "is_struct v = (case v of JNull \<Rightarrow> True | JObj _ \<Rightarrow> True | _ \<Rightarrow> False)"

text \<open>
  The bodies that the pages send have no times, and none of the members that the scripts do
  not know; those fields stay at zero here.
\<close>

definition decode_server :: "json \<Rightarrow> server option" where
  "decode_server v = (if \<not> is_struct v then None else do {
     name \<leftarrow> read_str v ''name''; provider \<leftarrow> read_str v ''provider_type'';
     endpoint \<leftarrow> read_str v ''endpoint''; api_key \<leftarrow> read_str v ''api_key_encrypted'';
     hostgroup \<leftarrow> read_int v ''hostgroup''; weight \<leftarrow> read_int v ''weight'';
     max_connections \<leftarrow> read_int v ''max_connections''; status \<leftarrow> read_str v ''status'';
     comment \<leftarrow> read_str v ''comment'';
     Some \<lparr>sv_id = 0, sv_name = name, sv_provider_type = provider, sv_endpoint = endpoint,
       sv_api_key = api_key, sv_hostgroup = hostgroup, sv_weight = weight,
       sv_max_connections = max_connections, sv_status = status, sv_comment = comment,
       sv_created_at = time_zero, sv_updated_at = time_zero\<rparr> })"

definition decode_user :: "json \<Rightarrow> user option" where
  "decode_user v = (if \<not> is_struct v then None else do {
     username \<leftarrow> read_str v ''username''; password_hash \<leftarrow> read_str v ''password_hash'';
     active \<leftarrow> read_bool v ''active''; hostgroup \<leftarrow> read_int v ''default_hostgroup'';
     rpm \<leftarrow> read_int v ''max_requests_per_minute''; tpm \<leftarrow> read_int v ''max_tokens_per_minute'';
     comment \<leftarrow> read_str v ''comment'';
     Some \<lparr>us_id = 0, us_username = username, us_password_hash = password_hash, us_active = active,
       us_default_hostgroup = hostgroup, us_max_requests_per_minute = rpm,
       us_max_tokens_per_minute = tpm, us_comment = comment, us_created_at = time_zero,
       us_updated_at = time_zero\<rparr> })"

definition decode_rule :: "json \<Rightarrow> routing_rule option" where
  "decode_rule v = (if \<not> is_struct v then None else do {
     rule_id \<leftarrow> read_int v ''rule_id''; active \<leftarrow> read_bool v ''active'';
     model \<leftarrow> read_str v ''match_model''; pattern \<leftarrow> read_str v ''match_pattern'';
     user \<leftarrow> read_str v ''match_user''; hostgroup \<leftarrow> read_int v ''destination_hostgroup'';
     priority \<leftarrow> read_int v ''priority''; comment \<leftarrow> read_str v ''comment'';
     Some \<lparr>rr_id = 0, rr_rule_id = rule_id, rr_active = active, rr_match_model = model,
       rr_match_pattern = pattern, rr_match_user = user, rr_destination_hostgroup = hostgroup,
       rr_mirror_hostgroup = None, rr_priority = priority, rr_comment = comment,
       rr_created_at = time_zero, rr_updated_at = time_zero\<rparr> })"

definition decode_hostgroup :: "json \<Rightarrow> hostgroup option" where
  "decode_hostgroup v = (if \<not> is_struct v then None else do {
     group_id \<leftarrow> read_int v ''GroupID''; name \<leftarrow> read_str v ''Name''; comment \<leftarrow> read_str v ''Comment'';
     Some \<lparr>hg_id = 0, hg_group_id = group_id, hg_name = name, hg_comment = comment\<rparr> })"

definition decode_variable :: "json \<Rightarrow> (string \<times> string) option" where
  "decode_variable v = (if \<not> is_struct v then None else do {
     name \<leftarrow> read_str v ''name''; val \<leftarrow> read_str v ''value''; Some (name, val) })"

definition decode_enabled :: "json \<Rightarrow> bool option" where
  "decode_enabled v = (if \<not> is_struct v then None else read_bool v ''enabled'')"

text \<open>
  What the handlers' decoders make of the text of a JSON value: the law that ties the
  server's parameters to the client's \<open>JSON.stringify\<close>, for one value.
\<close>

definition decodes :: "'z http_world_scheme \<Rightarrow> string \<Rightarrow> json \<Rightarrow> bool" where
  "decodes w body v \<longleftrightarrow> hw_server w body = decode_server v \<and> hw_user w body = decode_user v
     \<and> hw_rule w body = decode_rule v \<and> hw_hostgroup w body = decode_hostgroup v
     \<and> hw_variable w body = decode_variable v \<and> hw_enabled w body = decode_enabled v"

end
