(* ===== verification/Tables.thy ===== *)
theory Tables
  imports AdminJson
begin

section \<open>The tables of the panel (internal/admin/admin_panel.go)\<close>

text \<open>
  The HTML that the script of the panel makes of the server's JSON, one function per table,
  and what it is for whoever reads it: every cell shows the stored value, every button calls
  the function of its row on the stored name, and no stored value adds a tag.
\<close>

subsection \<open>Rendering\<close>

definition edit_icon :: string where
  "edit_icon = ''<svg width=\"16\" height=\"16\" viewBox=\"0 0 24 24\" fill=\"none\"'' @
     '' stroke=\"currentColor\" stroke-width=\"2\">'' @
     ''<path d=\"M11 4H4a2 2 0 0 0-2 2v14a2 2 0 0 0 2 2h14a2 2 0 0 0 2-2v-7\"/>'' @
     ''<path d=\"M18.5 2.5a2.121 2.121 0 0 1 3 3L12 15l-4 1 1-4 9.5-9.5z\"/>'' @
     ''</svg>''"

definition delete_icon :: string where
  "delete_icon = ''<svg width=\"16\" height=\"16\" viewBox=\"0 0 24 24\" fill=\"none\"'' @
     '' stroke=\"currentColor\" stroke-width=\"2\">'' @
     ''<polyline points=\"3 6 5 6 21 6\"/>'' @
     ''<path d=\"M19 6v14a2 2 0 0 1-2 2H7a2 2 0 0 1-2-2V6m3 0V4a2 2 0 0 1 2-2h4a2 2 0 0 1 2'' @
     '' 2v2\"/>'' @
     ''</svg>''"

definition edit_button :: "string \<Rightarrow> string" where
  "edit_button call = ''<button class=\"btn-icon\" onclick=\"'' @ call @ ''\" title=\"Edit\">'' @ edit_icon @ ''</button>''"

definition delete_button :: "string \<Rightarrow> string" where
  "delete_button call = ''<button class=\"btn-icon\" onclick=\"'' @ call @ ''\" title=\"Delete\">'' @ delete_icon @ ''</button>''"

text \<open>A call with one string, two strings, or a number as its arguments, as it stands in an attribute.\<close>

definition call_on :: "(rat \<Rightarrow> string) \<Rightarrow> string \<Rightarrow> json option \<Rightarrow> string" where
  "call_on fl f v = f @ CHR ''('' # CHR 0x27 # escape_attr fl v @ [CHR 0x27, CHR '')'']"

definition call_on_two :: "(rat \<Rightarrow> string) \<Rightarrow> string \<Rightarrow> json option \<Rightarrow> json option \<Rightarrow> string" where
  "call_on_two fl f v w = f @ CHR ''('' # CHR 0x27 # escape_attr fl v @ CHR 0x27 # '', '' @
     CHR 0x27 # escape_attr fl w @ [CHR 0x27, CHR '')'']"

definition call_with :: "string \<Rightarrow> string \<Rightarrow> string" where
  "call_with f number = f @ CHR ''('' # number @ '')''"

definition list_of :: "json \<Rightarrow> json list" where
  "list_of v = (case v of JList vs \<Rightarrow> vs | _ \<Rightarrow> [])"

definition entries :: "json \<Rightarrow> (string \<times> json) list" where
  "entries v = (case v of JObj fs \<Rightarrow> fs | _ \<Rightarrow> [])"

definition empty_row :: "nat \<Rightarrow> string \<Rightarrow> string" where
  "empty_row columns message = ''<tr><td colspan=\"'' @ dec_digits columns @ ''\" class=\"empty-state\">'' @ message @ ''</td></tr>''"

text \<open>\<open>!v || v.length === 0\<close> for a list or null.\<close>

definition rows_html :: "string \<Rightarrow> (json \<Rightarrow> string) \<Rightarrow> json \<Rightarrow> string" where
  "rows_html blank row v = (if list_of v = [] then blank else concat (map row (list_of v)))"

definition status_span :: "string \<Rightarrow> string \<Rightarrow> string" where
  "status_span cls text = ''<span class=\"status '' @ cls @ ''\">'' @ text @ ''</span>''"

definition server_row :: "(rat \<Rightarrow> string) \<Rightarrow> json \<Rightarrow> string" where
  "server_row fl s = ''<tr>'' @
     ''<td><strong>'' @ escape_html fl (prop_of s ''name'') @ ''</strong></td>'' @
     ''<td><span class=\"provider-badge\">'' @ escape_html fl (prop_of s ''provider_type'') @ ''</span></td>'' @
     ''<td class=\"mono\" style=\"max-width:200px;overflow:hidden;text-overflow:ellipsis;\">''
       @ escape_html fl (prop_of s ''endpoint'') @ ''</td>'' @
     ''<td>'' @ js_string fl (prop_of s ''hostgroup'') @ ''</td>'' @
     ''<td>'' @ js_string fl (prop_of s ''weight'') @ ''</td>'' @
     ''<td>'' @ status_span (if truthy (prop_of s ''healthy'') then ''status-online'' else ''status-offline'')
       (''<span class=\"status-dot\"></span>'' @ (if truthy (prop_of s ''healthy'') then ''Healthy'' else ''Unhealthy''))
       @ ''</td>'' @
     ''<td class=\"actions\">'' @
       edit_button (call_on fl ''editServer'' (prop_of s ''name'')) @
       delete_button (call_on fl ''deleteServer'' (prop_of s ''name'')) @
     ''</td>'' @ ''</tr>''"

definition servers_html :: "(rat \<Rightarrow> string) \<Rightarrow> json \<Rightarrow> string" where
  "servers_html fl v = rows_html (empty_row 7 ''No servers configured'') (server_row fl) v"

definition active_cell :: "json \<Rightarrow> string" where
  "active_cell v = ''<td>'' @ (if truthy (prop_of v ''active'') then status_span ''status-active'' ''Active''
     else status_span ''status-inactive'' ''Inactive'') @ ''</td>''"

definition user_row :: "(rat \<Rightarrow> string) \<Rightarrow> json \<Rightarrow> string" where
  "user_row fl u = ''<tr>'' @
     ''<td><strong>'' @ escape_html fl (prop_of u ''username'') @ ''</strong></td>'' @
     active_cell u @
     ''<td class=\"mono\">'' @ format_number fl (num (prop_of u ''max_requests_per_minute'')) @ ''</td>'' @
     ''<td class=\"mono\">'' @ format_number fl (num (prop_of u ''max_tokens_per_minute'')) @ ''</td>'' @
     ''<td>'' @ js_text fl (or_else (prop_of u ''default_hostgroup'') (JNum 0)) @ ''</td>'' @
     ''<td class=\"actions\">'' @
       edit_button (call_on fl ''editUser'' (prop_of u ''username'')) @
       delete_button (call_on fl ''deleteUser'' (prop_of u ''username'')) @
     ''</td>'' @ ''</tr>''"

definition users_html :: "(rat \<Rightarrow> string) \<Rightarrow> json \<Rightarrow> string" where
  "users_html fl v = rows_html (empty_row 6 ''No users configured'') (user_row fl) v"

definition rule_row :: "(rat \<Rightarrow> string) \<Rightarrow> json \<Rightarrow> string" where
  "rule_row fl r = ''<tr>'' @
     ''<td class=\"mono\">'' @ js_string fl (prop_of r ''rule_id'') @ ''</td>'' @
     ''<td>'' @ escape_html fl (Some (or_else (prop_of r ''match_model'') (JStr ''*''))) @ ''</td>'' @
     ''<td>'' @ escape_html fl (Some (or_else (prop_of r ''match_pattern'') (JStr ''*''))) @ ''</td>'' @
     ''<td>'' @ js_string fl (prop_of r ''destination_hostgroup'') @ ''</td>'' @
     ''<td>'' @ js_string fl (prop_of r ''priority'') @ ''</td>'' @
     active_cell r @
     ''<td class=\"actions\">'' @
       delete_button (call_with ''deleteRule'' (js_string fl (prop_of r ''rule_id''))) @
     ''</td>'' @ ''</tr>''"

definition rules_html :: "(rat \<Rightarrow> string) \<Rightarrow> json \<Rightarrow> string" where
  "rules_html fl v = rows_html (empty_row 7 ''No routing rules configured'') (rule_row fl) v"

definition hostgroup_row :: "(rat \<Rightarrow> string) \<Rightarrow> json \<Rightarrow> string" where
  "hostgroup_row fl h = ''<tr>'' @
     ''<td class=\"mono\">'' @ js_string fl (prop_of h ''group_id'') @ ''</td>'' @
     ''<td><strong>'' @ escape_html fl (prop_of h ''name'') @ ''</strong></td>'' @
     ''<td>'' @ escape_html fl (Some (or_else (prop_of h ''comment'') (JStr ''-''))) @ ''</td>'' @
     ''<td>'' @ js_text fl (or_else (prop_of h ''server_count'') (JNum 0)) @ ''</td>'' @
     ''<td class=\"actions\">'' @
       delete_button (call_with ''deleteHostgroup'' (js_string fl (prop_of h ''group_id''))) @
     ''</td>'' @ ''</tr>''"

definition hostgroups_html :: "(rat \<Rightarrow> string) \<Rightarrow> json \<Rightarrow> string" where
  "hostgroups_html fl v = rows_html (empty_row 5 ''No hostgroups configured'') (hostgroup_row fl) v"

definition variable_row :: "(rat \<Rightarrow> string) \<Rightarrow> string \<times> json \<Rightarrow> string" where
  "variable_row fl e = (case e of (n, v) \<Rightarrow> ''<tr>'' @
     ''<td class=\"mono\">'' @ escape_html fl (Some (JStr n)) @ ''</td>'' @
     ''<td class=\"mono\">'' @ escape_html fl (Some v) @ ''</td>'' @
     ''<td class=\"actions\">'' @
       edit_button (call_on_two fl ''editVariable'' (Some (JStr n)) (Some v)) @
     ''</td>'' @ ''</tr>'')"

definition variables_html :: "(rat \<Rightarrow> string) \<Rightarrow> json \<Rightarrow> string" where
  "variables_html fl v = (if entries v = [] then empty_row 3 ''No variables''
     else concat (map (variable_row fl) (entries v)))"

subsection \<open>Icons and buttons\<close>

text \<open>The tokens of the icons, which are lexed once.\<close>

definition edit_tokens :: "token list" where
  "edit_tokens = snd (snd (lex (Data, [], []) edit_icon))"

definition delete_tokens :: "token list" where
  "delete_tokens = snd (snd (lex (Data, [], []) delete_icon))"

lemma lex_edit_icon: "lex (Data, [], []) edit_icon = (Data, [], edit_tokens)"
  unfolding edit_tokens_def by code_simp

lemma lex_delete_icon: "lex (Data, [], []) delete_icon = (Data, [], delete_tokens)"
  unfolding delete_tokens_def by code_simp

lemmas lex_icons [simp] = lex_piece [OF lex_edit_icon] lex_piece [OF lex_delete_icon]

lemma inert_icons: "list_all inert edit_tokens" "list_all inert delete_tokens"
  by code_simp+

lemmas icon_tokens_in_table [simp] = inert_icons [THEN table_inert]

lemma icon_names [simp]:
  "filter (\<lambda>t. t \<noteq> []) (map tag_name edit_tokens) = [''svg'', ''path'', ''path'', ''/svg'']"
  "filter (\<lambda>t. t \<noteq> []) (map tag_name delete_tokens) = [''svg'', ''polyline'', ''path'', ''/svg'']"
  by code_simp+

lemma icon_handlers [simp]:
  "List.map_filter token_handler edit_tokens = []" "List.map_filter token_handler delete_tokens = []"
  by code_simp+

text \<open>A line break ends a string literal too early.\<close>

definition broken :: "string \<Rightarrow> bool" where
  "broken s \<longleftrightarrow> CHR 0x0A \<in> set s \<or> CHR 0x0D \<in> set s"

lemma call_on_quote [simp]:
  "CHR 0x22 \<notin> set f \<Longrightarrow> CHR 0x22 \<notin> set t \<Longrightarrow> CHR 0x22 \<notin> set (call_with f t)"
  "CHR 0x22 \<notin> set f \<Longrightarrow> CHR 0x22 \<notin> set (call_on fl f v)"
  "CHR 0x22 \<notin> set f \<Longrightarrow> CHR 0x22 \<notin> set (call_on_two fl f v w)"
  by (auto simp: call_on_def call_on_two_def call_with_def escape_attr_def dest: html_escaped_free)

lemma lex_edit_button: "CHR 0x22 \<notin> set c \<Longrightarrow> lex (Data, [], out) (edit_button c) = (Data, [], out @
   [Text [], Tag (''button class=\"btn-icon\" onclick=\"'' @ c @ ''\" title=\"Edit\"'')] @ edit_tokens @ [Text [], Tag ''/button''])"
  by (simp add: edit_button_def lex_InValue)

lemma lex_delete_button: "CHR 0x22 \<notin> set c \<Longrightarrow> lex (Data, [], out) (delete_button c) = (Data, [], out @
   [Text [], Tag (''button class=\"btn-icon\" onclick=\"'' @ c @ ''\" title=\"Delete\"'')] @ delete_tokens @ [Text [], Tag ''/button''])"
  by (simp add: delete_button_def lex_InValue)

lemma decode_call_on: "plain f \<Longrightarrow> html_decode (call_on fl f (Some (JStr n))) =
    f @ CHR ''('' # CHR 0x27 # script_escaped n @ [CHR 0x27, CHR '')'']"
  by (simp add: call_on_def html_decode_plain_append escape_attr_def)

lemma until_paren: "CHR ''('' \<notin> set f \<Longrightarrow> takeWhile (\<lambda>c. c \<noteq> CHR ''('') (f @ CHR ''('' # r) = f"
  by (induction f) auto

lemma read_literal_script [simp]:
  "read_literal [] (script_escaped s @ CHR 0x27 # r) = (if broken s then None else Some (s, r))"
  using read_literal_escaped [of s "[]"] read_literal_broken [of s "[]"] by (auto simp: broken_def)

lemma read_call_on:
  assumes "plain f" and "CHR ''('' \<notin> set f"
  shows "read_call (html_decode (call_on fl f (Some (JStr n)))) = (if broken n then None else Some (f, [n]))"
  using assms by (simp add: decode_call_on read_call_def until_paren read_arguments_def read_argument_def)

lemma itoa_Cons: "\<exists>c cs. itoa i = c # cs \<and> c \<noteq> CHR 0x27"
  using dec_digits_digits [of "nat i"] by (cases "dec_digits (nat i)") (auto simp: itoa_def is_digit_def)

lemma itoa_chars: "c \<in> set (itoa i) \<Longrightarrow> is_digit c \<or> c = CHR ''-''"
  using dec_digits_digits [of "nat i"] dec_digits_digits [of "nat (- i)"]
  by (auto simp: itoa_def list_all_iff split: if_splits)

lemma itoa_no_quote [simp]: "CHR 0x22 \<notin> set (itoa i)"
  using itoa_chars [of "CHR 0x22" i] by (auto simp: is_digit_def)

lemma plain_call_with [simp]: "plain (call_with f t) \<longleftrightarrow> plain f \<and> plain t"
  by (simp add: call_with_def)

lemma read_call_number:
  assumes "CHR ''('' \<notin> set f"
  shows "read_call (call_with f (itoa i)) = Some (f, [itoa i])"
proof -
  have t: "c \<notin> {CHR '','', CHR '')''}" if "c \<in> set (itoa i)" for c
    using itoa_chars [OF that] by (auto simp: is_digit_def)
  have "takeWhile (\<lambda>c. c \<notin> {CHR '','', CHR '')''}) (itoa i @ '')'') = itoa i"
    "dropWhile (\<lambda>c. c \<notin> {CHR '','', CHR '')''}) (itoa i @ '')'') = '')''"
    using t by (simp_all add: takeWhile_append2 dropWhile_append2)
  moreover obtain c cs where "itoa i = c # cs" "c \<noteq> CHR 0x27" using itoa_Cons by blast
  ultimately show ?thesis
    by (simp add: call_with_def read_call_def until_paren assms read_arguments_def read_argument_def)
qed

lemma read_call_on_two:
  assumes "plain f" and "CHR ''('' \<notin> set f"
  shows "read_call (html_decode (call_on_two fl f (Some (JStr a)) (Some (JStr b)))) =
    (if broken a \<or> broken b then None else Some (f, [a, b]))"
  using assms by (simp add: call_on_two_def html_decode_plain_append escape_attr_def read_call_def
    until_paren read_arguments_def read_argument_def)

subsection \<open>JSON\<close>

lemma js_values [simp]:
  "js_string fl (Some (int_num i)) = itoa i" "js_text fl (int_num i) = itoa i" "num (Some (int_num i)) = of_int i"
  "truthy (Some (JBool b)) = b" "escape_html fl (Some (JStr s)) = html_escaped s" "escape_html fl None = []"
  by (simp_all add: js_string_def num_def truthy_def escape_html_def or_empty_def)

lemma number_text_nat [simp]: "number_text fl (of_nat n) = itoa (int n)"
  using number_text_int [of fl "int n"] by simp

lemma or_else_simps [simp]:
  "or_else None v = v"
  "or_else (Some (JStr s)) (JStr t) = JStr (if s = [] then t else s)"
  "or_else (Some (int_num i)) (JNum 0) = int_num i" "or_else (Some (JNum (of_nat n))) (JNum 0) = JNum (of_nat n)"
  by (simp_all add: or_else_def truthy_def)

lemma server_props [simp]:
  "prop_of (server_info_json en (s, h, st)) ''name'' = Some (JStr (sv_name s))"
  "prop_of (server_info_json en (s, h, st)) ''provider_type'' = Some (JStr (sv_provider_type s))"
  "prop_of (server_info_json en (s, h, st)) ''endpoint'' = Some (JStr (sv_endpoint s))"
  "prop_of (server_info_json en (s, h, st)) ''hostgroup'' = Some (int_num (sv_hostgroup s))"
  "prop_of (server_info_json en (s, h, st)) ''weight'' = Some (int_num (sv_weight s))"
  "prop_of (server_info_json en (s, h, st)) ''healthy'' = Some (JBool h)"
  by (simp_all add: prop_of_def server_info_json_def server_fields_def omit_empty_def)

lemma user_props [simp]:
  "prop_of (user_json en u) ''username'' = Some (JStr (us_username u))"
  "prop_of (user_json en u) ''active'' = Some (JBool (us_active u))"
  "prop_of (user_json en u) ''max_requests_per_minute'' = Some (int_num (us_max_requests_per_minute u))"
  "prop_of (user_json en u) ''max_tokens_per_minute'' = Some (int_num (us_max_tokens_per_minute u))"
  "prop_of (user_json en u) ''default_hostgroup'' = Some (int_num (us_default_hostgroup u))"
  by (simp_all add: prop_of_def user_json_def omit_empty_def)

definition or_star :: "string \<Rightarrow> string" where
  "or_star s = (if s = [] then ''*'' else s)"

lemma rule_props [simp]:
  "prop_of (rule_json en r) ''rule_id'' = Some (int_num (rr_rule_id r))"
  "prop_of (rule_json en r) ''active'' = Some (JBool (rr_active r))"
  "or_else (prop_of (rule_json en r) ''match_model'') (JStr ''*'') = JStr (or_star (rr_match_model r))"
  "or_else (prop_of (rule_json en r) ''match_pattern'') (JStr ''*'') = JStr (or_star (rr_match_pattern r))"
  "prop_of (rule_json en r) ''destination_hostgroup'' = Some (int_num (rr_destination_hostgroup r))"
  "prop_of (rule_json en r) ''priority'' = Some (int_num (rr_priority r))"
  by (simp_all add: prop_of_def rule_json_def omit_empty_def or_star_def split: option.split)

lemma hostgroup_props [simp]:
  "prop_of (hostgroup_info_json (h, n)) ''group_id'' = None"
  "prop_of (hostgroup_info_json (h, n)) ''name'' = None"
  "prop_of (hostgroup_info_json (h, n)) ''comment'' = None"
  "prop_of (hostgroup_info_json (h, n)) ''server_count'' = Some (int_num (int n))"
  by (simp_all add: prop_of_def hostgroup_info_json_def hostgroup_fields_def)

subsection \<open>What each table says\<close>

definition icon_button :: "string \<Rightarrow> string list" where
  "icon_button shape = [''button'', ''svg'', shape, ''path'', ''/svg'', ''/button'']"

definition td_span :: "string list" where
  "td_span = [''td'', ''span'', ''/span'', ''/td'']"

abbreviation plain_td :: "string list" where "plain_td \<equiv> [''td'', ''/td'']"
abbreviation strong_td :: "string list" where "strong_td \<equiv> [''td'', ''strong'', ''/strong'', ''/td'']"

lemmas row_read_defs = row_reads_def lex_edit_button lex_delete_button status_span_def active_cell_def
  has_suffix_def icon_button_def td_span_def split_on_free

fun server_cells :: "server \<times> bool \<times> (i64 \<times> duration) option \<Rightarrow> string list" where
  "server_cells (s, healthy, state) = [sv_name s, sv_provider_type s, sv_endpoint s, itoa (sv_hostgroup s),
     itoa (sv_weight s), if healthy then ''Healthy'' else ''Unhealthy'', []]"

definition server_tags :: "string list" where
  "server_tags = ''tr'' # strong_td @ td_span @ plain_td @ plain_td @ plain_td @
     [''td'', ''span'', ''span'', ''/span'', ''/span'', ''/td''] @
     ''td'' # icon_button ''path'' @ icon_button ''polyline'' @ [''/td'', ''/tr'']"

lemma server_row_reads: "row_reads (server_row fl (server_info_json en x)) (server_cells x)
    [html_decode (call_on fl ''editServer'' (Some (JStr (sv_name (fst x))))),
     html_decode (call_on fl ''deleteServer'' (Some (JStr (sv_name (fst x)))))] server_tags"
  by (cases x) (simp add: server_row_def server_tags_def row_read_defs)

definition user_cells :: "(rat \<Rightarrow> string) \<Rightarrow> user \<Rightarrow> string list" where
  "user_cells fl u = [us_username u, if us_active u then ''Active'' else ''Inactive'',
     format_number fl (of_int (us_max_requests_per_minute u)),
     format_number fl (of_int (us_max_tokens_per_minute u)), itoa (us_default_hostgroup u), []]"

definition user_tags :: "string list" where
  "user_tags = ''tr'' # strong_td @ td_span @ plain_td @ plain_td @ plain_td @
     ''td'' # icon_button ''path'' @ icon_button ''polyline'' @ [''/td'', ''/tr'']"

lemma user_row_reads: "row_reads (user_row fl (user_json en u)) (user_cells fl u)
    [html_decode (call_on fl ''editUser'' (Some (JStr (us_username u)))),
     html_decode (call_on fl ''deleteUser'' (Some (JStr (us_username u))))] user_tags"
  by (simp add: user_row_def user_cells_def user_tags_def row_read_defs)

definition rule_cells :: "routing_rule \<Rightarrow> string list" where
  "rule_cells r = [itoa (rr_rule_id r), or_star (rr_match_model r), or_star (rr_match_pattern r),
     itoa (rr_destination_hostgroup r), itoa (rr_priority r), if rr_active r then ''Active'' else ''Inactive'', []]"

definition rule_tags :: "string list" where
  "rule_tags = ''tr'' # plain_td @ plain_td @ plain_td @ plain_td @ plain_td @ td_span @
     ''td'' # icon_button ''polyline'' @ [''/td'', ''/tr'']"

lemma rule_row_reads: "row_reads (rule_row fl (rule_json en r)) (rule_cells r)
    [call_with ''deleteRule'' (itoa (rr_rule_id r))] rule_tags"
  by (simp add: rule_row_def rule_cells_def rule_tags_def row_read_defs)

lemma hostgroup_row_reads: "row_reads (hostgroup_row fl (hostgroup_info_json x))
    [''undefined'', [], ''-'', itoa (int (snd x)), []] [call_with ''deleteHostgroup'' ''undefined'']
    (''tr'' # plain_td @ strong_td @ plain_td @ plain_td @ ''td'' # icon_button ''polyline'' @ [''/td'', ''/tr''])"
  by (cases x) (simp add: hostgroup_row_def row_read_defs js_string_def html_char_def)

definition variable_tags :: "string list" where
  "variable_tags = ''tr'' # plain_td @ plain_td @ ''td'' # icon_button ''path'' @ [''/td'', ''/tr'']"

lemma variable_row_reads: "row_reads (variable_row fl (n, JStr v)) [n, v, []]
    [html_decode (call_on_two fl ''editVariable'' (Some (JStr n)) (Some (JStr v)))]
    variable_tags"
  by (simp add: variable_row_def variable_tags_def row_read_defs)

lemma rows_of_list [simp]: "rows_html blank row (JList (map f xs)) =
    (if xs = [] then blank else concat (map (\<lambda>x. row (f x)) xs))"
  by (simp add: rows_html_def list_of_def comp_def)

lemma rows_of_slice [simp]: "rows_html blank row (json_slice f xs) =
    (if xs = [] then blank else concat (map (\<lambda>x. row (f x)) xs))"
  by (simp add: json_slice_def) (simp add: rows_html_def list_of_def)

lemma blank_tables [simp]:
  "read_table (empty_row 7 ''No servers configured'') = [[''No servers configured'']]"
  "read_table (empty_row 6 ''No users configured'') = [[''No users configured'']]"
  "read_table (empty_row 7 ''No routing rules configured'') = [[''No routing rules configured'']]"
  "read_table (empty_row 3 ''No variables'') = [[''No variables'']]"
  by code_simp+

lemmas read_server_rows = read_rows [of _ "\<lambda>x. server_row fl (server_info_json en x)" server_cells
  "\<lambda>x. [html_decode (call_on fl ''editServer'' (Some (JStr (sv_name (fst x))))),
     html_decode (call_on fl ''deleteServer'' (Some (JStr (sv_name (fst x)))))]" "\<lambda>_. server_tags" for fl en, OF server_row_reads]

lemmas read_user_rows = read_rows [of _ "\<lambda>u. user_row fl (user_json en u)" "user_cells fl" 
  "\<lambda>u. [html_decode (call_on fl ''editUser'' (Some (JStr (us_username u)))),
     html_decode (call_on fl ''deleteUser'' (Some (JStr (us_username u))))]" "\<lambda>_. user_tags" for fl en, OF user_row_reads]
lemmas read_rule_rows = read_rows [of _ "\<lambda>r. rule_row fl (rule_json en r)" rule_cells
  "\<lambda>r. [call_with ''deleteRule'' (itoa (rr_rule_id r))]" "\<lambda>_. rule_tags" for fl en, OF rule_row_reads]

lemmas read_variable_rows = read_rows [of _ "\<lambda>(n, v). variable_row fl (n, JStr v)" "\<lambda>(n, v). [n, v, []]"
  "\<lambda>(n, v). [html_decode (call_on_two fl ''editVariable'' (Some (JStr n)) (Some (JStr v)))]"
  "\<lambda>_. variable_tags" for fl]

lemma variables_html_strings: "variables_html fl (JObj (map (\<lambda>(n, v). (n, JStr v)) kvs)) =
    (if kvs = [] then empty_row 3 ''No variables'' else concat (map (\<lambda>(n, v). variable_row fl (n, JStr v)) kvs))"
  by (simp add: variables_html_def entries_def comp_def case_prod_unfold)

lemma variable_rows_read:
  "read_table (concat (map (\<lambda>(n, v). variable_row fl (n, JStr v)) kvs)) = map (\<lambda>(n, v). [n, v, []]) kvs"
  "handlers (concat (map (\<lambda>(n, v). variable_row fl (n, JStr v)) kvs)) = map read_call (concat (map
     (\<lambda>(n, v). [html_decode (call_on_two fl ''editVariable'' (Some (JStr n)) (Some (JStr v)))]) kvs))"
  "tag_names (concat (map (\<lambda>(n, v). variable_row fl (n, JStr v)) kvs)) = concat (map (\<lambda>_. variable_tags) kvs)"
  by (rule read_variable_rows; auto simp: variable_row_reads)+

lemma blank_tags [simp]:
  "tag_names (empty_row 7 ''No servers configured'') = [''tr'', ''td'', ''/td'', ''/tr'']"
  "tag_names (empty_row 6 ''No users configured'') = [''tr'', ''td'', ''/td'', ''/tr'']"
  "tag_names (empty_row 7 ''No routing rules configured'') = [''tr'', ''td'', ''/td'', ''/tr'']"
  "tag_names (empty_row 3 ''No variables'') = [''tr'', ''td'', ''/td'', ''/tr'']"
  by code_simp+

lemma blank_handlers [simp]:
  "handlers (empty_row 7 ''No servers configured'') = []" "handlers (empty_row 6 ''No users configured'') = []"
  "handlers (empty_row 7 ''No routing rules configured'') = []" "handlers (empty_row 3 ''No variables'') = []"
  by code_simp+

lemma variable_handlers: "handlers (variables_html fl (JObj (map (\<lambda>(n, v). (n, JStr v)) kvs)))
    = map (\<lambda>(n, v). if broken n \<or> broken v then None else Some (''editVariable'', [n, v])) kvs"
  by (simp add: variables_html_strings variable_rows_read)
    (simp add: map_concat comp_def case_prod_unfold read_call_on_two)

lemmas tables_defs = servers_html_def users_html_def rules_html_def variables_html_strings

text \<open>
  What the line of a user is to say: its name, state and default hostgroup, and its two limits
  as figures.
\<close>

definition user_shown :: "user \<Rightarrow> string list \<Rightarrow> bool" where
  "user_shown u cells = (case cells of
       [username, state, requests, toks, hostgroup, buttons] \<Rightarrow>
         username = us_username u \<and> state = (if us_active u then ''Active'' else ''Inactive'')
         \<and> shows_number requests (of_int (us_max_requests_per_minute u))
         \<and> shows_number toks (of_int (us_max_tokens_per_minute u))
         \<and> hostgroup = itoa (us_default_hostgroup u) \<and> buttons = []
     | _ \<Rightarrow> False)"

lemma user_cells_shown: "user_shown u (user_cells fl u)"
  by (simp add: user_shown_def user_cells_def)

text \<open>
  C24: The tables show what is stored. Whatever characters the names, endpoints, patterns and
  values of the rows hold, a reader of the rendered table finds one line per row, and in it
  the stored strings, decimal numbers and states; an empty table says so. The limits of a user
  read as the stored number: exactly below a thousand, from there to the nearest hundred (with
  a K), from a million to the nearest hundred thousand (with an M).
\<close>

theorem tables_show_what_is_stored:
  "read_table (servers_html fl (JList (map (server_info_json en) ss)))
       = (if ss = [] then [[''No servers configured'']] else map server_cells ss)
   \<and> (let t = read_table (users_html fl (json_slice (user_json en) us))
       in if us = [] then t = [[''No users configured'']] else list_all2 user_shown us t)
   \<and> read_table (rules_html fl (json_slice (rule_json en) rs))
       = (if rs = [] then [[''No routing rules configured'']] else map rule_cells rs)
   \<and> read_table (variables_html fl (JObj (map (\<lambda>(n, v). (n, JStr v)) kvs)))
       = (if kvs = [] then [[''No variables'']] else map (\<lambda>(n, v). [n, v, []]) kvs)"
  by (simp add: tables_defs read_server_rows read_user_rows read_rule_rows variable_rows_read
    list_all2_conv_all_nth user_cells_shown)

text \<open>
  C26: Stored values add no markup. The tags of a rendered table are those of its rows, and
  these do not depend on what the rows hold: no name, endpoint, pattern or value adds a tag,
  so none can bring an element into the page.
\<close>

theorem values_add_no_markup:
  "tag_names (servers_html fl (JList (map (server_info_json en) ss)))
       = (if ss = [] then [''tr'', ''td'', ''/td'', ''/tr''] else concat (replicate (length ss) server_tags))
   \<and> tag_names (users_html fl (json_slice (user_json en) us))
       = (if us = [] then [''tr'', ''td'', ''/td'', ''/tr''] else concat (replicate (length us) user_tags))
   \<and> tag_names (rules_html fl (json_slice (rule_json en) rs))
       = (if rs = [] then [''tr'', ''td'', ''/td'', ''/tr''] else concat (replicate (length rs) rule_tags))
   \<and> tag_names (variables_html fl (JObj (map (\<lambda>(n, v). (n, JStr v)) kvs)))
       = (if kvs = [] then [''tr'', ''td'', ''/td'', ''/tr''] else concat (replicate (length kvs) variable_tags))"
  by (simp add: tables_defs read_server_rows read_user_rows read_rule_rows variable_rows_read map_replicate_const)

definition calls :: "string list \<Rightarrow> string \<Rightarrow> call option list" where
  "calls fs name = map (\<lambda>f. if broken name then None else Some (f, [name])) fs"

text \<open>
  C25: The buttons act on their row. Whatever characters a name holds, the handlers of its
  row are the calls of the row's functions on exactly that name, unless it has a line break:
  then they are no calls at all, as the string literal is not closed.
\<close>

theorem buttons_act_on_their_row:
  "handlers (servers_html fl (JList (map (server_info_json en) ss)))
       = concat (map (\<lambda>(s, _). calls [''editServer'', ''deleteServer''] (sv_name s)) ss)
   \<and> handlers (users_html fl (json_slice (user_json en) us))
       = concat (map (\<lambda>u. calls [''editUser'', ''deleteUser''] (us_username u)) us)
   \<and> handlers (rules_html fl (json_slice (rule_json en) rs))
       = map (\<lambda>r. Some (''deleteRule'', [itoa (rr_rule_id r)])) rs
   \<and> handlers (variables_html fl (JObj (map (\<lambda>(n, v). (n, JStr v)) kvs)))
       = map (\<lambda>(n, v). if broken n \<or> broken v then None else Some (''editVariable'', [n, v])) kvs"
  unfolding variable_handlers
  by (simp add: tables_defs read_server_rows read_user_rows read_rule_rows
    map_concat comp_def case_prod_unfold calls_def read_call_on read_call_number)

end
