(* ===== verification/Panel.thy ===== *)
theory Panel
  imports Tables
begin

section \<open>The admin panel (internal/admin/admin_panel.go)\<close>

text \<open>
  The script of the panel: the state of the page, the requests it sends to the handlers of
  \<open>AdminHttp\<close>, the tables it renders, and the functions behind its buttons and forms.
\<close>

subsection \<open>The page\<close>

text \<open>The inputs of the five forms.\<close>

datatype field =
    ServerEditName | ServerName | ServerProvider | ServerEndpoint | ServerApikey
  | ServerHostgroup | ServerWeight | ServerMaxconn | ServerStatus
  | UserEditName | UserName | UserRpm | UserTpm | UserHostgroup
  | RuleEditId | RuleModel | RulePattern | RuleHostgroup | RulePriority
  | HostgroupId | HostgroupName | HostgroupComment
  | VariableName | VariableValue

datatype input_kind = Hidden | TextInput | UrlInput | NumberInput | Select "string list"

fun kind_of :: "field \<Rightarrow> input_kind" where
  "kind_of ServerEditName = Hidden"
| "kind_of ServerProvider = Select [''openai'', ''anthropic'', ''google'', ''azure'', ''groq'', ''ollama'']"
| "kind_of ServerEndpoint = UrlInput"
| "kind_of ServerHostgroup = NumberInput"
| "kind_of ServerWeight = NumberInput"
| "kind_of ServerMaxconn = NumberInput"
| "kind_of ServerStatus = Select [''ONLINE'', ''OFFLINE'']"
| "kind_of UserEditName = Hidden"
| "kind_of UserRpm = NumberInput"
| "kind_of UserTpm = NumberInput"
| "kind_of UserHostgroup = NumberInput"
| "kind_of RuleEditId = Hidden"
| "kind_of RuleHostgroup = NumberInput"
| "kind_of RulePriority = NumberInput"
| "kind_of HostgroupId = NumberInput"
| "kind_of _ = TextInput"

text \<open>
  What an input makes of a value (the value sanitization of HTML): a line of text has no
  line breaks, a URL no surrounding space either, a number input takes nothing that is not a
  number, and a select only its options.
\<close>

definition strip_newlines :: "string \<Rightarrow> string" where
  "strip_newlines s = filter (\<lambda>c. c \<noteq> CHR 0x0A \<and> c \<noteq> CHR 0x0D) s"

definition strip_spaces :: "string \<Rightarrow> string" where
  "strip_spaces s = (let space = (\<lambda>c. c \<in> {CHR 0x09, CHR 0x0A, CHR 0x0C, CHR 0x0D, CHR 0x20})
     in rev (dropWhile space (rev (dropWhile space s))))"

definition number_input :: "string \<Rightarrow> bool" where
  "number_input s = (let t = trim_prefix s ''-''; a = takeWhile is_digit t; u = dropWhile is_digit t;
       v = (if has_prefix u ''.'' then dropWhile is_digit (tl u) else u);
       frac = (if has_prefix u ''.'' then takeWhile is_digit (tl u) else []);
       e = (if v = [] then [] else tl v);
       x = (if has_prefix e ''-'' \<or> has_prefix e ''+'' then tl e else e)
     in (if has_prefix u ''.'' then frac \<noteq> [] else a \<noteq> []) \<and>
        (v = [] \<or> (hd v \<in> {CHR ''e'', CHR ''E''} \<and> x \<noteq> [] \<and> list_all is_digit x)))"

fun sanitize :: "input_kind \<Rightarrow> string \<Rightarrow> string" where
  "sanitize Hidden s = s"
| "sanitize TextInput s = strip_newlines s"
| "sanitize UrlInput s = strip_spaces (strip_newlines s)"
| "sanitize NumberInput s = (if number_input s then s else [])"
| "sanitize (Select options) s = (if s \<in> set options then s else [])"

text \<open>The functions that load a page, and the modal dialogs.\<close>

datatype loader = LoadOverview | LoadServers | LoadUsers | LoadRules | LoadHostgroups
  | LoadVariables | LoadCache

datatype modal = ServerModal | UserModal | RuleModal | HostgroupModal | VariableModal

text \<open>
  The part of the document that the script reads or writes: inputs, texts and inner HTML by
  id, dialogs, toasts, and the loaders that it has started and not awaited.
\<close>

record page =
  pg_active :: string
  pg_title :: string
  pg_value :: "field \<Rightarrow> string"
  pg_disabled :: "field \<Rightarrow> bool"
  pg_open :: "modal \<Rightarrow> bool"
  pg_toasts :: "string list"
  pg_text :: "string \<Rightarrow> string"
  pg_html :: "string \<Rightarrow> string"
  pg_toggle :: bool
  pg_hint :: bool
  pg_loads :: "loader list"

definition set_input :: "field \<Rightarrow> string \<Rightarrow> page \<Rightarrow> page" where
  "set_input f s p = p\<lparr>pg_value := (pg_value p)(f := sanitize (kind_of f) s)\<rparr>"

definition set_text :: "string \<Rightarrow> string \<Rightarrow> page \<Rightarrow> page" where
  "set_text x s p = p\<lparr>pg_text := (pg_text p)(x := s)\<rparr>"

definition set_html :: "string \<Rightarrow> string \<Rightarrow> page \<Rightarrow> page" where
  "set_html x s p = p\<lparr>pg_html := (pg_html p)(x := s)\<rparr>"

definition start_load :: "loader \<Rightarrow> page \<Rightarrow> page" where
  "start_load l p = p\<lparr>pg_loads := pg_loads p @ [l]\<rparr>"

definition open_modal :: "modal \<Rightarrow> page \<Rightarrow> page" where
  "open_modal m p = p\<lparr>pg_open := (pg_open p)(m := True)\<rparr>"

definition close_modal :: "modal \<Rightarrow> page \<Rightarrow> page" where
  "close_modal m p = p\<lparr>pg_open := (pg_open p)(m := False)\<rparr>"

text \<open>A toast goes after three seconds, the oldest first.\<close>

definition show_toast :: "string \<Rightarrow> page \<Rightarrow> page" where
  "show_toast message p = p\<lparr>pg_toasts := pg_toasts p @ [message]\<rparr>"

definition toast_timeout :: "page \<Rightarrow> page" where
  "toast_timeout p = p\<lparr>pg_toasts := tl (pg_toasts p)\<rparr>"

definition page_titles :: "(string \<times> string) list" where
  "page_titles = [(''overview'', ''Overview''), (''servers'', ''Servers''), (''users'', ''Users''),
     (''rules'', ''Routing Rules''), (''hostgroups'', ''Hostgroups''), (''variables'', ''Variables''),
     (''cache'', ''Cache'')]"

definition page_loaders :: "(string \<times> loader) list" where
  "page_loaders = [(''overview'', LoadOverview), (''servers'', LoadServers), (''users'', LoadUsers),
     (''rules'', LoadRules), (''hostgroups'', LoadHostgroups), (''variables'', LoadVariables),
     (''cache'', LoadCache)]"

text \<open>
  The page is one of those the document has; otherwise the script stops at the missing
  element after it has hidden the others.
\<close>

definition show_page :: "string \<Rightarrow> page \<Rightarrow> page" where
  "show_page name p = (if map_of page_titles name = None then p\<lparr>pg_active := []\<rparr>
     else let p = p\<lparr>pg_active := name, pg_title := the (map_of page_titles name)\<rparr> in
       case map_of page_loaders name of Some l \<Rightarrow> start_load l p | None \<Rightarrow> p)"

subsection \<open>Requests\<close>

text \<open>
  What the script finds outside: the cookies, the path and query with which a URL reaches
  the multiplexer, \<open>JSON.stringify\<close>, the answer to \<open>confirm\<close>, the printing of fractions, the
  messages of errors that the script engine itself raises, and the encoding of the server.
\<close>

datatype js_error = Thrown string | NetworkError | SyntaxError | TypeError

record browser =
  br_cookies :: "(string \<times> string) list"
  br_target :: "string \<Rightarrow> string \<times> (string \<Rightarrow> string)"
  br_stringify :: "json \<Rightarrow> string"
  br_confirm :: "string \<Rightarrow> bool"
  br_float :: "rat \<Rightarrow> string"
  br_wide :: "int \<Rightarrow> rat option"
  br_engine_message :: "js_error \<Rightarrow> string"
  br_encoding :: encoding

fun error_message :: "browser \<Rightarrow> js_error \<Rightarrow> string" where
  "error_message br (Thrown m) = m"
| "error_message br e = br_engine_message br e"

definition fetch_request :: "browser \<Rightarrow> string \<Rightarrow> string \<Rightarrow> json option \<Rightarrow> web_request" where
  "fetch_request br meth url data = (case br_target br url of (path, query) \<Rightarrow>
     \<lparr>hr_method = meth, hr_path = path,
      hr_content_type = (case data of Some v \<Rightarrow> ''application/json'' | None \<Rightarrow> []),
      hr_cookies = br_cookies br, hr_query = query, hr_form = None,
      hr_body = (case data of Some v \<Rightarrow> br_stringify br v | None \<Rightarrow> [])\<rparr>)"

type_synonym 'a api_result = "(js_error, 'a) res \<times> admin"

definition fetch :: "'z http_world_scheme \<Rightarrow> browser \<Rightarrow> string \<Rightarrow> string \<Rightarrow> json option \<Rightarrow> admin
    \<Rightarrow> reply web_response api_result" where
  "fetch w br meth url data ad = (case serve w (fetch_request br meth url data) ad of
     (resp, ad) \<Rightarrow> (if rs_status resp = 0 then Err NetworkError else Ok resp, ad))"

definition response_ok :: "reply web_response \<Rightarrow> bool" where
  "response_ok resp \<longleftrightarrow> 200 \<le> rs_status resp \<and> rs_status resp < 300"

definition response_json :: "browser \<Rightarrow> reply web_response \<Rightarrow> (js_error, json) res" where
  "response_json br resp =
     (case Option.bind (rs_body resp) (reply_json (br_encoding br)) of Some v \<Rightarrow> Ok v | None \<Rightarrow> Err SyntaxError)"

definition api_get :: "'z http_world_scheme \<Rightarrow> browser \<Rightarrow> string \<Rightarrow> admin \<Rightarrow> json api_result" where
  "api_get w br endpoint ad = (case fetch w br ''GET'' (''/api'' @ endpoint) None ad of
     (r, ad) \<Rightarrow> (res_bind r (\<lambda>resp. if response_ok resp then response_json br resp
        else Err (Thrown ''API error'')), ad))"

text \<open>\<open>err.error || 'API error'\<close> after a request that failed.\<close>

definition thrown_error :: "browser \<Rightarrow> reply web_response \<Rightarrow> (js_error, json) res" where
  "thrown_error br resp = res_bind (response_json br resp)
     (\<lambda>err. Err (Thrown (js_text (br_float br) (or_else (prop_of err ''error'') (JStr ''API error'')))))"

definition api_post :: "'z http_world_scheme \<Rightarrow> browser \<Rightarrow> string \<Rightarrow> json \<Rightarrow> admin \<Rightarrow> json api_result" where
  "api_post w br endpoint data ad = (case fetch w br ''POST'' (''/api'' @ endpoint) (Some data) ad of
     (r, ad) \<Rightarrow> (res_bind r (\<lambda>resp. if response_ok resp then response_json br resp
        else thrown_error br resp), ad))"

definition api_put :: "'z http_world_scheme \<Rightarrow> browser \<Rightarrow> string \<Rightarrow> json \<Rightarrow> admin \<Rightarrow> json api_result" where
  "api_put w br endpoint data ad = (case fetch w br ''PUT'' (''/api'' @ endpoint) (Some data) ad of
     (r, ad) \<Rightarrow> (res_bind r (\<lambda>resp. if response_ok resp then response_json br resp
        else thrown_error br resp), ad))"

definition api_delete :: "'z http_world_scheme \<Rightarrow> browser \<Rightarrow> string \<Rightarrow> admin \<Rightarrow> unit api_result" where
  "api_delete w br endpoint ad = (case fetch w br ''DELETE'' (''/api'' @ endpoint) None ad of
     (r, ad) \<Rightarrow> (res_bind r (\<lambda>resp. if response_ok resp then Ok () else Err (Thrown ''API error'')), ad))"

text \<open>\<open>try\<close> and \<open>catch\<close> around one request: what follows it, and what an error does.\<close>

definition try_catch :: "'a api_result \<Rightarrow> ('a \<Rightarrow> page) \<Rightarrow> (js_error \<Rightarrow> page) \<Rightarrow> page \<times> admin" where
  "try_catch r go catch = (case r of (x, ad) \<Rightarrow>
     (case x of Ok v \<Rightarrow> go v | Err e \<Rightarrow> catch e | Panic m \<Rightarrow> catch TypeError, ad))"

text \<open>A failed load is only logged to the console.\<close>

definition load_with :: "'a api_result \<Rightarrow> ('a \<Rightarrow> page \<Rightarrow> page) \<Rightarrow> page \<Rightarrow> page \<times> admin" where
  "load_with r go p = try_catch r (\<lambda>v. go v p) (\<lambda>_. p)"

subsection \<open>The overview\<close>

text \<open>\<open>fetch(url).then(r => r.json()).catch(() => ({}))\<close>.\<close>

definition fetch_or_empty :: "'z http_world_scheme \<Rightarrow> browser \<Rightarrow> string \<Rightarrow> admin \<Rightarrow> json \<times> admin" where
  "fetch_or_empty w br url ad = (case fetch w br ''GET'' url None ad of
     (r, ad) \<Rightarrow> (case res_bind r (response_json br) of Ok v \<Rightarrow> v | _ \<Rightarrow> JObj [], ad))"

definition get_total_requests :: "json \<Rightarrow> rat" where
  "get_total_requests stats = (case prop_of stats ''ServerStats'' of
     Some (JList ss) \<Rightarrow> sum_list (map (\<lambda>s. num (prop_of s ''TotalReqs'')) ss) | _ \<Rightarrow> 0)"

text \<open>The length of a list; null has no properties.\<close>

definition list_length :: "json \<Rightarrow> nat option" where
  "list_length v = (if v = JNull then None else Some (length (list_of v)))"

definition hit_rate_text :: "nat \<Rightarrow> json \<Rightarrow> string" where
  "hit_rate_text k cache = (case prop_of cache ''hit_rate'' of None \<Rightarrow> ''-''
     | v \<Rightarrow> percent k (num v))"

definition latency_text :: "json \<Rightarrow> string" where
  "latency_text status = (let l = num (prop_of status ''Latency'') in
     if 0 < l then itoa (math_round (l / 1000000)) @ ''ms'' else ''-'')"

definition health_entry :: "(rat \<Rightarrow> string) \<Rightarrow> string \<times> json \<Rightarrow> string" where
  "health_entry fl e = (case e of (name, status) \<Rightarrow>
     ''<div style=\"display:flex;justify-content:space-between;align-items:center;padding:12px;background:#f8f9fa;border-radius:6px;border:1px solid #e0e0e0;\">'' @
     ''<div><span class=\"status '' @ (if truthy (prop_of status ''Healthy'') then ''status-healthy'' else ''status-unhealthy'')
       @ ''\" style=\"margin-right:8px;\"><span class=\"status-dot\"></span>''
       @ (if truthy (prop_of status ''Healthy'') then ''OK'' else ''Down'') @ ''</span><strong>''
       @ escape_html fl (Some (JStr name)) @ ''</strong></div>'' @
     ''<span class=\"mono\" style=\"color:#666;\">'' @ latency_text status @ ''</span>'' @ ''</div>'')"

definition health_html :: "(rat \<Rightarrow> string) \<Rightarrow> json \<Rightarrow> string" where
  "health_html fl health = (if entries health = [] then ''<div style=\"color:#888;\">No servers configured</div>''
     else ''<div style=\"display:grid;grid-template-columns:repeat(auto-fill,minmax(200px,1fr));gap:12px;\">''
       @ concat (map (health_entry fl) (entries health)) @ ''</div>'')"

text \<open>What the page shows; the script stops where it asks null for its length.\<close>

definition overview_lists :: "browser \<Rightarrow> json \<Rightarrow> json \<Rightarrow> json \<Rightarrow> json \<Rightarrow> page \<Rightarrow> page" where
  "overview_lists br users rules hostgroups health p =
     (case list_length users of None \<Rightarrow> p | Some n \<Rightarrow>
       let p = set_text ''overview-totalUsers'' (itoa (int n)) p in
       case list_length rules of None \<Rightarrow> p | Some m \<Rightarrow>
       let p = set_text ''overview-totalRules'' (itoa (int m)) p in
       case list_length hostgroups of None \<Rightarrow> p | Some k \<Rightarrow>
       set_html ''overview-health'' (health_html (br_float br) health)
         (set_text ''overview-totalHostgroups'' (itoa (int k)) p))"

definition overview_shown :: "browser \<Rightarrow> json \<Rightarrow> json \<Rightarrow> json \<Rightarrow> json \<Rightarrow> json \<Rightarrow> json \<Rightarrow> page \<Rightarrow> page" where
  "overview_shown br stats users rules hostgroups cache health p =
     overview_lists br users rules hostgroups health
       (set_text ''overview-algorithm'' (js_text (br_float br) (or_else (prop_of stats ''Algorithm'') (JStr ''-'')))
       (set_text ''overview-cacheHitRate'' (hit_rate_text 1 cache)
       (set_text ''overview-totalRequests'' (format_number (br_float br) (get_total_requests stats))
       (set_text ''overview-healthyServers'' (js_text (br_float br) (or_else (prop_of stats ''HealthyServers'') (JNum 0)))
       (set_text ''overview-totalServers'' (js_text (br_float br) (or_else (prop_of stats ''TotalServers'') (JNum 0))) p)))))"

text \<open>All requests are sent; one that fails rejects the whole.\<close>

definition load_overview :: "'z http_world_scheme \<Rightarrow> browser \<Rightarrow> page \<Rightarrow> admin \<Rightarrow> page \<times> admin" where
  "load_overview w br p ad =
     (let (stats, ad) = api_get w br ''/stats'' ad; (users, ad) = api_get w br ''/users'' ad;
          (rules, ad) = api_get w br ''/rules'' ad; (hostgroups, ad) = api_get w br ''/hostgroups'' ad;
          (cache, ad) = fetch_or_empty w br ''/api/cache'' ad; (health, ad) = fetch_or_empty w br ''/api/health'' ad
      in load_with (res_bind stats (\<lambda>s. res_bind users (\<lambda>u. res_bind rules (\<lambda>r. res_bind hostgroups
           (\<lambda>h. Ok (s, u, r, h))))), ad)
         (\<lambda>(s, u, r, h) p. overview_shown br s u r h cache health p) p)"

definition reload_config :: "'z http_world_scheme \<Rightarrow> browser \<Rightarrow> page \<Rightarrow> admin \<Rightarrow> page \<times> admin" where
  "reload_config w br p ad = try_catch (api_post w br ''/reload'' (JObj []) ad)
     (\<lambda>_. start_load LoadOverview (show_toast ''Configuration reloaded successfully'' p))
     (\<lambda>e. show_toast (''Failed to reload: '' @ error_message br e) p)"

subsection \<open>Servers\<close>

definition show_servers :: "'z http_world_scheme \<Rightarrow> browser \<Rightarrow> page \<Rightarrow> admin \<Rightarrow> page \<times> admin" where
  "show_servers w br p ad = load_with (api_get w br ''/servers'' ad)
     (\<lambda>v. set_html ''servers-table'' (servers_html (br_float br) v)) p"

text \<open>\<open>server ? server.x : default\<close>.\<close>

definition field_text :: "browser \<Rightarrow> json option \<Rightarrow> string \<Rightarrow> string \<Rightarrow> string" where
  "field_text br v k deflt = (case v of Some x \<Rightarrow> js_string (br_float br) (prop_of x k) | None \<Rightarrow> deflt)"

definition open_server_modal :: "browser \<Rightarrow> json option \<Rightarrow> page \<Rightarrow> page" where
  "open_server_modal br v p = open_modal ServerModal
     (set_input ServerStatus (field_text br v ''status'' ''ONLINE'')
     (set_input ServerMaxconn (field_text br v ''max_connections'' ''100'')
     (set_input ServerWeight (field_text br v ''weight'' ''1'')
     (set_input ServerHostgroup (field_text br v ''hostgroup'' ''0'')
     (set_input ServerApikey []
     (set_input ServerEndpoint (field_text br v ''endpoint'' [])
     (set_input ServerProvider (field_text br v ''provider_type'' ''openai'')
     ((set_input ServerName (field_text br v ''name'' [])
     (set_input ServerEditName (field_text br v ''name'' [])
     (set_text ''server-modal-title'' (if v = None then ''Add Server'' else ''Edit Server'') p)))
       \<lparr>pg_disabled := (pg_disabled p)(ServerName := v \<noteq> None)\<rparr>))))))))"

definition on_edit_server :: "'z http_world_scheme \<Rightarrow> browser \<Rightarrow> string \<Rightarrow> page \<Rightarrow> admin \<Rightarrow> page \<times> admin" where
  "on_edit_server w br name p ad = try_catch (api_get w br (''/servers/'' @ name) ad)
     (\<lambda>v. open_server_modal br (Some v) p) (\<lambda>_. show_toast ''Failed to load server'' p)"

abbreviation number_field :: "browser \<Rightarrow> page \<Rightarrow> field \<Rightarrow> json" where
  "number_field br p f \<equiv> int_json (parse_int (br_wide br) (pg_value p f))"

definition server_form :: "browser \<Rightarrow> page \<Rightarrow> json" where
  "server_form br p = JObj ([(''name'', JStr (pg_value p ServerName)),
     (''provider_type'', JStr (pg_value p ServerProvider)), (''endpoint'', JStr (pg_value p ServerEndpoint)),
     (''hostgroup'', number_field br p ServerHostgroup), (''weight'', number_field br p ServerWeight),
     (''max_connections'', number_field br p ServerMaxconn), (''status'', JStr (pg_value p ServerStatus))]
     @ omit_empty ''api_key_encrypted'' (pg_value p ServerApikey))"

text \<open>After a form was saved: a toast, the dialog closes, the table is loaded again.\<close>

definition saved :: "string \<Rightarrow> modal \<Rightarrow> loader \<Rightarrow> page \<Rightarrow> page" where
  "saved message m l p = start_load l (close_modal m (show_toast message p))"

definition not_saved :: "browser \<Rightarrow> page \<Rightarrow> js_error \<Rightarrow> page" where
  "not_saved br p e = show_toast (''Error: '' @ error_message br e) p"

definition on_save_server :: "'z http_world_scheme \<Rightarrow> browser \<Rightarrow> page \<Rightarrow> admin \<Rightarrow> page \<times> admin" where
  "on_save_server w br p ad = (let edit = pg_value p ServerEditName in
     if edit \<noteq> []
     then try_catch (api_put w br (''/servers/'' @ edit) (server_form br p) ad)
       (\<lambda>_. saved ''Server updated'' ServerModal LoadServers p) (not_saved br p)
     else try_catch (api_post w br ''/servers'' (server_form br p) ad)
       (\<lambda>_. saved ''Server created'' ServerModal LoadServers p) (not_saved br p))"

text \<open>Deleting a row after the question was answered with yes.\<close>

definition delete_after :: "'z http_world_scheme \<Rightarrow> browser \<Rightarrow> string \<Rightarrow> string \<Rightarrow> string \<Rightarrow> string \<Rightarrow> loader
    \<Rightarrow> page \<Rightarrow> admin \<Rightarrow> page \<times> admin" where
  "delete_after w br question endpoint done_text failed_text l p ad =
     (if \<not> br_confirm br question then (p, ad)
      else try_catch (api_delete w br endpoint ad) (\<lambda>_. start_load l (show_toast done_text p))
        (\<lambda>_. show_toast failed_text p))"

definition on_delete_server :: "'z http_world_scheme \<Rightarrow> browser \<Rightarrow> string \<Rightarrow> page \<Rightarrow> admin \<Rightarrow> page \<times> admin" where
  "on_delete_server w br name p ad = delete_after w br (''Delete server '' @ CHR 0x22 # name @ [CHR 0x22, CHR ''?''])
     (''/servers/'' @ name) ''Server deleted'' ''Failed to delete server'' LoadServers p ad"

subsection \<open>Users\<close>

definition show_users :: "'z http_world_scheme \<Rightarrow> browser \<Rightarrow> page \<Rightarrow> admin \<Rightarrow> page \<times> admin" where
  "show_users w br p ad = load_with (api_get w br ''/users'' ad)
     (\<lambda>v. set_html ''users-table'' (users_html (br_float br) v)) p"

definition open_user_modal :: "browser \<Rightarrow> json option \<Rightarrow> page \<Rightarrow> page" where
  "open_user_modal br v p = open_modal UserModal
     (set_input UserHostgroup (case v of Some x \<Rightarrow>
         js_text (br_float br) (or_else (prop_of x ''default_hostgroup'') (JNum 0)) | None \<Rightarrow> ''0'')
     (set_input UserTpm (field_text br v ''max_tokens_per_minute'' ''100000'')
     (set_input UserRpm (field_text br v ''max_requests_per_minute'' ''1000'')
     ((set_input UserName (field_text br v ''username'' [])
     (set_input UserEditName (field_text br v ''username'' [])
     (set_text ''user-modal-title'' (if v = None then ''Add User'' else ''Edit User'') p)))
       \<lparr>pg_disabled := (pg_disabled p)(UserName := v \<noteq> None)\<rparr>))))"

definition on_edit_user :: "'z http_world_scheme \<Rightarrow> browser \<Rightarrow> string \<Rightarrow> page \<Rightarrow> admin \<Rightarrow> page \<times> admin" where
  "on_edit_user w br username p ad = try_catch (api_get w br (''/users/'' @ username) ad)
     (\<lambda>v. open_user_modal br (Some v) p) (\<lambda>_. show_toast ''Failed to load user'' p)"

definition user_form :: "browser \<Rightarrow> page \<Rightarrow> json" where
  "user_form br p = JObj [(''username'', JStr (pg_value p UserName)),
     (''max_requests_per_minute'', number_field br p UserRpm), (''max_tokens_per_minute'', number_field br p UserTpm),
     (''default_hostgroup'', number_field br p UserHostgroup), (''active'', JBool True)]"

definition on_save_user :: "'z http_world_scheme \<Rightarrow> browser \<Rightarrow> page \<Rightarrow> admin \<Rightarrow> page \<times> admin" where
  "on_save_user w br p ad = (let edit = pg_value p UserEditName in
     if edit \<noteq> []
     then try_catch (api_put w br (''/users/'' @ edit) (user_form br p) ad)
       (\<lambda>_. saved ''User updated'' UserModal LoadUsers p) (not_saved br p)
     else try_catch (api_post w br ''/users'' (user_form br p) ad)
       (\<lambda>_. saved ''User created'' UserModal LoadUsers p) (not_saved br p))"

definition on_delete_user :: "'z http_world_scheme \<Rightarrow> browser \<Rightarrow> string \<Rightarrow> page \<Rightarrow> admin \<Rightarrow> page \<times> admin" where
  "on_delete_user w br username p ad = delete_after w br
     (''Delete user '' @ CHR 0x22 # username @ [CHR 0x22, CHR ''?''])
     (''/users/'' @ username) ''User deleted'' ''Failed to delete user'' LoadUsers p ad"

subsection \<open>Rules and hostgroups\<close>

definition show_rules :: "'z http_world_scheme \<Rightarrow> browser \<Rightarrow> page \<Rightarrow> admin \<Rightarrow> page \<times> admin" where
  "show_rules w br p ad = load_with (api_get w br ''/rules'' ad)
     (\<lambda>v. set_html ''rules-table'' (rules_html (br_float br) v)) p"

definition open_rule_modal :: "page \<Rightarrow> page" where
  "open_rule_modal p = open_modal RuleModal (set_input RulePriority ''100'' (set_input RuleHostgroup ''0''
     (set_input RulePattern [] (set_input RuleModel [] (set_input RuleEditId []
       (set_text ''rule-modal-title'' ''Add Routing Rule'' p))))))"

definition rule_form :: "browser \<Rightarrow> page \<Rightarrow> json" where
  "rule_form br p = JObj [(''match_model'', JStr (pg_value p RuleModel)),
     (''match_pattern'', JStr (pg_value p RulePattern)),
     (''destination_hostgroup'', number_field br p RuleHostgroup), (''priority'', number_field br p RulePriority)]"

definition on_save_rule :: "'z http_world_scheme \<Rightarrow> browser \<Rightarrow> page \<Rightarrow> admin \<Rightarrow> page \<times> admin" where
  "on_save_rule w br p ad = try_catch (api_post w br ''/rules'' (rule_form br p) ad)
     (\<lambda>_. saved ''Rule created'' RuleModal LoadRules p) (not_saved br p)"

definition on_delete_rule :: "'z http_world_scheme \<Rightarrow> browser \<Rightarrow> string \<Rightarrow> page \<Rightarrow> admin \<Rightarrow> page \<times> admin" where
  "on_delete_rule w br rule_id p ad = delete_after w br (''Delete rule #'' @ rule_id @ ''?'')
     (''/rules?rule_id='' @ rule_id) ''Rule deleted'' ''Failed to delete rule'' LoadRules p ad"

definition show_hostgroups :: "'z http_world_scheme \<Rightarrow> browser \<Rightarrow> page \<Rightarrow> admin \<Rightarrow> page \<times> admin" where
  "show_hostgroups w br p ad = load_with (api_get w br ''/hostgroups'' ad)
     (\<lambda>v. set_html ''hostgroups-table'' (hostgroups_html (br_float br) v)) p"

definition open_hostgroup_modal :: "page \<Rightarrow> page" where
  "open_hostgroup_modal p = open_modal HostgroupModal (set_input HostgroupComment []
     (set_input HostgroupName [] (set_input HostgroupId ''0'' p)))"

definition hostgroup_form :: "browser \<Rightarrow> page \<Rightarrow> json" where
  "hostgroup_form br p = JObj [(''group_id'', number_field br p HostgroupId),
     (''name'', JStr (pg_value p HostgroupName)), (''comment'', JStr (pg_value p HostgroupComment))]"

definition on_save_hostgroup :: "'z http_world_scheme \<Rightarrow> browser \<Rightarrow> page \<Rightarrow> admin \<Rightarrow> page \<times> admin" where
  "on_save_hostgroup w br p ad = try_catch (api_post w br ''/hostgroups'' (hostgroup_form br p) ad)
     (\<lambda>_. saved ''Hostgroup created'' HostgroupModal LoadHostgroups p) (not_saved br p)"

definition on_delete_hostgroup :: "'z http_world_scheme \<Rightarrow> browser \<Rightarrow> string \<Rightarrow> page \<Rightarrow> admin \<Rightarrow> page \<times> admin" where
  "on_delete_hostgroup w br group_id p ad = delete_after w br (''Delete hostgroup #'' @ group_id @ ''?'')
     (''/hostgroups?group_id='' @ group_id) ''Hostgroup deleted'' ''Failed to delete hostgroup''
     LoadHostgroups p ad"

subsection \<open>Variables and the cache\<close>

definition show_variables :: "'z http_world_scheme \<Rightarrow> browser \<Rightarrow> page \<Rightarrow> admin \<Rightarrow> page \<times> admin" where
  "show_variables w br p ad = load_with (api_get w br ''/variables'' ad)
     (\<lambda>v. set_html ''variables-table'' (variables_html (br_float br) v)) p"

definition edit_variable :: "string \<Rightarrow> string \<Rightarrow> page \<Rightarrow> page" where
  "edit_variable name val p = open_modal VariableModal
     (set_input VariableValue val (set_input VariableName name p))"

definition variable_form :: "page \<Rightarrow> json" where
  "variable_form p = JObj [(''name'', JStr (pg_value p VariableName)), (''value'', JStr (pg_value p VariableValue))]"

text \<open>The reload that the script offers comes later, in a world of its own.\<close>

definition on_save_variable :: "'z http_world_scheme \<Rightarrow> 'z http_world_scheme \<Rightarrow> browser \<Rightarrow> page \<Rightarrow> admin
    \<Rightarrow> page \<times> admin" where
  "on_save_variable w w' br p ad = (case api_put w br ''/variables'' (variable_form p) ad of
     (Ok _, ad) \<Rightarrow>
       let p = (saved ''Variable updated'' VariableModal LoadVariables p)\<lparr>pg_hint := True\<rparr> in
       if br_confirm br ''Variable updated. Reload configuration now?''
       then (case reload_config w' br p ad of (p, ad) \<Rightarrow> (p\<lparr>pg_hint := False\<rparr>, ad))
       else (p, ad)
   | (Err e, ad) \<Rightarrow> (not_saved br p e, ad)
   | (Panic m, ad) \<Rightarrow> (not_saved br p TypeError, ad))"

definition cache_row :: "string \<times> string \<Rightarrow> string" where
  "cache_row row = ''<tr><td>'' @ fst row @ ''</td><td class=\"mono\">'' @ snd row @ ''</td></tr>''"

definition cache_rows :: "(rat \<Rightarrow> string) \<Rightarrow> json \<Rightarrow> (string \<times> string) list" where
  "cache_rows fl c =
     [(''Hits'', js_text fl (or_else (prop_of c ''hits'') (JNum 0))),
      (''Misses'', js_text fl (or_else (prop_of c ''misses'') (JNum 0))),
      (''Hit Rate'', percent 2 (num (prop_of c ''hit_rate''))),
      (''Evictions'', js_text fl (or_else (prop_of c ''evictions'') (JNum 0))),
      (''Deduplicated Requests'', js_text fl (or_else (prop_of c ''deduplicated_reqs'') (JNum 0))),
      (''Compression Saved'', format_bytes fl (num (prop_of c ''compression_saved''))),
      (''Memory Used'', format_bytes fl (num (prop_of c ''memory_used_bytes''))),
      (''Item Count'', js_text fl (or_else (prop_of c ''item_count'') (JNum 0))),
      (''Avg Item Size'', format_bytes fl (num (prop_of c ''avg_item_size'')))]"

definition cache_shown :: "browser \<Rightarrow> json \<Rightarrow> page \<Rightarrow> page" where
  "cache_shown br c p = (let fl = br_float br; on = truthy (prop_of c ''enabled'') in
     set_html ''cache-stats-table'' (concat (map cache_row (cache_rows fl c)))
     ((set_text ''cache-status-text'' (if on then ''Enabled'' else ''Disabled'')
     (set_text ''cache-items'' (format_number fl (num (prop_of c ''item_count'')))
     (set_text ''cache-memory'' (format_bytes fl (num (prop_of c ''memory_used_bytes'')))
     (set_text ''cache-hits'' (format_number fl (num (prop_of c ''hits'')))
     (set_text ''cache-hitRate'' (hit_rate_text 1 c) p)))))\<lparr>pg_toggle := on\<rparr>))"

definition show_cache :: "'z http_world_scheme \<Rightarrow> browser \<Rightarrow> page \<Rightarrow> admin \<Rightarrow> page \<times> admin" where
  "show_cache w br p ad = load_with (api_get w br ''/cache'' ad) (cache_shown br) p"

definition on_toggle_cache :: "'z http_world_scheme \<Rightarrow> browser \<Rightarrow> page \<Rightarrow> admin \<Rightarrow> page \<times> admin" where
  "on_toggle_cache w br p ad = (let new_state = \<not> pg_toggle p in
     try_catch (api_put w br ''/cache'' (JObj [(''enabled'', JBool new_state)]) ad)
       (\<lambda>_. start_load LoadCache (show_toast (''Cache '' @ (if new_state then ''enabled'' else ''disabled'')) p))
       (\<lambda>_. show_toast ''Failed to toggle cache'' p))"

definition on_clear_cache :: "'z http_world_scheme \<Rightarrow> browser \<Rightarrow> page \<Rightarrow> admin \<Rightarrow> page \<times> admin" where
  "on_clear_cache w br p ad =
     (if \<not> br_confirm br ''Clear all cached data?'' then (p, ad)
      else try_catch (api_post w br ''/cache/clear'' (JObj []) ad)
        (\<lambda>_. start_load LoadCache (show_toast ''Cache cleared'' p))
        (\<lambda>_. show_toast ''Failed to clear cache'' p))"

subsection \<open>A session of the operator\<close>

text \<open>
  What can happen on the page: the operator types into an input that is neither disabled nor
  hidden nor \<open>readonly\<close>, presses a button (with the argument its handler has), a loader that
  was started gets its turn, a toast goes.
\<close>

datatype action =
    TypeInto field string | ShowPage string | CloseDialog modal | ToastGone | NextLoad
  | NewServer | EditServer string | SaveServer | DeleteServer string
  | NewUser | EditUser string | SaveUser | DeleteUser string
  | NewRule | SaveRule | DeleteRule string
  | NewHostgroup | SaveHostgroup | DeleteHostgroup string
  | EditVariable string string | SaveVariable | ReloadConfig | ToggleCache | ClearCache

text \<open>The calls that the handlers of the tables make.\<close>

fun action_of :: "call \<Rightarrow> action option" where
  "action_of (f, [a]) =
     (if f = ''editServer'' then Some (EditServer a) else if f = ''deleteServer'' then Some (DeleteServer a)
      else if f = ''editUser'' then Some (EditUser a) else if f = ''deleteUser'' then Some (DeleteUser a)
      else if f = ''deleteRule'' then Some (DeleteRule a)
      else if f = ''deleteHostgroup'' then Some (DeleteHostgroup a) else None)"
| "action_of (f, [a, b]) = (if f = ''editVariable'' then Some (EditVariable a b) else None)"
| "action_of c = None"

definition writable :: "page \<Rightarrow> field \<Rightarrow> bool" where
  "writable p f \<longleftrightarrow> \<not> pg_disabled p f \<and> kind_of f \<noteq> Hidden \<and> f \<noteq> VariableName"

fun load :: "'z http_world_scheme \<Rightarrow> browser \<Rightarrow> loader \<Rightarrow> page \<Rightarrow> admin \<Rightarrow> page \<times> admin" where
  "load w br LoadOverview p ad = load_overview w br p ad"
| "load w br LoadServers p ad = show_servers w br p ad"
| "load w br LoadUsers p ad = show_users w br p ad"
| "load w br LoadRules p ad = show_rules w br p ad"
| "load w br LoadHostgroups p ad = show_hostgroups w br p ad"
| "load w br LoadVariables p ad = show_variables w br p ad"
| "load w br LoadCache p ad = show_cache w br p ad"

fun perform :: "'z http_world_scheme \<Rightarrow> 'z http_world_scheme \<Rightarrow> browser \<Rightarrow> action \<Rightarrow> page \<Rightarrow> admin \<Rightarrow> page \<times> admin" where
  "perform w w' br (TypeInto f s) p ad = (if writable p f then set_input f s p else p, ad)"
| "perform w w' br (ShowPage name) p ad = (show_page name p, ad)"
| "perform w w' br (CloseDialog m) p ad = (close_modal m p, ad)"
| "perform w w' br ToastGone p ad = (toast_timeout p, ad)"
| "perform w w' br NextLoad p ad = (case pg_loads p of [] \<Rightarrow> (p, ad) | l # ls \<Rightarrow> load w br l (p\<lparr>pg_loads := ls\<rparr>) ad)"
| "perform w w' br NewServer p ad = (open_server_modal br None p, ad)"
| "perform w w' br (EditServer n) p ad = on_edit_server w br n p ad"
| "perform w w' br SaveServer p ad = on_save_server w br p ad"
| "perform w w' br (DeleteServer n) p ad = on_delete_server w br n p ad"
| "perform w w' br NewUser p ad = (open_user_modal br None p, ad)"
| "perform w w' br (EditUser n) p ad = on_edit_user w br n p ad"
| "perform w w' br SaveUser p ad = on_save_user w br p ad"
| "perform w w' br (DeleteUser n) p ad = on_delete_user w br n p ad"
| "perform w w' br NewRule p ad = (open_rule_modal p, ad)"
| "perform w w' br SaveRule p ad = on_save_rule w br p ad"
| "perform w w' br (DeleteRule i) p ad = on_delete_rule w br i p ad"
| "perform w w' br NewHostgroup p ad = (open_hostgroup_modal p, ad)"
| "perform w w' br SaveHostgroup p ad = on_save_hostgroup w br p ad"
| "perform w w' br (DeleteHostgroup i) p ad = on_delete_hostgroup w br i p ad"
| "perform w w' br (EditVariable n v) p ad = (edit_variable n v p, ad)"
| "perform w w' br SaveVariable p ad = on_save_variable w w' br p ad"
| "perform w w' br ReloadConfig p ad = reload_config w br p ad"
| "perform w w' br ToggleCache p ad = on_toggle_cache w br p ad"
| "perform w w' br ClearCache p ad = on_clear_cache w br p ad"

end
