(* ===== verification/PanelFacts.thy ===== *)
theory PanelFacts
  imports Panel
begin

section \<open>What the panel does to the server\<close>

text \<open>
  The operations of the panel together with the handlers they call: what is stored when a
  form is saved, what an edit loses, which operations can never succeed, what the overview
  needs, and that without a session nothing is changed. The browser's URL parser is an
  argument: each property names the addresses that it must leave as they are.
\<close>

subsection \<open>Requests of a signed-in operator\<close>

definition signed_in :: "'z http_world_scheme \<Rightarrow> browser \<Rightarrow> admin \<Rightarrow> bool" where
  "signed_in w br ad \<longleftrightarrow>
     fst (get_session_from_request (wo_now w) (fetch_request br ''GET'' [] None) (ad_sessions ad)) \<noteq> None"

lemma hr_cookies_fetch [simp]: "hr_cookies (fetch_request br m url d) = br_cookies br"
  by (simp add: fetch_request_def split: prod.split)

lemma hr_method_fetch [simp]: "hr_method (fetch_request br m url d) = m"
  by (simp add: fetch_request_def split: prod.split)

lemma hr_path_fetch [simp]: "hr_path (fetch_request br m url d) = fst (br_target br url)"
  by (simp add: fetch_request_def split: prod.split)

lemma hr_query_fetch [simp]: "hr_query (fetch_request br m url d) = snd (br_target br url)"
  by (simp add: fetch_request_def split: prod.split)

lemma hr_body_fetch [simp]: "hr_body (fetch_request br m url (Some v)) = br_stringify br v"
  by (simp add: fetch_request_def split: prod.split)

lemma session_by_cookies: "hr_cookies r = hr_cookies r' \<Longrightarrow>
    get_session_from_request now r sm = get_session_from_request now r' sm"
  by (simp add: get_session_from_request_def request_cookie_def)

lemma signed_in_iff: "signed_in w br ad \<longleftrightarrow>
    fst (get_session_from_request (wo_now w) (fetch_request br m url d) (ad_sessions ad)) \<noteq> None"
  unfolding signed_in_def by (subst session_by_cookies [of _ "fetch_request br m url d"]) simp_all

lemma signed_in_same [simp]:
  "signed_in w br (ad\<lparr>ad_storage := st\<rparr>) = signed_in w br ad"
  by (simp add: signed_in_def)

lemma fetch_signed_in:
  assumes "signed_in w br ad" and "find_route (fst (br_target br url)) = Some e"
  shows "fetch w br m url d ad = (case handler e w (fetch_request br m url d) ad of
    (resp, ad) \<Rightarrow> (if rs_status resp = 0 then Err NetworkError else Ok resp, ad))"
proof (cases "guarded e")
  case True
  obtain s sm where "get_session_from_request (wo_now w) (fetch_request br m url d) (ad_sessions ad) = (Some s, sm)"
    using assms(1) signed_in_iff [of w br ad m url d] by (cases "get_session_from_request (wo_now w) (fetch_request br m url d) (ad_sessions ad)") auto
  with True assms(2) show ?thesis using serve_guarded_with_session [of "fetch_request br m url d" e w ad s sm]
    by (simp add: fetch_def)
next
  case False
  then show ?thesis using assms(2) by (simp add: fetch_def serve_def)
qed

text \<open>The addresses of one server and of one user, kept folded.\<close>

definition server_url :: "string \<Rightarrow> string" where
  "server_url name = ''/api/servers/'' @ name"

definition user_url :: "string \<Rightarrow> string" where
  "user_url name = ''/api/users/'' @ name"

lemma row_urls [simp]:
  "find_route (server_url name) = Some EpServerByName" "trim_prefix (server_url name) (server_url []) = name"
  "find_route (user_url name) = Some EpUserByName" "trim_prefix (user_url name) (user_url []) = name"
  by (simp_all add: server_url_def user_url_def find_route_def routes_def pattern_matches_def has_suffix_def
    trim_prefix_def has_prefix_def)

lemma api_urls [simp]: "has_prefix (server_url name) ''/api''" "has_prefix (user_url name) ''/api''"
  by (simp_all add: server_url_def user_url_def)

lemmas fold_urls [simp] = server_url_def [symmetric, simplified] user_url_def [symmetric, simplified]

lemma routes_fixed:
  "find_route ''/api/servers'' = Some EpServers" "find_route ''/api/rules'' = Some EpRules" 
  "find_route ''/api/users'' = Some EpUsers" "find_route ''/api/hostgroups'' = Some EpHostgroups"
  "find_route ''/api/stats'' = Some EpStats" "find_route ''/api/cache'' = Some EpCache" "find_route ''/api/health'' = Some EpHealth"
  by code_simp+



text \<open>The names of members as the decoder compares them.\<close>

lemma lower_keys [simp]:
  "to_lower ''GroupID'' = ''groupid''" "to_lower ''group_id'' = ''group_id''"
  "to_lower ''Name'' = ''name''" "to_lower ''Comment'' = ''comment''"
  "to_lower ''rule_id'' = ''rule_id''" "to_lower ''match_model'' = ''match_model''"
  "to_lower ''match_pattern'' = ''match_pattern''" "to_lower ''match_user'' = ''match_user''"
  "to_lower ''destination_hostgroup'' = ''destination_hostgroup''"
  "to_lower ''priority'' = ''priority''" "to_lower ''active'' = ''active''"
  "to_lower ''username'' = ''username''" "to_lower ''password_hash'' = ''password_hash''"
  "to_lower ''default_hostgroup'' = ''default_hostgroup''"
  "to_lower ''max_requests_per_minute'' = ''max_requests_per_minute''"
  "to_lower ''max_tokens_per_minute'' = ''max_tokens_per_minute''" "to_lower ''name'' = ''name''"
  "to_lower ''provider_type'' = ''provider_type''" "to_lower ''endpoint'' = ''endpoint''"
  "to_lower ''api_key_encrypted'' = ''api_key_encrypted''" "to_lower ''hostgroup'' = ''hostgroup''"
  "to_lower ''weight'' = ''weight''" "to_lower ''max_connections'' = ''max_connections''"
  "to_lower ''status'' = ''status''" "to_lower ''comment'' = ''comment''"
  by code_simp+

subsection \<open>A browser and a page for the witnesses\<close>

definition demo_browser :: browser where
  "demo_browser = \<lparr>br_cookies = [(''mindbalancer_session'', ''sid'')],
     br_target = (\<lambda>url. (takeWhile (\<lambda>c. c \<noteq> CHR ''?'') url, \<lambda>_. [])), br_stringify = (\<lambda>_. ''json''),
     br_confirm = (\<lambda>_. True), br_float = (\<lambda>_. []), br_wide = (\<lambda>_. None), br_engine_message = (\<lambda>_. ''error''),
     br_encoding = \<lparr>en_time = (\<lambda>_. []), en_duration = (\<lambda>_. []), en_db_error = (\<lambda>_. ''failed''),
       en_health_names = [], en_order = id\<rparr>\<rparr>"

definition demo_page :: page where
  "demo_page = \<lparr>pg_active = ''overview'', pg_title = ''Overview'', pg_value = (\<lambda>_. []), pg_disabled = (\<lambda>_. False),
     pg_open = (\<lambda>_. False), pg_toasts = [], pg_text = (\<lambda>_. []), pg_html = (\<lambda>_. []), pg_toggle = False,
     pg_hint = False, pg_loads = []\<rparr>"

text \<open>A world whose decoders read the one body that is sent.\<close>

definition demo_decoding :: "json \<Rightarrow> http_world" where
  "demo_decoding v = demo_web\<lparr>hw_server := (\<lambda>_. decode_server v), hw_user := (\<lambda>_. decode_user v),
     hw_rule := (\<lambda>_. decode_rule v), hw_hostgroup := (\<lambda>_. decode_hostgroup v),
     hw_variable := (\<lambda>_. decode_variable v), hw_enabled := (\<lambda>_. decode_enabled v)\<rparr>"

definition demo_signed :: "storage \<Rightarrow> admin" where
  "demo_signed st = (demo_admin [])\<lparr>ad_storage := st, ad_sessions := (new_session_manager True)
     \<lparr>sm_sessions := [''sid'' \<mapsto> \<lparr>se_id = ''sid'', se_username = ''admin'', se_created_at = 0, se_expires_at = hour\<rparr>]\<rparr>\<rparr>"

definition demo_storage :: storage where
  "demo_storage = (empty_tables disabled_encryptor)\<lparr>
     st_servers := [inserted_row ''prod'' ''openai'' ''http://h'' ''key'' 0 1],
     st_hostgroups := [\<lparr>hg_id = 1, hg_group_id = 0, hg_name = ''default'', hg_comment = []\<rparr>]\<rparr>"

lemma demo_decodes [simp]: "decodes (demo_decoding v) body v"
  by (simp add: decodes_def demo_decoding_def)

lemma demo_now [simp]: "wo_now (demo_decoding v) = 0" "wo_now demo_web = 0"
  by (simp_all add: demo_decoding_def demo_web_def)

lemma demo_signed_in [simp]: "wo_now w = 0 \<Longrightarrow> signed_in w demo_browser (demo_signed st)"
  by (simp add: signed_in_def get_session_from_request_def request_cookie_def get_session_def
    demo_browser_def demo_signed_def new_session_manager_def time_after_def hour_def)

lemma demo_signed_storage [simp]: "ad_storage (demo_signed st) = st"
  by (simp add: demo_signed_def)

lemma demo_target [simp]: "list_all (\<lambda>c. c \<noteq> CHR ''?'') url \<Longrightarrow> fst (br_target demo_browser url) = url"
  by (simp add: demo_browser_def takeWhile_eq_all_conv list_all_iff)

subsection \<open>Editing a server\<close>

lemma number_input_itoa [simp]: "number_input (itoa i)"
proof -
  have d: "dropWhile is_digit (dec_digits n) = []" for n
    using dec_digits_digits [of n] by (simp add: dropWhile_eq_Nil_conv list_all_iff)
  have n: "dec_digits n \<noteq> []" for n using dec_digits_digits by blast
  have p: "\<not> has_prefix (dec_digits n) ''-''" for n 
    using dec_digits_digits [of n] by (cases "dec_digits n") (auto simp: is_digit_def)
  show ?thesis
    by (cases "i < 0") (simp_all add: number_input_def itoa_def trim_prefix_def d n p Let_def)
qed

lemma sanitize_itoa [simp]: "sanitize NumberInput (itoa i) = itoa i" by simp

lemma value_set_input [simp]: "pg_value (set_input f s p) g = (if g = f then sanitize (kind_of f) s else pg_value p g)"
  by (simp add: set_input_def)

lemma value_others [simp]: "pg_value (set_text x s p) = pg_value p" "pg_value (open_modal m p) = pg_value p"
  "pg_value (p\<lparr>pg_disabled := d\<rparr>) = pg_value p"
  by (simp_all add: set_text_def open_modal_def)

lemma server_json_props [simp]:
  "prop_of (JObj (server_fields en s)) ''name'' = Some (JStr (sv_name s))"
  "prop_of (JObj (server_fields en s)) ''provider_type'' = Some (JStr (sv_provider_type s))"
  "prop_of (JObj (server_fields en s)) ''endpoint'' = Some (JStr (sv_endpoint s))"
  "prop_of (JObj (server_fields en s)) ''hostgroup'' = Some (int_num (sv_hostgroup s))"
  "prop_of (JObj (server_fields en s)) ''weight'' = Some (int_num (sv_weight s))"
  "prop_of (JObj (server_fields en s)) ''max_connections'' = Some (int_num (sv_max_connections s))"
  "prop_of (JObj (server_fields en s)) ''status'' = Some (JStr (sv_status s))"
  by (simp_all add: prop_of_def server_fields_def omit_empty_def)

lemma js_string_str [simp]: "js_string fl (Some (JStr s)) = s" by (simp add: js_string_def)

lemma js_exact_in64: "js_exact i \<Longrightarrow> in64 i"
  by (auto simp: js_exact_def in64_def abs_le_iff)

lemma edited_form:
  assumes "js_exact (sv_hostgroup s)" "js_exact (sv_weight s)" "js_exact (sv_max_connections s)"
  shows "server_form br (open_server_modal br (Some (JObj (server_fields en s))) p) = 
  JObj [(''name'', JStr (strip_newlines (sv_name s))),
     (''provider_type'', JStr (sanitize (kind_of ServerProvider) (sv_provider_type s))), (''endpoint'', JStr (sanitize UrlInput (sv_endpoint s))),
     (''hostgroup'', int_num (sv_hostgroup s)), (''weight'', int_num (sv_weight s)),
     (''max_connections'', int_num (sv_max_connections s)), (''status'', JStr (sanitize (kind_of ServerStatus) (sv_status s)))]"
  using assms
  by (simp add: server_form_def open_server_modal_def field_text_def int_json_def omit_empty_def strip_newlines_def double_of_def)

lemma decode_edited:
  assumes "js_exact (sv_hostgroup s)" "js_exact (sv_weight s)" "js_exact (sv_max_connections s)"
  shows "decode_server (server_form br (open_server_modal br (Some (JObj (server_fields en s))) p)) = 
  Some \<lparr>sv_id = 0, sv_name = strip_newlines (sv_name s), sv_provider_type = sanitize (kind_of ServerProvider) (sv_provider_type s), sv_endpoint = sanitize UrlInput (sv_endpoint s),
       sv_api_key = [], sv_hostgroup = sv_hostgroup s, sv_weight = sv_weight s,
       sv_max_connections = sv_max_connections s, sv_status = sanitize (kind_of ServerStatus) (sv_status s), sv_comment = [],
       sv_created_at = time_zero, sv_updated_at = time_zero\<rparr>"
  unfolding edited_form [OF assms] using assms [THEN js_exact_in64] by (simp add: decode_server_def is_struct_def read_str_def read_int_def member_def fit64_def del: kind_of.simps sanitize.simps)


lemma find_server_map:
  assumes "find_server name st = Some s" and "\<And>r. sv_name (f r) = sv_name r"
  shows "find_server name (st\<lparr>st_servers := map (\<lambda>r. if sv_name r = name then f r else r) (st_servers st)\<rparr>) = Some (f s)"
proof -
  have "find (\<lambda>r. sv_name r = name) (map (\<lambda>r. if sv_name r = name then f r else r) rs) =
    map_option f (find (\<lambda>r. sv_name r = name) rs)" for rs
    using assms(2) by (induction rs) auto
  with assms(1) show ?thesis by (simp add: find_server_def)
qed

lemma find_server_name: "find_server name st = Some s \<Longrightarrow> sv_name s = name"
  by (auto simp: find_server_def find_Some_iff)

text \<open>What the edit button of a server does: the form of the stored row is opened.\<close>

lemma edit_opens_stored:
  assumes "signed_in w br ad" and "fst (br_target br (server_url name)) = server_url name"
    and "find_server name (ad_storage ad) = Some s" and "\<not> st_down (ad_storage ad)"
  shows "on_edit_server w br name p ad =
    (open_server_modal br (Some (JObj (server_fields (br_encoding br) s))) p, ad)"
proof -
  have "fetch w br ''GET'' (server_url name) None ad = (Ok (write_json (RpServer s)), ad)"
    using assms by (subst fetch_signed_in [of _ _ _ _ EpServerByName])
      (simp_all add: handle_server_by_name_def read_reply_def get_server_by_name_def write_json_def respond_def)
  then show ?thesis
    by (simp add: on_edit_server_def api_get_def try_catch_def response_ok_def response_json_def write_json_def respond_def)
qed

definition listed_option :: "field \<Rightarrow> string \<Rightarrow> string" where
  "listed_option f s = sanitize (kind_of f) s"

text \<open>
  C21: Editing a server in the panel loses its API key and its comment. When the operator opens
  the form of a stored server, touches nothing and saves, the server stores an empty key and
  an empty comment, although the form says that an empty key keeps the existing one; a
  provider or status that the form does not list becomes empty, too; the endpoint loses its
  line breaks and surrounding spaces, and the time of the last update is set. Everything else
  is kept. (The name is one that the browser's URL parser leaves as it is in the address of
  the server, and the numbers are small enough for JavaScript to hold them, up to \<open>2 ^ 53\<close>.)
\<close>

theorem editing_loses_key_and_comment:
  fixes p :: page
  assumes "signed_in w br ad" and "signed_in w' br ad"
    and "fst (br_target br (server_url name)) = server_url name" and "name \<noteq> []"
    and "find_server name (ad_storage ad) = Some s" and "\<not> st_down (ad_storage ad)"
    and "js_exact (sv_hostgroup s)" and "js_exact (sv_weight s)" and "js_exact (sv_max_connections s)"
  defines "opened \<equiv> on_edit_server w br name p ad"
  assumes "decodes w' (br_stringify br (server_form br (fst opened))) (server_form br (fst opened))"
  defines "result \<equiv> on_save_server w' br (fst opened) (snd opened)"
  shows "pg_toasts (fst result) = pg_toasts p @ [''Server updated'']
   \<and> find_server name (ad_storage (snd result)) = Some (s\<lparr>sv_api_key := [], sv_comment := [],
       sv_provider_type := listed_option ServerProvider (sv_provider_type s),
       sv_endpoint := strip_spaces (strip_newlines (sv_endpoint s)),
       sv_status := listed_option ServerStatus (sv_status s), sv_updated_at := wo_now w'\<rparr>)"
proof -
  let ?p = "open_server_modal br (Some (JObj (server_fields (br_encoding br) s))) p"
  have o: "opened = (?p, ad)" unfolding opened_def by (rule edit_opens_stored) fact+
  have n: "sv_name s = name" using assms(5) by (rule find_server_name)
  have e: "pg_value ?p ServerEditName = name" by (simp add: open_server_modal_def field_text_def n)
  have t: "pg_toasts ?p = pg_toasts p" 
    by (simp add: open_server_modal_def open_modal_def set_input_def set_text_def)
  obtain srv where d: "decode_server (server_form br ?p) = Some srv"
    and srv: "sv_api_key srv = []" "sv_comment srv = []" "sv_hostgroup srv = sv_hostgroup s" "sv_weight srv = sv_weight s"
      "sv_max_connections srv = sv_max_connections s" "sv_provider_type srv = listed_option ServerProvider (sv_provider_type s)"
      "sv_status srv = listed_option ServerStatus (sv_status s)" "sv_endpoint srv = strip_spaces (strip_newlines (sv_endpoint s))"
    using decode_edited [OF assms(7-9)] by (simp add: listed_option_def del: kind_of.simps)
  have b: "hw_server w' (br_stringify br (server_form br ?p)) = Some srv"
    using assms(11) d by (simp add: o decodes_def)
  define f :: "server \<Rightarrow> server" where "f r = r\<lparr>sv_provider_type := sv_provider_type srv, sv_endpoint := sv_endpoint srv,
     sv_api_key := [], sv_hostgroup := sv_hostgroup srv, sv_weight := sv_weight srv,
     sv_max_connections := sv_max_connections srv, sv_status := sv_status srv, sv_comment := sv_comment srv,
     sv_updated_at := wo_now w'\<rparr>" for r
  let ?st = "(ad_storage ad)\<lparr>st_servers := map (\<lambda>r. if sv_name r = name then f r else r) (st_servers (ad_storage ad))\<rparr>"
  have u: "update_server (wo_seal w') (wo_nonce w') (wo_now w') (srv\<lparr>sv_name := name\<rparr>) (ad_storage ad) = (Ok (), ?st)"
    using assms(6) srv(1) by (simp add: update_server_def encrypt_for_store_def f_def cong: if_cong)
  have "fetch w' br ''PUT'' (server_url name) (Some (server_form br ?p)) ad
      = (Ok (write_json (RpServer (srv\<lparr>sv_name := name\<rparr>))), ad\<lparr>ad_storage := ?st\<rparr>)"
    using assms(2,3) by (subst fetch_signed_in [of _ _ _ _ EpServerByName])
      (simp_all add: handle_server_by_name_def b u write_reply_def read_reply_def write_json_def respond_def)
  then have r: "result = (saved ''Server updated'' ServerModal LoadServers ?p, ad\<lparr>ad_storage := ?st\<rparr>)"
    using assms(4) unfolding result_def o
    by (simp add: on_save_server_def e api_put_def try_catch_def response_ok_def response_json_def write_json_def respond_def)
  have "find_server name ?st = Some (f s)" by (rule find_server_map [OF assms(5)]) (simp add: f_def)
  then show ?thesis by (simp add: r f_def srv saved_def start_load_def close_modal_def show_toast_def t)
qed

theorem editing_loses_key_and_comment_witness:
  "let opened = on_edit_server demo_web demo_browser ''prod'' demo_page (demo_signed demo_storage);
       result = on_save_server (demo_decoding (server_form demo_browser (fst opened))) demo_browser (fst opened) (snd opened)
   in map_option sv_api_key (find_server ''prod'' (ad_storage (snd result))) = Some []"
proof -
  let ?s = "inserted_row ''prod'' ''openai'' ''http://h'' ''key'' 0 1" and ?ad = "demo_signed demo_storage"
  have s: "find_server ''prod'' (ad_storage ?ad) = Some ?s" "\<not> st_down (ad_storage ?ad)"
    by (simp_all add: demo_storage_def find_server_def inserted_row_def empty_tables_def)
  have t: "fst (br_target demo_browser (server_url ''prod'')) = server_url ''prod''"
    by (simp add: demo_browser_def server_url_def del: fold_urls)
  have i: "js_exact (sv_hostgroup ?s)" "js_exact (sv_weight ?s)" "js_exact (sv_max_connections ?s)"
    by (simp_all add: inserted_row_def js_exact_def)
  have "''prod'' \<noteq> []" by simp
  from editing_loses_key_and_comment [OF demo_signed_in [OF demo_now(2)] demo_signed_in [OF demo_now(1)]
    t this s i demo_decodes, where p = demo_page] show ?thesis by (simp add: Let_def)
qed

subsection \<open>Saving a new server\<close>

text \<open>
  The number that the server reads for what was typed: 0 for a text that begins with no
  number (NaN, which is sent as null), and none, which is an error, for one that does not fit
  64 bits. The row that is stored for them, with what the server puts in for zero or empty.
\<close>

definition typed_number :: "browser \<Rightarrow> string \<Rightarrow> i64 option" where
  "typed_number br s = (case parse_int (br_wide br) s of
       None \<Rightarrow> Some 0
     | Some q \<Rightarrow> if q = of_int \<lfloor>q\<rfloor> \<and> in64 \<lfloor>q\<rfloor> then Some \<lfloor>q\<rfloor> else None)"

definition typed_server :: "page \<Rightarrow> i64 \<Rightarrow> i64 \<Rightarrow> i64 \<Rightarrow> server" where
  "typed_server p h n m = \<lparr>sv_id = 0, sv_name = pg_value p ServerName,
     sv_provider_type = (if pg_value p ServerProvider = [] then ''openai'' else pg_value p ServerProvider),
     sv_endpoint = pg_value p ServerEndpoint, sv_api_key = pg_value p ServerApikey, sv_hostgroup = h,
     sv_weight = (if n = 0 then 1 else n), sv_max_connections = (if m = 0 then 100 else m),
     sv_status = (if pg_value p ServerStatus = [] then ''ONLINE'' else pg_value p ServerStatus),
     sv_comment = [], sv_created_at = time_zero, sv_updated_at = time_zero\<rparr>"

definition not_stored :: "page \<times> admin \<Rightarrow> page \<Rightarrow> admin \<Rightarrow> bool" where
  "not_stored out p ad \<longleftrightarrow> snd out = ad \<and> pg_open (fst out) = pg_open p
     \<and> (\<exists>m. pg_toasts (fst out) = pg_toasts p @ [''Error: '' @ m])"

lemma read_typed_number:
  "read_int (JObj fs) k = typed_number br s" if "member (JObj fs) k = Some (int_json (parse_int (br_wide br) s))" for fs
  using that by (auto simp: read_int_def typed_number_def int_json_def fit64_def split: option.split)

definition posted_server :: "page \<Rightarrow> i64 \<Rightarrow> i64 \<Rightarrow> i64 \<Rightarrow> server" where
  "posted_server p h n m = \<lparr>sv_id = 0, sv_name = pg_value p ServerName, sv_provider_type = pg_value p ServerProvider,
     sv_endpoint = pg_value p ServerEndpoint, sv_api_key = pg_value p ServerApikey, sv_hostgroup = h,
     sv_weight = n, sv_max_connections = m, sv_status = pg_value p ServerStatus, sv_comment = [],
     sv_created_at = time_zero, sv_updated_at = time_zero\<rparr>"

lemma fill_posted: "fill_server (posted_server p h n m) = typed_server p h n m"
  by (simp add: fill_server_def posted_server_def typed_server_def)

lemma decode_server_form:
  "decode_server (server_form br p) = Option.bind (typed_number br (pg_value p ServerHostgroup)) (\<lambda>h.
     Option.bind (typed_number br (pg_value p ServerWeight)) (\<lambda>n.
       map_option (posted_server p h n) (typed_number br (pg_value p ServerMaxconn))))"
proof -
  let ?v = "server_form br p"
  have struct: "is_struct ?v" by (simp add: is_struct_def server_form_def)
  have numbers: "read_int ?v ''hostgroup'' = typed_number br (pg_value p ServerHostgroup)"
    "read_int ?v ''weight'' = typed_number br (pg_value p ServerWeight)"
    "read_int ?v ''max_connections'' = typed_number br (pg_value p ServerMaxconn)"
    unfolding server_form_def by (rule read_typed_number, simp add: member_def)+
  have texts: "read_str ?v ''name'' = Some (pg_value p ServerName)"
    "read_str ?v ''provider_type'' = Some (pg_value p ServerProvider)"
    "read_str ?v ''endpoint'' = Some (pg_value p ServerEndpoint)"
    "read_str ?v ''api_key_encrypted'' = Some (pg_value p ServerApikey)"
    "read_str ?v ''status'' = Some (pg_value p ServerStatus)" "read_str ?v ''comment'' = Some []"
    by (simp_all add: read_str_def member_def omit_empty_def server_form_def)
  show ?thesis
    unfolding decode_server_def numbers texts using struct
    by (cases "typed_number br (pg_value p ServerHostgroup)"; cases "typed_number br (pg_value p ServerWeight)";
        cases "typed_number br (pg_value p ServerMaxconn)") (simp_all add: posted_server_def)
qed

text \<open>
  C22: What is typed into the form of a new server is what is stored. Each number is read as far
  as it consists of digits, and as 0 where there is none. With a name, an endpoint, numbers
  that fit 64 bits, a name that is not taken and a key that can be encrypted, saving stores one
  more row, with the typed name, endpoint, provider, status and numbers (and \<open>openai\<close>,
  \<open>ONLINE\<close>, weight 1 and 100 connections in place of what is empty or zero), and with the key as
  it is encrypted for the tables; the dialog closes and the table is loaded again. In every
  other case nothing changes, the dialog stays open and a toast says what is wrong.
\<close>

theorem new_server_saved_as_typed:
  fixes p :: page
  assumes "signed_in w br ad" and "fst (br_target br ''/api/servers'') = ''/api/servers''"
    and "pg_value p ServerEditName = []" and "decodes w (br_stringify br (server_form br p)) (server_form br p)"
  defines "st \<equiv> ad_storage ad" and "key \<equiv> encrypt_for_store (wo_seal w) (wo_nonce w) (ad_storage ad) (pg_value p ServerApikey)"
  shows "case (typed_number br (pg_value p ServerHostgroup), typed_number br (pg_value p ServerWeight),
      typed_number br (pg_value p ServerMaxconn), key) of
    (Some h, Some n, Some m, Ok c) \<Rightarrow>
      if pg_value p ServerName \<noteq> [] \<and> pg_value p ServerEndpoint \<noteq> [] \<and> \<not> st_down st
        \<and> find_server (pg_value p ServerName) st = None
      then on_save_server w br p ad = (saved ''Server created'' ServerModal LoadServers p,
        ad\<lparr>ad_storage := st\<lparr>st_server_seq := st_server_seq st + 1, st_servers := st_servers st @
          [(typed_server p h n m)\<lparr>sv_id := st_server_seq st + 1, sv_api_key := c, sv_created_at := wo_now w,
             sv_updated_at := wo_now w\<rparr>]\<rparr>\<rparr>)
      else not_stored (on_save_server w br p ad) p ad
  | _ \<Rightarrow> not_stored (on_save_server w br p ad) p ad"
proof -
  note d = on_save_server_def assms(3) api_post_def try_catch_def write_error_def respond_def thrown_error_def response_ok_def
    response_json_def not_saved_def show_toast_def not_stored_def
  note fetched = fetch_signed_in [OF assms(1), of "''/api/servers''" EpServers "''POST''" "Some (server_form br p)"]
  show ?thesis
  proof (cases "decode_server (server_form br p)")
    case None
    then have b: "hw_server w (br_stringify br (server_form br p)) = None" using assms(4) by (simp add: decodes_def)
    have "not_stored (on_save_server w br p ad) p ad"
      using fetched assms(2) by (simp add: d routes_fixed handle_servers_def b)
    moreover have "typed_number br (pg_value p ServerHostgroup) = None \<or> typed_number br (pg_value p ServerWeight) = None
        \<or> typed_number br (pg_value p ServerMaxconn) = None"
      using None by (auto simp: decode_server_form bind_eq_None_conv)
    ultimately show ?thesis by (auto split: option.split res.split)
  next
    case (Some srv)
    then have b: "hw_server w (br_stringify br (server_form br p)) = Some srv" using assms(4) by (simp add: decodes_def)
    obtain h n m where t: "typed_number br (pg_value p ServerHostgroup) = Some h"
      "typed_number br (pg_value p ServerWeight) = Some n" "typed_number br (pg_value p ServerMaxconn) = Some m"
      and srv: "srv = posted_server p h n m"
      using Some by (auto simp: decode_server_form bind_eq_Some_conv)
    let ?row = "typed_server p h n m"
    let ?stored = "insert_server (wo_seal w) (wo_nonce w) (wo_now w) ?row st"
    have names: "sv_name (posted_server p h n m) = pg_value p ServerName"
      "sv_endpoint (posted_server p h n m) = pg_value p ServerEndpoint"
      by (simp_all add: posted_server_def)
    have f: "fetch w br ''POST'' ''/api/servers'' (Some (server_form br p)) ad =
        (case (if pg_value p ServerName = [] then (write_error 400 ''Server name is required'', ad)
               else if pg_value p ServerEndpoint = [] then (write_error 400 ''Endpoint is required'', ad)
               else write_reply ?stored (\<lambda>s. respond 201 (Some (RpServer s))) ad) of
         (resp, ad) \<Rightarrow> (if rs_status resp = 0 then Err NetworkError else Ok resp, ad))"
      using fetched assms(2) by (simp add: routes_fixed handle_servers_def b [unfolded srv] names fill_posted st_def)
    have refused: "not_stored (on_save_server w br p ad) p ad" if "?stored = (r, st)" "\<not> is_Ok r" for r
      using that by (cases r) (auto simp: d f write_reply_def read_reply_def failed_def st_def)
    have row: "sv_name ?row = pg_value p ServerName" "sv_api_key ?row = pg_value p ServerApikey" by (simp_all add: typed_server_def)
    show ?thesis
    proof (cases key)
      case (Ok c)
      show ?thesis
      proof (cases "st_down st \<or> find_server (pg_value p ServerName) st \<noteq> None")
        case True
        then have "?stored = (if st_down st then Err DbFailed else Err UniqueViolation, st)"
          using Ok by (auto simp: insert_server_def key_def st_def row)
        with refused True show ?thesis unfolding t Ok by (auto split: if_splits)
      next
        case False
        let ?st = "st\<lparr>st_server_seq := st_server_seq st + 1, st_servers := st_servers st @ [?row\<lparr>sv_id := st_server_seq st + 1,
            sv_api_key := c, sv_created_at := wo_now w, sv_updated_at := wo_now w\<rparr>]\<rparr>"
        have "?stored = (Ok (?row\<lparr>sv_id := st_server_seq st + 1\<rparr>), ?st)"
          using Ok False by (simp add: insert_server_def key_def st_def row Let_def)
        then show ?thesis unfolding t Ok using False by (simp add: d f write_reply_def read_reply_def)
      qed
    next
      case (Err x)
      then have "?stored = (Err x, st)" by (simp add: insert_server_def key_def st_def row)
      with refused show ?thesis unfolding t Err by simp
    next
      case (Panic x)
      then have "?stored = (Panic x, st)" by (simp add: insert_server_def key_def st_def row)
      with refused show ?thesis unfolding t Panic by simp
    qed
  qed
qed

definition demo_form :: page where
  "demo_form = set_input ServerMaxconn ''100'' (set_input ServerWeight ''1'' (set_input ServerHostgroup ''0''
     (set_input ServerName ''backup'' (set_input ServerEndpoint ''http://b'' demo_page))))"

text \<open>The same without the number of connections, and one with a name that is taken.\<close>

definition demo_bare_form :: page where
  "demo_bare_form = set_input ServerMaxconn [] demo_form"

definition demo_taken_form :: page where
  "demo_taken_form = set_input ServerName ''prod'' demo_form"

theorem new_server_saved_as_typed_witness:
  "map (\<lambda>s. (sv_name s, sv_max_connections s)) (tl (st_servers (ad_storage (snd (on_save_server
      (demo_decoding (server_form demo_browser demo_bare_form)) demo_browser demo_bare_form (demo_signed demo_storage))))))
     = [(''backup'', 100)]
   \<and> snd (on_save_server (demo_decoding (server_form demo_browser demo_taken_form)) demo_browser demo_taken_form
       (demo_signed demo_storage)) = demo_signed demo_storage"
proof
  have v: "typed_number demo_browser (pg_value demo_bare_form ServerHostgroup) = Some 0"
    "typed_number demo_browser (pg_value demo_bare_form ServerWeight) = Some 1"
    "typed_number demo_browser (pg_value demo_bare_form ServerMaxconn) = Some 0" "pg_value demo_bare_form ServerEditName = []"
    "pg_value demo_bare_form ServerName = ''backup''" "pg_value demo_bare_form ServerEndpoint = ''http://b''"
    "pg_value demo_bare_form ServerApikey = []" by code_simp+
  have t: "typed_number demo_browser (pg_value demo_taken_form ServerHostgroup) = Some 0"
    "typed_number demo_browser (pg_value demo_taken_form ServerWeight) = Some 1"
    "typed_number demo_browser (pg_value demo_taken_form ServerMaxconn) = Some 100" "pg_value demo_taken_form ServerEditName = []"
    "pg_value demo_taken_form ServerName = ''prod''" "pg_value demo_taken_form ServerApikey = []" by code_simp+
  have st: "find_server ''backup'' demo_storage = None" "find_server ''prod'' demo_storage \<noteq> None" "\<not> st_down demo_storage"
    "length (st_servers demo_storage) = 1"
    by (simp_all add: demo_storage_def find_server_def inserted_row_def empty_tables_def)
  have target: "fst (br_target demo_browser ''/api/servers'') = ''/api/servers''" by (simp add: demo_browser_def)
  note saving = new_server_saved_as_typed [OF demo_signed_in [OF demo_now(1)] target _ demo_decodes]
  show "map (\<lambda>s. (sv_name s, sv_max_connections s)) (tl (st_servers (ad_storage (snd (on_save_server
      (demo_decoding (server_form demo_browser demo_bare_form)) demo_browser demo_bare_form (demo_signed demo_storage))))))
     = [(''backup'', 100)]"
    using saving [OF v(4), of demo_storage] st
    by (cases "st_servers demo_storage") (simp_all add: v encrypt_for_store_def typed_server_def)
  show "snd (on_save_server (demo_decoding (server_form demo_browser demo_taken_form)) demo_browser demo_taken_form
       (demo_signed demo_storage)) = demo_signed demo_storage"
    using saving [OF t(4), of demo_storage] st by (auto simp add: t encrypt_for_store_def not_stored_def)
qed

subsection \<open>Users\<close>

lemma user_json_props [simp]: "prop_of (user_json en u) ''comment'' = (if us_comment u = [] then None else Some (JStr (us_comment u)))"
  by (simp add: prop_of_def user_json_def omit_empty_def)

lemma edited_user_form:
  assumes "js_exact (us_default_hostgroup u)" "js_exact (us_max_requests_per_minute u)" "js_exact (us_max_tokens_per_minute u)"
  shows "user_form br (open_user_modal br (Some (user_json en u)) p) =
   JObj [(''username'', JStr (strip_newlines (us_username u))), (''max_requests_per_minute'', int_num (us_max_requests_per_minute u)),
     (''max_tokens_per_minute'', int_num (us_max_tokens_per_minute u)), (''default_hostgroup'', int_num (us_default_hostgroup u)), (''active'', JBool True)]"
  using assms by (simp add: user_form_def open_user_modal_def field_text_def int_json_def double_of_def)


lemma edit_opens_user:
  assumes "signed_in w br ad" and "fst (br_target br (user_url name)) = user_url name"
    and "find_user name (ad_storage ad) = Some u" and "\<not> st_down (ad_storage ad)"
  shows "on_edit_user w br name p ad = (open_user_modal br (Some (user_json (br_encoding br) u)) p, ad)"
proof -
  have "fetch w br ''GET'' (user_url name) None ad = (Ok (write_json (RpUser u)), ad)"
    using assms by (subst fetch_signed_in [of _ _ _ _ EpUserByName])
      (simp_all add: handle_user_by_name_def read_reply_def get_user_by_username_def write_json_def respond_def)
  then show ?thesis
    by (simp add: on_edit_user_def api_get_def try_catch_def response_ok_def response_json_def write_json_def respond_def)
qed

lemma find_user_map:
  assumes "find_user name st = Some u" and "\<And>r. us_username (f r) = us_username r"
  shows "find_user name (st\<lparr>st_users := map (\<lambda>r. if us_username r = name then f r else r) (st_users st)\<rparr>) = Some (f u)"
proof -
  have "find (\<lambda>r. us_username r = name) (map (\<lambda>r. if us_username r = name then f r else r) rs) =
    map_option f (find (\<lambda>r. us_username r = name) rs)" for rs
    using assms(2) by (induction rs) auto
  with assms(1) show ?thesis by (simp add: find_user_def)
qed

lemma editing_reactivates_user:
  fixes p :: page
  assumes "signed_in w br ad" and "signed_in w' br ad"
    and "fst (br_target br (user_url name)) = user_url name" and "name \<noteq> []"
    and "find_user name (ad_storage ad) = Some u" and "\<not> st_down (ad_storage ad)"
    and "js_exact (us_default_hostgroup u)" and "js_exact (us_max_requests_per_minute u)" and "js_exact (us_max_tokens_per_minute u)"
  defines "opened \<equiv> on_edit_user w br name p ad"
  assumes "decodes w' (br_stringify br (user_form br (fst opened))) (user_form br (fst opened))"
  defines "result \<equiv> on_save_user w' br (fst opened) (snd opened)"
  shows "find_user name (ad_storage (snd result)) = Some (u\<lparr>us_active := True, us_password_hash := [],
      us_comment := [], us_updated_at := wo_now w'\<rparr>)"
proof -
  let ?p = "open_user_modal br (Some (user_json (br_encoding br) u)) p"
  let ?u = "\<lparr>us_id = 0, us_username = strip_newlines (us_username u), us_password_hash = [], us_active = True,
    us_default_hostgroup = us_default_hostgroup u, us_max_requests_per_minute = us_max_requests_per_minute u,
    us_max_tokens_per_minute = us_max_tokens_per_minute u, us_comment = [], us_created_at = time_zero,
    us_updated_at = time_zero\<rparr>"
  have o: "opened = (?p, ad)" unfolding opened_def by (rule edit_opens_user) fact+
  have n: "us_username u = name" using assms(5) by (auto simp: find_user_def find_Some_iff)
  have e: "pg_value ?p UserEditName = name" by (simp add: open_user_modal_def field_text_def n)
  have "decode_user (user_form br ?p) = Some ?u"
    unfolding edited_user_form [OF assms(7-9)] using assms(7-9) [THEN js_exact_in64]
    by (simp add: decode_user_def is_struct_def read_str_def read_int_def read_bool_def member_def fit64_def)
  then have b: "hw_user w' (br_stringify br (user_form br ?p)) = Some ?u"
    using assms(11) by (simp add: o decodes_def)
  define f :: "user \<Rightarrow> user" where "f r = r\<lparr>us_password_hash := [], us_active := True,
    us_default_hostgroup := us_default_hostgroup u, us_max_requests_per_minute := us_max_requests_per_minute u,
    us_max_tokens_per_minute := us_max_tokens_per_minute u, us_comment := [], us_updated_at := wo_now w'\<rparr>" for r
  let ?st = "(ad_storage ad)\<lparr>st_users := map (\<lambda>r. if us_username r = name then f r else r) (st_users (ad_storage ad))\<rparr>"
  have up: "update_user (wo_now w') (?u\<lparr>us_username := name\<rparr>) (ad_storage ad) = (Ok (), ?st)"
    using assms(6) by (simp add: update_user_def f_def cong: if_cong)
  have "fetch w' br ''PUT'' (user_url name) (Some (user_form br ?p)) ad
      = (Ok (write_json (RpUser (?u\<lparr>us_username := name\<rparr>))), ad\<lparr>ad_storage := ?st\<rparr>)"
    using assms(2,3) up by (subst fetch_signed_in [of _ _ _ _ EpUserByName])
      (simp_all add: handle_user_by_name_def b write_reply_def read_reply_def write_json_def respond_def)
  then have "result = (saved ''User updated'' UserModal LoadUsers ?p, ad\<lparr>ad_storage := ?st\<rparr>)"
    using assms(4) unfolding result_def o
    by (simp add: on_save_user_def e api_put_def try_catch_def response_ok_def response_json_def write_json_def respond_def)
  moreover have "find_user name ?st = Some (f u)" by (rule find_user_map [OF assms(5)]) (simp add: f_def)
  ultimately show ?thesis by (simp add: f_def)
qed

subsection \<open>Hostgroups\<close>

lemma decode_hostgroup_form: "decode_hostgroup (hostgroup_form br p) =
    Some \<lparr>hg_id = 0, hg_group_id = 0, hg_name = pg_value p HostgroupName, hg_comment = pg_value p HostgroupComment\<rparr>"
  by (simp add: decode_hostgroup_def hostgroup_form_def is_struct_def read_str_def read_int_def member_def)

lemma save_hostgroup_fails:
  assumes "signed_in w br ad" and "fst (br_target br ''/api/hostgroups'') = ''/api/hostgroups''"
    and "decodes w (br_stringify br (hostgroup_form br p)) (hostgroup_form br p)"
    and "find_hostgroup 0 (ad_storage ad) \<noteq> None" and "\<not> st_down (ad_storage ad)"
  shows "\<exists>e. on_save_hostgroup w br p ad = (not_saved br p e, ad)"
proof -
  have h: "hw_hostgroup w (br_stringify br (hostgroup_form br p)) = Some \<lparr>hg_id = 0, hg_group_id = 0,
      hg_name = pg_value p HostgroupName, hg_comment = pg_value p HostgroupComment\<rparr>"
    using assms(3) by (simp add: decodes_def decode_hostgroup_form)
  have "fetch w br ''POST'' ''/api/hostgroups'' (Some (hostgroup_form br p)) ad
      = (Ok (respond 500 (Some (RpStorageError [] UniqueViolation))), ad)"
    using assms by (subst fetch_signed_in [of _ _ _ _ EpHostgroups])
      (simp_all add: routes_fixed handle_hostgroups_def h insert_hostgroup_def write_reply_def read_reply_def failed_def respond_def)
  then show ?thesis
    by (auto simp: on_save_hostgroup_def api_post_def try_catch_def response_ok_def thrown_error_def
      response_json_def respond_def)
qed

lemma delete_hostgroup_fails:
  assumes "signed_in w br ad" and "fst (br_target br (''/api/hostgroups?group_id='' @ i)) = ''/api/hostgroups''"
  shows "snd (on_delete_hostgroup w br i p ad) = ad \<and> pg_toasts (fst (on_delete_hostgroup w br i p ad)) =
    pg_toasts p @ (if br_confirm br (''Delete hostgroup #'' @ i @ ''?'') then [''Failed to delete hostgroup''] else [])"
proof -
  have "fetch w br ''DELETE'' (''/api/hostgroups?group_id='' @ i) None ad = (Ok (respond 405 None), ad)"
    using assms by (subst fetch_signed_in [of _ _ _ _ EpHostgroups])
      (simp_all add: routes_fixed handle_hostgroups_def respond_def)
  then show ?thesis
    by (simp add: on_delete_hostgroup_def delete_after_def api_delete_def try_catch_def response_ok_def respond_def show_toast_def)
qed

text \<open>
  C28: The panel cannot administer hostgroups. As there always is the default hostgroup 0,
  creating one is refused whatever was typed, since the member \<open>group_id\<close> is not read and the
  new hostgroup gets the id 0; deleting one is refused, since the endpoint has no DELETE; and
  the table shows every hostgroup as undefined, without its name.
\<close>

theorem hostgroups_out_of_reach:
  assumes "signed_in w br ad" and "fst (br_target br ''/api/hostgroups'') = ''/api/hostgroups''"
    and "fst (br_target br (''/api/hostgroups?group_id='' @ i)) = ''/api/hostgroups''"
    and "decodes w (br_stringify br (hostgroup_form br p)) (hostgroup_form br p)"
    and "find_hostgroup 0 (ad_storage ad) \<noteq> None" and "\<not> st_down (ad_storage ad)"
  shows "(\<exists>e. on_save_hostgroup w br p ad = (not_saved br p e, ad))
    \<and> snd (on_delete_hostgroup w br i p ad) = ad
    \<and> (hs \<noteq> [] \<longrightarrow> read_table (hostgroups_html fl (JList (map hostgroup_info_json hs)))
        = map (\<lambda>(h, n). [''undefined'', [], ''-'', itoa (int n), []]) hs)"
proof -
  have "hs \<noteq> [] \<Longrightarrow> read_table (hostgroups_html fl (JList (map hostgroup_info_json hs)))
      = map (\<lambda>x. [''undefined'', [], ''-'', itoa (int (snd x)), []]) hs"
    by (simp add: hostgroups_html_def read_rows(1) [OF hostgroup_row_reads])
  then show ?thesis
    using save_hostgroup_fails [OF assms(1,2,4,5,6)] delete_hostgroup_fails [OF assms(1,3)]
    by (simp add: case_prod_unfold)
qed

theorem hostgroups_out_of_reach_witness:
  "snd (on_delete_hostgroup (demo_decoding (hostgroup_form demo_browser demo_page)) demo_browser ''7'' demo_page (demo_signed demo_storage))
     = demo_signed demo_storage"
proof -
  have "find_hostgroup 0 demo_storage \<noteq> None" "\<not> st_down demo_storage"
    by (simp_all add: demo_storage_def find_hostgroup_def empty_tables_def)
  then show ?thesis
    using hostgroups_out_of_reach [OF demo_signed_in _ _ demo_decodes, where i = "''7''"] by (simp add: demo_browser_def)
qed

subsection \<open>Rules\<close>

lemma decode_rule_form: "decode_rule (rule_form br p) = Some r \<Longrightarrow> rr_rule_id r = 0"
  by (auto simp: decode_rule_def rule_form_def is_struct_def read_str_def read_int_def read_bool_def member_def
    int_json_def fit64_def split: option.splits if_splits)

lemma second_rule_is_refused:
  assumes "signed_in w br ad" and "fst (br_target br ''/api/rules'') = ''/api/rules''"
    and "decodes w (br_stringify br (rule_form br p)) (rule_form br p)"
    and "find_rule 0 (ad_storage ad) \<noteq> None" 
  shows "snd (on_save_rule w br p ad) = ad"
proof -
  have "snd (fetch w br ''POST'' ''/api/rules'' (Some (rule_form br p)) ad) = ad"
  proof (cases "decode_rule (rule_form br p)")
    case None
    then have "hw_rule w (br_stringify br (rule_form br p)) = None" using assms(3) by (simp add: decodes_def)
    then show ?thesis using assms by (subst fetch_signed_in [of _ _ _ _ EpRules])
      (simp_all add: routes_fixed handle_rules_def)
  next
    case (Some r)
    then have "hw_rule w (br_stringify br (rule_form br p)) = Some r" "rr_rule_id r = 0" 
      using assms(3) decode_rule_form by (auto simp: decodes_def)
    then show ?thesis using assms by (subst fetch_signed_in [of _ _ _ _ EpRules])
      (simp_all add: routes_fixed handle_rules_def insert_routing_rule_def write_reply_def)
  qed
  then show ?thesis
    by (auto simp: on_save_rule_def api_post_def try_catch_def split: prod.split)
qed

subsection \<open>Addresses\<close>

lemma delete_hits_another_server:
  fixes p :: page
  assumes "signed_in w br ad" and "fst (br_target br (server_url (a @ CHR ''?'' # t))) = server_url a"
    and "br_confirm br (''Delete server '' @ CHR 0x22 # (a @ CHR ''?'' # t) @ [CHR 0x22, CHR ''?''])"
    and "\<not> st_down (ad_storage ad)"
  defines "ad' \<equiv> snd (on_delete_server w br (a @ CHR ''?'' # t) p ad)"
  shows "find_server a (ad_storage ad') = None 
    \<and> find_server (a @ CHR ''?'' # t) (ad_storage ad') = find_server (a @ CHR ''?'' # t) (ad_storage ad)"
proof -
  have f: "find P (filter Q xs) = find P xs" if "\<And>x. P x \<Longrightarrow> Q x" for P Q and xs :: "server list"
    using that by (induction xs) auto
  have "fetch w br ''DELETE'' (server_url (a @ CHR ''?'' # t)) None ad = (Ok (respond 204 None), ad\<lparr>ad_storage :=
     (ad_storage ad)\<lparr>st_servers := filter (\<lambda>r. sv_name r \<noteq> a) (st_servers (ad_storage ad))\<rparr>\<rparr>)"
    using assms by (subst fetch_signed_in [of _ _ _ _ EpServerByName])
      (simp_all add: handle_server_by_name_def delete_server_def write_reply_def read_reply_def respond_def)
  then have "ad_storage ad' = (ad_storage ad)\<lparr>st_servers := filter (\<lambda>r. sv_name r \<noteq> a) (st_servers (ad_storage ad))\<rparr>"
    using assms(3) by (simp add: ad'_def on_delete_server_def delete_after_def api_delete_def try_catch_def response_ok_def respond_def)
  then show ?thesis by (auto simp: find_server_def find_None_iff intro!: f)
qed

subsection \<open>The overview\<close>

text \<open>A browser that sends the addresses of the lists as they are written.\<close>

definition plain_addresses :: "browser \<Rightarrow> bool" where
  "plain_addresses br \<longleftrightarrow> (\<forall>u \<in> {''/api/stats'', ''/api/users'', ''/api/rules'', ''/api/hostgroups'',
     ''/api/cache'', ''/api/health''}. fst (br_target br u) = u)"

lemma api_gets:
  assumes "signed_in w br ad" and "plain_addresses br" and "\<not> st_down (ad_storage ad)"
  defines "en \<equiv> br_encoding br" and "st \<equiv> ad_storage ad"
  shows "api_get w br ''/stats'' ad = (Ok (stats_json (balancer_stats_of (wo_server_names w) (ad_balancer ad))), ad)"
    and "api_get w br ''/users'' ad = (Ok (json_slice (user_json en) (sort_key us_username (st_users st))), ad)"
    and "api_get w br ''/rules'' ad = (Ok (json_slice (rule_json en)
        (sort_key (\<lambda>r. (rr_priority r, rr_rule_id r)) (st_rules st))), ad)"
    and "\<exists>hs. api_get w br ''/hostgroups'' ad = (Ok (JList (map hostgroup_info_json hs)), ad) \<and> length hs = length (st_hostgroups st)"
    and "snd (fetch_or_empty w br ''/api/cache'' ad) = ad" and "snd (fetch_or_empty w br ''/api/health'' ad) = ad"
proof -
  note f = fetch_signed_in [OF assms(1), of _ _ "''GET''" None]
  note t = assms(2) [unfolded plain_addresses_def]
  note d = api_get_def f routes_fixed write_json_def respond_def response_ok_def response_json_def read_reply_def
  show "api_get w br ''/stats'' ad = (Ok (stats_json (balancer_stats_of (wo_server_names w) (ad_balancer ad))), ad)"
    using t by (simp add: d handle_stats_def)
  show "api_get w br ''/users'' ad = (Ok (json_slice (user_json en) (sort_key us_username (st_users st))), ad)"
    using t assms(3) by (simp add: d handle_users_def get_users_def en_def st_def)
  show "api_get w br ''/rules'' ad = (Ok (json_slice (rule_json en)
        (sort_key (\<lambda>r. (rr_priority r, rr_rule_id r)) (st_rules st))), ad)"
    using t assms(3) by (simp add: d handle_rules_def get_routing_rules_def en_def st_def)
  show "\<exists>hs. api_get w br ''/hostgroups'' ad = (Ok (JList (map hostgroup_info_json hs)), ad) \<and> length hs = length (st_hostgroups st)"
    using t assms(3) by (simp add: d handle_hostgroups_def get_hostgroups_def st_def del: map_map) (metis length_map length_sort)
  show "snd (fetch_or_empty w br ''/api/cache'' ad) = ad"
    using t by (simp add: fetch_or_empty_def f routes_fixed handle_cache_def write_error_def write_json_def respond_def split: option.split)
  show "snd (fetch_or_empty w br ''/api/health'' ad) = ad"
    using t by (simp add: fetch_or_empty_def f routes_fixed handle_health_status_def write_json_def respond_def)
qed

lemma list_length_simps [simp]: "list_length (JList vs) = Some (length vs)"
  "list_length (json_slice f xs) = (if xs = [] then None else Some (length xs))"
  by (simp_all add: list_length_def list_of_def json_slice_def)

text \<open>
  The overview stops half way when there is no user or no routing rule, as in a new
  installation: the list is null in JSON, the script asks it for its length, and neither the
  number of hostgroups nor the health of the servers is ever shown. With both, it shows the
  numbers of the stored rows and the health table.
\<close>

theorem overview_needs_users_and_rules:
  fixes p :: page
  assumes "signed_in w br ad" and "plain_addresses br" and "\<not> st_down (ad_storage ad)"
  defines "st \<equiv> ad_storage ad" and "p' \<equiv> fst (load_overview w br p ad)"
  shows "if st_users st = [] \<or> st_rules st = []
    then pg_html p' = pg_html p \<and> pg_text p' ''overview-totalHostgroups'' = pg_text p ''overview-totalHostgroups''
    else pg_html p' ''overview-health'' = health_html (br_float br) (fst (fetch_or_empty w br ''/api/health'' ad))
      \<and> pg_text p' ''overview-totalUsers'' = itoa (int (length (st_users st)))
      \<and> pg_text p' ''overview-totalRules'' = itoa (int (length (st_rules st)))
      \<and> pg_text p' ''overview-totalHostgroups'' = itoa (int (length (st_hostgroups st)))"
proof -
  obtain hs where hs: "api_get w br ''/hostgroups'' ad = (Ok (JList (map hostgroup_info_json hs)), ad)"
    "length hs = length (st_hostgroups st)" using api_gets(4) [OF assms(1-3)] by (auto simp: st_def)
  obtain c h where c: "fetch_or_empty w br ''/api/cache'' ad = (c, ad)" and h: "fetch_or_empty w br ''/api/health'' ad = (h, ad)"
    using api_gets(5,6) [OF assms(1-3)] by (metis prod.collapse)
  let ?us = "sort_key us_username (st_users st)" and ?rs = "sort_key (\<lambda>r. (rr_priority r, rr_rule_id r)) (st_rules st)"
  have "p' = overview_shown br (stats_json (balancer_stats_of (wo_server_names w) (ad_balancer ad)))
     (json_slice (user_json (br_encoding br)) ?us) (json_slice (rule_json (br_encoding br)) ?rs)
     (JList (map hostgroup_info_json hs)) c h p"
    using api_gets(1-3) [OF assms(1-3)] by (simp add: p'_def load_overview_def hs c h load_with_def try_catch_def st_def)
  moreover have "?us = [] \<longleftrightarrow> st_users st = []" "?rs = [] \<longleftrightarrow> st_rules st = []" by (metis length_sort length_0_conv)+
  ultimately show ?thesis using hs(2)
    by (simp add: h overview_shown_def overview_lists_def set_text_def set_html_def Let_def)
qed

theorem overview_needs_users_and_rules_witness:
  "pg_html (fst (load_overview demo_web demo_browser demo_page (demo_signed demo_storage))) = pg_html demo_page"
proof -
  have "st_users demo_storage = []" "\<not> st_down demo_storage" "plain_addresses demo_browser"
    by (simp_all add: demo_storage_def empty_tables_def plain_addresses_def demo_browser_def)
  then show ?thesis
    using overview_needs_users_and_rules [OF demo_signed_in, of demo_web demo_storage demo_page] by simp
qed

subsection \<open>Without a session\<close>

text \<open>Cookies that no session of the server has, and addresses that stay below \<open>/api\<close>.\<close>

definition unknown :: "browser \<Rightarrow> admin \<Rightarrow> bool" where
  "unknown br ad \<longleftrightarrow> (\<forall>c \<in> set (br_cookies br). sm_sessions (ad_sessions ad) (snd c) = None)"

definition api_bound :: "browser \<Rightarrow> bool" where
  "api_bound br \<longleftrightarrow> (\<forall>u. has_prefix u ''/api'' \<longrightarrow> has_prefix (fst (br_target br u)) ''/api'')"

definition quiet_page :: "admin \<Rightarrow> admin \<Rightarrow> bool" where
  "quiet_page ad ad' \<longleftrightarrow> core ad' = core ad \<and> fewer_sessions (ad_sessions ad) (ad_sessions ad')"

lemma quiet_refl [simp]: "quiet_page ad ad"
  by (simp add: quiet_page_def)

lemma quiet_trans: "quiet_page a b \<Longrightarrow> quiet_page b c \<Longrightarrow> quiet_page a c"
  unfolding quiet_page_def using fewer_sessions_trans by metis

lemma unknown_quiet: "unknown br ad \<Longrightarrow> quiet_page ad ad' \<Longrightarrow> unknown br ad'"
  unfolding unknown_def quiet_page_def fewer_sessions_def by metis

lemma unknown_session:
  assumes "unknown br ad" and "hr_cookies r = br_cookies br"
  shows "get_session_from_request now r (ad_sessions ad) = (None, ad_sessions ad)"
  using assms by (auto simp: get_session_from_request_def request_cookie_def get_session_def unknown_def
    split: option.splits dest!: map_of_SomeD)

lemma fetch_quiet:
  assumes "unknown br ad" and "api_bound br" and "has_prefix url ''/api''"
  shows "quiet_page ad (snd (fetch w br m url d ad))"
proof -
  define r where "r = fetch_request br m url d"
  have c: "hr_cookies r = br_cookies br" and p: "has_prefix (hr_path r) ''/api''"
    using assms(2,3) by (simp_all add: r_def api_bound_def)
  have "quiet_page ad (snd (serve w r ad))"
  proof (cases "find_route (hr_path r)")
    case (Some e)
    show ?thesis
    proof (cases "guarded e")
      case True
      then show ?thesis using guarded_refused [OF Some True, of w ad] by (simp add: unknown_session [OF assms(1) c])
    next
      case False
      have "e \<noteq> EpLogin" using Some route_to_login [of "hr_path r"] p by (auto simp: has_prefix_def)
      then show ?thesis using public_handler_effect [OF False, of w r ad] Some False
        by (simp add: serve_def quiet_page_def)
    qed
  qed (simp add: serve_def)
  then show ?thesis by (auto simp: fetch_def r_def split: prod.splits)
qed

lemma snd_try_catch [simp]: "snd (try_catch r go c) = snd r" 
  by (simp add: try_catch_def split: prod.split)

lemma snd_load_with [simp]: "snd (load_with r go p) = snd r"
  by (simp add: load_with_def)

lemma snd_api [simp]:
  "snd (api_get w br u ad) = snd (fetch w br ''GET'' (''/api'' @ u) None ad)"
  "snd (api_post w br u v ad) = snd (fetch w br ''POST'' (''/api'' @ u) (Some v) ad)"
  "snd (api_put w br u v ad) = snd (fetch w br ''PUT'' (''/api'' @ u) (Some v) ad)"
  "snd (api_delete w br u ad) = snd (fetch w br ''DELETE'' (''/api'' @ u) None ad)"
  "snd (fetch_or_empty w br url ad) = snd (fetch w br ''GET'' url None ad)"
  by (simp_all add: api_get_def api_post_def api_put_def api_delete_def fetch_or_empty_def split: prod.split)

lemma fetch_quiet_after:
  assumes "unknown br ad" and "api_bound br" and "quiet_page ad a" and "has_prefix url ''/api''"
  shows "quiet_page ad (snd (fetch w br m url d a))"
  using quiet_trans [OF assms(3) fetch_quiet] unknown_quiet [OF assms(1,3)] assms(2,4) by blast

lemma overview_quiet:
  assumes "unknown br ad" and "api_bound br"
  shows "quiet_page ad (snd (load_overview w br p ad))"
  unfolding load_overview_def using assms
  by (simp add: case_prod_unfold Let_def) (intro fetch_quiet_after quiet_refl; simp)

lemma load_quiet:
  assumes "unknown br ad" and "api_bound br"
  shows "quiet_page ad (snd (load w br l p ad))"
  by (cases l) (simp_all add: overview_quiet [OF assms] fetch_quiet [OF assms] show_servers_def show_users_def show_rules_def show_hostgroups_def
    show_variables_def show_cache_def)

lemma save_variable_quiet:
  assumes "unknown br ad" and "api_bound br"
  shows "quiet_page ad (snd (on_save_variable w w' br p ad))"
proof -
  obtain r a where r: "api_put w br ''/variables'' (variable_form p) ad = (r, a)" by fastforce
  then have "a = snd (fetch w br ''PUT'' ''/api/variables'' (Some (variable_form p)) ad)"
    using snd_api(3) [of w br "''/variables''" "variable_form p" ad] by simp
  then have "quiet_page ad a" by (simp add: fetch_quiet [OF assms])
  moreover from this have "quiet_page ad (snd (reload_config w' br q a))" for q
    by (simp add: reload_config_def fetch_quiet_after [OF assms])
  ultimately show ?thesis
    by (simp add: on_save_variable_def r Let_def case_prod_unfold split: res.split)
qed

lemma perform_quiet:
  assumes "unknown br ad" and "api_bound br"
  shows "quiet_page ad (snd (perform w w' br a p ad))"
  by (cases a) (simp_all add: fetch_quiet [OF assms] load_quiet [OF assms] save_variable_quiet [OF assms] on_edit_server_def on_save_server_def on_delete_server_def delete_after_def
    on_edit_user_def on_save_user_def on_delete_user_def on_save_rule_def on_delete_rule_def
    on_save_hostgroup_def on_delete_hostgroup_def reload_config_def on_toggle_cache_def on_clear_cache_def
    Let_def split: list.split)

text \<open>A session: actions with the two worlds they find.\<close>

fun page_step :: "browser \<Rightarrow> page \<times> admin \<Rightarrow> http_world \<times> http_world \<times> action \<Rightarrow> page \<times> admin" where
  "page_step br (p, ad) (w, w', a) = perform w w' br a p ad"

interpretation anonymous: machine "page_step br" "\<lambda>s. api_bound br \<longrightarrow> unknown br (snd s) \<and> quiet_page ad (snd s)" for br ad
proof
  fix s :: "page \<times> admin" and e :: "http_world \<times> http_world \<times> action" assume s: "api_bound br \<longrightarrow> unknown br (snd s) \<and> quiet_page ad (snd s)"
  obtain p a where sp: "s = (p, a)" by fastforce
  obtain w w' x where e: "e = (w, w', x)" by (cases e)
  show "api_bound br \<longrightarrow> unknown br (snd (page_step br s e)) \<and> quiet_page ad (snd (page_step br s e))"
    using s perform_quiet [of br a w w' x p] unknown_quiet quiet_trans by (auto simp: sp e)
qed

text \<open>
  C23: The panel is no way around the login. Whatever an operator without a session does on the
  page, in any order, the configuration, the tables, the balancer, the health table, the
  routing rules and the credentials stay as they are, as long as the addresses that the page
  asks for stay below \<open>/api\<close>.
\<close>

theorem panel_needs_login:
  assumes "unknown br ad" and "api_bound br"
  shows "core (snd (foldl (page_step br) (p, ad) es)) = core ad"
  using anonymous.run_inv [where br = br and ad = ad and s = "(p, ad)" and es = es] assms
  by (simp add: quiet_page_def)

theorem panel_needs_login_witness:
  "core (snd (foldl (page_step demo_browser) (demo_page, demo_admin [])
     [(demo_web, demo_web, ReloadConfig), (demo_web, demo_web, DeleteServer ''prod''), (demo_web, demo_web, NextLoad)]))
   = core (demo_admin [])"
proof -
  have "has_prefix (takeWhile (\<lambda>c. c \<noteq> CHR ''?'') u) ''/api''" if "has_prefix u ''/api''" for u
    using that by (auto simp: has_prefix_iff)
  then show ?thesis
    by (intro panel_needs_login) (simp_all add: unknown_def api_bound_def demo_browser_def demo_admin_def new_session_manager_def)
qed

end
