(* ===== verification/Monitoring.thy ===== *)
theory Monitoring
  imports PanelFacts
begin

section \<open>The monitoring page (internal/admin/monitoring.go)\<close>

text \<open>
  The script of the public monitoring page: every five seconds it asks for the statistics,
  the health, the cache and the last requests, and renders them. Its helpers \<open>escapeHtml\<close>,
  \<open>formatNumber\<close> and \<open>formatBytes\<close> are those of the panel, word for word (\<open>Html\<close>).
\<close>

subsection \<open>The page\<close>

record monitor =
  mo_text :: "string \<Rightarrow> string"
  mo_html :: "string \<Rightarrow> string"
  mo_online :: bool
  mo_total_reqs :: rat
  mo_total_errors :: rat

definition mo_set_text :: "string \<Rightarrow> string \<Rightarrow> monitor \<Rightarrow> monitor" where
  "mo_set_text x s m = m\<lparr>mo_text := (mo_text m)(x := s)\<rparr>"

definition mo_set_html :: "string \<Rightarrow> string \<Rightarrow> monitor \<Rightarrow> monitor" where
  "mo_set_html x s m = m\<lparr>mo_html := (mo_html m)(x := s)\<rparr>"

definition set_offline :: "monitor \<Rightarrow> monitor" where
  "set_offline m = m\<lparr>mo_online := False\<rparr>"

definition set_online :: "monitor \<Rightarrow> monitor" where
  "set_online m = m\<lparr>mo_online := True\<rparr>"

subsection \<open>Rendering\<close>

definition get_provider_class :: "string \<Rightarrow> string" where
  "get_provider_class name = (let n = to_lower name in
     if str_contains n ''openai'' then ''badge-openai''
     else if str_contains n ''anthropic'' \<or> str_contains n ''claude'' then ''badge-anthropic''
     else if str_contains n ''ollama'' then ''badge-ollama''
     else if str_contains n ''groq'' then ''badge-groq''
     else if str_contains n ''google'' \<or> str_contains n ''gemini'' then ''badge-google''
     else if str_contains n ''azure'' then ''badge-azure'' else ''badge-openai'')"

definition get_provider_name :: "string \<Rightarrow> string" where
  "get_provider_name name = (let n = to_lower name in
     if str_contains n ''openai'' then ''OpenAI''
     else if str_contains n ''anthropic'' \<or> str_contains n ''claude'' then ''Anthropic''
     else if str_contains n ''ollama'' then ''Ollama''
     else if str_contains n ''groq'' then ''Groq''
     else if str_contains n ''google'' \<or> str_contains n ''gemini'' then ''Google''
     else if str_contains n ''azure'' then ''Azure'' else ''Custom'')"

text \<open>A latency in nanoseconds; one that rounds to zero milliseconds is not shown.\<close>

definition latency_display :: "rat \<Rightarrow> string" where
  "latency_display l = (let ms = (if 0 < l then math_round (l / 1000000) else 0)
     in if 0 < ms then itoa ms @ ''ms'' else ''-'')"

definition health_dot :: "bool \<Rightarrow> string" where
  "health_dot healthy = ''<div class=\"server-status '' @ (if healthy then ''healthy'' else ''unhealthy'') @ ''\"></div>''"

definition monitor_row :: "(rat \<Rightarrow> string) \<Rightarrow> json \<Rightarrow> string" where
  "monitor_row fl s = (let errors = num (prop_of s ''Errors''); name = js_string fl (prop_of s ''Name'') in
     ''<tr>'' @
     ''<td>'' @ ''<div class=\"server-cell\">'' @
       health_dot (prop_of s ''Errors'' = Some (JNum 0) \<or> prop_of s ''TotalReqs'' = Some (JNum 0)) @
       ''<span class=\"server-name\">'' @ escape_html fl (prop_of s ''Name'') @ ''</span>'' @
     ''</div>'' @ ''</td>'' @
     ''<td><span class=\"badge '' @ get_provider_class name @ ''\">'' @ get_provider_name name @ ''</span></td>'' @
     ''<td class=\"mono text-muted\">'' @ js_string fl (prop_of s ''Hostgroup'') @ ''</td>'' @
     ''<td class=\"text-right mono\">'' @ format_number fl (num (prop_of s ''TotalReqs'')) @ ''</td>'' @
     ''<td class=\"text-right mono '' @ (if 0 < errors then ''text-red'' else ''text-muted'') @ ''\">''
       @ js_string fl (prop_of s ''Errors'') @ ''</td>'' @
     ''<td class=\"text-right mono\">'' @ latency_display (num (prop_of s ''AvgLatency'')) @ ''</td>'' @
     ''</tr>'')"

definition render_servers :: "(rat \<Rightarrow> string) \<Rightarrow> json \<Rightarrow> string" where
  "render_servers fl v = rows_html (empty_row 6 ''No servers configured'') (monitor_row fl) v"

definition health_item :: "(rat \<Rightarrow> string) \<Rightarrow> string \<times> json \<Rightarrow> string" where
  "health_item fl e = (case e of (name, status) \<Rightarrow>
     let healthy = truthy (prop_of status ''Healthy'') in
     ''<div class=\"health-item\">'' @ health_dot healthy @
     ''<div class=\"health-info\">'' @
     ''<div class=\"health-name\">'' @ escape_html fl (Some (JStr name)) @ ''</div>'' @
     ''<div class=\"health-meta\">'' @ (if healthy then ''Healthy'' else ''Unhealthy'') @ ''</div>'' @
     ''</div>'' @
     ''<div class=\"health-latency\">'' @ latency_display (num (prop_of status ''Latency'')) @ ''</div>'' @
     ''</div>'')"

definition render_health :: "(rat \<Rightarrow> string) \<Rightarrow> json \<Rightarrow> string" where
  "render_health fl v = (if entries v = [] then ''<div class=\"empty-state\">No health data available</div>''
     else concat (map (health_item fl) (entries v)))"

text \<open>\<open>clock\<close> is \<open>new Date(t).toLocaleTimeString()\<close>.\<close>

definition log_item :: "(string \<Rightarrow> string) \<Rightarrow> (rat \<Rightarrow> string) \<Rightarrow> json \<Rightarrow> string" where
  "log_item clock fl l = (let code = num (prop_of l ''StatusCode'') in
     ''<div class=\"log-item\">'' @
     ''<span class=\"log-time\">'' @ clock (js_string fl (prop_of l ''Timestamp'')) @ ''</span>'' @
     ''<span class=\"log-server\">'' @ escape_html fl (Some (or_else (prop_of l ''ServerName'') (JStr ''-''))) @ ''</span>'' @
     ''<span class=\"log-model\">'' @ escape_html fl (Some (or_else (prop_of l ''Model'') (JStr ''-''))) @ ''</span>'' @
     ''<span class=\"log-status '' @ (if 200 \<le> code \<and> code < 400 then ''success'' else ''error'') @ ''\">''
       @ js_string fl (prop_of l ''StatusCode'') @ ''</span>'' @
     ''<span class=\"log-latency\">'' @ js_string fl (prop_of l ''LatencyMS'') @ ''ms</span>'' @
     ''</div>'')"

definition render_request_log :: "(string \<Rightarrow> string) \<Rightarrow> (rat \<Rightarrow> string) \<Rightarrow> json \<Rightarrow> string" where
  "render_request_log clock fl v = rows_html ''<div class=\"empty-state\">No recent requests</div>'' (log_item clock fl) v"

subsection \<open>Fetching\<close>

text \<open>The sums over the servers: requests, errors, and the latencies that are not zero.\<close>

definition add_server :: "rat \<times> rat \<times> rat \<times> nat \<Rightarrow> json \<Rightarrow> rat \<times> rat \<times> rat \<times> nat" where
  "add_server t s = (case t of (reqs, errors, latency, n) \<Rightarrow>
     let l = num (prop_of s ''AvgLatency'') in
     (reqs + num (prop_of s ''TotalReqs''), errors + num (prop_of s ''Errors''),
      if 0 < l then latency + l else latency, if 0 < l then n + 1 else n))"

definition success_rate :: "rat \<Rightarrow> rat \<Rightarrow> string" where
  "success_rate reqs errors = (if 0 < reqs then percent 1 ((reqs - errors) / reqs) else ''-'')"

definition stats_shown :: "browser \<Rightarrow> json \<Rightarrow> monitor \<Rightarrow> monitor" where
  "stats_shown br v m = (let fl = br_float br;
       servers = (case prop_of v ''ServerStats'' of Some ss \<Rightarrow> ss | None \<Rightarrow> JList []);
       (reqs, errors, latency, n) = foldl add_server (0, 0, 0, 0) (list_of servers)
     in set_online (mo_set_html ''serversList'' (render_servers fl servers)
       (mo_set_text ''avgLatency'' (if 0 < n then itoa (math_round (latency / of_nat n / 1000000)) @ ''ms'' else ''-'')
       (mo_set_text ''successRate'' (success_rate reqs errors)
       (mo_set_text ''totalRequests'' (format_number fl reqs)
       ((mo_set_text ''algorithmBadge'' (js_text fl (or_else (prop_of v ''Algorithm'') (JStr ''unknown'')))
       (mo_set_text ''totalServersSubtitle'' (''of '' @ js_text fl (or_else (prop_of v ''TotalServers'') (JNum 0)) @ '' total'')
       (mo_set_text ''healthyServers'' (js_text fl (or_else (prop_of v ''HealthyServers'') (JNum 0))) m)))
         \<lparr>mo_total_reqs := reqs, mo_total_errors := errors\<rparr>))))))"

text \<open>
  The page reads the body of every response, whatever its status. A body without properties
  (null) or, for the log, one that is no list makes the script throw, and the page keeps what
  it shows.
\<close>

definition read_from :: "(js_error, json) res \<Rightarrow> (json \<Rightarrow> bool) \<Rightarrow> (json \<Rightarrow> monitor) \<Rightarrow> monitor \<Rightarrow> monitor" where
  "read_from r fits go unread = (case r of Ok v \<Rightarrow> (if fits v then go v else unread) | _ \<Rightarrow> unread)"

definition is_list :: "json \<Rightarrow> bool" where
  "is_list v = (case v of JList vs \<Rightarrow> True | _ \<Rightarrow> False)"

definition fetch_json :: "'z http_world_scheme \<Rightarrow> browser \<Rightarrow> string \<Rightarrow> admin \<Rightarrow> json api_result" where
  "fetch_json w br url ad = (case fetch w br ''GET'' url None ad of (r, ad) \<Rightarrow> (res_bind r (response_json br), ad))"

definition fetch_stats :: "'z http_world_scheme \<Rightarrow> browser \<Rightarrow> monitor \<Rightarrow> admin \<Rightarrow> monitor \<times> admin" where
  "fetch_stats w br m ad = (case fetch_json w br ''/api/stats'' ad of
     (r, ad) \<Rightarrow> (read_from r (\<lambda>v. v \<noteq> JNull) (\<lambda>v. stats_shown br v m) (set_offline m), ad))"

definition fetch_health :: "'z http_world_scheme \<Rightarrow> browser \<Rightarrow> monitor \<Rightarrow> admin \<Rightarrow> monitor \<times> admin" where
  "fetch_health w br m ad = (case fetch_json w br ''/api/health'' ad of
     (r, ad) \<Rightarrow> (read_from r (\<lambda>v. v \<noteq> JNull)
       (\<lambda>v. mo_set_html ''healthGrid'' (render_health (br_float br) v) m) m, ad))"

definition fetch_cache :: "'z http_world_scheme \<Rightarrow> browser \<Rightarrow> monitor \<Rightarrow> admin \<Rightarrow> monitor \<times> admin" where
  "fetch_cache w br m ad = (case fetch_json w br ''/api/cache'' ad of
     (r, ad) \<Rightarrow> (read_from r (\<lambda>v. v \<noteq> JNull) (\<lambda>v.
         mo_set_text ''cacheItems'' (format_number (br_float br) (num (prop_of v ''item_count'')))
         (mo_set_text ''cacheMemory'' (format_bytes (br_float br) (num (prop_of v ''memory_used_bytes'')))
         (mo_set_text ''cacheHits'' (format_number (br_float br) (num (prop_of v ''hits'')))
         (mo_set_text ''cacheHitRate'' (hit_rate_text 1 v) m)))) m, ad))"

definition fetch_request_log :: "'z http_world_scheme \<Rightarrow> browser \<Rightarrow> (string \<Rightarrow> string) \<Rightarrow> monitor \<Rightarrow> admin
    \<Rightarrow> monitor \<times> admin" where
  "fetch_request_log w br clock m ad = (case fetch_json w br ''/api/stats/requests?limit=20'' ad of
     (r, ad) \<Rightarrow> (read_from r (\<lambda>v. is_list v \<or> \<not> truthy (Some v)) (\<lambda>v.
         mo_set_text ''requestCount'' (itoa (int (length (list_of v))))
         (mo_set_html ''requestLog'' (render_request_log clock (br_float br) v) m)) m, ad))"

text \<open>One refresh; the requests may be answered in any order.\<close>

definition refresh_all :: "'z http_world_scheme \<Rightarrow> browser \<Rightarrow> (string \<Rightarrow> string) \<Rightarrow> string \<Rightarrow> monitor \<Rightarrow> admin
    \<Rightarrow> monitor \<times> admin" where
  "refresh_all w br clock now_text m ad =
     (let (m, ad) = fetch_stats w br m ad; (m, ad) = fetch_health w br m ad;
          (m, ad) = fetch_cache w br m ad; (m, ad) = fetch_request_log w br clock m ad
      in (mo_set_text ''lastUpdated'' now_text m, ad))"

subsection \<open>What the page shows\<close>

lemma plain_provider_texts [simp]: "plain (get_provider_class name)" "plain (get_provider_name name)"
  by (simp_all add: get_provider_class_def get_provider_name_def Let_def)

lemma plain_latency_display [simp]: "plain (latency_display l)"
  by (simp add: latency_display_def Let_def)

lemma lex_InValue_plain [simp]: "plain s \<Longrightarrow> lex (InValue, acc, out) s = (InValue, rev s @ acc, out)"
  by (rule lex_InValue) (auto simp: plain_def)

lemma stats_props [simp]:
  "prop_of (server_stats_json s) ''Name'' = Some (JStr (sst_name s))"
  "prop_of (server_stats_json s) ''Hostgroup'' = Some (int_num (sst_hostgroup s))"
  "prop_of (server_stats_json s) ''TotalReqs'' = Some (int_num (sst_total_reqs s))"
  "prop_of (server_stats_json s) ''Errors'' = Some (int_num (sst_errors s))"
  "prop_of (server_stats_json s) ''AvgLatency'' = Some (int_num (sst_avg_latency s))"
  by (simp_all add: prop_of_def server_stats_json_def)

definition monitor_cells :: "(rat \<Rightarrow> string) \<Rightarrow> server_stats \<Rightarrow> string list" where
  "monitor_cells fl s = [sst_name s, get_provider_name (sst_name s), itoa (sst_hostgroup s),
     format_number fl (of_int (sst_total_reqs s)), itoa (sst_errors s), latency_display (of_int (sst_avg_latency s))]"

definition monitor_tags :: "string list" where
  "monitor_tags = [''tr'', ''td'', ''div'', ''div'', ''/div'', ''span'', ''/span'', ''/div'', ''/td''] @ td_span
     @ plain_td @ plain_td @ plain_td @ plain_td @ [''/tr'']"

lemma provider_class_quote [simp]: "CHR 0x22 \<notin> set (get_provider_class name)"
  using plain_provider_texts(1) [of name] unfolding plain_def by blast

lemma monitor_row_reads: "row_reads (monitor_row fl (server_stats_json s)) (monitor_cells fl s) [] monitor_tags"
  by (simp add: monitor_row_def health_dot_def monitor_cells_def monitor_tags_def row_read_defs Let_def)

lemma render_servers_reads:
  "read_table (render_servers fl (JList (map server_stats_json ss)))
     = (if ss = [] then [[''No servers configured'']] else map (monitor_cells fl) ss)"
  "tag_names (render_servers fl (JList (map server_stats_json ss)))
     = (if ss = [] then [''tr'', ''td'', ''/td'', ''/tr''] else concat (replicate (length ss) monitor_tags))"
proof -
  have b: "read_table (empty_row 6 ''No servers configured'') = [[''No servers configured'']]"
    "tag_names (empty_row 6 ''No servers configured'') = [''tr'', ''td'', ''/td'', ''/tr'']" by code_simp+
  show "read_table (render_servers fl (JList (map server_stats_json ss)))
     = (if ss = [] then [[''No servers configured'']] else map (monitor_cells fl) ss)"
    and "tag_names (render_servers fl (JList (map server_stats_json ss)))
     = (if ss = [] then [''tr'', ''td'', ''/td'', ''/tr''] else concat (replicate (length ss) monitor_tags))"
    by (simp_all add: render_servers_def b read_rows [OF monitor_row_reads] map_replicate_const)
qed

text \<open>The sums of the script are the sums of the servers' counters.\<close>

lemma add_server_sums: "foldl add_server (r, e, l, n) (map server_stats_json ss) = (r', e', l', n')
    \<Longrightarrow> r' = r + of_int (sum_list (map sst_total_reqs ss)) \<and> e' = e + of_int (sum_list (map sst_errors ss))"
proof (induction ss arbitrary: r e l n)
  case (Cons s ss)
  from Cons.IH [OF Cons.prems [simplified foldl_Cons list.map, unfolded add_server_def [of "(r, e, l, n)"] prod.case Let_def]]
  show ?case by simp
qed simp

text \<open>Every request of the page reads, and needs no session.\<close>

definition monitor_addresses :: "browser \<Rightarrow> bool" where
  "monitor_addresses br \<longleftrightarrow> (\<forall>u \<in> {''/api/stats'', ''/api/health'', ''/api/cache''}. fst (br_target br u) = u)
     \<and> fst (br_target br ''/api/stats/requests?limit=20'') = ''/api/stats/requests''"

lemma monitor_routes: "find_route ''/api/stats'' = Some EpStats" "find_route ''/api/cache'' = Some EpCache"
  "find_route ''/api/health'' = Some EpHealth" "find_route ''/api/stats/requests'' = Some EpRequestStats"
  by code_simp+

lemma fetch_public:
  assumes "find_route (fst (br_target br url)) = Some e" and "\<not> guarded e"
  shows "fetch w br ''GET'' url None ad = (case handler e w (fetch_request br ''GET'' url None) ad of
    (resp, ad) \<Rightarrow> (if rs_status resp = 0 then Err NetworkError else Ok resp, ad))"
  using assms by (simp add: fetch_def serve_def)

lemma public_reads:
  assumes "e \<in> {EpStats, EpCache, EpHealth, EpRequestStats}" and "hr_method r = ''GET''"
  shows "snd (handler e w r ad) = ad"
  using assms by (auto simp: pages_read_only handle_cache_def split: option.split)

lemma fetch_json_reads:
  assumes "find_route (fst (br_target br url)) = Some e" and "e \<in> {EpStats, EpCache, EpHealth, EpRequestStats}"
  shows "snd (fetch_json w br url ad) = ad"
proof -
  have "snd (handler e w (fetch_request br ''GET'' url None) ad) = ad"
    by (rule public_reads [OF assms(2)]) (simp add: fetch_request_def split: prod.split)
  then obtain resp where h: "handler e w (fetch_request br ''GET'' url None) ad = (resp, ad)"
    by (metis prod.collapse)
  have "\<not> guarded e" using assms(2) by auto
  then show ?thesis by (simp add: fetch_json_def fetch_public [OF assms(1)] h)
qed

lemma fetch_stats_answer:
  assumes "monitor_addresses br"
  shows "fetch_stats w br m ad = (stats_shown br (stats_json (balancer_stats_of (wo_server_names w) (ad_balancer ad))) m, ad)"
proof -
  have "fst (br_target br ''/api/stats'') = ''/api/stats''" using assms by (simp add: monitor_addresses_def)
  then have "fetch w br ''GET'' ''/api/stats'' None ad
      = (Ok (write_json (RpStats (balancer_stats_of (wo_server_names w) (ad_balancer ad)))), ad)"
    by (subst fetch_public [of _ _ EpStats]) (simp_all add: monitor_routes handle_stats_def write_json_def respond_def)
  then show ?thesis by (simp add: fetch_stats_def fetch_json_def response_json_def write_json_def respond_def
    read_from_def stats_json_def)
qed

text \<open>The four parts of a refresh write to elements of their own.\<close>

lemma stats_json_servers: "prop_of (stats_json b) ''ServerStats''
    = Some (JList (map server_stats_json (bst_server_stats b)))"
  by (simp add: stats_json_def prop_of_def)

lemma stats_shown_counters:
  fixes b :: balancer_stats and br :: browser and m :: monitor
  defines "ss \<equiv> bst_server_stats b" and "fl \<equiv> br_float br"
  shows "mo_online (stats_shown br (stats_json b) m)"
    and "mo_text (stats_shown br (stats_json b) m) ''totalRequests'' = format_number fl (of_int (sum_list (map sst_total_reqs ss)))"
    and "mo_text (stats_shown br (stats_json b) m) ''successRate''
      = success_rate (of_int (sum_list (map sst_total_reqs ss))) (of_int (sum_list (map sst_errors ss)))"
    and "mo_html (stats_shown br (stats_json b) m) ''serversList'' = render_servers fl (JList (map server_stats_json ss))"
proof -
  obtain r e l n where f: "foldl add_server (0, 0, 0, 0) (map server_stats_json ss) = (r, e, l, n)"
    by (metis prod_cases4)
  have s: "r = of_int (sum_list (map sst_total_reqs ss))" "e = of_int (sum_list (map sst_errors ss))"
    using add_server_sums [OF f] by simp_all
  have l: "list_of (JList (map server_stats_json (bst_server_stats b))) = map server_stats_json ss"
    by (simp add: list_of_def ss_def)
  note d = stats_shown_def Let_def stats_json_servers option.case l f prod.case
  show "mo_online (stats_shown br (stats_json b) m)"
    "mo_text (stats_shown br (stats_json b) m) ''totalRequests'' = format_number fl (of_int (sum_list (map sst_total_reqs ss)))"
    "mo_text (stats_shown br (stats_json b) m) ''successRate''
      = success_rate (of_int (sum_list (map sst_total_reqs ss))) (of_int (sum_list (map sst_errors ss)))"
    "mo_html (stats_shown br (stats_json b) m) ''serversList'' = render_servers fl (JList (map server_stats_json ss))"
    unfolding d by (simp_all add: mo_set_text_def mo_set_html_def set_online_def s fl_def ss_def)
qed

lemma other_elements:
  "mo_online (fst (fetch_health w br m ad)) = mo_online m" "mo_text (fst (fetch_health w br m ad)) = mo_text m"
  "x \<noteq> ''healthGrid'' \<Longrightarrow> mo_html (fst (fetch_health w br m ad)) x = mo_html m x"
  "mo_online (fst (fetch_cache w br m ad)) = mo_online m" "mo_html (fst (fetch_cache w br m ad)) = mo_html m"
  "x \<notin> {''cacheItems'', ''cacheMemory'', ''cacheHits'', ''cacheHitRate''} \<Longrightarrow>
     mo_text (fst (fetch_cache w br m ad)) x = mo_text m x"
  "mo_online (fst (fetch_request_log w br clock m ad)) = mo_online m"
  "x \<noteq> ''requestLog'' \<Longrightarrow> mo_html (fst (fetch_request_log w br clock m ad)) x = mo_html m x"
  "x \<noteq> ''requestCount'' \<Longrightarrow> mo_text (fst (fetch_request_log w br clock m ad)) x = mo_text m x"
  by (auto simp: fetch_health_def fetch_cache_def fetch_request_log_def read_from_def mo_set_text_def mo_set_html_def
    split: prod.split res.split)

lemma parts_keep_admin:
  assumes "monitor_addresses br"
  shows "snd (fetch_health w br m ad) = ad" "snd (fetch_cache w br m ad) = ad"
    "snd (fetch_request_log w br clock m ad) = ad"
proof -
  have "snd (fetch_json w br ''/api/health'' ad) = ad" "snd (fetch_json w br ''/api/cache'' ad) = ad"
    "snd (fetch_json w br ''/api/stats/requests?limit=20'' ad) = ad"
    using assms by (auto simp: monitor_addresses_def monitor_routes intro!: fetch_json_reads)
  then show "snd (fetch_health w br m ad) = ad" "snd (fetch_cache w br m ad) = ad"
    "snd (fetch_request_log w br clock m ad) = ad"
    by (simp_all add: fetch_health_def fetch_cache_def fetch_request_log_def case_prod_beta)
qed

text \<open>
  What the line of a server is to say. (The provider is guessed from the name.)
\<close>

definition server_shown :: "server_stats \<Rightarrow> string list \<Rightarrow> bool" where
  "server_shown s cells = (case cells of [server, provider, hostgroup, requests, errors, latency] \<Rightarrow>
         server = sst_name s \<and> provider = get_provider_name (sst_name s) \<and> hostgroup = itoa (sst_hostgroup s)
         \<and> shows_number requests (of_int (sst_total_reqs s)) \<and> errors = itoa (sst_errors s)
         \<and> shows_latency latency (of_int (sst_avg_latency s))
     | _ \<Rightarrow> False)"

lemma latency_display_shows [simp]: "shows_latency (latency_display l) l"
proof (cases "500000 \<le> l")
  case True
  then have "1 \<le> math_round (l / 1000000)" by (simp add: math_round_def le_floor_iff)
  moreover have "\<bar>of_int (math_round (l / 1000000)) - l / 1000000\<bar> \<le> 1 / 2" unfolding math_round_def by linarith
  ultimately show ?thesis using True by (simp add: shows_latency_def latency_display_def Let_def)
next
  case False
  then have "math_round (l / 1000000) < 1" by (simp add: math_round_def floor_less_iff)
  with False show ?thesis by (simp add: shows_latency_def latency_display_def Let_def)
qed

lemma success_rate_shows [simp]: "shows_success (success_rate reqs errors) reqs errors"
proof -
  obtain v where "read_unit ''%'' (percent 1 ((reqs - errors) / reqs)) = Some v"
    "\<bar>v - 100 * ((reqs - errors) / reqs)\<bar> \<le> 1 / 20" using percent_shows by blast
  then show ?thesis by (simp add: shows_success_def success_rate_def)
qed

lemma monitor_cells_shown: "server_shown s (monitor_cells fl s)"
  by (simp add: server_shown_def monitor_cells_def)

text \<open>Two servers, of which the first has been used.\<close>

definition demo_used :: balancer where
  "demo_used = demo_balancer\<lparr>bl_heap := (bl_heap demo_balancer)[0 := (bl_heap demo_balancer ! 0)
     \<lparr>ss_total_reqs := 2049, ss_errors := 41, ss_avg_latency := 812600000\<rparr>]\<rparr>"

definition demo_stats :: "server_stats list" where
  "demo_stats = [\<lparr>sst_name = ''a'', sst_hostgroup = 0, sst_weight = 1, sst_connections = 0,
     sst_total_reqs = 2049, sst_errors = 41, sst_avg_latency = 812600000\<rparr>,
   \<lparr>sst_name = ''b'', sst_hostgroup = 0, sst_weight = 2, sst_connections = 0,
     sst_total_reqs = 0, sst_errors = 0, sst_avg_latency = 0\<rparr>]"

text \<open>
  C27: The monitoring page shows the counters of the balancer, needs no session and changes
  nothing. After a refresh the total reads as the sum of the servers' requests (exactly below
  a thousand, then to the nearest hundred, from a million to the nearest hundred thousand),
  the success rate as the percentage of those requests that were no errors, to a tenth (a dash
  without requests), and the table has one line per server with its name (whatever characters
  it holds, and without a tag of its own), hostgroup, requests, errors and latency to the
  millisecond (a dash below half of one); the state of the server is as before.
\<close>

theorem monitoring_shows_counters:
  fixes m :: monitor and ad :: admin and w :: "'z http_world_scheme" and clock :: "string \<Rightarrow> string" and now_text :: string
  assumes "monitor_addresses br"
  defines "ss \<equiv> bst_server_stats (balancer_stats_of (wo_server_names w) (ad_balancer ad))"
    and "m' \<equiv> fst (refresh_all w br clock now_text m ad)"
  shows "snd (refresh_all w br clock now_text m ad) = ad \<and> mo_online m'
   \<and> shows_number (mo_text m' ''totalRequests'') (of_int (sum_list (map sst_total_reqs ss)))
   \<and> shows_success (mo_text m' ''successRate'')
       (of_int (sum_list (map sst_total_reqs ss))) (of_int (sum_list (map sst_errors ss)))
   \<and> (let t = read_table (mo_html m' ''serversList'')
       in if ss = [] then t = [[''No servers configured'']] else list_all2 server_shown ss t)
   \<and> tag_names (mo_html m' ''serversList'')
       = (if ss = [] then [''tr'', ''td'', ''/td'', ''/tr''] else concat (replicate (length ss) monitor_tags))"
proof -
  let ?m = "stats_shown br (stats_json (balancer_stats_of (wo_server_names w) (ad_balancer ad))) m"
  let ?parts = "fst (fetch_request_log w br clock (fst (fetch_cache w br (fst (fetch_health w br ?m ad)) ad)) ad)"
  have r: "refresh_all w br clock now_text m ad = (mo_set_text ''lastUpdated'' now_text ?parts, ad)"
    by (simp add: refresh_all_def fetch_stats_answer [OF assms(1)] parts_keep_admin [OF assms(1)] Let_def case_prod_beta)
  show ?thesis
    unfolding m'_def r fst_conv snd_conv
    by (simp add: mo_set_text_def other_elements stats_shown_counters render_servers_reads ss_def
      list_all2_conv_all_nth monitor_cells_shown)
qed

theorem monitoring_shows_counters_witness:
  "let m = fst (refresh_all (demo_web\<lparr>wo_server_names := [''a'', ''b'']\<rparr>) demo_browser id ''12:00''
       \<lparr>mo_text = (\<lambda>_. []), mo_html = (\<lambda>_. []), mo_online = False, mo_total_reqs = 0, mo_total_errors = 0\<rparr>
       (demo_admin []\<lparr>ad_balancer := demo_used\<rparr>))
   in shows_number (mo_text m ''totalRequests'') 2049 \<and> shows_success (mo_text m ''successRate'') 2049 41
    \<and> list_all2 server_shown demo_stats (read_table (mo_html m ''serversList''))"
proof -
  have a: "monitor_addresses demo_browser" by (simp add: monitor_addresses_def demo_browser_def)
  have s: "bst_server_stats (balancer_stats_of [''a'', ''b''] demo_used) = demo_stats"
    by (simp add: balancer_stats_of_def get_all_server_states_def server_stats_of_def demo_balancer_simps demo_used_def
      demo_stats_def Let_def List.map_filter_simps)
  have n: "demo_stats \<noteq> []" "sum_list (map sst_total_reqs demo_stats) = 2049" "sum_list (map sst_errors demo_stats) = 41"
    by (simp_all add: demo_stats_def)
  show ?thesis
    using monitoring_shows_counters [OF a, where w = "demo_web\<lparr>wo_server_names := [''a'', ''b'']\<rparr>"
        and ad = "demo_admin []\<lparr>ad_balancer := demo_used\<rparr>" and clock = id and now_text = "''12:00''"
        and m = "\<lparr>mo_text = (\<lambda>_. []), mo_html = (\<lambda>_. []), mo_online = False, mo_total_reqs = 0, mo_total_errors = 0\<rparr>"]
    by (simp add: s n Let_def)
qed

text \<open>The verdict of the page is not that of the health checker: one error is for ever.\<close>

lemma one_error_is_for_ever:
  assumes "0 < sst_errors s" and "0 < sst_total_reqs s"
  shows "\<exists>b. monitor_row fl (server_stats_json s) = ''<tr><td><div class=\"server-cell\">'' @ health_dot False @ b"
proof -
  have "sst_errors s \<noteq> 0" "sst_total_reqs s \<noteq> 0" using assms by simp_all
  then show ?thesis by (simp add: monitor_row_def Let_def)
qed

lemma azure_shown_as_openai: "get_provider_name ''azure-openai'' = ''OpenAI''"
  by code_simp

end
