(* ===== verification/Spec2Isabelle.thy ===== *)
theory Spec2Isabelle
  imports Circuit Balancer Cache Dedup RateLimit Retry Router Metrics Console MysqlServer SystemFacts
    PanelFacts Monitoring
begin

text \<open>
  MindBalancer: a proxy and load balancer for providers of language models, written in Go.

  Clients speak the OpenAI HTTP API to the proxy. It limits them, answers from a response
  cache, chooses a hostgroup by routing rules and in it a server by a balancer that asks
  health checks and circuit breakers, calls the provider of that server through an adapter,
  retries, and relays the answer. An operator configures it over HTTP and over the MySQL
  protocol, for which \<open>mindsql\<close> is the client. The configuration is stored in SQLite.

  \<^bold>\<open>The theories and the code\<close>

  \<^item> \<open>Prelude\<close>: results of fallible functions, 64-bit integers with their wrap-around, instants,
    byte strings, runes, decimal numbers, and the locales \<open>machine\<close> and \<open>simulation\<close>.
  \<^item> \<open>Circuit\<close> (\<open>internal/circuit\<close>): \<open>Breaker\<close> and \<open>Manager\<close>, with an abstract breaker that they
    refine.
  \<^item> \<open>Crypto\<close> (\<open>internal/crypto\<close>): encryption, masking and rotation of API keys.
  \<^item> \<open>Storage\<close> (\<open>internal/storage\<close>): the tables and every operation on them.
  \<^item> \<open>Health\<close> (\<open>internal/health\<close>): probes, the status table and its marks.
  \<^item> \<open>Balancer\<close> (\<open>internal/balancer\<close>): server states as cells of a heap, for a reload keeps
    pointers, the four algorithms, selection, release, reload.
  \<^item> \<open>RateLimit\<close>, \<open>Retry\<close>, \<open>Router\<close>, \<open>Config\<close>, \<open>Metrics\<close>, \<open>Pool\<close>: the packages of those names.
  \<^item> \<open>Cache\<close> and \<open>Dedup\<close> (\<open>internal/cache\<close>): the sharded cache, refining a list in order of use,
    and the deduplication of concurrent calls as a relation of interleaved steps.
  \<^item> \<open>OpenAI\<close> (\<open>api/openai\<close>) and \<open>Provider\<close> (\<open>internal/provider\<close>): the types of the API and the
    six adapters. \<open>Referee\<close> (\<open>internal/referee\<close>): many models answer, one concludes.
  \<^item> \<open>Proxy\<close> (\<open>internal/proxy\<close>): every handler of the proxy, composed of the parts above;
    \<open>ProxyFacts\<close>: what holds of them.
  \<^item> \<open>Protocol\<close> and \<open>MysqlServer\<close> (\<open>pkg/protocol\<close>): packets, handshake, result sets and command
    loop of a connection; the goroutines of the server between \<open>Start\<close> and \<open>Stop\<close>.
  \<^item> \<open>Auth\<close>, \<open>Admin\<close>, \<open>AdminHttp\<close> (\<open>internal/admin\<close>): sessions and credentials, the commands of
    \<open>Execute\<close>, the HTTP handlers with the routing table.
  \<^item> \<open>Html\<close>, \<open>AdminJson\<close>, \<open>Tables\<close>, \<open>Panel\<close>, \<open>PanelFacts\<close>, \<open>Monitoring\<close>: the scripts of the web pages
    (\<open>internal/admin/admin_panel.go\<close>, \<open>monitoring.go\<close>), one function per JavaScript function:
    escaping and formatting with a reader of HTML, the JSON that the handlers write and read,
    the tables that the panel renders, its forms and buttons on a record of the document, what
    they do to the server, and the public monitoring page.
  \<^item> \<open>Mindsql\<close> (\<open>cmd/mindsql\<close>): the client; \<open>Console\<close>: client, protocol and commands in one.
  \<^item> \<open>Frames\<close>, \<open>System\<close>, \<open>SystemFacts\<close> (\<open>cmd/mindbalancer\<close>): what each operation leaves alone, the
    construction of the program, its events and runs, and what holds in every reachable state.

  Each theory has the state of a component as a record with the fields of the Go struct, its
  operations as functions named after the Go functions, and its lemmas. Where several
  goroutines work on one state, an operation under a lock is one step, and the steps
  interleave in any order. So a handler of the proxy is a function, and also a chain of small
  steps (\<open>small_step\<close>), one for each operation it calls; in the running program a request
  arrives on an accepted connection, works in these steps, between which everything else may
  happen, reloads included, and leaves.

  \<^bold>\<open>Conventions\<close>

  \<^item> \<open>int\<close>, \<open>int64\<close> and \<open>time.Duration\<close> are integers, with \<open>wrap64\<close> at every addition that may
    leave 64 bits; the counters of the balancer are words. A \<open>float64\<close> is an exact rational.
  \<^item> An operation takes one reading of the clock for each lock it holds.
  \<^item> A Go string is a list of bytes; case and space are those of ASCII.
  \<^item> The order in which Go ranges over a map is an argument, or the map is a list in that order.
  \<^item> Errors are values of \<open>res\<close> or of a sum, panics included; what \<open>net/http\<close> recovers is an
    aborted answer, what it does not ends the process.
  \<^item> Code outside the repository is an argument: the network and its answers, JSON, regular
    expressions, \<open>sort.Slice\<close>, gzip, bcrypt, SHA, AES-GCM, random bytes, the database driver and
    the line editor; of a browser the cookies, the URL parser, \<open>JSON.stringify\<close>, the answer to
    \<open>confirm\<close>, the printing of fractions and the rounding of integers beyond \<open>2 ^ 53\<close>. What is
    relied on is a named law (\<open>gzip_law\<close>, \<open>sha1_law\<close>, \<open>intn_law\<close>, \<open>env_ok\<close>,
    \<open>decodes\<close>), with an instance in the witnesses.
  \<^item> No loop has fuel: all recursion is total, by structure or by a measure (input left, entries
    left, attempts left). The only bounds are fewer than \<open>2 ^ 64\<close> rows and requests.

  \<^bold>\<open>Interfaces\<close>

  Locales state what one part relies on in another, and are interpreted on the model:
  \<open>machine\<close> and \<open>simulation\<close> (an invariant, and an abstract machine, along any run: breaker and cache
  shard refine one, balancer, tables, health checker and limiter keep one, and so does a
  visitor of the panel without a session), \<open>gate\<close> (asking a breaker again changes nothing: the
  balancer's filter), the store of keyed rows behind the tables, the attempts of the retry
  loop, and \<open>proxy_steps\<close> (a relation that every small step of a request respects; once for what a
  request leaves alone and once for the metrics it reports).

  \<^bold>\<open>What the lemmas show\<close>

  \<^item> Components: the breaker and the cache shard refine their specifications; weighted round robin
    is exactly fair; a selected server is a right one, by the state at the start; the limiter's
    minute; the retry contract; keys encrypt and decrypt; statements, packets, result sets, frames
    and stored values read back; evictions end, having taken the least recently used entries
    and no more than needed; pooled clients are one per timeout; the connection counters are
    selections less releases since the last reload, whatever is interleaved.
  \<^item> Requests: a request that nothing interrupts gives its connection back, keeps API keys in headers, converts messages
    without loss, is answered once when duplicated; and the cases where it does not: a retry that
    finds no server, a panic under deduplication, the status of a failed provider.
  \<^item> Administration: who may do what without a session, the login, who may use the MySQL
    protocol, what the operator sees, how the server stops.
  \<^item> The web pages: a reader of HTML finds in the rendered tables the stored rows, no tag of a
    stored value, and buttons that act on their row, and a reader of figures the stored numbers
    up to the rounding they are shown with; what is typed into a form is stored; what
    editing loses, which operations can never succeed, what the overview needs; the panel needs
    the login, the monitoring page none.
  \<^item> The running program: well formed in every reachable state, reloads, settings that are fixed
    at the start, accepted metrics, and the shutdown: what its drain loop and the end of the
    MySQL server wait for and what they do not.

  \<^bold>\<open>Not modelled\<close>

  The static markup and style sheets of the pages in \<open>admin_panel.go\<close> and \<open>monitoring.go\<close> (of the
  forms only the ids, kinds and options of the inputs) and the login page of \<open>auth.go\<close>,
  constants that nothing computes with; the hostgroup sizes in the JSON of the statistics,
  which no script reads; CORS and security headers; log lines, flag parsing and listening
  sockets; the exposition of the Prometheus client; the loops that only wait for a ticker
  (their bodies are events of the running program).
\<close>

end
